(* ===== verification/Fasm_Prelude.thy ===== *)
theory Fasm_Prelude
  imports Main "HOL-Library.Word"
begin

text \<open>
  Shared vocabulary of the development: the machine-integer types of the Rust sources, the
  collections of facts the component theories add to, and generic facts on lists and
  association lists.

  Rust's \<open>u8\<close> and \<open>i8\<close> are both modelled as \<open>8 word\<close> (and so on for the other widths): the
  constructor that carries the word (\<open>VInt8\<close> or \<open>VUint8\<close>) says how it is read, with \<open>sint\<close> or
  \<open>unat\<close>.  An \<open>as\<close> cast from an unsigned type is \<open>ucast\<close>, from a signed type \<open>scast\<close>; both
  truncate when the target is narrower, as in Rust.  Wrapping arithmetic is the arithmetic of
  the release profile the workspace builds with (\<open>Cargo.toml\<close> sets no overflow checks).
\<close>

unbundle bit_operations_syntax

type_synonym u8 = "8 word"
type_synonym u16 = "16 word"
type_synonym u32 = "32 word"
type_synonym u64 = "64 word"
type_synonym i8 = "8 word"
type_synonym i16 = "16 word"
type_synonym i32 = "32 word"
type_synonym i64 = "64 word"

text \<open>A Rust \<open>String\<close> is its UTF-8 bytes.\<close>

type_synonym bytes = "u8 list"

named_theorems wire_simps \<open>facts that evaluate the binary encoder and decoder\<close>
named_theorems vm_simps \<open>facts that evaluate the machine's state-and-error monad\<close>
named_theorems vm_inv \<open>preservation of the machine invariant\<close>
named_theorems vm_frame \<open>what a machine operation leaves unchanged\<close>

subsection \<open>Lists\<close>

lemma list_all_update [intro]:
  "list_all P xs \<Longrightarrow> P x \<Longrightarrow> list_all P (xs[i := x])"
  by (auto simp: list_all_iff dest!: set_update_subset_insert [THEN subsetD])

lemma list_all_butlast [intro]: "list_all P xs \<Longrightarrow> list_all P (butlast xs)"
  by (auto simp: list_all_iff dest: in_set_butlastD)

lemma list_all_tl [intro]: "list_all P xs \<Longrightarrow> list_all P (tl xs)"
  by (cases xs) auto

lemma list_all_take [intro]: "list_all P xs \<Longrightarrow> list_all P (take n xs)"
  by (auto simp: list_all_iff dest: in_set_takeD)

lemma list_all_drop [intro]: "list_all P xs \<Longrightarrow> list_all P (drop n xs)"
  by (auto simp: list_all_iff dest: in_set_dropD)

lemma list_all_filter [intro]: "list_all P xs \<Longrightarrow> list_all P (filter Q xs)"
  by (auto simp: list_all_iff)

lemma list_all_hd: "list_all P xs \<Longrightarrow> xs \<noteq> [] \<Longrightarrow> P (hd xs)"
  by (cases xs) auto

lemma list_all_last: "list_all P xs \<Longrightarrow> xs \<noteq> [] \<Longrightarrow> P (last xs)"
  by (auto simp: list_all_iff)

lemma list_all_nth: "list_all P xs \<Longrightarrow> i < length xs \<Longrightarrow> P (xs ! i)"
  by (simp add: list_all_length)

subsection \<open>Fallible lookups\<close>

text \<open>Rust's \<open>slice.get(i)\<close>.\<close>

definition nth_opt :: "'a list \<Rightarrow> nat \<Rightarrow> 'a option" where
  "nth_opt xs i = (if i < length xs then Some (xs ! i) else None)"

lemma nth_opt_Some [simp]: "nth_opt xs i = Some x \<longleftrightarrow> i < length xs \<and> xs ! i = x"
  by (simp add: nth_opt_def)

lemma nth_opt_None [simp]: "nth_opt xs i = None \<longleftrightarrow> length xs \<le> i"
  by (auto simp: nth_opt_def)

lemma nth_opt_simps [simp]:
  "nth_opt [] i = None"
  "nth_opt (x # xs) 0 = Some x"
  "nth_opt (x # xs) (Suc i) = nth_opt xs i"
  by (simp_all add: nth_opt_def)

lemma nth_opt_numeral [simp]:
  "nth_opt (x # xs) (numeral k) = nth_opt xs (pred_numeral k)"
  by (simp add: numeral_eq_Suc)

text \<open>Rust's \<open>Vec::resize\<close> towards a larger length (it never shrinks here).\<close>

definition resize_to :: "nat \<Rightarrow> 'a \<Rightarrow> 'a list \<Rightarrow> 'a list" where
  "resize_to n x xs = xs @ replicate (n - length xs) x"

lemma length_resize_to [simp]: "length (resize_to n x xs) = max n (length xs)"
  by (simp add: resize_to_def)

lemma nth_resize_to:
  "i < max n (length xs) \<Longrightarrow> resize_to n x xs ! i = (if i < length xs then xs ! i else x)"
  by (auto simp: resize_to_def nth_append)

lemma list_all_resize_to [intro]: "list_all P xs \<Longrightarrow> P x \<Longrightarrow> list_all P (resize_to n x xs)"
  by (auto simp: resize_to_def list_all_iff)

subsection \<open>Words\<close>

lemma unat_lt_256: "unat (w :: 8 word) < 256"
  using unsigned_less [of w] by simp

lemma unat_ucast_up:
  "LENGTH('a::len) \<le> LENGTH('b::len) \<Longrightarrow> unat (ucast (w :: 'a word) :: 'b word) = unat w"
  by (simp add: unsigned_ucast_eq take_bit_nat_eq_self unsigned_less order_less_le_trans [OF unsigned_less] power_increasing)

end
