(* ===== verification/Fasm_Bytecode.thy ===== *)
theory Fasm_Bytecode
  imports Fasm_Prelude
begin

text \<open>
  The instruction model of \<open>crates/fasm-bytecode\<close>: opcodes (\<open>opcode.rs\<close>), types (\<open>types.rs\<close>),
  operands and instructions (\<open>instruction.rs\<close>) and programs (\<open>program.rs\<close>).  Constructors carry
  a prefix (\<open>Op\<close>, \<open>Ty\<close>, \<open>Sl\<close>, \<open>Im\<close>, \<open>Bi\<close>, \<open>Opd\<close>) because the source reuses one name in several
  enums.  A float immediate is its IEEE-754 bit pattern, a string its UTF-8 bytes.
\<close>

subsection \<open>Opcodes\<close>

text \<open>
  \<open>opcode.rs\<close>: the enum's 90 constants, its discriminants, and the table of \<open>TryFrom<u8>\<close>.  The
  constants are grouped by the sections in which the executor's dispatch handles them, one small
  datatype per section, so that each section's semantics is a function of its own datatype.
\<close>

datatype mem_op =
  OpTmpBlock | OpEndTmp | OpReserve | OpRelease

datatype move_op =
  OpMov | OpStore | OpAddr

datatype arith_op =
  OpAdd | OpSub | OpMul | OpDiv | OpMod | OpNeg

datatype cmp_op =
  OpEq | OpNeq | OpLt | OpLte | OpGt | OpGte

datatype bitwise_op =
  OpAnd | OpOr | OpXor | OpNot | OpShl | OpShr

datatype flow_op =
  OpNop | OpHalt | OpJmp | OpJz | OpJnz | OpCall | OpAsyncCall | OpTailCall | OpRet | OpAwait

datatype sys_op =
  OpSyscall | OpAsyncSyscall

datatype coll_op =
  OpPush | OpPop | OpEnqueue | OpDequeue | OpPeek | OpGetIdx | OpSetIdx | OpGetField |
  OpSetField | OpHasField | OpDelField | OpLen

datatype wrap_op =
  OpSome | OpIsSome | OpUnwrap | OpOk | OpErr | OpIsOk | OpUnwrapOk | OpUnwrapErr

datatype try_op =
  OpTry | OpCatch | OpEndTry

datatype deque_op =
  OpPrepend | OpPopBack | OpPeekBack

datatype vec_op =
  OpVecSort | OpVecFilter | OpVecMerge | OpVecSlice

datatype sparse_op =
  OpSparseGet | OpSparseSet | OpSparseDel | OpSparseHas

datatype btree_op =
  OpBTreeGet | OpBTreeSet | OpBTreeDel | OpBTreeHas | OpBTreeMin | OpBTreeMax

datatype bitset_op =
  OpBitSet | OpBitClr | OpBitGet | OpBitFlip | OpBitCount | OpBitAnd | OpBitOr | OpBitXor |
  OpBitGrow

datatype bitvec_op =
  OpBitvecRead | OpBitvecWrite | OpBitvecPush

datatype opcode =
  OMem mem_op | OMove move_op | OArith arith_op | OCmp cmp_op | OBitwise bitwise_op |
  OFlow flow_op | OSys sys_op | OColl coll_op | OWrap wrap_op | OTry try_op | ODeque deque_op |
  OVec vec_op | OSparse sparse_op | OBTree btree_op | OBitset bitset_op | OBitvec bitvec_op |
  OCast

primrec mem_op_byte :: "mem_op \<Rightarrow> u8" where
  "mem_op_byte OpTmpBlock = 0x48"
| "mem_op_byte OpEndTmp = 0x49"
| "mem_op_byte OpReserve = 0x01"
| "mem_op_byte OpRelease = 0x02"

primrec move_op_byte :: "move_op \<Rightarrow> u8" where
  "move_op_byte OpMov = 0x03"
| "move_op_byte OpStore = 0x04"
| "move_op_byte OpAddr = 0x05"

primrec arith_op_byte :: "arith_op \<Rightarrow> u8" where
  "arith_op_byte OpAdd = 0x10"
| "arith_op_byte OpSub = 0x11"
| "arith_op_byte OpMul = 0x12"
| "arith_op_byte OpDiv = 0x13"
| "arith_op_byte OpMod = 0x14"
| "arith_op_byte OpNeg = 0x15"

primrec cmp_op_byte :: "cmp_op \<Rightarrow> u8" where
  "cmp_op_byte OpEq = 0x20"
| "cmp_op_byte OpNeq = 0x21"
| "cmp_op_byte OpLt = 0x22"
| "cmp_op_byte OpLte = 0x23"
| "cmp_op_byte OpGt = 0x24"
| "cmp_op_byte OpGte = 0x25"

primrec bitwise_op_byte :: "bitwise_op \<Rightarrow> u8" where
  "bitwise_op_byte OpAnd = 0x30"
| "bitwise_op_byte OpOr = 0x31"
| "bitwise_op_byte OpXor = 0x32"
| "bitwise_op_byte OpNot = 0x33"
| "bitwise_op_byte OpShl = 0x34"
| "bitwise_op_byte OpShr = 0x35"

primrec flow_op_byte :: "flow_op \<Rightarrow> u8" where
  "flow_op_byte OpNop = 0x00"
| "flow_op_byte OpHalt = 0xFF"
| "flow_op_byte OpJmp = 0x40"
| "flow_op_byte OpJz = 0x41"
| "flow_op_byte OpJnz = 0x42"
| "flow_op_byte OpCall = 0x43"
| "flow_op_byte OpAsyncCall = 0x44"
| "flow_op_byte OpTailCall = 0x47"
| "flow_op_byte OpRet = 0x45"
| "flow_op_byte OpAwait = 0x46"

primrec sys_op_byte :: "sys_op \<Rightarrow> u8" where
  "sys_op_byte OpSyscall = 0x50"
| "sys_op_byte OpAsyncSyscall = 0x51"

primrec coll_op_byte :: "coll_op \<Rightarrow> u8" where
  "coll_op_byte OpPush = 0x60"
| "coll_op_byte OpPop = 0x61"
| "coll_op_byte OpEnqueue = 0x62"
| "coll_op_byte OpDequeue = 0x63"
| "coll_op_byte OpPeek = 0x64"
| "coll_op_byte OpGetIdx = 0x65"
| "coll_op_byte OpSetIdx = 0x66"
| "coll_op_byte OpGetField = 0x67"
| "coll_op_byte OpSetField = 0x68"
| "coll_op_byte OpHasField = 0x69"
| "coll_op_byte OpDelField = 0x6A"
| "coll_op_byte OpLen = 0x6B"

primrec wrap_op_byte :: "wrap_op \<Rightarrow> u8" where
  "wrap_op_byte OpSome = 0x70"
| "wrap_op_byte OpIsSome = 0x71"
| "wrap_op_byte OpUnwrap = 0x72"
| "wrap_op_byte OpOk = 0x73"
| "wrap_op_byte OpErr = 0x74"
| "wrap_op_byte OpIsOk = 0x75"
| "wrap_op_byte OpUnwrapOk = 0x76"
| "wrap_op_byte OpUnwrapErr = 0x77"

primrec try_op_byte :: "try_op \<Rightarrow> u8" where
  "try_op_byte OpTry = 0x90"
| "try_op_byte OpCatch = 0x91"
| "try_op_byte OpEndTry = 0x92"

primrec deque_op_byte :: "deque_op \<Rightarrow> u8" where
  "deque_op_byte OpPrepend = 0x6C"
| "deque_op_byte OpPopBack = 0x6D"
| "deque_op_byte OpPeekBack = 0x6E"

primrec vec_op_byte :: "vec_op \<Rightarrow> u8" where
  "vec_op_byte OpVecSort = 0xA0"
| "vec_op_byte OpVecFilter = 0xA1"
| "vec_op_byte OpVecMerge = 0xA2"
| "vec_op_byte OpVecSlice = 0xA3"

primrec sparse_op_byte :: "sparse_op \<Rightarrow> u8" where
  "sparse_op_byte OpSparseGet = 0xA4"
| "sparse_op_byte OpSparseSet = 0xA5"
| "sparse_op_byte OpSparseDel = 0xA6"
| "sparse_op_byte OpSparseHas = 0xA7"

primrec btree_op_byte :: "btree_op \<Rightarrow> u8" where
  "btree_op_byte OpBTreeGet = 0xA8"
| "btree_op_byte OpBTreeSet = 0xA9"
| "btree_op_byte OpBTreeDel = 0xAA"
| "btree_op_byte OpBTreeHas = 0xAB"
| "btree_op_byte OpBTreeMin = 0xAC"
| "btree_op_byte OpBTreeMax = 0xAD"

primrec bitset_op_byte :: "bitset_op \<Rightarrow> u8" where
  "bitset_op_byte OpBitSet = 0xB0"
| "bitset_op_byte OpBitClr = 0xB1"
| "bitset_op_byte OpBitGet = 0xB2"
| "bitset_op_byte OpBitFlip = 0xB3"
| "bitset_op_byte OpBitCount = 0xB4"
| "bitset_op_byte OpBitAnd = 0xB5"
| "bitset_op_byte OpBitOr = 0xB6"
| "bitset_op_byte OpBitXor = 0xB7"
| "bitset_op_byte OpBitGrow = 0xB8"

primrec bitvec_op_byte :: "bitvec_op \<Rightarrow> u8" where
  "bitvec_op_byte OpBitvecRead = 0xC0"
| "bitvec_op_byte OpBitvecWrite = 0xC1"
| "bitvec_op_byte OpBitvecPush = 0xC2"

primrec opcode_byte :: "opcode \<Rightarrow> u8" where
  "opcode_byte (OMem x) = mem_op_byte x"
| "opcode_byte (OMove x) = move_op_byte x"
| "opcode_byte (OArith x) = arith_op_byte x"
| "opcode_byte (OCmp x) = cmp_op_byte x"
| "opcode_byte (OBitwise x) = bitwise_op_byte x"
| "opcode_byte (OFlow x) = flow_op_byte x"
| "opcode_byte (OSys x) = sys_op_byte x"
| "opcode_byte (OColl x) = coll_op_byte x"
| "opcode_byte (OWrap x) = wrap_op_byte x"
| "opcode_byte (OTry x) = try_op_byte x"
| "opcode_byte (ODeque x) = deque_op_byte x"
| "opcode_byte (OVec x) = vec_op_byte x"
| "opcode_byte (OSparse x) = sparse_op_byte x"
| "opcode_byte (OBTree x) = btree_op_byte x"
| "opcode_byte (OBitset x) = bitset_op_byte x"
| "opcode_byte (OBitvec x) = bitvec_op_byte x"
| "opcode_byte OCast = 0x80"

definition opcode_table :: "(u8 \<times> opcode) list" where
  "opcode_table =
    [(0x00, OFlow OpNop), (0x01, OMem OpReserve), (0x02, OMem OpRelease), (0x03, OMove OpMov),
     (0x04, OMove OpStore), (0x05, OMove OpAddr), (0x10, OArith OpAdd), (0x11, OArith OpSub),
     (0x12, OArith OpMul), (0x13, OArith OpDiv), (0x14, OArith OpMod), (0x15, OArith OpNeg),
     (0x20, OCmp OpEq), (0x21, OCmp OpNeq), (0x22, OCmp OpLt), (0x23, OCmp OpLte),
     (0x24, OCmp OpGt), (0x25, OCmp OpGte), (0x30, OBitwise OpAnd), (0x31, OBitwise OpOr),
     (0x32, OBitwise OpXor), (0x33, OBitwise OpNot), (0x34, OBitwise OpShl),
     (0x35, OBitwise OpShr), (0x40, OFlow OpJmp), (0x41, OFlow OpJz), (0x42, OFlow OpJnz),
     (0x43, OFlow OpCall), (0x44, OFlow OpAsyncCall), (0x45, OFlow OpRet),
     (0x46, OFlow OpAwait), (0x47, OFlow OpTailCall), (0x48, OMem OpTmpBlock),
     (0x49, OMem OpEndTmp), (0x50, OSys OpSyscall), (0x51, OSys OpAsyncSyscall),
     (0x60, OColl OpPush), (0x61, OColl OpPop), (0x62, OColl OpEnqueue),
     (0x63, OColl OpDequeue), (0x64, OColl OpPeek), (0x65, OColl OpGetIdx),
     (0x66, OColl OpSetIdx), (0x67, OColl OpGetField), (0x68, OColl OpSetField),
     (0x69, OColl OpHasField), (0x6A, OColl OpDelField), (0x6B, OColl OpLen),
     (0x6C, ODeque OpPrepend), (0x6D, ODeque OpPopBack), (0x6E, ODeque OpPeekBack),
     (0x70, OWrap OpSome), (0x71, OWrap OpIsSome), (0x72, OWrap OpUnwrap), (0x73, OWrap OpOk),
     (0x74, OWrap OpErr), (0x75, OWrap OpIsOk), (0x76, OWrap OpUnwrapOk),
     (0x77, OWrap OpUnwrapErr), (0x80, OCast), (0x90, OTry OpTry), (0x91, OTry OpCatch),
     (0x92, OTry OpEndTry), (0xA0, OVec OpVecSort), (0xA1, OVec OpVecFilter),
     (0xA2, OVec OpVecMerge), (0xA3, OVec OpVecSlice), (0xA4, OSparse OpSparseGet),
     (0xA5, OSparse OpSparseSet), (0xA6, OSparse OpSparseDel), (0xA7, OSparse OpSparseHas),
     (0xA8, OBTree OpBTreeGet), (0xA9, OBTree OpBTreeSet), (0xAA, OBTree OpBTreeDel),
     (0xAB, OBTree OpBTreeHas), (0xAC, OBTree OpBTreeMin), (0xAD, OBTree OpBTreeMax),
     (0xB0, OBitset OpBitSet), (0xB1, OBitset OpBitClr), (0xB2, OBitset OpBitGet),
     (0xB3, OBitset OpBitFlip), (0xB4, OBitset OpBitCount), (0xB5, OBitset OpBitAnd),
     (0xB6, OBitset OpBitOr), (0xB7, OBitset OpBitXor), (0xB8, OBitset OpBitGrow),
     (0xC0, OBitvec OpBitvecRead), (0xC1, OBitvec OpBitvecWrite), (0xC2, OBitvec OpBitvecPush),
     (0xFF, OFlow OpHalt)]"

definition opcode_try_from :: "u8 \<Rightarrow> opcode option" where
  "opcode_try_from b = map_of opcode_table b"

text \<open>Opcodes are ordered by their byte, as the source's table is.\<close>

lemma opcode_table_distinct: "distinct (map fst opcode_table)"
  by code_simp

lemma opcode_table_complete: "(opcode_byte op, op) \<in> set opcode_table"
proof (cases op)
  case (OMem x)
  then show ?thesis by (cases x) (simp_all add: opcode_table_def)
next
  case (OMove x)
  then show ?thesis by (cases x) (simp_all add: opcode_table_def)
next
  case (OArith x)
  then show ?thesis by (cases x) (simp_all add: opcode_table_def)
next
  case (OCmp x)
  then show ?thesis by (cases x) (simp_all add: opcode_table_def)
next
  case (OBitwise x)
  then show ?thesis by (cases x) (simp_all add: opcode_table_def)
next
  case (OFlow x)
  then show ?thesis by (cases x) (simp_all add: opcode_table_def)
next
  case (OSys x)
  then show ?thesis by (cases x) (simp_all add: opcode_table_def)
next
  case (OColl x)
  then show ?thesis by (cases x) (simp_all add: opcode_table_def)
next
  case (OWrap x)
  then show ?thesis by (cases x) (simp_all add: opcode_table_def)
next
  case (OTry x)
  then show ?thesis by (cases x) (simp_all add: opcode_table_def)
next
  case (ODeque x)
  then show ?thesis by (cases x) (simp_all add: opcode_table_def)
next
  case (OVec x)
  then show ?thesis by (cases x) (simp_all add: opcode_table_def)
next
  case (OSparse x)
  then show ?thesis by (cases x) (simp_all add: opcode_table_def)
next
  case (OBTree x)
  then show ?thesis by (cases x) (simp_all add: opcode_table_def)
next
  case (OBitset x)
  then show ?thesis by (cases x) (simp_all add: opcode_table_def)
next
  case (OBitvec x)
  then show ?thesis by (cases x) (simp_all add: opcode_table_def)
next
  case OCast
  then show ?thesis by (simp add: opcode_table_def)
qed

lemma opcode_try_from_byte [simp, wire_simps]: "opcode_try_from (opcode_byte op) = Some op"
  unfolding opcode_try_from_def
  by (rule map_of_is_SomeI [OF opcode_table_distinct opcode_table_complete])

lemma opcode_byte_inject [simp]: "opcode_byte a = opcode_byte b \<longleftrightarrow> a = b"
  by (metis opcode_try_from_byte option.inject)

instantiation opcode :: linorder
begin

definition less_eq_opcode :: "opcode \<Rightarrow> opcode \<Rightarrow> bool" where
  "less_eq_opcode a b = (opcode_byte a \<le> opcode_byte b)"

definition less_opcode :: "opcode \<Rightarrow> opcode \<Rightarrow> bool" where
  "less_opcode a b = (opcode_byte a < opcode_byte b)"

instance
  by standard (auto simp: less_eq_opcode_def less_opcode_def order_less_le)

end

lemma opcode_table_bytes: "list_all (\<lambda>(b, op). opcode_byte op = b) opcode_table"
  by (simp add: opcode_table_def)

lemma opcode_byte_try_from: "opcode_try_from b = Some op \<Longrightarrow> opcode_byte op = b"
  using opcode_table_bytes by (auto simp: opcode_try_from_def list_all_iff dest!: map_of_SomeD)

lemma opcode_try_from_iff: "opcode_try_from b = Some op \<longleftrightarrow> b = opcode_byte op"
  using opcode_byte_try_from by auto

subsection \<open>Types\<close>

text \<open>\<open>types.rs\<close>.\<close>

datatype fasm_type =
  TyBool | TyInt8 | TyInt16 | TyInt32 | TyInt64 | TyUint8 | TyUint16 | TyUint32 | TyUint64 |
  TyFloat32 | TyFloat64 | TyRefMut | TyRefImm | TyVec | TyStruct | TyStack | TyQueue |
  TyHeapMin | TyHeapMax | TySparse | TyBTree | TySlice | TyDeque | TyBitset | TyBitvec |
  TyOption | TyResult | TyFuture | TyNull

primrec fasm_type_byte :: "fasm_type \<Rightarrow> u8" where
  "fasm_type_byte TyBool = 0x01"
| "fasm_type_byte TyInt8 = 0x02"
| "fasm_type_byte TyInt16 = 0x03"
| "fasm_type_byte TyInt32 = 0x04"
| "fasm_type_byte TyInt64 = 0x05"
| "fasm_type_byte TyUint8 = 0x06"
| "fasm_type_byte TyUint16 = 0x07"
| "fasm_type_byte TyUint32 = 0x08"
| "fasm_type_byte TyUint64 = 0x09"
| "fasm_type_byte TyFloat32 = 0x0A"
| "fasm_type_byte TyFloat64 = 0x0B"
| "fasm_type_byte TyRefMut = 0x10"
| "fasm_type_byte TyRefImm = 0x11"
| "fasm_type_byte TyVec = 0x20"
| "fasm_type_byte TyStruct = 0x21"
| "fasm_type_byte TyStack = 0x22"
| "fasm_type_byte TyQueue = 0x23"
| "fasm_type_byte TyHeapMin = 0x24"
| "fasm_type_byte TyHeapMax = 0x25"
| "fasm_type_byte TySparse = 0x26"
| "fasm_type_byte TyBTree = 0x27"
| "fasm_type_byte TySlice = 0x28"
| "fasm_type_byte TyDeque = 0x29"
| "fasm_type_byte TyBitset = 0x2A"
| "fasm_type_byte TyBitvec = 0x2B"
| "fasm_type_byte TyOption = 0x30"
| "fasm_type_byte TyResult = 0x31"
| "fasm_type_byte TyFuture = 0x32"
| "fasm_type_byte TyNull = 0xFF"

definition fasm_type_table :: "(u8 \<times> fasm_type) list" where
  "fasm_type_table =
    [(0x01, TyBool), (0x02, TyInt8), (0x03, TyInt16), (0x04, TyInt32), (0x05, TyInt64),
     (0x06, TyUint8), (0x07, TyUint16), (0x08, TyUint32), (0x09, TyUint64), (0x0A, TyFloat32),
     (0x0B, TyFloat64), (0x10, TyRefMut), (0x11, TyRefImm), (0x20, TyVec), (0x21, TyStruct),
     (0x22, TyStack), (0x23, TyQueue), (0x24, TyHeapMin), (0x25, TyHeapMax), (0x26, TySparse),
     (0x27, TyBTree), (0x28, TySlice), (0x29, TyDeque), (0x2A, TyBitset), (0x2B, TyBitvec),
     (0x30, TyOption), (0x31, TyResult), (0x32, TyFuture), (0xFF, TyNull)]"

definition fasm_type_try_from :: "u8 \<Rightarrow> fasm_type option" where
  "fasm_type_try_from b = map_of fasm_type_table b"

lemma fasm_type_table_distinct: "distinct (map fst fasm_type_table)"
  by code_simp

lemma fasm_type_table_complete: "(fasm_type_byte t, t) \<in> set fasm_type_table"
  by (cases t) (simp_all add: fasm_type_table_def)

lemma fasm_type_try_from_byte [simp, wire_simps]:
  "fasm_type_try_from (fasm_type_byte t) = Some t"
  unfolding fasm_type_try_from_def
  by (rule map_of_is_SomeI [OF fasm_type_table_distinct fasm_type_table_complete])

lemma fasm_type_table_bytes: "list_all (\<lambda>(b, t). fasm_type_byte t = b) fasm_type_table"
  by (simp add: fasm_type_table_def)

lemma fasm_type_byte_try_from: "fasm_type_try_from b = Some t \<Longrightarrow> fasm_type_byte t = b"
  using fasm_type_table_bytes
  by (auto simp: fasm_type_try_from_def list_all_iff dest!: map_of_SomeD)

subsection \<open>Operands and instructions\<close>

text \<open>\<open>instruction.rs\<close>.\<close>

datatype built_in = BiArgs | BiRet | BiFaultIndex | BiFaultCode

datatype slot_ref =
  SlLocal u8
| SlGlobal u16
| SlTmp u8
| SlDerefLocal u8
| SlDerefGlobal u16
| SlDerefTmp u8
| SlBuiltIn built_in

datatype immediate =
  ImBool bool
| ImInt8 i8
| ImInt16 i16
| ImInt32 i32
| ImInt64 i64
| ImUint8 u8
| ImUint16 u16
| ImUint32 u32
| ImUint64 u64
| ImFloat32 u32
| ImFloat64 u64
| ImNull
| ImStr bytes

datatype operand =
  OpdSlot slot_ref
| OpdImm immediate
| OpdFuncRef u16
| OpdLabelTarget u32
| OpdSyscallId i32
| OpdType fasm_type
| OpdKey u32
| OpdRequired bool

record instruction =
  opcode :: opcode
  operands :: "operand list"

definition instr_new :: "opcode \<Rightarrow> operand list \<Rightarrow> instruction" where
  "instr_new op ops = \<lparr>opcode = op, operands = ops\<rparr>"

definition instr_no_args :: "opcode \<Rightarrow> instruction" where
  "instr_no_args op = \<lparr>opcode = op, operands = []\<rparr>"

subsection \<open>Programs\<close>

text \<open>\<open>program.rs\<close>.\<close>

record param_descriptor =
  par_key :: u32
  par_type :: fasm_type
  par_name :: bytes
  par_required :: bool

record function_def =
  fun_name :: bytes
  fun_params :: "param_descriptor list"
  fun_instrs :: "instruction list"

record program =
  prog_version :: u8
  prog_global_inits :: "instruction list"
  prog_functions :: "function_def list"

definition program_new :: program where
  "program_new = \<lparr>prog_version = 0x01, prog_global_inits = [], prog_functions = []\<rparr>"

fun position :: "('a \<Rightarrow> bool) \<Rightarrow> 'a list \<Rightarrow> nat option" where
  "position P [] = None"
| "position P (x # xs) = (if P x then Some 0 else map_option Suc (position P xs))"

definition get_function :: "program \<Rightarrow> bytes \<Rightarrow> function_def option" where
  "get_function p name = List.find (\<lambda>f. fun_name f = name) (prog_functions p)"

definition get_function_index :: "program \<Rightarrow> bytes \<Rightarrow> nat option" where
  "get_function_index p name = position (\<lambda>f. fun_name f = name) (prog_functions p)"

lemma position_Some:
  "position P xs = Some i \<longleftrightarrow> i < length xs \<and> P (xs ! i) \<and> (\<forall>j < i. \<not> P (xs ! j))"
proof (induction xs arbitrary: i)
  case Nil
  then show ?case by simp
next
  case (Cons x xs)
  show ?case
  proof (cases i)
    case 0
    then show ?thesis by (auto split: if_splits)
  next
    case (Suc k)
    then show ?thesis using Cons.IH by (auto simp: less_Suc_eq_0_disj)
  qed
qed

lemma position_None: "position P xs = None \<longleftrightarrow> list_all (\<lambda>x. \<not> P x) xs"
  by (induction xs) auto

lemma find_position:
  "List.find P xs = map_option (nth xs) (position P xs)"
  by (induction xs) (auto simp: option.map_comp comp_def)

lemma get_function_index_in_range:
  "get_function_index p name = Some i \<Longrightarrow> i < length (prog_functions p)"
  by (simp add: get_function_index_def position_Some)

end
