(* ===== verification/Fasm_Text.thy ===== *)
theory Fasm_Text
  imports Fasm_Prelude
begin

text \<open>
  The parts of Rust's string library the sources use, on UTF-8 byte sequences: validation
  (\<open>String::from_utf8\<close>), lossy decoding (\<open>String::from_utf8_lossy\<close>), trimming of Unicode white
  space (\<open>trim\<close>, \<open>trim_end\<close>) and the decimal rendering of integers (\<open>to_string\<close>).
\<close>

subsection \<open>UTF-8 validation\<close>

definition utf8_cont :: "u8 \<Rightarrow> bool" where
  "utf8_cont b \<longleftrightarrow> 0x80 \<le> b \<and> b \<le> 0xBF"

text \<open>
  \<open>utf8_next b bs\<close> looks at the sequence \<open>b # bs\<close>: the flag says whether it starts with a
  well-formed character, the number is that character's length, or else the length of the
  maximal ill-formed prefix that the lossy decoder replaces.
\<close>

definition utf8_tail2 :: "(u8 \<Rightarrow> bool) \<Rightarrow> bytes \<Rightarrow> bool \<times> nat" where
  "utf8_tail2 ok bs = (case bs of c # _ \<Rightarrow> if ok c then (True, 2) else (False, 1) | [] \<Rightarrow> (False, 1))"

definition utf8_tail3 :: "(u8 \<Rightarrow> bool) \<Rightarrow> bytes \<Rightarrow> bool \<times> nat" where
  "utf8_tail3 ok bs =
     (case bs of
        c # d # _ \<Rightarrow> if \<not> ok c then (False, 1) else if utf8_cont d then (True, 3) else (False, 2)
      | [c] \<Rightarrow> if ok c then (False, 2) else (False, 1)
      | [] \<Rightarrow> (False, 1))"

definition utf8_tail4 :: "(u8 \<Rightarrow> bool) \<Rightarrow> bytes \<Rightarrow> bool \<times> nat" where
  "utf8_tail4 ok bs =
     (case bs of
        c # d # e # _ \<Rightarrow>
          if \<not> ok c then (False, 1) else if \<not> utf8_cont d then (False, 2)
          else if utf8_cont e then (True, 4) else (False, 3)
      | [c, d] \<Rightarrow> if \<not> ok c then (False, 1) else if utf8_cont d then (False, 3) else (False, 2)
      | [c] \<Rightarrow> if ok c then (False, 2) else (False, 1)
      | [] \<Rightarrow> (False, 1))"

definition utf8_next :: "u8 \<Rightarrow> bytes \<Rightarrow> bool \<times> nat" where
  "utf8_next b bs =
     (if b < 0x80 then (True, 1)
      else if 0xC2 \<le> b \<and> b \<le> 0xDF then utf8_tail2 utf8_cont bs
      else if b = 0xE0 then utf8_tail3 (\<lambda>c. 0xA0 \<le> c \<and> c \<le> 0xBF) bs
      else if b = 0xED then utf8_tail3 (\<lambda>c. 0x80 \<le> c \<and> c \<le> 0x9F) bs
      else if 0xE1 \<le> b \<and> b \<le> 0xEF then utf8_tail3 utf8_cont bs
      else if b = 0xF0 then utf8_tail4 (\<lambda>c. 0x90 \<le> c \<and> c \<le> 0xBF) bs
      else if b = 0xF4 then utf8_tail4 (\<lambda>c. 0x80 \<le> c \<and> c \<le> 0x8F) bs
      else if 0xF1 \<le> b \<and> b \<le> 0xF3 then utf8_tail4 utf8_cont bs
      else (False, 1))"

lemma utf8_tail_pos [simp]:
  "0 < snd (utf8_tail2 ok bs)" "0 < snd (utf8_tail3 ok bs)" "0 < snd (utf8_tail4 ok bs)"
  by (simp_all add: utf8_tail2_def utf8_tail3_def utf8_tail4_def split: list.split)

lemma utf8_next_pos: "0 < snd (utf8_next b bs)"
  unfolding utf8_next_def by (simp split del: if_split cong: if_cong add: if_distrib [of snd]) simp

lemma utf8_next_ascii [simp]: "b < 0x80 \<Longrightarrow> utf8_next b bs = (True, 1)"
  by (simp add: utf8_next_def)

function utf8_valid :: "bytes \<Rightarrow> bool" where
  "utf8_valid [] = True"
| "utf8_valid (b # bs) =
     (fst (utf8_next b bs) \<and> utf8_valid (drop (snd (utf8_next b bs) - 1) bs))"
  by pat_completeness auto
termination
  by (relation "measure length") auto

text \<open>\<open>from_utf8_lossy\<close>: every ill-formed prefix becomes U+FFFD.\<close>

function utf8_lossy :: "bytes \<Rightarrow> bytes" where
  "utf8_lossy [] = []"
| "utf8_lossy (b # bs) =
     (let (ok, n) = utf8_next b bs
      in (if ok then take n (b # bs) else [0xEF, 0xBF, 0xBD]) @ utf8_lossy (drop (n - 1) bs))"
  by pat_completeness auto
termination
  by (relation "measure length") auto

lemma utf8_lossy_valid: "utf8_valid bs \<Longrightarrow> utf8_lossy bs = bs"
proof (induction bs rule: utf8_valid.induct)
  case (2 b bs)
  obtain n where n: "utf8_next b bs = (True, n)" "0 < n"
    using "2.prems" utf8_next_pos [of b bs] by (cases "utf8_next b bs") auto
  then have "utf8_lossy (drop (n - 1) bs) = drop (n - 1) bs"
    using 2 by simp
  then show ?case
    using n by (cases n) auto
qed simp

lemma utf8_valid_ascii: "list_all (\<lambda>b. b < 0x80) bs \<Longrightarrow> utf8_valid bs"
  by (induction bs) auto

subsection \<open>White space\<close>

text \<open>The characters with Unicode's \<open>White_Space\<close> property, as UTF-8.\<close>

definition white_space :: "bytes list" where
  "white_space =
     [[0x09], [0x0A], [0x0B], [0x0C], [0x0D], [0x20], [0xC2, 0x85], [0xC2, 0xA0],
      [0xE1, 0x9A, 0x80], [0xE2, 0x80, 0x80], [0xE2, 0x80, 0x81], [0xE2, 0x80, 0x82],
      [0xE2, 0x80, 0x83], [0xE2, 0x80, 0x84], [0xE2, 0x80, 0x85], [0xE2, 0x80, 0x86],
      [0xE2, 0x80, 0x87], [0xE2, 0x80, 0x88], [0xE2, 0x80, 0x89], [0xE2, 0x80, 0x8A],
      [0xE2, 0x80, 0xA8], [0xE2, 0x80, 0xA9], [0xE2, 0x80, 0xAF], [0xE2, 0x81, 0x9F],
      [0xE3, 0x80, 0x80]]"

definition strip_first :: "bytes list \<Rightarrow> bytes \<Rightarrow> bytes option" where
  "strip_first ps bs =
     map_option (\<lambda>p. drop (length p) bs) (List.find (\<lambda>p. p \<noteq> [] \<and> take (length p) bs = p) ps)"

lemma strip_first_shorter: "strip_first ps bs = Some bs' \<Longrightarrow> length bs' < length bs"
  by (cases bs) (auto simp: strip_first_def find_Some_iff)

function strip_while :: "bytes list \<Rightarrow> bytes \<Rightarrow> bytes" where
  "strip_while ps bs = (case strip_first ps bs of None \<Rightarrow> bs | Some bs' \<Rightarrow> strip_while ps bs')"
  by pat_completeness auto
termination
  by (relation "measure (\<lambda>(ps, bs). length bs)") (auto dest: strip_first_shorter)

declare strip_while.simps [simp del]

definition trim_start :: "bytes \<Rightarrow> bytes" where
  "trim_start bs = strip_while white_space bs"

definition trim_end :: "bytes \<Rightarrow> bytes" where
  "trim_end bs = rev (strip_while (map rev white_space) (rev bs))"

definition trim :: "bytes \<Rightarrow> bytes" where
  "trim bs = trim_end (trim_start bs)"

lemma strip_while_unchanged: "strip_first ps bs = None \<Longrightarrow> strip_while ps bs = bs"
  by (subst strip_while.simps) simp

text \<open>A string whose first and last bytes are visible ASCII is left alone by \<open>trim\<close>.\<close>

lemma strip_first_visible:
  assumes "0x20 < b" "b < 0x80" and "list_all (\<lambda>p. p \<noteq> [] \<longrightarrow> hd p \<le> 0x20 \<or> 0x80 \<le> hd p) ps"
  shows "strip_first ps (b # bs) = None"
proof -
  have "\<not> (p \<noteq> [] \<and> take (length p) (b # bs) = p)" if "p \<in> set ps" for p
  proof
    assume p: "p \<noteq> [] \<and> take (length p) (b # bs) = p"
    then have "hd p = b"
      by (metis hd_take length_greater_0_conv list.sel(1))
    with p that assms show False
      by (auto simp: list_all_iff)
  qed
  then show ?thesis
    by (auto simp: strip_first_def find_None_iff)
qed

lemma trim_visible:
  assumes "bs \<noteq> []" "0x20 < hd bs" "hd bs < 0x80" "0x20 < last bs" "last bs < 0x80"
  shows "trim bs = bs"
proof -
  have heads: "list_all (\<lambda>p. p \<noteq> [] \<longrightarrow> hd p \<le> 0x20 \<or> 0x80 \<le> hd p) white_space"
    "list_all (\<lambda>p. p \<noteq> [] \<longrightarrow> hd p \<le> 0x20 \<or> 0x80 \<le> hd p) (map rev white_space)"
    by (simp_all add: white_space_def)
  have "trim_start bs = bs"
    using strip_first_visible [OF assms(2,3) heads(1), of "tl bs"] assms(1)
    by (simp add: trim_start_def strip_while_unchanged)
  moreover obtain b cs where "rev bs = b # cs" "b = last bs"
    using assms(1) by (metis hd_rev list.exhaust_sel rev_is_Nil_conv)
  then have "strip_while (map rev white_space) (rev bs) = rev bs"
    using strip_first_visible [OF _ _ heads(2), of b cs] assms(4,5)
    by (metis strip_while_unchanged)
  then have "trim_end bs = bs"
    by (simp add: trim_end_def)
  ultimately show ?thesis
    by (simp add: trim_def)
qed

subsection \<open>Decimal rendering\<close>

fun nat_digits :: "nat \<Rightarrow> bytes" where
  "nat_digits n =
     (if n < 10 then [of_nat (48 + n)] else nat_digits (n div 10) @ [of_nat (48 + n mod 10)])"

declare nat_digits.simps [simp del]

definition show_nat :: "nat \<Rightarrow> bytes" where
  "show_nat n = nat_digits n"

definition show_int :: "int \<Rightarrow> bytes" where
  "show_int i = (if i < 0 then 45 # nat_digits (nat (- i)) else nat_digits (nat i))"

definition is_ascii_digit :: "u8 \<Rightarrow> bool" where
  "is_ascii_digit b \<longleftrightarrow> 48 \<le> b \<and> b \<le> 57"

lemma digit_byte: "d < 10 \<Longrightarrow> is_ascii_digit (of_nat (48 + d)) \<and> unat (of_nat (48 + d) :: u8) = 48 + d"
proof -
  assume d: "d < 10"
  then have u: "unat (of_nat (48 + d) :: u8) = 48 + d"
    by (simp only: unat_of_nat) simp
  moreover have "is_ascii_digit (of_nat (48 + d))"
    unfolding is_ascii_digit_def word_le_nat_alt u using d by simp
  ultimately show ?thesis
    by blast
qed

lemma nat_digits_ascii: "list_all is_ascii_digit (nat_digits n)"
proof (induction n rule: nat_digits.induct)
  case (1 n)
  show ?case
    using 1 digit_byte [of n] digit_byte [of "n mod 10"]
    by (subst nat_digits.simps) (auto simp del: of_nat_add of_nat_numeral)
qed

lemma nat_digits_nonempty: "nat_digits n \<noteq> []"
  by (subst nat_digits.simps) simp

end
