(* ===== verification/Fasm_Encode.thy ===== *)
theory Fasm_Encode
  imports Fasm_Bytecode Fasm_Text
begin

text \<open>
  The binary format of \<open>.fasmc\<close> files, \<open>crates/fasm-bytecode/src/encode.rs\<close>: little-endian
  integers, the encoder, the cursor and its readers, and the decoder.  The decoder's error
  strings are the values of \<open>decode_error\<close>.
\<close>

subsection \<open>Little-endian integers\<close>

text \<open>Rust's \<open>to_le_bytes\<close> of an \<open>n\<close>-byte integer, and \<open>from_le_bytes\<close>.\<close>

fun le_bytes :: "nat \<Rightarrow> 'a::len word \<Rightarrow> bytes" where
  "le_bytes 0 w = []"
| "le_bytes (Suc n) w = ucast w # le_bytes n (drop_bit 8 w)"

fun from_le_bytes :: "bytes \<Rightarrow> 'a::len word" where
  "from_le_bytes [] = 0"
| "from_le_bytes (b # bs) = ucast b OR push_bit 8 (from_le_bytes bs)"

definition u16_le :: "u16 \<Rightarrow> bytes" where "u16_le w = le_bytes 2 w"
definition u32_le :: "u32 \<Rightarrow> bytes" where "u32_le w = le_bytes 4 w"
definition u64_le :: "u64 \<Rightarrow> bytes" where "u64_le w = le_bytes 8 w"

lemma length_le_bytes [simp]: "length (le_bytes n w) = n"
  by (induction n arbitrary: w) auto

lemma length_le [simp]: "length (u16_le w) = 2" "length (u32_le x) = 4" "length (u64_le y) = 8"
  by (simp_all add: u16_le_def u32_le_def u64_le_def)

lemma from_le_bytes_le_bytes:
  "from_le_bytes (le_bytes n w) = take_bit (8 * n) (w :: 'a::len word)"
proof (induction n arbitrary: w)
  case 0
  then show ?case by simp
next
  case (Suc n)
  show ?case
  proof (rule bit_word_eqI)
    fix i
    assume "i < LENGTH('a)"
    then show "bit (from_le_bytes (le_bytes (Suc n) w) :: 'a word) i
      = bit (take_bit (8 * Suc n) w) i"
      by (auto simp: Suc bit_simps)
  qed
qed

lemma from_le_bytes_inverse [simp]:
  "from_le_bytes (u16_le v) = v" "from_le_bytes (u32_le w) = w" "from_le_bytes (u64_le x) = x"
  by (simp_all add: u16_le_def u32_le_def u64_le_def from_le_bytes_le_bytes take_bit_word_eq_self)

subsection \<open>Encoder\<close>

definition MAGIC :: bytes where
  "MAGIC = [0x46, 0x53, 0x4D, 0x43]"

definition bool_byte :: "bool \<Rightarrow> u8" where
  "bool_byte b = (if b then 1 else 0)"

primrec builtin_byte :: "built_in \<Rightarrow> u8" where
  "builtin_byte BiArgs = 0x00"
| "builtin_byte BiRet = 0x01"
| "builtin_byte BiFaultIndex = 0x02"
| "builtin_byte BiFaultCode = 0x03"

text \<open>The length field is \<open>bytes.len() as u16\<close>: it wraps, the bytes that follow do not.\<close>

definition encode_string :: "bytes \<Rightarrow> bytes" where
  "encode_string s = u16_le (of_nat (length s)) @ s"

primrec encode_slot :: "slot_ref \<Rightarrow> bytes" where
  "encode_slot (SlLocal i) = [0x00, i]"
| "encode_slot (SlGlobal i) = 0x01 # u16_le i"
| "encode_slot (SlTmp i) = [0x04, i]"
| "encode_slot (SlDerefLocal i) = [0x02, i]"
| "encode_slot (SlDerefGlobal i) = 0x03 # u16_le i"
| "encode_slot (SlDerefTmp i) = [0x05, i]"
| "encode_slot (SlBuiltIn b) = [0x06, builtin_byte b]"

primrec encode_imm :: "immediate \<Rightarrow> bytes" where
  "encode_imm (ImBool v) = [0x10, bool_byte v]"
| "encode_imm (ImInt8 v) = [0x11, v]"
| "encode_imm (ImInt16 v) = 0x12 # u16_le v"
| "encode_imm (ImInt32 v) = 0x13 # u32_le v"
| "encode_imm (ImInt64 v) = 0x14 # u64_le v"
| "encode_imm (ImUint8 v) = [0x15, v]"
| "encode_imm (ImUint16 v) = 0x16 # u16_le v"
| "encode_imm (ImUint32 v) = 0x17 # u32_le v"
| "encode_imm (ImUint64 v) = 0x18 # u64_le v"
| "encode_imm (ImFloat32 v) = 0x19 # u32_le v"
| "encode_imm (ImFloat64 v) = 0x1A # u64_le v"
| "encode_imm ImNull = [0x1B]"
| "encode_imm (ImStr s) = 0x1C # encode_string s"

primrec encode_operand :: "operand \<Rightarrow> bytes" where
  "encode_operand (OpdSlot s) = encode_slot s"
| "encode_operand (OpdImm v) = encode_imm v"
| "encode_operand (OpdFuncRef i) = 0x20 # u16_le i"
| "encode_operand (OpdLabelTarget a) = 0x21 # u32_le a"
| "encode_operand (OpdSyscallId i) = 0x22 # u32_le i"
| "encode_operand (OpdType t) = [0x23, fasm_type_byte t]"
| "encode_operand (OpdKey k) = 0x24 # u32_le k"
| "encode_operand (OpdRequired r) = [0x25, bool_byte r]"

definition encode_instruction :: "instruction \<Rightarrow> bytes" where
  "encode_instruction ins =
     opcode_byte (opcode ins) # of_nat (length (operands ins))
       # concat (map encode_operand (operands ins))"

definition encode_param :: "param_descriptor \<Rightarrow> bytes" where
  "encode_param p =
     u32_le (par_key p) @ [fasm_type_byte (par_type p), bool_byte (par_required p)]
       @ encode_string (par_name p)"

definition encode_function :: "function_def \<Rightarrow> bytes" where
  "encode_function f =
     encode_string (fun_name f)
       @ u32_le (of_nat (length (fun_params f))) @ concat (map encode_param (fun_params f))
       @ u32_le (of_nat (length (fun_instrs f))) @ concat (map encode_instruction (fun_instrs f))"

definition encode_program :: "program \<Rightarrow> bytes" where
  "encode_program p =
     MAGIC @ [prog_version p]
       @ u32_le (of_nat (length (prog_global_inits p)))
       @ concat (map encode_instruction (prog_global_inits p))
       @ u32_le (of_nat (length (prog_functions p)))
       @ concat (map encode_function (prog_functions p))"

subsection \<open>Cursor\<close>

datatype decode_error =
  UnexpectedEof | InvalidMagic | InvalidUtf8
| UnknownOpcode u8 | UnknownType u8 | UnknownBuiltin u8 | UnknownTag u8

record cursor =
  cur_data :: bytes
  cur_pos :: nat

type_synonym 'a reader = "cursor \<Rightarrow> decode_error + 'a \<times> cursor"

definition cursor_new :: "bytes \<Rightarrow> cursor" where
  "cursor_new d = \<lparr>cur_data = d, cur_pos = 0\<rparr>"

definition rd_return :: "'a \<Rightarrow> 'a reader" where
  "rd_return x c = Inr (x, c)"

definition rd_fail :: "decode_error \<Rightarrow> 'a reader" where
  "rd_fail e c = Inl e"

definition rd_bind :: "'a reader \<Rightarrow> ('a \<Rightarrow> 'b reader) \<Rightarrow> 'b reader" where
  "rd_bind m f c = (case m c of Inl e \<Rightarrow> Inl e | Inr (x, c') \<Rightarrow> f x c')"

definition rd_map :: "('a \<Rightarrow> 'b) \<Rightarrow> 'a reader \<Rightarrow> 'b reader" where
  "rd_map f m = rd_bind m (\<lambda>x. rd_return (f x))"

definition rd_lift :: "(u8 \<Rightarrow> decode_error) \<Rightarrow> (u8 \<Rightarrow> 'a option) \<Rightarrow> u8 \<Rightarrow> 'a reader" where
  "rd_lift err f b = (case f b of None \<Rightarrow> rd_fail (err b) | Some x \<Rightarrow> rd_return x)"

fun rd_repeat :: "nat \<Rightarrow> 'a reader \<Rightarrow> 'a list reader" where
  "rd_repeat 0 m = rd_return []"
| "rd_repeat (Suc n) m = rd_bind m (\<lambda>x. rd_bind (rd_repeat n m) (\<lambda>xs. rd_return (x # xs)))"

definition read_u8 :: "u8 reader" where
  "read_u8 c =
     (if cur_pos c \<ge> length (cur_data c) then Inl UnexpectedEof
      else Inr (cur_data c ! cur_pos c, c\<lparr>cur_pos := cur_pos c + 1\<rparr>))"

definition read_bytes :: "nat \<Rightarrow> bytes reader" where
  "read_bytes n c =
     (if cur_pos c + n > length (cur_data c) then Inl UnexpectedEof
      else Inr (take n (drop (cur_pos c) (cur_data c)), c\<lparr>cur_pos := cur_pos c + n\<rparr>))"

definition read_u16 :: "u16 reader" where "read_u16 = rd_map from_le_bytes (read_bytes 2)"
definition read_u32 :: "u32 reader" where "read_u32 = rd_map from_le_bytes (read_bytes 4)"
definition read_u64 :: "u64 reader" where "read_u64 = rd_map from_le_bytes (read_bytes 8)"

definition read_string :: "bytes reader" where
  "read_string =
     rd_bind read_u16 (\<lambda>len. rd_bind (read_bytes (unat len)) (\<lambda>bs.
       if utf8_valid bs then rd_return bs else rd_fail InvalidUtf8))"

definition read_bool :: "bool reader" where
  "read_bool = rd_map (\<lambda>b. b \<noteq> 0) read_u8"

subsection \<open>Decoder\<close>

definition builtin_of_byte :: "u8 \<Rightarrow> built_in option" where
  "builtin_of_byte b =
     (if b = 0x00 then Some BiArgs else if b = 0x01 then Some BiRet
      else if b = 0x02 then Some BiFaultIndex else if b = 0x03 then Some BiFaultCode else None)"

definition decode_slot :: "u8 \<Rightarrow> slot_ref reader option" where
  "decode_slot tag =
     (if tag = 0x00 then Some (rd_map SlLocal read_u8)
      else if tag = 0x01 then Some (rd_map SlGlobal read_u16)
      else if tag = 0x04 then Some (rd_map SlTmp read_u8)
      else if tag = 0x02 then Some (rd_map SlDerefLocal read_u8)
      else if tag = 0x03 then Some (rd_map SlDerefGlobal read_u16)
      else if tag = 0x05 then Some (rd_map SlDerefTmp read_u8)
      else if tag = 0x06 then
        Some (rd_map SlBuiltIn (rd_bind read_u8 (rd_lift UnknownBuiltin builtin_of_byte)))
      else None)"

definition decode_imm :: "u8 \<Rightarrow> immediate reader option" where
  "decode_imm tag =
     (if tag = 0x10 then Some (rd_map ImBool read_bool)
      else if tag = 0x11 then Some (rd_map ImInt8 read_u8)
      else if tag = 0x12 then Some (rd_map ImInt16 read_u16)
      else if tag = 0x13 then Some (rd_map ImInt32 read_u32)
      else if tag = 0x14 then Some (rd_map ImInt64 read_u64)
      else if tag = 0x15 then Some (rd_map ImUint8 read_u8)
      else if tag = 0x16 then Some (rd_map ImUint16 read_u16)
      else if tag = 0x17 then Some (rd_map ImUint32 read_u32)
      else if tag = 0x18 then Some (rd_map ImUint64 read_u64)
      else if tag = 0x19 then Some (rd_map ImFloat32 read_u32)
      else if tag = 0x1A then Some (rd_map ImFloat64 read_u64)
      else if tag = 0x1B then Some (rd_return ImNull)
      else if tag = 0x1C then Some (rd_map ImStr read_string)
      else None)"

definition decode_operand_tag :: "u8 \<Rightarrow> operand reader" where
  "decode_operand_tag tag =
     (case decode_slot tag of
        Some r \<Rightarrow> rd_map OpdSlot r
      | None \<Rightarrow>
          (case decode_imm tag of
             Some r \<Rightarrow> rd_map OpdImm r
           | None \<Rightarrow>
               if tag = 0x20 then rd_map OpdFuncRef read_u16
               else if tag = 0x21 then rd_map OpdLabelTarget read_u32
               else if tag = 0x22 then rd_map OpdSyscallId read_u32
               else if tag = 0x23 then
                 rd_map OpdType (rd_bind read_u8 (rd_lift UnknownType fasm_type_try_from))
               else if tag = 0x24 then rd_map OpdKey read_u32
               else if tag = 0x25 then rd_map OpdRequired read_bool
               else rd_fail (UnknownTag tag)))"

definition decode_operand :: "operand reader" where
  "decode_operand = rd_bind read_u8 decode_operand_tag"

definition decode_instruction :: "instruction reader" where
  "decode_instruction =
     rd_bind (rd_bind read_u8 (rd_lift UnknownOpcode opcode_try_from)) (\<lambda>op.
     rd_bind read_u8 (\<lambda>nops.
     rd_bind (rd_repeat (unat nops) decode_operand) (\<lambda>ops.
     rd_return \<lparr>opcode = op, operands = ops\<rparr>)))"

definition decode_param :: "param_descriptor reader" where
  "decode_param =
     rd_bind read_u32 (\<lambda>key.
     rd_bind (rd_bind read_u8 (rd_lift UnknownType fasm_type_try_from)) (\<lambda>t.
     rd_bind read_bool (\<lambda>req.
     rd_bind read_string (\<lambda>pname.
     rd_return \<lparr>par_key = key, par_type = t, par_name = pname, par_required = req\<rparr>))))"

definition decode_function :: "function_def reader" where
  "decode_function =
     rd_bind read_string (\<lambda>name.
     rd_bind read_u32 (\<lambda>nparams.
     rd_bind (rd_repeat (unat nparams) decode_param) (\<lambda>params.
     rd_bind read_u32 (\<lambda>ninstrs.
     rd_bind (rd_repeat (unat ninstrs) decode_instruction) (\<lambda>instrs.
     rd_return \<lparr>fun_name = name, fun_params = params, fun_instrs = instrs\<rparr>)))))"

definition read_program :: "program reader" where
  "read_program =
     rd_bind (read_bytes 4) (\<lambda>magic.
     if magic \<noteq> MAGIC then rd_fail InvalidMagic
     else rd_bind read_u8 (\<lambda>version.
       rd_bind read_u32 (\<lambda>nglobals.
       rd_bind (rd_repeat (unat nglobals) decode_instruction) (\<lambda>inits.
       rd_bind read_u32 (\<lambda>nfuncs.
       rd_bind (rd_repeat (unat nfuncs) decode_function) (\<lambda>funs.
       rd_return \<lparr>prog_version = version, prog_global_inits = inits, prog_functions = funs\<rparr>))))))"

definition decode_program :: "bytes \<Rightarrow> decode_error + program" where
  "decode_program d = (case read_program (cursor_new d) of Inl e \<Rightarrow> Inl e | Inr (p, _) \<Rightarrow> Inr p)"

end
