(* ===== verification/Fasm_Wire.thy ===== *)
theory Fasm_Wire
  imports Fasm_Encode
begin

text \<open>
  Correctness of the \<open>.fasmc\<close> format.  \<open>parses m bs x\<close> says that the reader \<open>m\<close> takes exactly
  the bytes \<open>bs\<close>, wherever they stand in the file, and yields \<open>x\<close>, and that a file that ends
  inside \<open>bs\<close> is reported as such.  The locale \<open>codec\<close> is the contract between an encoder and
  its reader; it is interpreted for operands, instructions, parameters and functions, and gives
  the round trip for programs.
\<close>

subsection \<open>Readers that take exactly their bytes\<close>

definition at :: "bytes \<Rightarrow> bytes \<Rightarrow> cursor" where
  "at pre rest = \<lparr>cur_data = pre @ rest, cur_pos = length pre\<rparr>"

definition parses :: "'a reader \<Rightarrow> bytes \<Rightarrow> 'a \<Rightarrow> bool" where
  "parses m bs x \<longleftrightarrow>
     (\<forall>pre post. m (at pre (bs @ post)) = Inr (x, at (pre @ bs) post)) \<and>
     (\<forall>pre bs' b bs''. bs = bs' @ b # bs'' \<longrightarrow> m (at pre bs') = Inl UnexpectedEof)"

lemma parsesI:
  assumes "\<And>pre post. m (at pre (bs @ post)) = Inr (x, at (pre @ bs) post)"
    and "\<And>pre bs' b bs''. bs = bs' @ b # bs'' \<Longrightarrow> m (at pre bs') = Inl UnexpectedEof"
  shows "parses m bs x"
  using assms by (simp add: parses_def)

lemma parses_full: "parses m bs x \<Longrightarrow> m (at pre (bs @ post)) = Inr (x, at (pre @ bs) post)"
  by (simp add: parses_def)

lemma parses_cut: "parses m (bs @ b # bs') x \<Longrightarrow> m (at pre bs) = Inl UnexpectedEof"
  unfolding parses_def by blast

lemma parses_return [intro]: "x = y \<Longrightarrow> parses (rd_return x) [] y"
  by (simp add: parses_def rd_return_def)

lemma parses_bind:
  assumes m: "parses m bs x" and f: "parses (f x) cs y"
  shows "parses (rd_bind m f) (bs @ cs) y"
proof (rule parsesI)
  fix pre post
  show "rd_bind m f (at pre ((bs @ cs) @ post)) = Inr (y, at (pre @ bs @ cs) post)"
    using parses_full [OF m, of pre "cs @ post"] parses_full [OF f, of "pre @ bs" post]
    by (simp add: rd_bind_def)
next
  fix pre ds d ds'
  assume split: "bs @ cs = ds @ d # ds'"
  show "rd_bind m f (at pre ds) = Inl UnexpectedEof"
  proof (cases "length ds < length bs")
    case True
    then have "bs = ds @ (bs ! length ds) # drop (Suc (length ds)) bs"
      using split by (metis append_eq_append_conv_if id_take_nth_drop less_imp_le)
    then have "m (at pre ds) = Inl UnexpectedEof"
      using m by (metis parses_cut)
    then show ?thesis
      by (simp add: rd_bind_def)
  next
    case False
    then obtain es where es: "ds = bs @ es" "cs = es @ d # ds'"
      using split by (auto simp: append_eq_append_conv2 Cons_eq_append_conv)
    have "f x (at (pre @ bs) es) = Inl UnexpectedEof"
      using f es(2) by (metis parses_cut)
    then show ?thesis
      using parses_full [OF m, of pre es] es(1) by (simp add: rd_bind_def)
  qed
qed

lemma parses_bindI:
  "parses m bs x \<Longrightarrow> parses (f x) cs y \<Longrightarrow> ds = bs @ cs \<Longrightarrow> parses (rd_bind m f) ds y"
  using parses_bind by metis

lemma parses_map [intro]: "parses m bs x \<Longrightarrow> y = f x \<Longrightarrow> parses (rd_map f m) bs y"
  unfolding rd_map_def by (rule parses_bindI) auto

lemma parses_u8 [intro]: "parses read_u8 [b] b"
  by (rule parsesI) (auto simp: read_u8_def at_def Cons_eq_append_conv)

lemma parses_bytes [intro]: "length bs = n \<Longrightarrow> parses (read_bytes n) bs bs"
  by (rule parsesI) (auto simp: read_bytes_def at_def)

lemma parses_u16 [intro]: "parses read_u16 (u16_le w) w"
  unfolding read_u16_def by (rule parses_map) auto

lemma parses_u32 [intro]: "parses read_u32 (u32_le w) w"
  unfolding read_u32_def by (rule parses_map) auto

lemma parses_u64 [intro]: "parses read_u64 (u64_le w) w"
  unfolding read_u64_def by (rule parses_map) auto

lemma parses_bool [intro]: "parses read_bool [bool_byte v] v"
  unfolding read_bool_def by (rule parses_map [OF parses_u8]) (simp add: bool_byte_def)

lemma parses_lift: "f b = Some x \<Longrightarrow> parses (rd_bind read_u8 (rd_lift err f)) [b] x"
  by (rule parses_bindI) (auto simp: rd_lift_def)

definition string_ok :: "bytes \<Rightarrow> bool" where
  "string_ok s \<longleftrightarrow> utf8_valid s \<and> length s < 2 ^ 16"

lemma parses_string [intro]:
  assumes "string_ok s"
  shows "parses read_string (encode_string s) s"
proof -
  have len: "unat (of_nat (length s) :: u16) = length s"
    using assms by (simp add: string_ok_def unat_of_nat)
  show ?thesis
    unfolding read_string_def encode_string_def
  proof (rule parses_bindI [OF parses_u16])
    show "parses (rd_bind (read_bytes (unat (of_nat (length s) :: u16)))
        (\<lambda>bs. if utf8_valid bs then rd_return bs else rd_fail InvalidUtf8)) s s"
      using assms by (intro parses_bindI [OF parses_bytes]) (auto simp: len string_ok_def)
  qed simp
qed

subsection \<open>What a reader can return\<close>

definition returns :: "'a reader \<Rightarrow> ('a \<Rightarrow> bool) \<Rightarrow> bool" where
  "returns m P \<longleftrightarrow> (\<forall>c x c'. m c = Inr (x, c') \<longrightarrow> P x)"

lemma returnsD: "returns m P \<Longrightarrow> m c = Inr (x, c') \<Longrightarrow> P x"
  by (auto simp: returns_def)

lemma returns_bind:
  "returns m P \<Longrightarrow> (\<And>x. P x \<Longrightarrow> returns (f x) Q) \<Longrightarrow> returns (rd_bind m f) Q"
  by (fastforce simp: returns_def rd_bind_def split: sum.splits)

lemma returns_return: "P x \<Longrightarrow> returns (rd_return x) P"
  by (simp add: returns_def rd_return_def)

lemma returns_fail [simp]: "returns (rd_fail e) P"
  by (simp add: returns_def rd_fail_def)

lemma returns_map: "returns m (\<lambda>x. P (f x)) \<Longrightarrow> returns (rd_map f m) P"
  unfolding rd_map_def by (erule returns_bind) (rule returns_return)

lemma returns_map_all: "(\<And>x. P (f x)) \<Longrightarrow> returns (rd_map f m) P"
  by (rule returns_map) (simp add: returns_def)

lemma returns_True [simp]: "returns m (\<lambda>_. True)"
  by (simp add: returns_def)

lemma returns_repeat: "returns m P \<Longrightarrow> returns (rd_repeat n m) (\<lambda>xs. length xs = n \<and> list_all P xs)"
proof (induction n)
  case 0
  then show ?case by (simp add: returns_return)
next
  case (Suc n)
  then show ?case
    by (auto intro!: returns_bind [OF Suc.prems] returns_bind [OF Suc.IH] returns_return)
qed

lemma returns_bytes: "returns (read_bytes n) (\<lambda>bs. length bs = n)"
  by (auto simp: returns_def read_bytes_def split: if_splits)

lemma returns_string: "returns read_string string_ok"
proof -
  have "returns (if utf8_valid bs then rd_return bs else rd_fail InvalidUtf8) string_ok"
    if "length bs = unat (len :: u16)" for bs len
    using that unsigned_less [of len] by (auto intro: returns_return simp: string_ok_def)
  then show ?thesis
    unfolding read_string_def
    by (intro returns_bind [OF returns_True] returns_bind [OF returns_bytes]) auto
qed

subsection \<open>The contract of an encoder and its reader\<close>

locale codec =
  fixes enc :: "'a \<Rightarrow> bytes" and dec :: "'a reader" and ok :: "'a \<Rightarrow> bool"
  assumes dec_enc: "ok x \<Longrightarrow> parses dec (enc x) x"
    and dec_ok: "returns dec ok"
begin

lemma parses_repeat: "list_all ok xs \<Longrightarrow> parses (rd_repeat (length xs) dec) (concat (map enc xs)) xs"
proof (induction xs)
  case Nil
  then show ?case by (simp add: parses_return)
next
  case (Cons x xs)
  have "parses (rd_bind (rd_repeat (length xs) dec) (\<lambda>xs. rd_return (x # xs)))
      (concat (map enc xs)) (x # xs)"
    using Cons by (intro parses_bindI [OF Cons.IH]) auto
  then show ?case
    using Cons.prems by (auto intro: parses_bind dec_enc)
qed

text \<open>A counted sequence: a 32-bit length, then the elements.\<close>

lemma parses_counted:
  assumes "list_all ok xs" and "length xs < 2 ^ 32"
    and "parses (f xs) bs y"
  shows "parses (rd_bind read_u32 (\<lambda>n. rd_bind (rd_repeat (unat n) dec) f))
    (u32_le (of_nat (length xs)) @ concat (map enc xs) @ bs) y"
proof -
  have len: "unat (of_nat (length xs) :: u32) = length xs"
    using assms(2) by (simp add: unat_of_nat)
  have "parses (rd_bind (rd_repeat (length xs) dec) f) (concat (map enc xs) @ bs) y"
    by (rule parses_bind [OF parses_repeat [OF assms(1)]]) (rule assms(3))
  then show ?thesis
    by (intro parses_bindI [OF parses_u32]) (simp_all add: len)
qed

lemma returns_counted:
  assumes "\<And>xs. length xs < 2 ^ 32 \<Longrightarrow> list_all ok xs \<Longrightarrow> returns (f xs) P"
  shows "returns (rd_bind read_u32 (\<lambda>n. rd_bind (rd_repeat (unat n) dec) f)) P"
proof (rule returns_bind [OF returns_True])
  fix n :: u32
  show "returns (rd_bind (rd_repeat (unat n) dec) f) P"
    using unsigned_less [of n]
    by (intro returns_bind [OF returns_repeat [OF dec_ok]] assms) auto
qed

text \<open>Encodings are uniquely decodable: no encoding is a proper prefix of another.\<close>

lemma enc_prefix_free: "ok x \<Longrightarrow> ok y \<Longrightarrow> enc x @ bs = enc y @ cs \<Longrightarrow> x = y \<and> bs = cs"
proof -
  assume a: "ok x" "ok y" "enc x @ bs = enc y @ cs"
  have "dec (at [] (enc x @ bs)) = Inr (x, at (enc x) bs)"
    using parses_full [OF dec_enc [OF a(1)], of "[]" bs] by simp
  moreover have "dec (at [] (enc y @ cs)) = Inr (y, at (enc y) cs)"
    using parses_full [OF dec_enc [OF a(2)], of "[]" cs] by simp
  ultimately show ?thesis
    using a(3) by simp
qed

end

subsection \<open>Operands\<close>

fun operand_ok :: "operand \<Rightarrow> bool" where
  "operand_ok (OpdImm (ImStr s)) = string_ok s"
| "operand_ok _ = True"

lemma builtin_of_byte_byte [simp]: "builtin_of_byte (builtin_byte b) = Some b"
  by (cases b) (simp_all add: builtin_of_byte_def)

lemma parses_decode_slot:
  "\<exists>r tag bs. encode_slot s = tag # bs \<and> decode_slot tag = Some r \<and> parses r bs s"
  by (cases s) (simp_all add: decode_slot_def, (blast intro: parses_lift builtin_of_byte_byte)+)

lemma parses_decode_imm:
  assumes "operand_ok (OpdImm v)"
  shows "\<exists>r tag bs. encode_imm v = tag # bs \<and> decode_slot tag = None \<and> decode_imm tag = Some r
    \<and> parses r bs v"
  using assms
  by (cases v) (simp_all add: decode_slot_def decode_imm_def, blast+)

lemma parses_operand: "parses (decode_operand_tag tag) bs x \<Longrightarrow> parses decode_operand (tag # bs) x"
  unfolding decode_operand_def by (rule parses_bindI [OF parses_u8]) auto

lemma decode_operand_tags:
  "decode_operand_tag 0x20 = rd_map OpdFuncRef read_u16"
  "decode_operand_tag 0x21 = rd_map OpdLabelTarget read_u32"
  "decode_operand_tag 0x22 = rd_map OpdSyscallId read_u32"
  "decode_operand_tag 0x23 =
     rd_map OpdType (rd_bind read_u8 (rd_lift UnknownType fasm_type_try_from))"
  "decode_operand_tag 0x24 = rd_map OpdKey read_u32"
  "decode_operand_tag 0x25 = rd_map OpdRequired read_bool"
  by (simp_all add: decode_operand_tag_def decode_slot_def decode_imm_def)

lemma parses_decode_operand: "operand_ok x \<Longrightarrow> parses decode_operand (encode_operand x) x"
proof (cases x)
  case (OpdSlot s)
  obtain r tag bs where "encode_slot s = tag # bs" "decode_slot tag = Some r" "parses r bs s"
    using parses_decode_slot by blast
  then have "parses (decode_operand_tag tag) bs (OpdSlot s)"
    by (auto simp: decode_operand_tag_def)
  then show ?thesis
    using OpdSlot \<open>encode_slot s = tag # bs\<close> by (simp add: parses_operand)
next
  case (OpdImm v)
  assume "operand_ok x"
  with OpdImm obtain r tag bs where v: "encode_imm v = tag # bs" "decode_slot tag = None"
      "decode_imm tag = Some r" "parses r bs v"
    using parses_decode_imm by blast
  then have "parses (decode_operand_tag tag) bs (OpdImm v)"
    by (auto simp: decode_operand_tag_def)
  then show ?thesis
    using OpdImm v(1) by (simp add: parses_operand)
next
  case (OpdType t)
  then show ?thesis
    by (simp add: parses_operand decode_operand_tags parses_map [OF parses_lift])
qed (simp_all add: parses_operand decode_operand_tags parses_map [OF parses_u16]
    parses_map [OF parses_u32] parses_map [OF parses_bool])

lemma returns_decode_operand: "returns decode_operand operand_ok"
proof -
  have str: "returns (rd_map ImStr read_string) (\<lambda>v. operand_ok (OpdImm v))"
    by (rule returns_map) (simp add: returns_string)
  have imm: "returns r (\<lambda>v. operand_ok (OpdImm v))" if "decode_imm tag = Some r" for tag r
    using that by (simp add: decode_imm_def split: if_split_asm)
      (hypsubst, simp add: returns_map_all str returns_return)+
  have imm': "returns (rd_map OpdImm r) operand_ok" if "decode_imm tag = Some r" for tag r
    by (rule returns_map) (rule imm [OF that])
  have "returns (decode_operand_tag tag) operand_ok" for tag
  proof (cases "decode_slot tag")
    case None
    then show ?thesis
      by (cases "decode_imm tag")
        (simp_all add: decode_operand_tag_def returns_map_all imm')
  qed (simp add: decode_operand_tag_def returns_map_all)
  then show ?thesis
    unfolding decode_operand_def by (intro returns_bind [OF returns_True])
qed

interpretation operand_codec: codec encode_operand decode_operand operand_ok
  by unfold_locales (auto intro: parses_decode_operand returns_decode_operand)

subsection \<open>Instructions\<close>

definition instruction_ok :: "instruction \<Rightarrow> bool" where
  "instruction_ok ins \<longleftrightarrow> length (operands ins) < 256 \<and> list_all operand_ok (operands ins)"

lemma parses_decode_instruction:
  assumes "instruction_ok ins"
  shows "parses decode_instruction (encode_instruction ins) ins"
proof -
  have len: "unat (of_nat (length (operands ins)) :: u8) = length (operands ins)"
    using assms by (simp add: instruction_ok_def unat_of_nat)
  have ops: "parses (rd_bind (rd_repeat (length (operands ins)) decode_operand)
      (\<lambda>ops. rd_return \<lparr>opcode = opcode ins, operands = ops\<rparr>))
      (concat (map encode_operand (operands ins))) ins"
    using assms
    by (intro parses_bindI [OF operand_codec.parses_repeat] parses_return)
      (auto simp: instruction_ok_def)
  have "parses (rd_bind read_u8 (rd_lift UnknownOpcode opcode_try_from)) [opcode_byte (opcode ins)]
      (opcode ins)"
    by (rule parses_lift) simp
  then show ?thesis
    unfolding decode_instruction_def encode_instruction_def
    by (rule parses_bindI) (auto intro!: parses_bindI [OF parses_u8] simp: len ops)
qed

lemma returns_decode_instruction: "returns decode_instruction instruction_ok"
proof -
  have "returns (rd_bind (rd_repeat (unat (n :: u8)) decode_operand)
      (\<lambda>ops. rd_return \<lparr>opcode = op, operands = ops\<rparr>)) instruction_ok" for n op
    using unsigned_less [of n]
    by (intro returns_bind [OF returns_repeat [OF operand_codec.dec_ok]] returns_return)
      (auto simp: instruction_ok_def)
  then show ?thesis
    unfolding decode_instruction_def
    by (rule returns_bind [OF returns_True returns_bind [OF returns_True]])
qed

interpretation instruction_codec: codec encode_instruction decode_instruction instruction_ok
  by unfold_locales (auto intro: parses_decode_instruction returns_decode_instruction)

subsection \<open>Parameters and functions\<close>

definition param_ok :: "param_descriptor \<Rightarrow> bool" where
  "param_ok p \<longleftrightarrow> string_ok (par_name p)"

lemma parses_decode_param: "param_ok p \<Longrightarrow> parses decode_param (encode_param p) p"
  unfolding decode_param_def encode_param_def
  by (rule parses_bindI [OF parses_u32], rule parses_bindI [OF parses_lift],
      rule fasm_type_try_from_byte, rule parses_bindI [OF parses_bool],
      rule parses_bindI [OF parses_string], simp add: param_ok_def, rule parses_return) auto

lemma returns_decode_param: "returns decode_param param_ok"
  unfolding decode_param_def
  by (intro returns_bind [OF returns_True] returns_bind [OF returns_string] returns_return)
    (simp add: param_ok_def)

interpretation param_codec: codec encode_param decode_param param_ok
  by unfold_locales (auto intro: parses_decode_param returns_decode_param)

definition function_ok :: "function_def \<Rightarrow> bool" where
  "function_ok f \<longleftrightarrow>
     string_ok (fun_name f) \<and> length (fun_params f) < 2 ^ 32 \<and> list_all param_ok (fun_params f) \<and>
     length (fun_instrs f) < 2 ^ 32 \<and> list_all instruction_ok (fun_instrs f)"

lemma parses_decode_function:
  assumes "function_ok f"
  shows "parses decode_function (encode_function f) f"
proof -
  have "parses (rd_return \<lparr>fun_name = fun_name f, fun_params = fun_params f,
      fun_instrs = fun_instrs f\<rparr>) [] f"
    by (rule parses_return) simp
  then have "parses (rd_bind read_u32 (\<lambda>n. rd_bind (rd_repeat (unat n) decode_instruction) (\<lambda>instrs.
      rd_return \<lparr>fun_name = fun_name f, fun_params = fun_params f, fun_instrs = instrs\<rparr>)))
      (u32_le (of_nat (length (fun_instrs f))) @ concat (map encode_instruction (fun_instrs f)) @ [])
      f"
    using assms by (intro instruction_codec.parses_counted) (auto simp: function_ok_def)
  then show ?thesis
    unfolding decode_function_def encode_function_def using assms
    by (intro parses_bind [OF parses_string] param_codec.parses_counted)
      (auto simp: function_ok_def)
qed

lemma returns_decode_function: "returns decode_function function_ok"
  unfolding decode_function_def
  by (intro returns_bind [OF returns_string] param_codec.returns_counted
      instruction_codec.returns_counted returns_return) (simp add: function_ok_def)

interpretation function_codec: codec encode_function decode_function function_ok
  by unfold_locales (auto intro: parses_decode_function returns_decode_function)

subsection \<open>Programs\<close>

definition program_ok :: "program \<Rightarrow> bool" where
  "program_ok p \<longleftrightarrow>
     length (prog_global_inits p) < 2 ^ 32 \<and> list_all instruction_ok (prog_global_inits p) \<and>
     length (prog_functions p) < 2 ^ 32 \<and> list_all function_ok (prog_functions p)"

text \<open>The part of a file after the magic bytes.\<close>

definition read_body :: "program reader" where
  "read_body =
     rd_bind read_u8 (\<lambda>version.
     rd_bind read_u32 (\<lambda>nglobals.
     rd_bind (rd_repeat (unat nglobals) decode_instruction) (\<lambda>inits.
     rd_bind read_u32 (\<lambda>nfuncs.
     rd_bind (rd_repeat (unat nfuncs) decode_function) (\<lambda>funs.
     rd_return \<lparr>prog_version = version, prog_global_inits = inits, prog_functions = funs\<rparr>)))))"

lemma read_program_body:
  "read_program =
     rd_bind (read_bytes 4) (\<lambda>magic. if magic \<noteq> MAGIC then rd_fail InvalidMagic else read_body)"
  by (simp only: read_program_def read_body_def)

lemma parses_read_program:
  assumes "program_ok p"
  shows "parses read_program (encode_program p) p"
proof -
  have "parses (rd_return \<lparr>prog_version = prog_version p, prog_global_inits = prog_global_inits p,
      prog_functions = prog_functions p\<rparr>) [] p"
    by (rule parses_return) simp
  then have "parses (rd_bind read_u32 (\<lambda>n. rd_bind (rd_repeat (unat n) decode_function) (\<lambda>funs.
      rd_return \<lparr>prog_version = prog_version p, prog_global_inits = prog_global_inits p,
        prog_functions = funs\<rparr>)))
      (u32_le (of_nat (length (prog_functions p))) @ concat (map encode_function (prog_functions p)) @ [])
      p"
    using assms by (intro function_codec.parses_counted) (auto simp: program_ok_def)
  then have "parses read_body ([prog_version p]
      @ u32_le (of_nat (length (prog_global_inits p)))
      @ concat (map encode_instruction (prog_global_inits p))
      @ u32_le (of_nat (length (prog_functions p)))
      @ concat (map encode_function (prog_functions p))) p"
    unfolding read_body_def using assms
    by (intro parses_bind [OF parses_u8] instruction_codec.parses_counted)
      (auto simp: program_ok_def)
  then show ?thesis
    unfolding read_program_body encode_program_def
    by (intro parses_bind [OF parses_bytes]) (simp_all add: MAGIC_def)
qed

lemma returns_read_program: "returns read_program program_ok"
proof -
  have "returns read_body program_ok"
    unfolding read_body_def
    by (intro returns_bind [OF returns_True] instruction_codec.returns_counted
        function_codec.returns_counted returns_return) (simp add: program_ok_def)
  then show ?thesis
    unfolding read_program_body by (intro returns_bind [OF returns_True]) simp
qed

interpretation program_codec: codec encode_program read_program program_ok
  by unfold_locales (auto intro: parses_read_program returns_read_program)

end
