(* ===== verification/Fasm_Format.thy ===== *)
theory Fasm_Format
  imports Fasm_Wire
begin

text \<open>
  What the binary format of \<open>crates/fasm-bytecode/src/encode.rs\<close> guarantees: round trips, rejection
  of every truncated file, the opcode and type tables, and what happens to a string that does
  not fit its length field.
\<close>

subsection \<open>A small program\<close>

definition sample_function :: function_def where
  "sample_function = \<lparr>fun_name = [77, 97, 105, 110],
     fun_params = [\<lparr>par_key = 0, par_type = TyInt32, par_name = [110], par_required = True\<rparr>],
     fun_instrs = [instr_new (OMove OpStore) [OpdImm (ImStr [104, 105]), OpdSlot (SlLocal 0)],
       instr_new (OFlow OpJz) [OpdSlot (SlBuiltIn BiArgs), OpdLabelTarget 3],
       instr_no_args (OFlow OpHalt)]\<rparr>"

definition sample_program :: program where
  "sample_program = \<lparr>prog_version = 1,
     prog_global_inits = [instr_new (OMem OpReserve) [OpdKey 2, OpdType TyUint64, OpdImm ImNull]],
     prog_functions = [sample_function]\<rparr>"

lemma sample_program_ok: "program_ok sample_program"
  by (simp add: program_ok_def function_ok_def param_ok_def instruction_ok_def string_ok_def
      sample_program_def sample_function_def instr_new_def instr_no_args_def utf8_valid_ascii)

lemma at_Nil: "cursor_new d = at [] d"
  by (simp add: at_def cursor_new_def)

subsection \<open>Round trips\<close>

text \<open>C6. A program whose counts and strings fit their length fields is decoded from its encoding
  exactly as it was, whatever bytes follow it.\<close>

theorem program_round_trip:
  "program_ok p \<Longrightarrow> decode_program (encode_program p @ extra) = Inr p"
  by (simp add: decode_program_def at_Nil parses_full [OF parses_read_program])

lemma program_round_trip_witness:
  "program_ok sample_program \<and> decode_program (encode_program sample_program @ [0xFF]) = Inr sample_program"
  using program_round_trip [OF sample_program_ok] sample_program_ok by blast

text \<open>Whatever bytes decode to a program decode to one that fits the format, so that encoding
  it and decoding it again gives the same program.\<close>

theorem decoded_program_round_trip:
  assumes "decode_program d = Inr p"
  shows "program_ok p \<and> decode_program (encode_program p) = Inr p"
proof -
  obtain c where "read_program (cursor_new d) = Inr (p, c)"
    using assms by (auto simp: decode_program_def split: sum.splits)
  then have "program_ok p"
    by (rule returnsD [OF returns_read_program])
  then show ?thesis
    using parses_full [OF parses_read_program, of p "[]" "[]"] by (simp add: decode_program_def at_Nil)
qed

lemma decoded_program_round_trip_witness:
  "decode_program (encode_program sample_program @ [7]) = Inr sample_program
   \<and> decode_program (encode_program sample_program) = Inr sample_program"
proof -
  have "decode_program (encode_program sample_program @ [7]) = Inr sample_program"
    by (simp add: decode_program_def at_Nil parses_full [OF parses_read_program] sample_program_ok)
  with decoded_program_round_trip [OF this] show ?thesis
    by simp
qed

text \<open>C35. Every proper prefix of an encoded program is rejected, with the error for a truncated
  file: no shorter program is read from it.\<close>

theorem truncated_program_rejected:
  assumes "program_ok p" "n < length (encode_program p)"
  shows "decode_program (take n (encode_program p)) = Inl UnexpectedEof"
proof -
  have "encode_program p = take n (encode_program p) @ encode_program p ! n # drop (Suc n) (encode_program p)"
    using assms(2) by (rule id_take_nth_drop)
  then have "read_program (at [] (take n (encode_program p))) = Inl UnexpectedEof"
    using parses_read_program [OF assms(1)] by (metis parses_cut)
  then show ?thesis
    by (simp add: decode_program_def at_Nil)
qed

lemma truncated_program_rejected_witness:
  "program_ok sample_program \<and> decode_program (take 10 (encode_program sample_program)) = Inl UnexpectedEof"
proof -
  have "10 < length (encode_program sample_program)"
    by (simp add: encode_program_def sample_program_def MAGIC_def encode_function_def sample_function_def
        encode_string_def)
  from truncated_program_rejected [OF sample_program_ok this] sample_program_ok show ?thesis
    by blast
qed

text \<open>The encoding is prefix-free: two well-formed programs whose encodings begin the same byte
  stream are the same program.\<close>

theorem encoding_prefix_free:
  assumes "program_ok p" "program_ok q" "encode_program p @ bs = encode_program q @ cs"
  shows "p = q \<and> bs = cs"
  using assms by (rule program_codec.enc_prefix_free)

lemma encoding_prefix_free_witness:
  "encode_program sample_program @ [1] \<noteq> encode_program sample_program @ [2]"
proof
  assume "encode_program sample_program @ [1] = encode_program sample_program @ [2]"
  from encoding_prefix_free [OF sample_program_ok sample_program_ok this] show False
    by simp
qed

subsection \<open>Tables\<close>

text \<open>The opcode and type bytes and their inverses are bijections between the opcodes (types)
  and the bytes accepted: each byte is accepted for one opcode (type) at most, its own.\<close>

theorem tag_tables_bijective:
  "(opcode_try_from b = Some op) = (b = opcode_byte op)
   \<and> (fasm_type_try_from b = Some t) = (b = fasm_type_byte t)"
  using opcode_try_from_iff fasm_type_byte_try_from by auto

subsection \<open>Strings that do not fit\<close>

text \<open>A string of 65536 bytes or more is corrupted: the length field holds the length modulo
  65536, the reader takes that many bytes, and the rest of the string is left to be read as
  whatever comes next.\<close>

theorem long_string_corrupted:
  assumes "2 ^ 16 \<le> length s" "utf8_valid (take (length s mod 2 ^ 16) s)"
  shows "\<exists>c. read_string (cursor_new (encode_string s @ post)) = Inr (take (length s mod 2 ^ 16) s, c)
    \<and> take (length s mod 2 ^ 16) s \<noteq> s \<and> drop (cur_pos c) (cur_data c) = drop (length s mod 2 ^ 16) s @ post"
proof -
  let ?m = "length s mod 2 ^ 16" and ?n = "of_nat (length s) :: u16"
  have "read_string (at [] (encode_string (take ?m s) @ drop ?m s @ post))
      = Inr (take ?m s, at ([] @ encode_string (take ?m s)) (drop ?m s @ post))"
    using assms(2) by (intro parses_full parses_string) (simp add: string_ok_def)
  moreover have "encode_string s @ post = encode_string (take ?m s) @ drop ?m s @ post"
  proof -
    have "?n = of_nat ?m"
      by (rule word_unat_eq_iff [THEN iffD2]) (simp add: unat_of_nat)
    then have "encode_string s = u16_le (of_nat ?m) @ take ?m s @ drop ?m s"
      by (simp add: encode_string_def)
    moreover have "length (take ?m s) = ?m"
      by (simp only: length_take min_absorb2 mod_less_eq_dividend)
    then have "encode_string (take ?m s) = u16_le (of_nat ?m) @ take ?m s"
      by (simp only: encode_string_def)
    ultimately show ?thesis
      by (simp only: append.assoc)
  qed
  ultimately have "read_string (cursor_new (encode_string s @ post))
      = Inr (take ?m s, at (encode_string (take ?m s)) (drop ?m s @ post))"
    by (simp only: at_Nil append_Nil)
  moreover have "length (take ?m s) \<noteq> length s"
    using assms(1) mod_less_divisor [of "2 ^ 16" "length s"] by simp
  ultimately show ?thesis
    by (auto simp: at_def)
qed

lemma long_string_corrupted_witness:
  "\<exists>c. read_string (cursor_new (encode_string (replicate 65536 0) @ [9])) = Inr ([], c)"
  using long_string_corrupted [of "replicate 65536 0" "[9]"] by (auto simp: utf8_valid_ascii)

end
