(* ===== verification/Fasm_Float.thy ===== *)
theory Fasm_Float
  imports Fasm_Prelude
begin

text \<open>
  The floating-point arithmetic of Rust's \<open>f32\<close> and \<open>f64\<close>, on IEEE-754 bit patterns: decoding to
  a sign, an integer mantissa and a binary exponent, exact rational arithmetic on those, and
  rounding to nearest, ties to even.  A result that is a NaN is the positive quiet NaN; Rust
  leaves the payload and the sign of such a NaN open.
\<close>

subsection \<open>Decoding\<close>

datatype fl = FNaN | FInf bool | FNum bool int int

definition fl_decode :: "int \<Rightarrow> int \<Rightarrow> bool \<Rightarrow> int \<Rightarrow> int \<Rightarrow> fl" where
  \<comment> \<open>\<open>emin\<close> is the exponent of a subnormal, \<open>hidden\<close> the implicit leading bit\<close>
  "fl_decode emin hidden s e f = (if e = 0 then FNum s f emin else FNum s (hidden + f) (emin + e - 1))"

definition f64_decode :: "u64 \<Rightarrow> fl" where
  "f64_decode w =
     (let s = bit w 63; e = uint (drop_bit 52 w AND 0x7FF); f = uint (w AND 0xFFFFFFFFFFFFF)
      in if e = 2047 then (if f = 0 then FInf s else FNaN) else fl_decode (- 1074) (2 ^ 52) s e f)"

definition f32_decode :: "u32 \<Rightarrow> fl" where
  "f32_decode w =
     (let s = bit w 31; e = uint (drop_bit 23 w AND 0xFF); f = uint (w AND 0x7FFFFF)
      in if e = 255 then (if f = 0 then FInf s else FNaN) else fl_decode (- 149) (2 ^ 23) s e f)"

subsection \<open>Rounding\<close>

function ilog2 :: "int \<Rightarrow> int" where
  "ilog2 n = (if n \<le> 1 then 0 else 1 + ilog2 (n div 2))"
  by pat_completeness auto
termination
  by (relation "measure nat") auto

declare ilog2.simps [simp del]

text \<open>
  \<open>round_bits p emin infb num den\<close>: the magnitude bits of the number nearest to \<open>num / den\<close>, with
  \<open>p\<close> bits of precision, least exponent \<open>emin\<close>, and \<open>infb\<close> the bits of infinity.
\<close>

definition scale :: "int \<Rightarrow> int \<Rightarrow> int \<Rightarrow> int \<times> int" where
  "scale num den e =
     (if 0 \<le> e then (num, den * 2 ^ nat e) else (num * 2 ^ nat (- e), den))"

definition round_quot :: "int \<times> int \<Rightarrow> int" where
  "round_quot nd =
     (let (n, d) = nd; q = n div d; r = n mod d
      in if 2 * r > d \<or> (2 * r = d \<and> odd q) then q + 1 else q)"

definition round_bits :: "nat \<Rightarrow> int \<Rightarrow> int \<Rightarrow> int \<Rightarrow> int \<Rightarrow> int" where
  "round_bits p emin infb num den =
     (let e0 = max emin (ilog2 num - ilog2 den - int p);
          (n, d) = scale num den e0;
          e = (if n div d \<ge> 2 ^ p then e0 + 1 else e0)
      in min infb ((e - emin) * 2 ^ (p - 1) + round_quot (scale num den e)))"

definition f64_pack :: "bool \<Rightarrow> int \<Rightarrow> u64" where
  "f64_pack s m = (if s then 0x8000000000000000 else 0) OR word_of_int m"

definition f32_pack :: "bool \<Rightarrow> int \<Rightarrow> u32" where
  "f32_pack s m = (if s then 0x80000000 else 0) OR word_of_int m"

definition frac :: "int \<Rightarrow> int \<Rightarrow> int \<times> int" where
  \<comment> \<open>\<open>m * 2 ^ e\<close> as a fraction\<close>
  "frac m e = (if 0 \<le> e then (m * 2 ^ nat e, 1) else (m, 2 ^ nat (- e)))"

definition f64_ratio :: "bool \<Rightarrow> int \<Rightarrow> int \<Rightarrow> u64" where
  "f64_ratio s n d =
     f64_pack s (if n = 0 then 0 else round_bits 53 (- 1074) 0x7FF0000000000000 n d)"

definition f32_ratio :: "bool \<Rightarrow> int \<Rightarrow> int \<Rightarrow> u32" where
  "f32_ratio s n d = f32_pack s (if n = 0 then 0 else round_bits 24 (- 149) 0x7F800000 n d)"

primrec f64_encode :: "fl \<Rightarrow> u64" where
  "f64_encode FNaN = 0x7FF8000000000000"
| "f64_encode (FInf s) = f64_pack s 0x7FF0000000000000"
| "f64_encode (FNum s m e) = (case frac m e of (n, d) \<Rightarrow> f64_ratio s n d)"

primrec f32_encode :: "fl \<Rightarrow> u32" where
  "f32_encode FNaN = 0x7FC00000"
| "f32_encode (FInf s) = f32_pack s 0x7F800000"
| "f32_encode (FNum s m e) = (case frac m e of (n, d) \<Rightarrow> f32_ratio s n d)"

subsection \<open>Arithmetic\<close>

definition signed :: "bool \<Rightarrow> int \<Rightarrow> int" where
  "signed s m = (if s then - m else m)"

fun fl_add :: "fl \<Rightarrow> fl \<Rightarrow> fl" where
  "fl_add (FNum s1 m1 e1) (FNum s2 m2 e2) =
     (let e = min e1 e2;
          v = signed s1 (m1 * 2 ^ nat (e1 - e)) + signed s2 (m2 * 2 ^ nat (e2 - e))
      in if v = 0 then FNum (s1 \<and> s2) 0 e else FNum (v < 0) \<bar>v\<bar> e)"
| "fl_add (FInf s1) (FInf s2) = (if s1 = s2 then FInf s1 else FNaN)"
| "fl_add (FInf s) (FNum _ _ _) = FInf s"
| "fl_add (FNum _ _ _) (FInf s) = FInf s"
| "fl_add _ _ = FNaN"

fun fl_neg :: "fl \<Rightarrow> fl" where
  "fl_neg (FNum s m e) = FNum (\<not> s) m e"
| "fl_neg (FInf s) = FInf (\<not> s)"
| "fl_neg FNaN = FNaN"

fun fl_mul :: "fl \<Rightarrow> fl \<Rightarrow> fl" where
  "fl_mul (FNum s1 m1 e1) (FNum s2 m2 e2) = FNum (s1 \<noteq> s2) (m1 * m2) (e1 + e2)"
| "fl_mul (FInf s1) (FInf s2) = FInf (s1 \<noteq> s2)"
| "fl_mul (FInf s1) (FNum s2 m _) = (if m = 0 then FNaN else FInf (s1 \<noteq> s2))"
| "fl_mul (FNum s1 m _) (FInf s2) = (if m = 0 then FNaN else FInf (s1 \<noteq> s2))"
| "fl_mul _ _ = FNaN"

text \<open>A quotient need not be a dyadic number, so it is rounded from a fraction.\<close>

fun f64_div_fl :: "fl \<Rightarrow> fl \<Rightarrow> u64" where
  "f64_div_fl (FNum s1 m1 e1) (FNum s2 m2 e2) =
     (if m2 = 0 then f64_encode (if m1 = 0 then FNaN else FInf (s1 \<noteq> s2))
      else case frac m1 (e1 - e2) of (n, d) \<Rightarrow> f64_ratio (s1 \<noteq> s2) n (d * m2))"
| "f64_div_fl (FInf s1) (FNum s2 _ _) = f64_encode (FInf (s1 \<noteq> s2))"
| "f64_div_fl (FNum s1 _ _) (FInf s2) = f64_encode (FNum (s1 \<noteq> s2) 0 0)"
| "f64_div_fl _ _ = f64_encode FNaN"

fun fl_rem :: "fl \<Rightarrow> fl \<Rightarrow> fl" where
  "fl_rem (FNum s1 m1 e1) (FNum s2 m2 e2) =
     (if m2 = 0 then FNaN
      else let e = min e1 e2
           in FNum s1 ((m1 * 2 ^ nat (e1 - e)) mod (m2 * 2 ^ nat (e2 - e))) e)"
| "fl_rem (FNum s1 m1 e1) (FInf s2) = FNum s1 m1 e1"
| "fl_rem _ _ = FNaN"

definition f64_add :: "u64 \<Rightarrow> u64 \<Rightarrow> u64" where
  "f64_add a b = f64_encode (fl_add (f64_decode a) (f64_decode b))"

definition f64_sub :: "u64 \<Rightarrow> u64 \<Rightarrow> u64" where
  "f64_sub a b = f64_encode (fl_add (f64_decode a) (fl_neg (f64_decode b)))"

definition f64_mul :: "u64 \<Rightarrow> u64 \<Rightarrow> u64" where
  "f64_mul a b = f64_encode (fl_mul (f64_decode a) (f64_decode b))"

definition f64_div :: "u64 \<Rightarrow> u64 \<Rightarrow> u64" where
  "f64_div a b = f64_div_fl (f64_decode a) (f64_decode b)"

definition f64_rem :: "u64 \<Rightarrow> u64 \<Rightarrow> u64" where
  "f64_rem a b = f64_encode (fl_rem (f64_decode a) (f64_decode b))"

text \<open>Negation flips the sign bit, of a NaN too.\<close>

definition f64_neg :: "u64 \<Rightarrow> u64" where "f64_neg w = w XOR 0x8000000000000000"
definition f32_neg :: "u32 \<Rightarrow> u32" where "f32_neg w = w XOR 0x80000000"

subsection \<open>Comparison\<close>

fun fl_less :: "fl \<Rightarrow> fl \<Rightarrow> bool" where
  "fl_less (FNum s1 m1 e1) (FNum s2 m2 e2) =
     (let e = min e1 e2
      in signed s1 (m1 * 2 ^ nat (e1 - e)) < signed s2 (m2 * 2 ^ nat (e2 - e)))"
| "fl_less (FInf s1) (FInf s2) = (s1 \<and> \<not> s2)"
| "fl_less (FInf s) (FNum _ _ _) = s"
| "fl_less (FNum _ _ _) (FInf s) = (\<not> s)"
| "fl_less _ _ = False"

fun fl_eq :: "fl \<Rightarrow> fl \<Rightarrow> bool" where
  "fl_eq FNaN _ = False"
| "fl_eq _ FNaN = False"
| "fl_eq a b = (\<not> fl_less a b \<and> \<not> fl_less b a)"

definition f64_eq :: "u64 \<Rightarrow> u64 \<Rightarrow> bool" where
  "f64_eq a b = fl_eq (f64_decode a) (f64_decode b)"

definition f32_eq :: "u32 \<Rightarrow> u32 \<Rightarrow> bool" where
  "f32_eq a b = fl_eq (f32_decode a) (f32_decode b)"

definition f64_lt :: "u64 \<Rightarrow> u64 \<Rightarrow> bool" where
  "f64_lt a b = fl_less (f64_decode a) (f64_decode b)"

definition f64_le :: "u64 \<Rightarrow> u64 \<Rightarrow> bool" where
  "f64_le a b = (f64_lt a b \<or> f64_eq a b)"

subsection \<open>Conversions\<close>

definition f64_of_f32 :: "u32 \<Rightarrow> u64" where
  "f64_of_f32 w = f64_encode (f32_decode w)"

definition f32_of_f64 :: "u64 \<Rightarrow> u32" where
  "f32_of_f64 w = f32_encode (f64_decode w)"

definition f64_of_i64 :: "i64 \<Rightarrow> u64" where
  "f64_of_i64 w = f64_ratio (sint w < 0) \<bar>sint w\<bar> 1"

text \<open>\<open>as i64\<close> truncates towards zero, saturates, and sends NaN to zero.\<close>

fun fl_to_i64 :: "fl \<Rightarrow> i64" where
  "fl_to_i64 FNaN = 0"
| "fl_to_i64 (FInf s) = word_of_int (if s then - (2 ^ 63) else 2 ^ 63 - 1)"
| "fl_to_i64 (FNum s m e) =
     (let v = signed s (case frac m e of (n, d) \<Rightarrow> n div d)
      in word_of_int (max (- (2 ^ 63)) (min (2 ^ 63 - 1) v)))"

definition i64_of_f64 :: "u64 \<Rightarrow> i64" where "i64_of_f64 w = fl_to_i64 (f64_decode w)"
definition i64_of_f32 :: "u32 \<Rightarrow> i64" where "i64_of_f32 w = fl_to_i64 (f32_decode w)"

text \<open>\<open>f != 0.0\<close>: true of NaN, false of both zeros.\<close>

definition f64_nonzero :: "u64 \<Rightarrow> bool" where
  "f64_nonzero w \<longleftrightarrow> w AND 0x7FFFFFFFFFFFFFFF \<noteq> 0"

definition f32_nonzero :: "u32 \<Rightarrow> bool" where
  "f32_nonzero w \<longleftrightarrow> w AND 0x7FFFFFFF \<noteq> 0"

subsection \<open>Laws\<close>

lemma f64_neg_involutive [simp]: "f64_neg (f64_neg w) = w"
  by (simp add: f64_neg_def xor.assoc)

lemma f32_neg_involutive [simp]: "f32_neg (f32_neg w) = w"
  by (simp add: f32_neg_def xor.assoc)

lemma fl_less_irrefl [simp]: "\<not> fl_less a a"
  by (cases a) (auto simp: Let_def)

lemma fl_eq_sym: "fl_eq a b = fl_eq b a"
  by (cases a; cases b) (auto simp: min.commute Let_def)

lemma fl_add_comm: "fl_add a b = fl_add b a"
  by (cases a; cases b) (auto simp: Let_def min.commute add.commute)

lemma fl_mul_comm: "fl_mul a b = fl_mul b a"
  by (cases a; cases b) (auto simp: Let_def mult.commute add.commute)

lemma f64_add_comm: "f64_add a b = f64_add b a"
  unfolding f64_add_def using fl_add_comm by metis

lemma f64_mul_comm: "f64_mul a b = f64_mul b a"
  unfolding f64_mul_def using fl_mul_comm by metis

lemma f64_eq_refl_iff: "f64_eq w w \<longleftrightarrow> f64_decode w \<noteq> FNaN"
  unfolding f64_eq_def by (cases "f64_decode w") auto

lemma f32_eq_refl_iff: "f32_eq w w \<longleftrightarrow> f32_decode w \<noteq> FNaN"
  unfolding f32_eq_def by (cases "f32_decode w") auto

end
