(* ===== verification/Fasm_FloatText.thy ===== *)
theory Fasm_FloatText
  imports Fasm_Float Fasm_Text
begin

text \<open>
  Rust's \<open>Display\<close> of \<open>f32\<close> and \<open>f64\<close>, which the \<open>PRINT\<close> system call uses: the shortest decimal
  that reads back as the same number (of several, the nearest), written without an exponent.
\<close>

definition ascii :: "string \<Rightarrow> bytes" where
  "ascii s = map of_char s"

subsection \<open>Decimal exponent and digits\<close>

primrec dec_exp_small :: "nat \<Rightarrow> int \<Rightarrow> int \<Rightarrow> int" where
  \<comment> \<open>for \<open>0 < n < d\<close>; the least positive \<open>f64\<close> needs 324 rounds\<close>
  "dec_exp_small 0 n d = 0"
| "dec_exp_small (Suc fuel) n d = (if n \<ge> d then 0 else dec_exp_small fuel (10 * n) d - 1)"

definition dec_exp :: "int \<Rightarrow> int \<Rightarrow> int" where
  \<comment> \<open>\<open>10 ^ dec_exp n d \<le> n / d < 10 ^ (dec_exp n d + 1)\<close>\<close>
  "dec_exp n d =
     (if n \<ge> d then int (length (nat_digits (nat (n div d)))) - 1 else dec_exp_small 330 n d)"

definition dec_ratio :: "int \<Rightarrow> int \<Rightarrow> int \<times> int" where
  \<comment> \<open>\<open>c * 10 ^ s\<close> as a fraction\<close>
  "dec_ratio c s = (if 0 \<le> s then (c * 10 ^ nat s, 1) else (c, 10 ^ nat (- s)))"

definition dec_pick :: "(int \<Rightarrow> int \<Rightarrow> bool) \<Rightarrow> int \<Rightarrow> int \<Rightarrow> int \<Rightarrow> int option" where
  \<comment> \<open>the multiple of \<open>10 ^ s\<close> nearest to \<open>n / d\<close> among its two neighbours that read back\<close>
  "dec_pick reads n d s =
     (let (n', d') = dec_ratio n (- s);
          q = n' div (d * d'); r = n' mod (d * d');
          ok = (\<lambda>c. case dec_ratio c s of (a, b) \<Rightarrow> reads a b)
      in if ok q \<and> (2 * r \<le> d * d' \<or> \<not> ok (q + 1)) then Some q
         else if ok (q + 1) then Some (q + 1) else None)"

fun dec_search :: "(int \<Rightarrow> int \<Rightarrow> bool) \<Rightarrow> int \<Rightarrow> int \<Rightarrow> int \<Rightarrow> nat list \<Rightarrow> int \<times> int" where
  "dec_search reads n d e [] = (0, 0)"
| "dec_search reads n d e (k # ks) =
     (case dec_pick reads n d (e - int k) of
        Some c \<Rightarrow> (c, e - int k)
      | None \<Rightarrow> dec_search reads n d e ks)"

subsection \<open>Layout\<close>

definition pad_zeros :: "nat \<Rightarrow> bytes \<Rightarrow> bytes" where
  "pad_zeros n bs = replicate (n - length bs) 48 @ bs"

definition strip_zeros :: "bytes \<Rightarrow> bytes" where
  "strip_zeros bs = rev (dropWhile (\<lambda>b. b = 48) (rev bs))"

definition dec_layout :: "int \<Rightarrow> int \<Rightarrow> bytes" where
  "dec_layout c s =
     (if 0 \<le> s then nat_digits (nat c) @ replicate (nat s) 48
      else let p = 10 ^ nat (- s);
               whole = nat_digits (nat (c div p));
               part = strip_zeros (pad_zeros (nat (- s)) (nat_digits (nat (c mod p))))
           in if part = [] then whole else whole @ [46] @ part)"

definition show_fl :: "(int \<Rightarrow> int \<Rightarrow> bool) \<Rightarrow> nat \<Rightarrow> fl \<Rightarrow> bytes" where
  "show_fl reads digits x = (case x of
      FNaN \<Rightarrow> ascii ''NaN''
    | FInf s \<Rightarrow> (if s then [45] else []) @ ascii ''inf''
    | FNum s m e \<Rightarrow> (if s then [45] else []) @
        (if m = 0 then [48]
         else case frac m e of (n, d) \<Rightarrow>
           (case dec_search reads n d (dec_exp n d) [0..<digits] of (c, t) \<Rightarrow> dec_layout c t)))"

definition show_f64 :: "u64 \<Rightarrow> bytes" where
  "show_f64 w = show_fl (\<lambda>n d. f64_ratio (bit w 63) n d = w) 17 (f64_decode w)"

definition show_f32 :: "u32 \<Rightarrow> bytes" where
  "show_f32 w = show_fl (\<lambda>n d. f32_ratio (bit w 31) n d = w) 9 (f32_decode w)"

end
