(* ===== verification/Fasm_Collections.thy ===== *)
theory Fasm_Collections
  imports Fasm_Prelude "HOL-Library.AList"
begin

text \<open>
  The keyed collections of \<open>crates/fasm-vm/src/value.rs\<close>: \<open>FasmStruct\<close> (an insertion-ordered
  vector of pairs), \<open>FasmSparse\<close> (a hash map, modelled by its pairs in no particular order) and
  \<open>FasmBTree\<close> (an ordered map, modelled by its pairs in key order).  The locale \<open>keyed_map\<close> is
  what the instructions that use them rely on; all three are instances.
\<close>

subsection \<open>The interface\<close>

locale keyed_map =
  fixes get :: "'m \<Rightarrow> 'k \<Rightarrow> 'v option"
    and insert :: "'k \<Rightarrow> 'v \<Rightarrow> 'm \<Rightarrow> 'm"
    and remove :: "'k \<Rightarrow> 'm \<Rightarrow> 'm"
    and contains :: "'m \<Rightarrow> 'k \<Rightarrow> bool"
    and len :: "'m \<Rightarrow> nat"
    and inv :: "'m \<Rightarrow> bool"
    and empty :: 'm
  assumes get_empty: "get empty k = None"
    and get_insert: "inv m \<Longrightarrow> get (insert k v m) k' = (if k' = k then Some v else get m k')"
    and get_remove: "inv m \<Longrightarrow> get (remove k m) k' = (if k' = k then None else get m k')"
    and contains_get: "contains m k \<longleftrightarrow> get m k \<noteq> None"
    and len_dom: "inv m \<Longrightarrow> len m = card (dom (get m))"
    and finite_dom: "finite (dom (get m))"
    and inv_empty: "inv empty"
    and inv_insert: "inv m \<Longrightarrow> inv (insert k v m)"
    and inv_remove: "inv m \<Longrightarrow> inv (remove k m)"
begin

lemma get_insert_same: "inv m \<Longrightarrow> get (insert k v m) k = Some v"
  by (simp add: get_insert)

lemma get_insert_other: "inv m \<Longrightarrow> k' \<noteq> k \<Longrightarrow> get (insert k v m) k' = get m k'"
  by (simp add: get_insert)

lemma get_insert_insert: "inv m \<Longrightarrow> get (insert k v (insert k u m)) = get (insert k v m)"
  by (auto simp: get_insert inv_insert)

lemma get_remove_insert: "inv m \<Longrightarrow> get m k = None \<Longrightarrow> get (remove k (insert k v m)) = get m"
  by (auto simp: get_insert get_remove inv_insert)

lemma contains_insert: "inv m \<Longrightarrow> contains (insert k v m) k' \<longleftrightarrow> k' = k \<or> contains m k'"
  by (simp add: contains_get get_insert)

lemma contains_remove: "inv m \<Longrightarrow> contains (remove k m) k' \<longleftrightarrow> k' \<noteq> k \<and> contains m k'"
  by (simp add: contains_get get_remove)

lemma len_insert: "inv m \<Longrightarrow> len (insert k v m) = (if contains m k then len m else Suc (len m))"
proof -
  assume m: "inv m"
  then have "dom (get (insert k v m)) = Set.insert k (dom (get m))"
    by (auto simp: get_insert)
  with m show ?thesis
    by (simp add: len_dom inv_insert contains_get finite_dom card_insert_if domIff)
qed

lemma len_remove: "inv m \<Longrightarrow> len (remove k m) = (if contains m k then len m - 1 else len m)"
proof -
  assume m: "inv m"
  then have "dom (get (remove k m)) = dom (get m) - {k}"
    by (auto simp: get_remove split: if_splits)
  with m show ?thesis
    by (simp add: len_dom inv_remove contains_get finite_dom card_Diff_singleton_if domIff)
qed

end

subsection \<open>Structs\<close>

definition struct_get :: "('k \<times> 'v) list \<Rightarrow> 'k \<Rightarrow> 'v option" where
  "struct_get s key = map_option snd (List.find (\<lambda>(k, _). k = key) s)"

fun struct_insert :: "'k \<Rightarrow> 'v \<Rightarrow> ('k \<times> 'v) list \<Rightarrow> ('k \<times> 'v) list" where
  "struct_insert key val [] = [(key, val)]"
| "struct_insert key val ((k, v) # s) =
     (if k = key then (k, val) # s else (k, v) # struct_insert key val s)"

definition struct_contains :: "('k \<times> 'v) list \<Rightarrow> 'k \<Rightarrow> bool" where
  "struct_contains s key = list_ex (\<lambda>(k, _). k = key) s"

fun struct_remove :: "'k \<Rightarrow> ('k \<times> 'v) list \<Rightarrow> ('k \<times> 'v) list" where
  "struct_remove key [] = []"
| "struct_remove key ((k, v) # s) = (if k = key then s else (k, v) # struct_remove key s)"

definition keys_distinct :: "('k \<times> 'v) list \<Rightarrow> bool" where
  "keys_distinct s \<longleftrightarrow> distinct (map fst s)"

lemma struct_get_map_of: "struct_get s = map_of s"
proof
  show "struct_get s k = map_of s k" for k
    by (induction s) (auto simp: struct_get_def)
qed

lemma struct_get_simps [simp]:
  "struct_get [] key = None"
  "struct_get ((k, v) # s) key = (if k = key then Some v else struct_get s key)"
  by (auto simp: struct_get_def)

lemma struct_contains_iff: "struct_contains s k \<longleftrightarrow> k \<in> fst ` set s"
  by (force simp: struct_contains_def list_ex_iff)

lemma fst_set_struct_insert [simp]: "fst ` set (struct_insert k v s) = Set.insert k (fst ` set s)"
  by (induction k v s rule: struct_insert.induct) auto

lemma set_struct_remove: "set (struct_remove k s) \<subseteq> set s"
  by (induction k s rule: struct_remove.induct) auto

lemma struct_get_insert:
  "struct_get (struct_insert k v s) k' = (if k' = k then Some v else struct_get s k')"
  by (induction k v s rule: struct_insert.induct) auto

lemma struct_get_None: "k \<notin> fst ` set s \<Longrightarrow> struct_get s k = None"
  by (induction s) auto

lemma struct_get_remove:
  "keys_distinct s \<Longrightarrow> struct_get (struct_remove k s) k' = (if k' = k then None else struct_get s k')"
  by (induction k s rule: struct_remove.induct) (auto simp: keys_distinct_def struct_get_None)

lemma keys_distinct_insert: "keys_distinct s \<Longrightarrow> keys_distinct (struct_insert k v s)"
  by (induction k v s rule: struct_insert.induct) (auto simp: keys_distinct_def)

lemma keys_distinct_remove: "keys_distinct s \<Longrightarrow> keys_distinct (struct_remove k s)"
  using set_struct_remove
  by (induction k s rule: struct_remove.induct) (fastforce simp: keys_distinct_def)+

lemma keys_distinct_Nil [simp]: "keys_distinct []"
  by (simp add: keys_distinct_def)

lemma length_keys_distinct: "keys_distinct s \<Longrightarrow> length s = card (dom (map_of s))"
  by (metis dom_map_of_conv_image_fst keys_distinct_def distinct_card length_map set_map)

interpretation struct_map: keyed_map struct_get struct_insert struct_remove struct_contains
  length keys_distinct "[]"
proof unfold_locales
  fix m :: "('k \<times> 'v) list" and k
  show "struct_contains m k \<longleftrightarrow> struct_get m k \<noteq> None"
    by (simp add: struct_contains_iff struct_get_map_of map_of_eq_None_iff)
  show "keys_distinct m \<Longrightarrow> length m = card (dom (struct_get m))"
    by (simp add: struct_get_map_of length_keys_distinct)
  show "finite (dom (struct_get m))"
    by (simp add: struct_get_map_of finite_dom_map_of)
qed (simp_all add: struct_get_insert struct_get_remove keys_distinct_insert keys_distinct_remove)

subsection \<open>Sparse arrays\<close>

definition sparse_get :: "('k \<times> 'v) list \<Rightarrow> 'k \<Rightarrow> 'v option" where
  "sparse_get m key = map_of m key"

definition sparse_insert :: "'k \<Rightarrow> 'v \<Rightarrow> ('k \<times> 'v) list \<Rightarrow> ('k \<times> 'v) list" where
  "sparse_insert key val m = AList.update key val m"

definition sparse_remove :: "'k \<Rightarrow> ('k \<times> 'v) list \<Rightarrow> ('k \<times> 'v) list" where
  "sparse_remove key m = AList.delete key m"

definition sparse_contains :: "('k \<times> 'v) list \<Rightarrow> 'k \<Rightarrow> bool" where
  "sparse_contains m key = (sparse_get m key \<noteq> None)"

definition sparse_len :: "('k \<times> 'v) list \<Rightarrow> nat" where
  "sparse_len m = length m"

definition sparse_is_empty :: "('k \<times> 'v) list \<Rightarrow> bool" where
  "sparse_is_empty m = (m = [])"

lemma sparse_get_map_of: "sparse_get = map_of"
  by (simp add: fun_eq_iff sparse_get_def)

interpretation sparse_map: keyed_map sparse_get sparse_insert sparse_remove sparse_contains
  sparse_len keys_distinct "[]"
proof unfold_locales
  fix m :: "('k \<times> 'v) list" and k v
  show "keys_distinct m \<Longrightarrow> keys_distinct (sparse_insert k v m)"
    by (simp add: keys_distinct_def sparse_insert_def distinct_update)
  show "keys_distinct m \<Longrightarrow> keys_distinct (sparse_remove k m)"
    by (simp add: keys_distinct_def sparse_remove_def distinct_delete)
qed (simp_all add: sparse_get_map_of sparse_insert_def sparse_remove_def sparse_contains_def
    sparse_len_def update_conv' delete_conv' finite_dom_map_of length_keys_distinct)

subsection \<open>Ordered maps\<close>

definition btree_get :: "('k \<times> 'v) list \<Rightarrow> 'k \<Rightarrow> 'v option" where
  "btree_get m key = map_of m key"

fun btree_insert :: "'k::linorder \<Rightarrow> 'v \<Rightarrow> ('k \<times> 'v) list \<Rightarrow> ('k \<times> 'v) list" where
  "btree_insert key val [] = [(key, val)]"
| "btree_insert key val ((k, v) # m) =
     (if key < k then (key, val) # (k, v) # m
      else if key = k then (k, val) # m
      else (k, v) # btree_insert key val m)"

definition btree_remove :: "'k \<Rightarrow> ('k \<times> 'v) list \<Rightarrow> ('k \<times> 'v) list" where
  "btree_remove key m = filter (\<lambda>(k, _). k \<noteq> key) m"

definition btree_contains :: "('k \<times> 'v) list \<Rightarrow> 'k \<Rightarrow> bool" where
  "btree_contains m key = (btree_get m key \<noteq> None)"

definition btree_len :: "('k \<times> 'v) list \<Rightarrow> nat" where
  "btree_len m = length m"

definition btree_is_empty :: "('k \<times> 'v) list \<Rightarrow> bool" where
  "btree_is_empty m = (m = [])"

text \<open>The first and the last key in iteration order.\<close>

definition btree_min_key :: "('k \<times> 'v) list \<Rightarrow> 'k option" where
  "btree_min_key m = (case m of [] \<Rightarrow> None | (k, _) # _ \<Rightarrow> Some k)"

definition btree_max_key :: "('k \<times> 'v) list \<Rightarrow> 'k option" where
  "btree_max_key m = (if m = [] then None else Some (fst (last m)))"

definition keys_ordered :: "('k::linorder \<times> 'v) list \<Rightarrow> bool" where
  "keys_ordered m \<longleftrightarrow> sorted_wrt (<) (map fst m)"

lemma fst_set_btree_insert [simp]: "fst ` set (btree_insert k v m) = Set.insert k (fst ` set m)"
  by (induction k v m rule: btree_insert.induct) auto

lemma keys_ordered_Cons:
  "keys_ordered ((k, v) # m) \<longleftrightarrow> (\<forall>k' \<in> fst ` set m. k < k') \<and> keys_ordered m"
  by (simp add: keys_ordered_def)

lemma keys_ordered_insert: "keys_ordered m \<Longrightarrow> keys_ordered (btree_insert k v m)"
proof (induction k v m rule: btree_insert.induct)
  case (2 key val k v m)
  consider "key < k" | "key = k" | "k < key"
    by fastforce
  then show ?case
  proof cases
    case 1
    then show ?thesis
      using "2.prems" by (auto simp: keys_ordered_Cons)
  next
    case 2
    then show ?thesis
      using "2.prems" by (simp add: keys_ordered_Cons)
  next
    case 3
    then have "keys_ordered (btree_insert key val m)"
      using 2 by (simp add: keys_ordered_Cons)
    then show ?thesis
      using 3 "2.prems" by (auto simp: keys_ordered_Cons)
  qed
qed (simp add: keys_ordered_def)

lemma keys_ordered_remove: "keys_ordered m \<Longrightarrow> keys_ordered (btree_remove k m)"
  by (auto simp: keys_ordered_def btree_remove_def sorted_wrt_map sorted_wrt_filter)

lemma keys_ordered_distinct: "keys_ordered m \<Longrightarrow> keys_distinct m"
  by (simp add: keys_ordered_def keys_distinct_def strict_sorted_iff)

lemma btree_get_insert:
  "keys_ordered m \<Longrightarrow> btree_get (btree_insert k v m) k' = (if k' = k then Some v else btree_get m k')"
  by (induction k v m rule: btree_insert.induct)
    (auto simp: btree_get_def keys_ordered_def)

lemma btree_get_remove: "btree_get (btree_remove k m) k' = (if k' = k then None else btree_get m k')"
  unfolding btree_get_def btree_remove_def by (induction m) auto

locale ordered_map = keyed_map get insert remove contains len inv empty
  for get :: "'m \<Rightarrow> 'k::linorder \<Rightarrow> 'v option" and insert remove contains len inv empty +
  fixes min_key :: "'m \<Rightarrow> 'k option" and max_key :: "'m \<Rightarrow> 'k option"
  assumes min_key_None: "min_key m = None \<longleftrightarrow> (\<forall>k. get m k = None)"
    and max_key_None: "max_key m = None \<longleftrightarrow> (\<forall>k. get m k = None)"
    and min_key_Some: "inv m \<Longrightarrow> min_key m = Some k \<Longrightarrow> get m k \<noteq> None \<and> (\<forall>k'. get m k' \<noteq> None \<longrightarrow> k \<le> k')"
    and max_key_Some: "inv m \<Longrightarrow> max_key m = Some k \<Longrightarrow> get m k \<noteq> None \<and> (\<forall>k'. get m k' \<noteq> None \<longrightarrow> k' \<le> k)"
begin

lemma min_le_max: "inv m \<Longrightarrow> min_key m = Some a \<Longrightarrow> max_key m = Some b \<Longrightarrow> a \<le> b"
  using min_key_Some max_key_Some by blast

lemma min_key_Min: "inv m \<Longrightarrow> min_key m = Some k \<Longrightarrow> k = Min (dom (get m))"
  using min_key_Some [of m k] by (intro Min_eqI [symmetric]) (auto simp: finite_dom)

lemma max_key_Max: "inv m \<Longrightarrow> max_key m = Some k \<Longrightarrow> k = Max (dom (get m))"
  using max_key_Some [of m k] by (intro Max_eqI [symmetric]) (auto simp: finite_dom)

lemma min_key_insert: "inv m \<Longrightarrow> (\<And>k'. get m k' \<noteq> None \<Longrightarrow> k \<le> k') \<Longrightarrow> min_key (insert k v m) = Some k"
proof -
  assume m: "inv m" and least: "\<And>k'. get m k' \<noteq> None \<Longrightarrow> k \<le> k'"
  obtain k0 where k0: "min_key (insert k v m) = Some k0"
    using min_key_None [of "insert k v m"] get_insert_same [OF m, of k v]
    by (cases "min_key (insert k v m)") auto
  have "k0 \<le> k" and "k \<le> k0"
    using min_key_Some [OF inv_insert [OF m] k0] m least by (auto simp: get_insert split: if_splits)
  with k0 show ?thesis by simp
qed

end

lemma btree_get_map_of: "btree_get = map_of"
  by (simp add: fun_eq_iff btree_get_def)

lemma btree_keys: "btree_get m k \<noteq> None \<longleftrightarrow> k \<in> fst ` set m"
  by (simp add: btree_get_def map_of_eq_None_iff)

interpretation btree_map: ordered_map btree_get btree_insert btree_remove btree_contains
  btree_len keys_ordered "[]" btree_min_key btree_max_key
proof unfold_locales
  fix m :: "('k::linorder \<times> 'v) list" and k
  show "btree_min_key m = None \<longleftrightarrow> (\<forall>k. btree_get m k = None)"
    by (cases m) (auto simp: btree_min_key_def btree_get_def)
  show "btree_max_key m = None \<longleftrightarrow> (\<forall>k. btree_get m k = None)"
    by (cases m) (auto simp: btree_max_key_def btree_get_def)
  show "keys_ordered m \<Longrightarrow> btree_min_key m = Some k \<Longrightarrow>
      btree_get m k \<noteq> None \<and> (\<forall>k'. btree_get m k' \<noteq> None \<longrightarrow> k \<le> k')"
    unfolding btree_keys
    by (cases m) (auto simp: btree_min_key_def keys_ordered_def intro: less_imp_le)
  show "keys_ordered m \<Longrightarrow> btree_max_key m = Some k \<Longrightarrow>
      btree_get m k \<noteq> None \<and> (\<forall>k'. btree_get m k' \<noteq> None \<longrightarrow> k' \<le> k)"
    unfolding btree_keys
    by (cases m rule: rev_cases)
      (auto simp: btree_max_key_def keys_ordered_def sorted_wrt_append intro: less_imp_le)
  show "keys_ordered m \<Longrightarrow> btree_len m = card (dom (btree_get m))"
    by (simp add: btree_len_def btree_get_map_of length_keys_distinct keys_ordered_distinct)
  show "finite (dom (btree_get m))"
    by (simp add: btree_get_map_of finite_dom_map_of)
qed (simp_all add: btree_get_insert btree_get_remove btree_contains_def btree_get_def [of "[]"]
    keys_ordered_insert keys_ordered_remove keys_ordered_def [of "[]"])

end
