(* ===== verification/Fasm_Bits.thy ===== *)
theory Fasm_Bits
  imports Fasm_Prelude
begin

text \<open>
  The bit-addressed collections of \<open>crates/fasm-vm/src/value.rs\<close>: \<open>FasmBitset\<close> and \<open>FasmBitvec\<close>,
  with the three in-place combinations of bitsets that the executor performs.  An operation that
  can index its byte vector out of range returns an option, with \<open>None\<close> for Rust's panic.  The
  specification of a byte vector is the set of its bits, \<open>bits_of\<close>.
\<close>

subsection \<open>Bits of a byte vector\<close>

definition byte_bit :: "bytes \<Rightarrow> nat \<Rightarrow> bool" where
  "byte_bit bs i \<longleftrightarrow> i div 8 < length bs \<and> bit (bs ! (i div 8)) (i mod 8)"

definition bits_of :: "bytes \<Rightarrow> nat set" where
  "bits_of bs = {i. byte_bit bs i}"

definition mask :: "nat \<Rightarrow> u8" where
  "mask j = push_bit j 1"

definition set_at :: "nat \<Rightarrow> nat \<Rightarrow> bytes \<Rightarrow> bytes" where
  "set_at k j bs = bs[k := bs ! k OR mask j]"

definition clr_at :: "nat \<Rightarrow> nat \<Rightarrow> bytes \<Rightarrow> bytes" where
  "clr_at k j bs = bs[k := bs ! k AND NOT (mask j)]"

definition flip_at :: "nat \<Rightarrow> nat \<Rightarrow> bytes \<Rightarrow> bytes" where
  "flip_at k j bs = bs[k := bs ! k XOR mask j]"

lemma bit_mask: "bit (mask j) n \<longleftrightarrow> n = j \<and> n < 8"
  by (auto simp: mask_def bit_simps)

lemma length_at [simp]:
  "length (set_at k j bs) = length bs" "length (clr_at k j bs) = length bs"
  "length (flip_at k j bs) = length bs"
  by (simp_all add: set_at_def clr_at_def flip_at_def)

lemma div_mod_8: "j < 8 \<Longrightarrow> i = 8 * k + j \<longleftrightarrow> i div 8 = k \<and> i mod 8 = (j :: nat)"
  by auto

lemma byte_bit_set_at:
  "k < length bs \<Longrightarrow> j < 8 \<Longrightarrow> byte_bit (set_at k j bs) i \<longleftrightarrow> i = 8 * k + j \<or> byte_bit bs i"
  by (auto simp: byte_bit_def set_at_def nth_list_update bit_simps bit_mask div_mod_8)

lemma byte_bit_clr_at:
  "k < length bs \<Longrightarrow> j < 8 \<Longrightarrow> byte_bit (clr_at k j bs) i \<longleftrightarrow> i \<noteq> 8 * k + j \<and> byte_bit bs i"
  by (auto simp: byte_bit_def clr_at_def nth_list_update bit_simps bit_mask div_mod_8)

lemma byte_bit_flip_at:
  "k < length bs \<Longrightarrow> j < 8 \<Longrightarrow>
     byte_bit (flip_at k j bs) i \<longleftrightarrow> (if i = 8 * k + j then \<not> byte_bit bs i else byte_bit bs i)"
  by (auto simp: byte_bit_def flip_at_def nth_list_update bit_simps bit_mask div_mod_8)

lemma byte_bit_resize [simp]: "byte_bit (resize_to n 0 bs) i \<longleftrightarrow> byte_bit bs i"
  by (auto simp: byte_bit_def nth_resize_to split: if_splits)

lemma byte_bit_bound: "byte_bit bs i \<Longrightarrow> i < 8 * length bs"
  by (auto simp: byte_bit_def)

lemma bits_of_iff [simp]: "i \<in> bits_of bs \<longleftrightarrow> byte_bit bs i"
  by (simp add: bits_of_def)

lemma bits_of_set_at:
  "k < length bs \<Longrightarrow> j < 8 \<Longrightarrow> bits_of (set_at k j bs) = insert (8 * k + j) (bits_of bs)"
  by (rule set_eqI) (simp add: byte_bit_set_at)

lemma bits_of_clr_at:
  "k < length bs \<Longrightarrow> j < 8 \<Longrightarrow> bits_of (clr_at k j bs) = bits_of bs - {8 * k + j}"
  by (rule set_eqI) (simp add: byte_bit_clr_at conj_commute)

lemma bits_of_flip_at:
  "k < length bs \<Longrightarrow> j < 8 \<Longrightarrow>
     bits_of (flip_at k j bs) =
       (if byte_bit bs (8 * k + j) then bits_of bs - {8 * k + j} else insert (8 * k + j) (bits_of bs))"
  by (rule set_eqI) (simp add: byte_bit_flip_at)

lemma finite_bits_of [simp]: "finite (bits_of bs)"
  by (rule finite_subset [of _ "{..< 8 * length bs}"]) (auto simp: bits_of_def byte_bit_bound)

definition div_ceil8 :: "nat \<Rightarrow> nat" where
  "div_ceil8 n = (n + 7) div 8"

lemma div_ceil8_le: "div_ceil8 n \<le> m \<longleftrightarrow> n \<le> 8 * m"
  by (auto simp: div_ceil8_def)

lemma div_less_div_ceil8: "i < n \<Longrightarrow> i div 8 < div_ceil8 n"
  by (auto simp: div_ceil8_def)

subsection \<open>Bitset\<close>

record bitset =
  bs_bytes :: bytes
  bs_len :: u32

definition bitset_default :: bitset where
  "bitset_default = \<lparr>bs_bytes = [], bs_len = 0\<rparr>"

definition bitset_new :: "u32 \<Rightarrow> bitset" where
  "bitset_new n = \<lparr>bs_bytes = replicate (div_ceil8 (unat n)) 0, bs_len = n\<rparr>"

definition grow_to :: "u32 \<Rightarrow> bitset \<Rightarrow> bitset" where
  "grow_to n b =
     (let b' = (if div_ceil8 (unat n) > length (bs_bytes b)
                then b\<lparr>bs_bytes := resize_to (div_ceil8 (unat n)) 0 (bs_bytes b)\<rparr> else b)
      in if n > bs_len b' then b'\<lparr>bs_len := n\<rparr> else b')"

text \<open>The capacity grows to \<open>idx + 1\<close>, which wraps at the largest index.\<close>

definition reserve_bit :: "u32 \<Rightarrow> bitset \<Rightarrow> bitset" where
  "reserve_bit idx b = (if unat idx div 8 \<ge> length (bs_bytes b) then grow_to (idx + 1) b else b)"

definition set_bit :: "u32 \<Rightarrow> bitset \<Rightarrow> bitset option" where
  "set_bit idx b =
     (let b' = reserve_bit idx b
      in if unat idx div 8 < length (bs_bytes b')
         then Some (b'\<lparr>bs_bytes := set_at (unat idx div 8) (unat idx mod 8) (bs_bytes b')\<rparr>)
         else None)"

definition clr_bit :: "u32 \<Rightarrow> bitset \<Rightarrow> bitset" where
  "clr_bit idx b =
     (if unat idx div 8 < length (bs_bytes b)
      then b\<lparr>bs_bytes := clr_at (unat idx div 8) (unat idx mod 8) (bs_bytes b)\<rparr> else b)"

definition get_bit :: "u32 \<Rightarrow> bitset \<Rightarrow> bool" where
  "get_bit idx b =
     (if unat idx div 8 < length (bs_bytes b)
      then drop_bit (unat idx mod 8) (bs_bytes b ! (unat idx div 8)) AND 1 = 1 else False)"

definition flip_bit :: "u32 \<Rightarrow> bitset \<Rightarrow> bitset option" where
  "flip_bit idx b =
     (let b' = reserve_bit idx b
      in if unat idx div 8 < length (bs_bytes b')
         then Some (b'\<lparr>bs_bytes := flip_at (unat idx div 8) (unat idx mod 8) (bs_bytes b')\<rparr>)
         else None)"

definition count_ones :: "u8 \<Rightarrow> nat" where
  "count_ones b = length (filter (bit b) [0..<8])"

definition popcount :: "bitset \<Rightarrow> u32" where
  "popcount b = of_nat (sum_list (map count_ones (bs_bytes b)))"

text \<open>The executor's \<open>BIT_AND\<close>, \<open>BIT_OR\<close> and \<open>BIT_XOR\<close>: the destination keeps its length field.\<close>

definition bitset_and :: "bitset \<Rightarrow> bitset \<Rightarrow> bitset" where
  "bitset_and d s =
     (let n = min (length (bs_bytes d)) (length (bs_bytes s))
      in d\<lparr>bs_bytes := map2 (AND) (take n (bs_bytes d)) (take n (bs_bytes s))
              @ replicate (length (bs_bytes d) - n) 0\<rparr>)"

definition zip_into :: "(u8 \<Rightarrow> u8 \<Rightarrow> u8) \<Rightarrow> bytes \<Rightarrow> bytes \<Rightarrow> bytes" where
  "zip_into f d s =
     (let d' = (if length s > length d then resize_to (length s) 0 d else d)
      in map2 f (take (length s) d') s @ drop (length s) d')"

definition bitset_or :: "bitset \<Rightarrow> bitset \<Rightarrow> bitset" where
  "bitset_or d s = d\<lparr>bs_bytes := zip_into (OR) (bs_bytes d) (bs_bytes s)\<rparr>"

definition bitset_xor :: "bitset \<Rightarrow> bitset \<Rightarrow> bitset" where
  "bitset_xor d s = d\<lparr>bs_bytes := zip_into (XOR) (bs_bytes d) (bs_bytes s)\<rparr>"

subsection \<open>Bitset operations are set operations\<close>

definition members :: "bitset \<Rightarrow> nat set" where
  "members b = bits_of (bs_bytes b)"

lemma finite_members [simp]: "finite (members b)"
  by (simp add: members_def)

lemma members_simps [simp]:
  "members bitset_default = {}" "members (bitset_new n) = {}"
  by (auto simp: members_def bits_of_def byte_bit_def bitset_default_def bitset_new_def)

lemma members_grow_to [simp]: "members (grow_to n b) = members b"
  by (auto simp: members_def bits_of_def grow_to_def Let_def)

lemma members_reserve_bit [simp]: "members (reserve_bit idx b) = members b"
  by (simp add: reserve_bit_def)

lemma length_grow_to: "length (bs_bytes (grow_to n b)) = max (div_ceil8 (unat n)) (length (bs_bytes b))"
  by (simp add: grow_to_def Let_def)

lemma unat_split8: "8 * (unat idx div 8) + unat idx mod 8 = unat (idx :: u32)"
  by simp

lemma unat_Suc: "idx \<noteq> - 1 \<Longrightarrow> unat (idx + 1 :: u32) = Suc (unat idx)"
  by (metis add.commute eq_neg_iff_add_eq_0 unatSuc)

lemma reserve_bit_covers:
  "idx \<noteq> - 1 \<Longrightarrow> unat idx div 8 < length (bs_bytes (reserve_bit idx b))"
  using div_less_div_ceil8 [of "unat idx" "Suc (unat idx)"]
  by (simp add: reserve_bit_def length_grow_to unat_Suc)

lemma set_bit_members: "set_bit idx b = Some b' \<Longrightarrow> members b' = insert (unat idx) (members b)"
  using members_reserve_bit [of idx b]
  by (simp add: set_bit_def Let_def members_def bits_of_set_at split: if_split_asm)
    (auto simp: bits_of_set_at)

lemma clr_bit_members: "members (clr_bit idx b) = members b - {unat idx}"
  by (simp add: clr_bit_def members_def bits_of_clr_at byte_bit_def)

lemma flip_bit_members:
  "flip_bit idx b = Some b' \<Longrightarrow>
     members b' = (if unat idx \<in> members b then members b - {unat idx} else insert (unat idx) (members b))"
proof -
  assume "flip_bit idx b = Some b'"
  then have b': "unat idx div 8 < length (bs_bytes (reserve_bit idx b))"
      "bs_bytes b' = flip_at (unat idx div 8) (unat idx mod 8) (bs_bytes (reserve_bit idx b))"
    by (auto simp: flip_bit_def Let_def split: if_split_asm)
  have bits: "bits_of (bs_bytes (reserve_bit idx b)) = bits_of (bs_bytes b)"
    using members_reserve_bit [of idx b] by (simp add: members_def)
  have same: "byte_bit (bs_bytes (reserve_bit idx b)) j \<longleftrightarrow> byte_bit (bs_bytes b) j" for j
    using bits bits_of_iff by metis
  show ?thesis
    using b' by (simp add: members_def bits_of_flip_at bits same)
qed

lemma and_1_bit: "drop_bit j (w :: u8) AND 1 = 1 \<longleftrightarrow> bit w j"
  by (simp add: and_one_eq bit_iff_odd_drop_bit odd_iff_mod_2_eq_one)

lemma get_bit_members: "get_bit idx b \<longleftrightarrow> unat idx \<in> members b"
  by (simp add: get_bit_def members_def bits_of_def byte_bit_def and_1_bit)

lemma set_bit_panics_iff:
  "set_bit idx b = None \<longleftrightarrow> idx = - 1 \<and> length (bs_bytes b) \<le> 2 ^ 29 - 1"
proof (cases "idx = - 1")
  case True
  have "unat (- 1 :: u32) = 2 ^ 32 - 1"
    by (simp add: unsigned_minus_1_eq_mask mask_eq_exp_minus_1)
  with True show ?thesis
    by (simp add: set_bit_def Let_def reserve_bit_def length_grow_to div_ceil8_def)
next
  case False
  then show ?thesis
    using reserve_bit_covers [OF False, of b] by (simp add: set_bit_def Let_def)
qed

lemma flip_bit_panics_iff: "flip_bit idx b = None \<longleftrightarrow> set_bit idx b = None"
  by (simp add: flip_bit_def set_bit_def Let_def)

lemma byte_bit_map2:
  assumes "length s = length d" and "\<And>x y n. bit (f x y) n = g (bit x n) (bit y n)" and "\<not> g False False"
  shows "byte_bit (map2 f d s) i \<longleftrightarrow> g (byte_bit d i) (byte_bit s i)"
  using assms by (cases "i div 8 < length d") (auto simp: byte_bit_def)

lemma byte_bit_append:
  "byte_bit (bs @ cs) i \<longleftrightarrow>
     (if i < 8 * length bs then byte_bit bs i else byte_bit cs (i - 8 * length bs))"
proof (cases "i < 8 * length bs")
  case False
  then obtain j where "i = 8 * length bs + j"
    by (metis le_iff_add not_less)
  then show ?thesis
    by (auto simp: byte_bit_def nth_append)
qed (auto simp: byte_bit_def nth_append)

lemma byte_bit_take: "byte_bit (take n bs) i \<longleftrightarrow> i < 8 * n \<and> byte_bit bs i"
  by (auto simp: byte_bit_def)

lemma byte_bit_replicate_0 [simp]: "\<not> byte_bit (replicate n 0) i"
  by (auto simp: byte_bit_def)

lemma bitset_and_members: "members (bitset_and d s) = members d \<inter> members s"
proof -
  let ?n = "min (length (bs_bytes d)) (length (bs_bytes s))"
  have "byte_bit (map2 (AND) (take ?n (bs_bytes d)) (take ?n (bs_bytes s))) i
      \<longleftrightarrow> byte_bit (take ?n (bs_bytes d)) i \<and> byte_bit (take ?n (bs_bytes s)) i" for i
    by (rule byte_bit_map2) (auto simp: bit_simps)
  moreover have "i < 8 * ?n" if "byte_bit (bs_bytes d) i" "byte_bit (bs_bytes s) i" for i
    using that [THEN byte_bit_bound] by (simp add: min_def)
  ultimately show ?thesis
    unfolding members_def bitset_and_def Let_def
    by (intro set_eqI) (auto simp: byte_bit_append byte_bit_take)
qed

lemma byte_bit_zip_into:
  assumes f: "\<And>x y n. bit (f x y) n = g (bit x n) (bit y n)" and g: "\<And>p. g p False = p"
  shows "byte_bit (zip_into f d s) i \<longleftrightarrow> g (byte_bit d i) (byte_bit s i)"
proof -
  define e where "e = (if length s > length d then resize_to (length s) 0 d else d)"
  have e: "byte_bit e j \<longleftrightarrow> byte_bit d j" "length s \<le> length e" for j
    by (auto simp: e_def)
  have zi: "zip_into f d s = map2 f (take (length s) e) s @ drop (length s) e"
    by (simp add: zip_into_def e_def Let_def)
  have m: "byte_bit (map2 f (take (length s) e) s) i
      \<longleftrightarrow> g (byte_bit (take (length s) e) i) (byte_bit s i)"
    using e(2) by (intro byte_bit_map2) (auto simp: f g)
  have "length (map2 f (take (length s) e) s) = length s"
    using e(2) by simp
  moreover have "byte_bit e i \<longleftrightarrow> (if i < 8 * length s then byte_bit (take (length s) e) i
      else byte_bit (drop (length s) e) (i - 8 * length s))"
    using byte_bit_append [of "take (length s) e" "drop (length s) e" i] e(2) by simp
  moreover have "\<not> byte_bit s i" if "\<not> i < 8 * length s"
    using that byte_bit_bound by blast
  ultimately show ?thesis
    using m e(1) g by (simp add: zi byte_bit_append split: if_split_asm)
qed

lemma bitset_or_members: "members (bitset_or d s) = members d \<union> members s"
proof -
  have "byte_bit (zip_into (OR) (bs_bytes d) (bs_bytes s)) i
      \<longleftrightarrow> byte_bit (bs_bytes d) i \<or> byte_bit (bs_bytes s) i" for i
    by (rule byte_bit_zip_into) (auto simp: bit_simps)
  then show ?thesis
    by (auto simp: members_def bits_of_def bitset_or_def)
qed

lemma bitset_xor_members: "members (bitset_xor d s) = (members d - members s) \<union> (members s - members d)"
proof -
  have "byte_bit (zip_into (XOR) (bs_bytes d) (bs_bytes s)) i
      \<longleftrightarrow> byte_bit (bs_bytes d) i \<noteq> byte_bit (bs_bytes s) i" for i
    by (rule byte_bit_zip_into) (auto simp: bit_simps)
  then show ?thesis
    by (auto simp: members_def bits_of_def bitset_xor_def)
qed

text \<open>The population count is the cardinality (modulo the width of the counter).\<close>

lemma count_ones_card: "count_ones b = card {i. i < 8 \<and> bit b i}"
proof -
  have "set (filter (bit b) [0..<8]) = {i. i < 8 \<and> bit b i}"
    by auto
  then show ?thesis
    unfolding count_ones_def by (metis distinct_card distinct_filter distinct_upt)
qed

lemma card_bits_of: "sum_list (map count_ones bs) = card (bits_of bs)"
proof (induction bs rule: rev_induct)
  case Nil
  then show ?case by (simp add: bits_of_def byte_bit_def)
next
  case (snoc b bs)
  let ?top = "(\<lambda>i. 8 * length bs + i) ` {i. i < 8 \<and> bit b i}"
  have split: "bits_of (bs @ [b]) = bits_of bs \<union> ?top"
  proof (intro set_eqI iffI)
    fix i
    assume i: "i \<in> bits_of (bs @ [b])"
    show "i \<in> bits_of bs \<union> ?top"
    proof (cases "i < 8 * length bs")
      case False
      with i have "i - 8 * length bs < 8" "bit b (i - 8 * length bs)"
        by (auto simp: bits_of_def byte_bit_append) (auto simp: byte_bit_def)
      with False show ?thesis
        by (auto intro!: image_eqI [of _ _ "i - 8 * length bs"])
    qed (use i in \<open>auto simp: bits_of_def byte_bit_append\<close>)
  next
    fix i
    assume "i \<in> bits_of bs \<union> ?top"
    then show "i \<in> bits_of (bs @ [b])"
      by (auto simp: bits_of_def byte_bit_append dest: byte_bit_bound) (auto simp: byte_bit_def)
  qed
  have "card ?top = count_ones b"
    by (simp add: count_ones_card card_image)
  moreover have "bits_of bs \<inter> ?top = {}"
    by (auto simp: bits_of_def dest: byte_bit_bound)
  ultimately show ?case
    using snoc by (simp add: split card_Un_disjoint)
qed

lemma popcount_card: "popcount b = of_nat (card (members b))"
  by (simp add: popcount_def members_def card_bits_of)

subsection \<open>Bitvec\<close>

record bitvec =
  bv_bytes :: bytes
  bv_len :: u64

definition bitvec_default :: bitvec where
  "bitvec_default = \<lparr>bv_bytes = [], bv_len = 0\<rparr>"

text \<open>At most 64 bits are moved; positions are \<open>u64\<close> sums and wrap.\<close>

definition field_width :: "u32 \<Rightarrow> nat" where
  "field_width bit_len = min (unat bit_len) 64"

definition read_bits :: "u64 \<Rightarrow> u32 \<Rightarrow> bitvec \<Rightarrow> u64" where
  "read_bits bit_start bit_len bv =
     foldl (\<lambda>result i.
         let pos = unat (bit_start + of_nat i)
         in if pos div 8 < length (bv_bytes bv)
            then result OR push_bit i (ucast (drop_bit (pos mod 8) (bv_bytes bv ! (pos div 8)) AND 1))
            else result)
       0 [0..<field_width bit_len]"

definition write_at :: "bool \<Rightarrow> nat \<Rightarrow> bytes \<Rightarrow> bytes option" where
  "write_at v pos bs =
     (if pos div 8 < length bs
      then Some (if v then set_at (pos div 8) (pos mod 8) bs else clr_at (pos div 8) (pos mod 8) bs)
      else None)"

fun write_loop :: "u64 \<Rightarrow> u64 \<Rightarrow> nat list \<Rightarrow> bytes \<Rightarrow> bytes option" where
  "write_loop bit_start value [] bs = Some bs"
| "write_loop bit_start value (i # is) bs =
     Option.bind (write_at (drop_bit i value AND 1 = 1) (unat (bit_start + of_nat i)) bs)
       (write_loop bit_start value is)"

definition write_bits :: "u64 \<Rightarrow> u32 \<Rightarrow> u64 \<Rightarrow> bitvec \<Rightarrow> bitvec option" where
  "write_bits bit_start bit_len value bv =
     (let n = field_width bit_len;
          end_bit = bit_start + of_nat n;
          needed = div_ceil8 (unat end_bit);
          bs = (if needed > length (bv_bytes bv) then resize_to needed 0 (bv_bytes bv) else bv_bytes bv);
          len = (if end_bit > bv_len bv then end_bit else bv_len bv)
      in map_option (\<lambda>bs'. bv\<lparr>bv_bytes := bs', bv_len := len\<rparr>)
           (write_loop bit_start value [0..<n] bs))"

definition push_bits :: "u64 \<Rightarrow> u32 \<Rightarrow> bitvec \<Rightarrow> bitvec option" where
  "push_bits value bit_len bv = write_bits (bv_len bv) bit_len value bv"

subsection \<open>Bit fields are read back as they were written\<close>

lemma field_width_le [simp]: "field_width n \<le> 64"
  by (simp add: field_width_def)

definition fits :: "u64 \<Rightarrow> nat \<Rightarrow> bool" where
  \<comment> \<open>the field does not reach beyond the last \<open>u64\<close> position\<close>
  "fits bit_start n \<longleftrightarrow> unat bit_start + n < 2 ^ 64"

lemma unat_pos: "fits s n \<Longrightarrow> i \<le> n \<Longrightarrow> unat (s + of_nat i) = unat s + i"
  by (simp add: fits_def unat_word_ariths unat_of_nat)

lemma and_1_bit_u64: "drop_bit j (w :: u64) AND 1 = 1 \<longleftrightarrow> bit w j"
  by (simp add: and_one_eq bit_iff_odd_drop_bit odd_iff_mod_2_eq_one)

lemma write_at_Some:
  "pos div 8 < length bs \<Longrightarrow> \<exists>bs'. write_at v pos bs = Some bs' \<and> length bs' = length bs \<and>
     (\<forall>j. byte_bit bs' j \<longleftrightarrow> (if j = pos then v else byte_bit bs j))"
  by (cases v) (auto simp: write_at_def byte_bit_set_at byte_bit_clr_at)

lemma write_loop_Some:
  assumes "fits s n" "unat s + n \<le> 8 * length bs" "k \<le> n"
  shows "\<exists>bs'. write_loop s v [k..<n] bs = Some bs' \<and> length bs' = length bs \<and>
     (\<forall>j. byte_bit bs' j \<longleftrightarrow>
        (if unat s + k \<le> j \<and> j < unat s + n then bit v (j - unat s) else byte_bit bs j))"
  using assms
proof (induction "n - k" arbitrary: k bs)
  case 0
  then show ?case by auto
next
  case (Suc m)
  then have k: "k < n" "[k..<n] = k # [Suc k..<n]"
    by (simp_all add: upt_conv_Cons)
  have m: "m = n - Suc k"
    using Suc.hyps(2) by simp
  have pos: "unat (s + of_nat k) = unat s + k"
    using Suc.prems k(1) by (simp add: unat_pos)
  then have "unat (s + of_nat k) div 8 < length bs"
    using Suc.prems k(1) by auto
  then obtain cs where cs: "write_at (bit v k) (unat s + k) bs = Some cs" "length cs = length bs"
      "\<forall>j. byte_bit cs j \<longleftrightarrow> (if j = unat s + k then bit v k else byte_bit bs j)"
    using write_at_Some [of "unat s + k" bs "bit v k"] pos by auto
  obtain ds where ds: "write_loop s v [Suc k..<n] cs = Some ds" "length ds = length cs"
      "\<forall>j. byte_bit ds j \<longleftrightarrow>
        (if unat s + Suc k \<le> j \<and> j < unat s + n then bit v (j - unat s) else byte_bit cs j)"
    using Suc.hyps(1) [of "Suc k" cs, OF m Suc.prems(1)] Suc.prems(2) k(1) cs(2) by auto
  have "byte_bit ds j \<longleftrightarrow>
      (if unat s + k \<le> j \<and> j < unat s + n then bit v (j - unat s) else byte_bit bs j)" for j
    using cs(3) ds(3) k(1) by (cases "j = unat s + k") auto
  then show ?case
    using cs ds by (simp add: k(2) and_1_bit_u64 pos)
qed

lemma read_loop:
  assumes "fits s n" "k \<le> n"
  shows "bit (foldl (\<lambda>result i.
         let pos = unat (s + of_nat i)
         in if pos div 8 < length bs
            then result OR push_bit i (ucast (drop_bit (pos mod 8) (bs ! (pos div 8)) AND 1))
            else result) (0 :: u64) [0..<k]) j
     \<longleftrightarrow> j < k \<and> j < 64 \<and> byte_bit bs (unat s + j)"
  using assms(2)
proof (induction k)
  case 0
  then show ?case by simp
next
  case (Suc k)
  have "unat (s + of_nat k) = unat s + k"
    using Suc.prems by (intro unat_pos [OF assms(1)]) simp
  then show ?case
    using Suc by (auto simp: Let_def bit_simps byte_bit_def less_Suc_eq)
qed

lemma bit_read_bits:
  "fits s (field_width n) \<Longrightarrow>
     bit (read_bits s n bv) j \<longleftrightarrow> j < field_width n \<and> byte_bit (bv_bytes bv) (unat s + j)"
  using read_loop [of s "field_width n" "field_width n" "bv_bytes bv" j]
    less_le_trans [OF _ field_width_le, of j n]
  unfolding read_bits_def by auto

lemma write_bits_Some:
  assumes "fits s (field_width n)"
  obtains bv' where "write_bits s n v bv = Some bv'"
    and "bv_len bv' = max (bv_len bv) (s + of_nat (field_width n))"
    and "\<And>j. byte_bit (bv_bytes bv') j \<longleftrightarrow>
      (if unat s \<le> j \<and> j < unat s + field_width n then bit v (j - unat s)
       else byte_bit (bv_bytes bv) j)"
proof -
  let ?n = "field_width n"
  have e: "unat (s + of_nat ?n) = unat s + ?n"
    using assms by (simp add: unat_pos)
  define bs where "bs = (if div_ceil8 (unat s + ?n) > length (bv_bytes bv)
      then resize_to (div_ceil8 (unat s + ?n)) 0 (bv_bytes bv) else bv_bytes bv)"
  have "div_ceil8 (unat s + ?n) \<le> length bs"
    by (simp add: bs_def)
  then have "unat s + ?n \<le> 8 * length bs"
    by (simp add: div_ceil8_le)
  then obtain bs' where bs': "write_loop s v [0..<?n] bs = Some bs'"
      "\<forall>j. byte_bit bs' j \<longleftrightarrow>
        (if unat s \<le> j \<and> j < unat s + ?n then bit v (j - unat s) else byte_bit bs j)"
    using write_loop_Some [OF assms, of bs 0 v] by auto
  have same: "byte_bit bs j \<longleftrightarrow> byte_bit (bv_bytes bv) j" for j
    by (simp add: bs_def)
  show thesis
  proof (rule that)
    show "write_bits s n v bv = Some (bv\<lparr>bv_bytes := bs',
        bv_len := if s + of_nat ?n > bv_len bv then s + of_nat ?n else bv_len bv\<rparr>)"
      using bs'(1) by (simp only: write_bits_def Let_def e bs_def [symmetric] option.map)
  qed (simp_all add: bs'(2) same max_def not_less less_imp_le)
qed

lemma read_bits_write_bits:
  assumes "fits s (field_width n)" "write_bits s n v bv = Some bv'"
  shows "read_bits s n bv' = take_bit (field_width n) v"
proof (rule bit_word_eqI)
  fix j
  assume "j < LENGTH(64)"
  obtain bv'' where bv: "write_bits s n v bv = Some bv''"
    "\<And>j. byte_bit (bv_bytes bv'') j \<longleftrightarrow>
      (if unat s \<le> j \<and> j < unat s + field_width n then bit v (j - unat s)
       else byte_bit (bv_bytes bv) j)"
    using write_bits_Some [OF assms(1), of v bv] by metis
  then show "bit (read_bits s n bv') j = bit (take_bit (field_width n) v) j"
    using assms by (auto simp: bit_read_bits bit_take_bit_iff)
qed

lemma read_bits_write_other:
  assumes "fits s (field_width n)" "fits s' (field_width n')" "write_bits s n v bv = Some bv'"
    and apart: "unat s' + field_width n' \<le> unat s \<or> unat s + field_width n \<le> unat s'"
  shows "read_bits s' n' bv' = read_bits s' n' bv"
proof (rule bit_word_eqI)
  fix j
  assume "j < LENGTH(64)"
  obtain bv'' where bv: "write_bits s n v bv = Some bv''"
    "\<And>j. byte_bit (bv_bytes bv'') j \<longleftrightarrow>
      (if unat s \<le> j \<and> j < unat s + field_width n then bit v (j - unat s)
       else byte_bit (bv_bytes bv) j)"
    using write_bits_Some [OF assms(1), of v bv] by metis
  then show "bit (read_bits s' n' bv') j = bit (read_bits s' n' bv) j"
    using assms by (auto simp: bit_read_bits)
qed

end
