(* ===== verification/Fasm_Value.thy ===== *)
theory Fasm_Value
  imports Fasm_FloatText Fasm_Collections Fasm_Bits "HOL-Library.Signed_Division"
begin

text \<open>
  Run-time values, \<open>crates/fasm-vm/src/value.rs\<close>, and fault codes, \<open>crates/fasm-vm/src/fault.rs\<close>:
  the data type, the derived equality, truth, rendering, and the arithmetic, comparison, bitwise
  and shift operations.  A double-ended queue and a queue are the list of their elements from
  front to back; a vector and a stack list the elements in index order.
\<close>

subsection \<open>Faults\<close>

datatype fault =
  FNullDeref
| FIndexOutOfBounds
| FFieldNotFound
| FDivisionByZero
| FStackOverflow
| FUnwrapFault
| FWriteAccessViolation
| FTypeMismatch
| FUndeclaredSlot
| FBadSyscall

primrec fault_code :: "fault \<Rightarrow> u32" where
  "fault_code FNullDeref = 0x01"
| "fault_code FIndexOutOfBounds = 0x02"
| "fault_code FFieldNotFound = 0x03"
| "fault_code FDivisionByZero = 0x04"
| "fault_code FStackOverflow = 0x05"
| "fault_code FUnwrapFault = 0x06"
| "fault_code FWriteAccessViolation = 0x07"
| "fault_code FTypeMismatch = 0x08"
| "fault_code FUndeclaredSlot = 0x09"
| "fault_code FBadSyscall = 0x0A"

primrec fault_description :: "fault \<Rightarrow> bytes" where
  "fault_description FNullDeref = ascii ''NullDerefFault''"
| "fault_description FIndexOutOfBounds = ascii ''IndexOutOfBoundsFault''"
| "fault_description FFieldNotFound = ascii ''FieldNotFoundFault''"
| "fault_description FDivisionByZero = ascii ''DivisionByZeroFault''"
| "fault_description FStackOverflow = ascii ''StackOverflowFault''"
| "fault_description FUnwrapFault = ascii ''UnwrapFault''"
| "fault_description FWriteAccessViolation = ascii ''WriteAccessViolation''"
| "fault_description FTypeMismatch = ascii ''TypeMismatch''"
| "fault_description FUndeclaredSlot = ascii ''UndeclaredSlot''"
| "fault_description FBadSyscall = ascii ''BadSyscall''"

text \<open>Rust's \<open>{:02X}\<close>.\<close>

definition hex_digit :: "nat \<Rightarrow> u8" where
  "hex_digit n = of_nat (if n < 10 then 48 + n else 55 + n)"

fun hex_digits :: "nat \<Rightarrow> bytes" where
  "hex_digits n = (if n < 16 then [hex_digit n] else hex_digits (n div 16) @ [hex_digit (n mod 16)])"

declare hex_digits.simps [simp del]

definition show_hex2 :: "u32 \<Rightarrow> bytes" where
  "show_hex2 w = pad_zeros 2 (hex_digits (unat w))"

definition fault_display :: "fault \<Rightarrow> bytes" where
  "fault_display f = fault_description f @ ascii '' (0x'' @ show_hex2 (fault_code f) @ ascii '')''"

subsection \<open>Values\<close>

datatype 'v fasm_option = OptNone | OptSome 'v

datatype 'v fasm_result = ResOk 'v | ResErr u32

datatype fasm_value =
  VNull
| VBool bool
| VInt8 i8
| VInt16 i16
| VInt32 i32
| VInt64 i64
| VUint8 u8
| VUint16 u16
| VUint32 u32
| VUint64 u64
| VFloat32 u32
| VFloat64 u64
| VRefMut bool u32
| VRefImm bool u32
| VVec "fasm_value list"
| VStruct "(u32 \<times> fasm_value) list"
| VStack "fasm_value list"
| VQueue "fasm_value list"
| VHeapMin "fasm_value list"
| VHeapMax "fasm_value list"
| VSparse "(u32 \<times> fasm_value) list"
| VBTree "(u32 \<times> fasm_value) list"
| VSlice "fasm_value list"
| VDeque "fasm_value list"
| VBitset bitset
| VBitvec bitvec
| VOption "fasm_value fasm_option"
| VResult "fasm_value fasm_result"
| VFuture "fasm_value option"

lemmas val_split = "fasm_value.split" and val_splits = "fasm_value.splits"

definition is_truthy :: "fasm_value \<Rightarrow> bool" where
  "is_truthy v = (case v of
      VBool b \<Rightarrow> b
    | VInt8 n \<Rightarrow> n \<noteq> 0
    | VInt16 n \<Rightarrow> n \<noteq> 0
    | VInt32 n \<Rightarrow> n \<noteq> 0
    | VInt64 n \<Rightarrow> n \<noteq> 0
    | VUint8 n \<Rightarrow> n \<noteq> 0
    | VUint16 n \<Rightarrow> n \<noteq> 0
    | VUint32 n \<Rightarrow> n \<noteq> 0
    | VUint64 n \<Rightarrow> n \<noteq> 0
    | VFloat32 f \<Rightarrow> f32_nonzero f
    | VFloat64 f \<Rightarrow> f64_nonzero f
    | VNull \<Rightarrow> False
    | _ \<Rightarrow> True)"

primrec type_name :: "fasm_value \<Rightarrow> bytes" where
  "type_name VNull = ascii ''NULL''"
| "type_name (VBool _) = ascii ''BOOL''"
| "type_name (VInt8 _) = ascii ''INT8''"
| "type_name (VInt16 _) = ascii ''INT16''"
| "type_name (VInt32 _) = ascii ''INT32''"
| "type_name (VInt64 _) = ascii ''INT64''"
| "type_name (VUint8 _) = ascii ''UINT8''"
| "type_name (VUint16 _) = ascii ''UINT16''"
| "type_name (VUint32 _) = ascii ''UINT32''"
| "type_name (VUint64 _) = ascii ''UINT64''"
| "type_name (VFloat32 _) = ascii ''FLOAT32''"
| "type_name (VFloat64 _) = ascii ''FLOAT64''"
| "type_name (VRefMut _ _) = ascii ''REF_MUT''"
| "type_name (VRefImm _ _) = ascii ''REF_IMM''"
| "type_name (VVec _) = ascii ''VEC''"
| "type_name (VStruct _) = ascii ''STRUCT''"
| "type_name (VStack _) = ascii ''STACK''"
| "type_name (VQueue _) = ascii ''QUEUE''"
| "type_name (VHeapMin _) = ascii ''HEAP_MIN''"
| "type_name (VHeapMax _) = ascii ''HEAP_MAX''"
| "type_name (VSparse _) = ascii ''SPARSE''"
| "type_name (VBTree _) = ascii ''BTREE''"
| "type_name (VSlice _) = ascii ''SLICE''"
| "type_name (VDeque _) = ascii ''DEQUE''"
| "type_name (VBitset _) = ascii ''BITSET''"
| "type_name (VBitvec _) = ascii ''BITVEC''"
| "type_name (VOption _) = ascii ''OPTION''"
| "type_name (VResult _) = ascii ''RESULT''"
| "type_name (VFuture _) = ascii ''FUTURE''"

subsection \<open>Equality\<close>

text \<open>
  The derived \<open>PartialEq\<close>: structural, except that floats compare as IEEE numbers and the pairs
  of a hash map have no order.
\<close>

definition eq_pairs :: "(u32 \<times> ('a \<Rightarrow> bool)) list \<Rightarrow> (u32 \<times> 'a) list \<Rightarrow> bool" where
  "eq_pairs = list_all2 (\<lambda>(k, f) (l, w). k = l \<and> f w)"

definition eq_sparse :: "(u32 \<times> ('a \<Rightarrow> bool)) list \<Rightarrow> (u32 \<times> 'a) list \<Rightarrow> bool" where
  "eq_sparse fs n \<longleftrightarrow> length fs = sparse_len n \<and>
     list_all (\<lambda>(k, f). case sparse_get n k of Some w \<Rightarrow> f w | None \<Rightarrow> False) fs"

definition eq_list :: "('a \<Rightarrow> bool) list \<Rightarrow> 'a list \<Rightarrow> bool" where
  "eq_list = list_all2 (\<lambda>f w. f w)"

primrec value_eq :: "fasm_value \<Rightarrow> fasm_value \<Rightarrow> bool" where
  "value_eq VNull = (\<lambda>w. case w of VNull \<Rightarrow> True | _ \<Rightarrow> False)"
| "value_eq (VBool b) = (\<lambda>w. case w of VBool c \<Rightarrow> b = c | _ \<Rightarrow> False)"
| "value_eq (VInt8 n) = (\<lambda>w. case w of VInt8 m \<Rightarrow> n = m | _ \<Rightarrow> False)"
| "value_eq (VInt16 n) = (\<lambda>w. case w of VInt16 m \<Rightarrow> n = m | _ \<Rightarrow> False)"
| "value_eq (VInt32 n) = (\<lambda>w. case w of VInt32 m \<Rightarrow> n = m | _ \<Rightarrow> False)"
| "value_eq (VInt64 n) = (\<lambda>w. case w of VInt64 m \<Rightarrow> n = m | _ \<Rightarrow> False)"
| "value_eq (VUint8 n) = (\<lambda>w. case w of VUint8 m \<Rightarrow> n = m | _ \<Rightarrow> False)"
| "value_eq (VUint16 n) = (\<lambda>w. case w of VUint16 m \<Rightarrow> n = m | _ \<Rightarrow> False)"
| "value_eq (VUint32 n) = (\<lambda>w. case w of VUint32 m \<Rightarrow> n = m | _ \<Rightarrow> False)"
| "value_eq (VUint64 n) = (\<lambda>w. case w of VUint64 m \<Rightarrow> n = m | _ \<Rightarrow> False)"
| "value_eq (VFloat32 f) = (\<lambda>w. case w of VFloat32 g \<Rightarrow> f32_eq f g | _ \<Rightarrow> False)"
| "value_eq (VFloat64 f) = (\<lambda>w. case w of VFloat64 g \<Rightarrow> f64_eq f g | _ \<Rightarrow> False)"
| "value_eq (VRefMut g i) = (\<lambda>w. case w of VRefMut h j \<Rightarrow> g = h \<and> i = j | _ \<Rightarrow> False)"
| "value_eq (VRefImm g i) = (\<lambda>w. case w of VRefImm h j \<Rightarrow> g = h \<and> i = j | _ \<Rightarrow> False)"
| "value_eq (VVec xs) = (\<lambda>w. case w of VVec ys \<Rightarrow> eq_list (map value_eq xs) ys | _ \<Rightarrow> False)"
| "value_eq (VStruct xs) =
     (\<lambda>w. case w of VStruct ys \<Rightarrow> eq_pairs (map (map_prod id value_eq) xs) ys | _ \<Rightarrow> False)"
| "value_eq (VStack xs) = (\<lambda>w. case w of VStack ys \<Rightarrow> eq_list (map value_eq xs) ys | _ \<Rightarrow> False)"
| "value_eq (VQueue xs) = (\<lambda>w. case w of VQueue ys \<Rightarrow> eq_list (map value_eq xs) ys | _ \<Rightarrow> False)"
| "value_eq (VHeapMin xs) = (\<lambda>w. case w of VHeapMin ys \<Rightarrow> eq_list (map value_eq xs) ys | _ \<Rightarrow> False)"
| "value_eq (VHeapMax xs) = (\<lambda>w. case w of VHeapMax ys \<Rightarrow> eq_list (map value_eq xs) ys | _ \<Rightarrow> False)"
| "value_eq (VSparse xs) =
     (\<lambda>w. case w of VSparse ys \<Rightarrow> eq_sparse (map (map_prod id value_eq) xs) ys | _ \<Rightarrow> False)"
| "value_eq (VBTree xs) =
     (\<lambda>w. case w of VBTree ys \<Rightarrow> eq_pairs (map (map_prod id value_eq) xs) ys | _ \<Rightarrow> False)"
| "value_eq (VSlice xs) = (\<lambda>w. case w of VSlice ys \<Rightarrow> eq_list (map value_eq xs) ys | _ \<Rightarrow> False)"
| "value_eq (VDeque xs) = (\<lambda>w. case w of VDeque ys \<Rightarrow> eq_list (map value_eq xs) ys | _ \<Rightarrow> False)"
| "value_eq (VBitset b) = (\<lambda>w. case w of VBitset c \<Rightarrow> b = c | _ \<Rightarrow> False)"
| "value_eq (VBitvec b) = (\<lambda>w. case w of VBitvec c \<Rightarrow> b = c | _ \<Rightarrow> False)"
| "value_eq (VOption x) = (\<lambda>w. case w of VOption y \<Rightarrow>
       (case map_fasm_option value_eq x of
          OptNone \<Rightarrow> y = OptNone
        | OptSome f \<Rightarrow> (case y of OptSome z \<Rightarrow> f z | OptNone \<Rightarrow> False)) | _ \<Rightarrow> False)"
| "value_eq (VResult x) = (\<lambda>w. case w of VResult y \<Rightarrow>
       (case map_fasm_result value_eq x of
          ResOk f \<Rightarrow> (case y of ResOk z \<Rightarrow> f z | ResErr _ \<Rightarrow> False)
        | ResErr c \<Rightarrow> (case y of ResErr d \<Rightarrow> c = d | ResOk _ \<Rightarrow> False)) | _ \<Rightarrow> False)"
| "value_eq (VFuture x) = (\<lambda>w. case w of VFuture y \<Rightarrow>
       (case map_option value_eq x of
          None \<Rightarrow> y = None
        | Some f \<Rightarrow> (case y of Some z \<Rightarrow> f z | None \<Rightarrow> False)) | _ \<Rightarrow> False)"

subsection \<open>Rendering\<close>

definition as_uint8 :: "fasm_value \<Rightarrow> u8 option" where
  "as_uint8 v = (case v of VUint8 b \<Rightarrow> Some b | _ \<Rightarrow> None)"

fun collect :: "'a option list \<Rightarrow> 'a list option" where
  "collect [] = Some []"
| "collect (None # xs) = None"
| "collect (Some x # xs) = map_option (Cons x) (collect xs)"

fun join :: "bytes \<Rightarrow> bytes list \<Rightarrow> bytes" where
  "join sep [] = []"
| "join sep [x] = x"
| "join sep (x # xs) = x @ sep @ join sep xs"

text \<open>The \<open>{:?}\<close> of a vector of bytes that is not UTF-8.\<close>

definition debug_uint8s :: "bytes \<Rightarrow> bytes" where
  "debug_uint8s bs =
     ascii ''['' @ join (ascii '', '') (map (\<lambda>b. ascii ''Uint8('' @ show_nat (unat b) @ ascii '')'') bs)
       @ ascii '']''"

definition show_counted :: "string \<Rightarrow> nat \<Rightarrow> string \<Rightarrow> bytes" where
  "show_counted name n unit = ascii name @ ascii ''('' @ show_nat n @ ascii unit @ ascii '')''"

definition show_ref :: "string \<Rightarrow> bool \<Rightarrow> u32 \<Rightarrow> bytes" where
  "show_ref name g i =
     ascii name @ ascii ''('' @ ascii (if g then ''global'' else ''local'') @ ascii '':''
       @ show_nat (unat i) @ ascii '')''"

primrec display :: "fasm_value \<Rightarrow> bytes" where
  "display VNull = ascii ''null''"
| "display (VBool b) = ascii (if b then ''true'' else ''false'')"
| "display (VInt8 n) = show_int (sint n)"
| "display (VInt16 n) = show_int (sint n)"
| "display (VInt32 n) = show_int (sint n)"
| "display (VInt64 n) = show_int (sint n)"
| "display (VUint8 n) = show_nat (unat n)"
| "display (VUint16 n) = show_nat (unat n)"
| "display (VUint32 n) = show_nat (unat n)"
| "display (VUint64 n) = show_nat (unat n)"
| "display (VFloat32 f) = show_f32 f"
| "display (VFloat64 f) = show_f64 f"
| "display (VVec v) =
     (case collect (map (\<lambda>(x, _). as_uint8 x) (map (\<lambda>x. (x, display x)) v)) of
        Some bs \<Rightarrow> (if utf8_valid bs then bs else debug_uint8s bs)
      | None \<Rightarrow> ascii ''['' @ join (ascii '', '') (map snd (map (\<lambda>x. (x, display x)) v)) @ ascii '']'')"
| "display (VStruct s) = show_counted ''STRUCT'' (length s) '' fields''"
| "display (VStack s) = show_counted ''STACK'' (length s) '' items''"
| "display (VQueue q) = show_counted ''QUEUE'' (length q) '' items''"
| "display (VHeapMin h) = show_counted ''HEAP_MIN'' (length h) '' items''"
| "display (VHeapMax h) = show_counted ''HEAP_MAX'' (length h) '' items''"
| "display (VSparse s) = show_counted ''SPARSE'' (sparse_len s) '' entries''"
| "display (VBTree b) = show_counted ''BTREE'' (btree_len b) '' entries''"
| "display (VSlice s) = show_counted ''SLICE'' (length s) '' items''"
| "display (VDeque d) = show_counted ''DEQUE'' (length d) '' items''"
| "display (VBitset b) =
     ascii ''BITSET('' @ show_nat (unat (bs_len b)) @ ascii '' bits, ''
       @ show_nat (unat (popcount b)) @ ascii '' set)''"
| "display (VBitvec bv) = show_counted ''BITVEC'' (unat (bv_len bv)) '' bits''"
| "display (VRefMut g i) = show_ref ''REF_MUT'' g i"
| "display (VRefImm g i) = show_ref ''REF_IMM'' g i"
| "display (VOption o') =
     (case map_fasm_option display o' of
        OptNone \<Rightarrow> ascii ''None''
      | OptSome d \<Rightarrow> ascii ''Some('' @ d @ ascii '')'')"
| "display (VResult r) =
     (case map_fasm_result display r of
        ResOk d \<Rightarrow> ascii ''Ok('' @ d @ ascii '')''
      | ResErr c \<Rightarrow> ascii ''Err(0x'' @ show_hex2 c @ ascii '')'')"
| "display (VFuture f) =
     (case map_option display f of
        Some d \<Rightarrow> ascii ''Future(resolved: '' @ d @ ascii '')''
      | None \<Rightarrow> ascii ''Future(pending)'')"

subsection \<open>Numeric views\<close>

definition bool_word :: "bool \<Rightarrow> 'a::len word" where
  "bool_word b = (if b then 1 else 0)"

definition numeric_as_i64 :: "fasm_value \<Rightarrow> i64 option" where
  "numeric_as_i64 v = (case v of
      VBool b \<Rightarrow> Some (bool_word b)
    | VInt8 n \<Rightarrow> Some (scast n)
    | VInt16 n \<Rightarrow> Some (scast n)
    | VInt32 n \<Rightarrow> Some (scast n)
    | VInt64 n \<Rightarrow> Some n
    | VUint8 n \<Rightarrow> Some (ucast n)
    | VUint16 n \<Rightarrow> Some (ucast n)
    | VUint32 n \<Rightarrow> Some (ucast n)
    | VUint64 n \<Rightarrow> Some n
    | _ \<Rightarrow> None)"

definition numeric_as_u64 :: "fasm_value \<Rightarrow> u64 option" where
  "numeric_as_u64 v = (case v of
      VBool b \<Rightarrow> Some (bool_word b)
    | VInt8 n \<Rightarrow> Some (scast n)
    | VInt16 n \<Rightarrow> Some (scast n)
    | VInt32 n \<Rightarrow> Some (scast n)
    | VInt64 n \<Rightarrow> Some n
    | VUint8 n \<Rightarrow> Some (ucast n)
    | VUint16 n \<Rightarrow> Some (ucast n)
    | VUint32 n \<Rightarrow> Some (ucast n)
    | VUint64 n \<Rightarrow> Some n
    | _ \<Rightarrow> None)"

definition numeric_as_f64 :: "fasm_value \<Rightarrow> u64 option" where
  "numeric_as_f64 v = (case v of VFloat32 f \<Rightarrow> Some (f64_of_f32 f) | VFloat64 f \<Rightarrow> Some f | _ \<Rightarrow> None)"

subsection \<open>Arithmetic\<close>

text \<open>
  The result of an operation that can panic in the host.  Division and remainder of \<open>i64\<close> panic
  on a zero divisor and on the one quotient that overflows, in every build profile; addition,
  subtraction and multiplication wrap.
\<close>

datatype 'a host = Done 'a | HostPanic

definition i64_div :: "i64 \<Rightarrow> i64 \<Rightarrow> i64 host" where
  "i64_div a b =
     (if b = 0 \<or> (a = 0x8000000000000000 \<and> b = - 1) then HostPanic
      else Done (word_of_int (sint a sdiv sint b)))"

definition i64_rem :: "i64 \<Rightarrow> i64 \<Rightarrow> i64 host" where
  "i64_rem a b =
     (if b = 0 \<or> (a = 0x8000000000000000 \<and> b = - 1) then HostPanic
      else Done (word_of_int (sint a smod sint b)))"

definition numeric_op ::
  "(i64 \<Rightarrow> i64 \<Rightarrow> i64 host) \<Rightarrow> (u64 \<Rightarrow> u64 \<Rightarrow> u64) \<Rightarrow> fasm_value \<Rightarrow> fasm_value \<Rightarrow> fasm_value option host" where
  "numeric_op int_op float_op a b =
     (let int_case = (\<lambda>c x y. map_host (\<lambda>r. Some (c r)) (int_op x y))
      in case a of
        VInt8 x \<Rightarrow> (case b of VInt8 y \<Rightarrow> int_case (\<lambda>r. VInt8 (ucast r)) (scast x) (scast y) | _ \<Rightarrow> Done None)
      | VInt16 x \<Rightarrow> (case b of VInt16 y \<Rightarrow> int_case (\<lambda>r. VInt16 (ucast r)) (scast x) (scast y) | _ \<Rightarrow> Done None)
      | VInt32 x \<Rightarrow> (case b of VInt32 y \<Rightarrow> int_case (\<lambda>r. VInt32 (ucast r)) (scast x) (scast y) | _ \<Rightarrow> Done None)
      | VInt64 x \<Rightarrow> (case b of VInt64 y \<Rightarrow> int_case VInt64 x y | _ \<Rightarrow> Done None)
      | VUint8 x \<Rightarrow> (case b of VUint8 y \<Rightarrow> int_case (\<lambda>r. VUint8 (ucast r)) (ucast x) (ucast y) | _ \<Rightarrow> Done None)
      | VUint16 x \<Rightarrow> (case b of VUint16 y \<Rightarrow> int_case (\<lambda>r. VUint16 (ucast r)) (ucast x) (ucast y) | _ \<Rightarrow> Done None)
      | VUint32 x \<Rightarrow> (case b of VUint32 y \<Rightarrow> int_case (\<lambda>r. VUint32 (ucast r)) (ucast x) (ucast y) | _ \<Rightarrow> Done None)
      | VUint64 x \<Rightarrow> (case b of VUint64 y \<Rightarrow> int_case VUint64 x y | _ \<Rightarrow> Done None)
      | VFloat32 x \<Rightarrow> (case b of
            VFloat32 y \<Rightarrow> Done (Some (VFloat32 (f32_of_f64 (float_op (f64_of_f32 x) (f64_of_f32 y)))))
          | _ \<Rightarrow> Done None)
      | VFloat64 x \<Rightarrow> (case b of VFloat64 y \<Rightarrow> Done (Some (VFloat64 (float_op x y))) | _ \<Rightarrow> Done None)
      | _ \<Rightarrow> Done None)"

definition val_add :: "fasm_value \<Rightarrow> fasm_value \<Rightarrow> fasm_value option host" where
  "val_add = numeric_op (\<lambda>a b. Done (a + b)) f64_add"

definition val_sub :: "fasm_value \<Rightarrow> fasm_value \<Rightarrow> fasm_value option host" where
  "val_sub = numeric_op (\<lambda>a b. Done (a - b)) f64_sub"

definition val_mul :: "fasm_value \<Rightarrow> fasm_value \<Rightarrow> fasm_value option host" where
  "val_mul = numeric_op (\<lambda>a b. Done (a * b)) f64_mul"

definition val_div :: "fasm_value \<Rightarrow> fasm_value \<Rightarrow> fasm_value option host" where
  "val_div = numeric_op i64_div f64_div"

definition val_rem :: "fasm_value \<Rightarrow> fasm_value \<Rightarrow> fasm_value option host" where
  "val_rem = numeric_op i64_rem f64_rem"

definition val_neg :: "fasm_value \<Rightarrow> fasm_value option" where
  "val_neg v = (case v of
      VInt8 n \<Rightarrow> Some (VInt8 (- n))
    | VInt16 n \<Rightarrow> Some (VInt16 (- n))
    | VInt32 n \<Rightarrow> Some (VInt32 (- n))
    | VInt64 n \<Rightarrow> Some (VInt64 (- n))
    | VFloat32 f \<Rightarrow> Some (VFloat32 (f32_neg f))
    | VFloat64 f \<Rightarrow> Some (VFloat64 (f64_neg f))
    | _ \<Rightarrow> None)"

subsection \<open>Comparison\<close>

definition numeric_cmp ::
  "(i64 \<Rightarrow> i64 \<Rightarrow> bool) \<Rightarrow> (u64 \<Rightarrow> u64 \<Rightarrow> bool) \<Rightarrow> fasm_value \<Rightarrow> fasm_value \<Rightarrow> bool option" where
  "numeric_cmp int_cmp float_cmp a b =
     (let coerced = (case numeric_as_i64 a of None \<Rightarrow> None
        | Some ai \<Rightarrow> (case numeric_as_i64 b of None \<Rightarrow> None | Some bi \<Rightarrow> Some (int_cmp ai bi)))
      in case a of
        VInt8 x \<Rightarrow> (case b of VInt8 y \<Rightarrow> Some (int_cmp (scast x) (scast y)) | _ \<Rightarrow> coerced)
      | VInt16 x \<Rightarrow> (case b of VInt16 y \<Rightarrow> Some (int_cmp (scast x) (scast y)) | _ \<Rightarrow> coerced)
      | VInt32 x \<Rightarrow> (case b of VInt32 y \<Rightarrow> Some (int_cmp (scast x) (scast y)) | _ \<Rightarrow> coerced)
      | VInt64 x \<Rightarrow> (case b of VInt64 y \<Rightarrow> Some (int_cmp x y) | _ \<Rightarrow> coerced)
      | VUint8 x \<Rightarrow> (case b of VUint8 y \<Rightarrow> Some (int_cmp (ucast x) (ucast y)) | _ \<Rightarrow> coerced)
      | VUint16 x \<Rightarrow> (case b of VUint16 y \<Rightarrow> Some (int_cmp (ucast x) (ucast y)) | _ \<Rightarrow> coerced)
      | VUint32 x \<Rightarrow> (case b of VUint32 y \<Rightarrow> Some (int_cmp (ucast x) (ucast y)) | _ \<Rightarrow> coerced)
      | VUint64 x \<Rightarrow> (case b of VUint64 y \<Rightarrow> Some (int_cmp x y) | _ \<Rightarrow> coerced)
      | VFloat32 x \<Rightarrow> (case b of
            VFloat32 y \<Rightarrow> Some (float_cmp (f64_of_f32 x) (f64_of_f32 y)) | _ \<Rightarrow> coerced)
      | VFloat64 x \<Rightarrow> (case b of VFloat64 y \<Rightarrow> Some (float_cmp x y) | _ \<Rightarrow> coerced)
      | _ \<Rightarrow> coerced)"

definition cmp_lt :: "fasm_value \<Rightarrow> fasm_value \<Rightarrow> bool option" where
  "cmp_lt = numeric_cmp (\<lambda>a b. sint a < sint b) f64_lt"

definition cmp_lte :: "fasm_value \<Rightarrow> fasm_value \<Rightarrow> bool option" where
  "cmp_lte = numeric_cmp (\<lambda>a b. sint a \<le> sint b) f64_le"

definition cmp_gt :: "fasm_value \<Rightarrow> fasm_value \<Rightarrow> bool option" where
  "cmp_gt = numeric_cmp (\<lambda>a b. sint a > sint b) (\<lambda>a b. f64_lt b a)"

definition cmp_gte :: "fasm_value \<Rightarrow> fasm_value \<Rightarrow> bool option" where
  "cmp_gte = numeric_cmp (\<lambda>a b. sint a \<ge> sint b) (\<lambda>a b. f64_le b a)"

definition eq_val :: "fasm_value \<Rightarrow> fasm_value \<Rightarrow> bool" where
  "eq_val a b = (case (numeric_as_i64 a, numeric_as_i64 b) of
      (Some x, Some y) \<Rightarrow> x = y
    | _ \<Rightarrow> (case (numeric_as_f64 a, numeric_as_f64 b) of
        (Some x, Some y) \<Rightarrow> f64_eq x y
      | _ \<Rightarrow> value_eq a b))"

subsection \<open>Bitwise operations and shifts\<close>

definition bitwise_op :: "(u64 \<Rightarrow> u64 \<Rightarrow> u64) \<Rightarrow> fasm_value \<Rightarrow> fasm_value \<Rightarrow> fasm_value option" where
  "bitwise_op op a b = (case a of
      VInt8 x \<Rightarrow> (case b of VInt8 y \<Rightarrow> Some (VInt8 (ucast (op (scast x) (scast y)))) | _ \<Rightarrow> None)
    | VInt16 x \<Rightarrow> (case b of VInt16 y \<Rightarrow> Some (VInt16 (ucast (op (scast x) (scast y)))) | _ \<Rightarrow> None)
    | VInt32 x \<Rightarrow> (case b of VInt32 y \<Rightarrow> Some (VInt32 (ucast (op (scast x) (scast y)))) | _ \<Rightarrow> None)
    | VInt64 x \<Rightarrow> (case b of VInt64 y \<Rightarrow> Some (VInt64 (op x y)) | _ \<Rightarrow> None)
    | VUint8 x \<Rightarrow> (case b of VUint8 y \<Rightarrow> Some (VUint8 (ucast (op (ucast x) (ucast y)))) | _ \<Rightarrow> None)
    | VUint16 x \<Rightarrow> (case b of VUint16 y \<Rightarrow> Some (VUint16 (ucast (op (ucast x) (ucast y)))) | _ \<Rightarrow> None)
    | VUint32 x \<Rightarrow> (case b of VUint32 y \<Rightarrow> Some (VUint32 (ucast (op (ucast x) (ucast y)))) | _ \<Rightarrow> None)
    | VUint64 x \<Rightarrow> (case b of VUint64 y \<Rightarrow> Some (VUint64 (op x y)) | _ \<Rightarrow> None)
    | _ \<Rightarrow> None)"

definition val_bit_and :: "fasm_value \<Rightarrow> fasm_value \<Rightarrow> fasm_value option" where
  "val_bit_and = bitwise_op (AND)"

definition val_bit_or :: "fasm_value \<Rightarrow> fasm_value \<Rightarrow> fasm_value option" where
  "val_bit_or = bitwise_op (OR)"

definition val_bit_xor :: "fasm_value \<Rightarrow> fasm_value \<Rightarrow> fasm_value option" where
  "val_bit_xor = bitwise_op (XOR)"

definition val_bit_not :: "fasm_value \<Rightarrow> fasm_value option" where
  "val_bit_not v = (case v of
      VInt8 n \<Rightarrow> Some (VInt8 (NOT n))
    | VInt16 n \<Rightarrow> Some (VInt16 (NOT n))
    | VInt32 n \<Rightarrow> Some (VInt32 (NOT n))
    | VInt64 n \<Rightarrow> Some (VInt64 (NOT n))
    | VUint8 n \<Rightarrow> Some (VUint8 (NOT n))
    | VUint16 n \<Rightarrow> Some (VUint16 (NOT n))
    | VUint32 n \<Rightarrow> Some (VUint32 (NOT n))
    | VUint64 n \<Rightarrow> Some (VUint64 (NOT n))
    | _ \<Rightarrow> None)"

text \<open>A shift amount is taken modulo the width, as the release profile does.\<close>

definition shift_amount :: "nat \<Rightarrow> u32 \<Rightarrow> nat" where
  "shift_amount width s = unat s mod width"

definition val_shl :: "fasm_value \<Rightarrow> u32 \<Rightarrow> fasm_value option" where
  "val_shl v s = (case v of
      VInt32 n \<Rightarrow> Some (VInt32 (push_bit (shift_amount 32 s) n))
    | VInt64 n \<Rightarrow> Some (VInt64 (push_bit (shift_amount 64 s) n))
    | VUint32 n \<Rightarrow> Some (VUint32 (push_bit (shift_amount 32 s) n))
    | VUint64 n \<Rightarrow> Some (VUint64 (push_bit (shift_amount 64 s) n))
    | _ \<Rightarrow> None)"

definition val_shr :: "fasm_value \<Rightarrow> u32 \<Rightarrow> fasm_value option" where
  "val_shr v s = (case v of
      VInt32 n \<Rightarrow> Some (VInt32 (signed_drop_bit (shift_amount 32 s) n))
    | VInt64 n \<Rightarrow> Some (VInt64 (signed_drop_bit (shift_amount 64 s) n))
    | VUint32 n \<Rightarrow> Some (VUint32 (drop_bit (shift_amount 32 s) n))
    | VUint64 n \<Rightarrow> Some (VUint64 (drop_bit (shift_amount 64 s) n))
    | _ \<Rightarrow> None)"

end
