(* ===== verification/Fasm_Memory.thy ===== *)
theory Fasm_Memory
  imports Fasm_Value
begin

text \<open>
  Slot storage, \<open>crates/fasm-vm/src/memory.rs\<close>: the frame of a call (slots indexed by \<open>u8\<close>), the
  sixteen slots of a \<open>TMP\<close> block, and the global register (slots indexed by \<open>u32\<close>).  The locale
  \<open>slot_store\<close> is what the instructions rely on; frames and the global register are instances.
\<close>

type_synonym slots = "fasm_value option list"

subsection \<open>The interface\<close>

locale slot_store =
  fixes get :: "'i \<Rightarrow> 's \<Rightarrow> 'v option"
    and set :: "'i \<Rightarrow> 'v \<Rightarrow> 's \<Rightarrow> 's"
    and remove :: "'i \<Rightarrow> 's \<Rightarrow> 's"
    and fresh :: 's
  assumes get_fresh: "get i fresh = None"
    and get_set: "get i (set j v s) = (if i = j then Some v else get i s)"
    and get_remove: "get i (remove j s) = (if i = j then None else get i s)"
begin

lemma get_set_same: "get i (set i v s) = Some v"
  by (simp add: get_set)

lemma get_set_other: "i \<noteq> j \<Longrightarrow> get i (set j v s) = get i s"
  by (simp add: get_set)

lemma get_set_set: "get k (set i v (set i u s)) = get k (set i v s)"
  by (simp add: get_set)

lemma get_set_swap: "i \<noteq> j \<Longrightarrow> get k (set i v (set j u s)) = get k (set j u (set i v s))"
  by (simp add: get_set)

lemma get_remove_set: "get k (remove i (set i v s)) = get k (remove i s)"
  by (simp add: get_set get_remove)

end

subsection \<open>Vectors of optional slots\<close>

definition slot_get :: "nat \<Rightarrow> 'v option list \<Rightarrow> 'v option" where
  "slot_get i s = Option.bind (nth_opt s i) (\<lambda>x. x)"

definition slot_set :: "nat \<Rightarrow> 'v \<Rightarrow> 'v option list \<Rightarrow> 'v option list" where
  "slot_set i v s =
     (let s' = (if i \<ge> length s then resize_to (i + 1) None s else s) in s'[i := Some v])"

definition slot_remove :: "nat \<Rightarrow> 'v option list \<Rightarrow> 'v option list" where
  "slot_remove i s = (if i < length s then s[i := None] else s)"

lemma slot_get_Nil [simp]: "slot_get i [] = None"
  by (simp add: slot_get_def)

lemma slot_get_set: "slot_get i (slot_set j v s) = (if i = j then Some v else slot_get i s)"
  by (auto simp: slot_get_def slot_set_def nth_opt_def nth_resize_to nth_list_update)

lemma slot_get_remove: "slot_get i (slot_remove j s) = (if i = j then None else slot_get i s)"
  by (auto simp: slot_get_def slot_remove_def nth_opt_def nth_list_update)

lemma length_slot_set: "length (slot_set i v s) = max (Suc i) (length s)"
  by (simp add: slot_set_def)

lemma length_slot_remove [simp]: "length (slot_remove i s) = length s"
  by (simp add: slot_remove_def)

lemma list_all_slot_set:
  "list_all (pred_option P) s \<Longrightarrow> P v \<Longrightarrow> list_all (pred_option P) (slot_set i v s)"
  by (auto simp: slot_set_def Let_def intro!: list_all_update list_all_resize_to)

lemma list_all_slot_remove: "list_all (pred_option P) s \<Longrightarrow> list_all (pred_option P) (slot_remove i s)"
  by (auto simp: slot_remove_def)

lemma pred_slot_get: "list_all (pred_option P) s \<Longrightarrow> slot_get i s = Some v \<Longrightarrow> P v"
  by (force simp: slot_get_def nth_opt_def list_all_length split: if_split_asm)

subsection \<open>Frames\<close>

definition frame_new :: slots where "frame_new = []"

definition frame_get :: "u8 \<Rightarrow> slots \<Rightarrow> fasm_value option" where
  "frame_get i f = slot_get (unat i) f"

definition frame_set :: "u8 \<Rightarrow> fasm_value \<Rightarrow> slots \<Rightarrow> slots" where
  "frame_set i v f = slot_set (unat i) v f"

definition frame_remove :: "u8 \<Rightarrow> slots \<Rightarrow> slots" where
  "frame_remove i f = slot_remove (unat i) f"

definition frame_snapshot :: "slots \<Rightarrow> slots" where "frame_snapshot f = f"

definition frame_restore :: "slots \<Rightarrow> slots \<Rightarrow> slots" where "frame_restore snap f = snap"

interpretation frame_store: slot_store frame_get frame_set frame_remove frame_new
  by unfold_locales
    (simp_all add: frame_get_def frame_set_def frame_remove_def frame_new_def slot_get_set slot_get_remove
      word_unat_eq_iff [symmetric])

subsection \<open>TMP blocks\<close>

definition tmp_new :: slots where "tmp_new = replicate 16 None"

definition tmp_get :: "u8 \<Rightarrow> slots \<Rightarrow> fasm_value option" where
  "tmp_get i f = slot_get (unat i) f"

definition tmp_put :: "u8 \<Rightarrow> fasm_value option \<Rightarrow> slots \<Rightarrow> slots" where
  "tmp_put i v f = f[unat i := v]"

lemma length_tmp_new [simp]: "length tmp_new = 16"
  by (simp add: tmp_new_def)

lemma length_tmp_put [simp]: "length (tmp_put i v f) = length f"
  by (simp add: tmp_put_def)

lemma tmp_get_put:
  "length f = 16 \<Longrightarrow> j \<le> 15 \<Longrightarrow> tmp_get i (tmp_put j v f) = (if i = j then v else tmp_get i f)"
  by (auto simp: tmp_get_def tmp_put_def slot_get_def nth_opt_def nth_list_update word_le_nat_alt
      word_unat_eq_iff)

subsection \<open>The global register\<close>

definition global_new :: slots where "global_new = []"

definition global_get :: "u32 \<Rightarrow> slots \<Rightarrow> fasm_value option" where
  "global_get i g = slot_get (unat i) g"

definition global_set :: "u32 \<Rightarrow> fasm_value \<Rightarrow> slots \<Rightarrow> slots" where
  "global_set i v g = slot_set (unat i) v g"

definition global_remove :: "u32 \<Rightarrow> slots \<Rightarrow> slots" where
  "global_remove i g = slot_remove (unat i) g"

definition global_snapshot :: "slots \<Rightarrow> slots" where "global_snapshot g = g"

definition global_restore :: "slots \<Rightarrow> slots \<Rightarrow> slots" where "global_restore snap g = snap"

interpretation global_store: slot_store global_get global_set global_remove global_new
  by unfold_locales
    (simp_all add: global_get_def global_set_def global_remove_def global_new_def slot_get_set slot_get_remove
      word_unat_eq_iff [symmetric])

lemma length_frame_set: "length f \<le> 256 \<Longrightarrow> length (frame_set i v f) \<le> 256"
  using unat_lt_256 [of i] by (simp add: frame_set_def length_slot_set)

end
