(* ===== verification/Fasm_Machine.thy ===== *)
theory Fasm_Machine
  imports Fasm_Memory Fasm_Encode
begin

text \<open>
  The state of the executor (\<open>crates/fasm-vm/src/executor.rs\<close>), the state-and-error monad its
  methods run in, and its operand helpers: \<open>read_operand\<close>, \<open>read_slot\<close>, \<open>deref_value\<close>,
  \<open>write_operand\<close>, \<open>write_slot\<close>, \<open>deref_write\<close>, \<open>write_target_mut\<close>, \<open>release_operand\<close> and the
  free functions at the end of the file.

  A Rust method that returns \<open>Result<T, Fault>\<close> and mutates the executor becomes a function from
  states to results; a fault carries the state reached, because the mutations made before it
  stay.  The call stack and the \<open>TMP\<close> frames are kept with the top first.
\<close>

subsection \<open>State\<close>

record try_guard =
  tg_catch_ip :: nat
  tg_end_ip :: nat
  tg_frame_snap :: slots
  tg_global_snap :: slots

record call_frame =
  cf_func_idx :: nat
  cf_ip :: nat
  cf_frame :: slots
  cf_args :: fasm_value
  cf_ret_val :: fasm_value
  cf_try_guard :: "try_guard option"
  cf_tmp_frames :: "slots list"

definition call_frame_new :: "nat \<Rightarrow> fasm_value \<Rightarrow> call_frame" where
  "call_frame_new func_idx args =
     \<lparr>cf_func_idx = func_idx, cf_ip = 0, cf_frame = frame_new, cf_args = args,
      cf_ret_val = VNull, cf_try_guard = None, cf_tmp_frames = []\<rparr>"

text \<open>Standard input not yet read, standard output written so far.\<close>

record io =
  io_stdin :: bytes
  io_stdout :: bytes

record vm =
  vm_globals :: slots
  vm_call_stack :: "call_frame list"
  vm_io :: io

subsection \<open>Results and the monad\<close>

datatype ('s, 'a) res = ROk 'a 's | RErr fault 's | RPanic | RExit i32 's

type_synonym 'a vm_m = "vm \<Rightarrow> (vm, 'a) res"

definition vm_return :: "'a \<Rightarrow> 'a vm_m" where
  "vm_return x = (\<lambda>s. ROk x s)"

definition vm_fail :: "fault \<Rightarrow> 'a vm_m" where
  "vm_fail f = (\<lambda>s. RErr f s)"

definition vm_panic :: "'a vm_m" where
  "vm_panic = (\<lambda>s. RPanic)"

definition vm_bind :: "'a vm_m \<Rightarrow> ('a \<Rightarrow> 'b vm_m) \<Rightarrow> 'b vm_m" where
  "vm_bind m k = (\<lambda>s. case m s of
      ROk x s' \<Rightarrow> k x s' | RErr f s' \<Rightarrow> RErr f s' | RPanic \<Rightarrow> RPanic | RExit n s' \<Rightarrow> RExit n s')"

text \<open>\<open>Option::ok_or\<close> with the question mark.\<close>

definition vm_ok_or :: "fault \<Rightarrow> 'a option \<Rightarrow> 'a vm_m" where
  "vm_ok_or f x = (case x of Some y \<Rightarrow> vm_return y | None \<Rightarrow> vm_fail f)"

definition vm_host :: "'a host \<Rightarrow> 'a vm_m" where
  "vm_host h = (case h of Done x \<Rightarrow> vm_return x | HostPanic \<Rightarrow> vm_panic)"

text \<open>A pure result: \<open>Result<T, Fault>\<close>, or a panic of the host.\<close>

datatype 'a outcome = Good 'a | Bad fault | Abort

definition vm_lift :: "'a outcome \<Rightarrow> 'a vm_m" where
  "vm_lift r = (case r of Good x \<Rightarrow> vm_return x | Bad f \<Rightarrow> vm_fail f | Abort \<Rightarrow> vm_panic)"

definition ok_or :: "fault \<Rightarrow> 'a option \<Rightarrow> 'a outcome" where
  "ok_or f x = (case x of Some y \<Rightarrow> Good y | None \<Rightarrow> Bad f)"

definition or_abort :: "'a option \<Rightarrow> 'a outcome" where
  "or_abort x = (case x of Some y \<Rightarrow> Good y | None \<Rightarrow> Abort)"

definition top :: "call_frame vm_m" where
  "top = (\<lambda>s. case vm_call_stack s of [] \<Rightarrow> RPanic | cf # _ \<Rightarrow> ROk cf s)"

definition modify_top :: "(call_frame \<Rightarrow> call_frame) \<Rightarrow> unit vm_m" where
  "modify_top f = (\<lambda>s. case vm_call_stack s of
      [] \<Rightarrow> RPanic
    | cf # rest \<Rightarrow> ROk () (s\<lparr>vm_call_stack := f cf # rest\<rparr>))"

definition globals :: "slots vm_m" where
  "globals = (\<lambda>s. ROk (vm_globals s) s)"

definition modify_globals :: "(slots \<Rightarrow> slots) \<Rightarrow> unit vm_m" where
  "modify_globals f = (\<lambda>s. ROk () (s\<lparr>vm_globals := f (vm_globals s)\<rparr>))"

lemma vm_bind_simps [simp]:
  "m s = ROk x s' \<Longrightarrow> vm_bind m k s = k x s'"
  "m s = RErr f s' \<Longrightarrow> vm_bind m k s = RErr f s'"
  "m s = RPanic \<Longrightarrow> vm_bind m k s = RPanic"
  "m s = RExit n s' \<Longrightarrow> vm_bind m k s = RExit n s'"
  by (simp_all add: vm_bind_def)

lemma vm_bind_return [simp]: "vm_bind (vm_return x) k = k x"
  by (simp add: vm_bind_def vm_return_def)

lemma vm_bind_return_right: "vm_bind m vm_return = m"
  by (rule ext) (simp add: vm_bind_def vm_return_def split: res.split)

lemma vm_bind_assoc: "vm_bind (vm_bind m k) l = vm_bind m (\<lambda>x. vm_bind (k x) l)"
  by (rule ext) (simp add: vm_bind_def split: res.split)

lemma vm_bind_fail [simp]: "vm_bind (vm_fail f) k = vm_fail f"
  by (rule ext) (simp add: vm_bind_def vm_fail_def)

lemma vm_run [vm_simps]: "vm_return x s = ROk x s" "vm_fail f s = RErr f s" "vm_panic s = RPanic"
  by (simp_all add: vm_return_def vm_fail_def vm_panic_def)

lemma vm_lift_simps [simp]:
  "vm_ok_or f (Some y) = vm_return y" "vm_ok_or f None = vm_fail f"
  "vm_host (Done y) = vm_return y" "vm_host HostPanic = vm_panic"
  "vm_lift (Good y) = vm_return y" "vm_lift (Bad f) = vm_fail f" "vm_lift Abort = vm_panic"
  "ok_or f (Some y) = Good y" "ok_or f None = Bad f"
  "or_abort (Some y) = Good y" "or_abort None = Abort"
  by (simp_all add: vm_ok_or_def vm_host_def vm_lift_def ok_or_def or_abort_def)

subsection \<open>Free helpers\<close>

definition label_target :: "operand \<Rightarrow> nat outcome" where
  "label_target op = (case op of OpdLabelTarget t \<Rightarrow> Good (unat t) | _ \<Rightarrow> Bad FTypeMismatch)"

definition syscall_id :: "operand \<Rightarrow> i32 outcome" where
  "syscall_id op = (case op of
      OpdSyscallId i \<Rightarrow> Good i
    | OpdImm (ImInt32 i) \<Rightarrow> Good i
    | _ \<Rightarrow> Bad FTypeMismatch)"

definition as_u32 :: "fasm_value \<Rightarrow> u32 outcome" where
  "as_u32 v = (case v of
      VUint8 n \<Rightarrow> Good (ucast n)
    | VUint16 n \<Rightarrow> Good (ucast n)
    | VUint32 n \<Rightarrow> Good n
    | VUint64 n \<Rightarrow> Good (ucast n)
    | VInt8 n \<Rightarrow> Good (scast n)
    | VInt16 n \<Rightarrow> Good (scast n)
    | VInt32 n \<Rightarrow> Good n
    | VInt64 n \<Rightarrow> Good (ucast n)
    | _ \<Rightarrow> Bad FTypeMismatch)"

definition as_u64 :: "fasm_value \<Rightarrow> u64 outcome" where
  "as_u64 v = ok_or FTypeMismatch (numeric_as_u64 v)"

primrec imm_to_value :: "immediate \<Rightarrow> fasm_value" where
  "imm_to_value (ImBool b) = VBool b"
| "imm_to_value (ImInt8 n) = VInt8 n"
| "imm_to_value (ImInt16 n) = VInt16 n"
| "imm_to_value (ImInt32 n) = VInt32 n"
| "imm_to_value (ImInt64 n) = VInt64 n"
| "imm_to_value (ImUint8 n) = VUint8 n"
| "imm_to_value (ImUint16 n) = VUint16 n"
| "imm_to_value (ImUint32 n) = VUint32 n"
| "imm_to_value (ImUint64 n) = VUint64 n"
| "imm_to_value (ImFloat32 f) = VFloat32 f"
| "imm_to_value (ImFloat64 f) = VFloat64 f"
| "imm_to_value ImNull = VNull"
| "imm_to_value (ImStr s) = VVec (map VUint8 s)"

primrec default_for_type :: "fasm_type \<Rightarrow> fasm_value" where
  "default_for_type TyBool = VBool False"
| "default_for_type TyInt8 = VInt8 0"
| "default_for_type TyInt16 = VInt16 0"
| "default_for_type TyInt32 = VInt32 0"
| "default_for_type TyInt64 = VInt64 0"
| "default_for_type TyUint8 = VUint8 0"
| "default_for_type TyUint16 = VUint16 0"
| "default_for_type TyUint32 = VUint32 0"
| "default_for_type TyUint64 = VUint64 0"
| "default_for_type TyFloat32 = VFloat32 0"
| "default_for_type TyFloat64 = VFloat64 0"
| "default_for_type TyRefMut = VRefMut False 0"
| "default_for_type TyRefImm = VRefImm False 0"
| "default_for_type TyVec = VVec []"
| "default_for_type TyStruct = VStruct []"
| "default_for_type TyStack = VStack []"
| "default_for_type TyQueue = VQueue []"
| "default_for_type TyHeapMin = VHeapMin []"
| "default_for_type TyHeapMax = VHeapMax []"
| "default_for_type TySparse = VSparse []"
| "default_for_type TyBTree = VBTree []"
| "default_for_type TySlice = VSlice []"
| "default_for_type TyDeque = VDeque []"
| "default_for_type TyBitset = VBitset bitset_default"
| "default_for_type TyBitvec = VBitvec bitvec_default"
| "default_for_type TyOption = VOption OptNone"
| "default_for_type TyResult = VResult (ResErr 0)"
| "default_for_type TyFuture = VFuture None"
| "default_for_type TyNull = VNull"

definition imm_to_value_for_type :: "fasm_type \<Rightarrow> operand \<Rightarrow> fasm_value" where
  "imm_to_value_for_type t op = (case op of
      OpdImm ImNull \<Rightarrow> default_for_type t
    | OpdType TyNull \<Rightarrow> default_for_type t
    | OpdImm imm \<Rightarrow> imm_to_value imm
    | _ \<Rightarrow> default_for_type t)"

definition cast_as_i64 :: "fasm_value \<Rightarrow> i64 option" where
  "cast_as_i64 v = (case v of
      VFloat32 f \<Rightarrow> Some (i64_of_f32 f)
    | VFloat64 f \<Rightarrow> Some (i64_of_f64 f)
    | _ \<Rightarrow> numeric_as_i64 v)"

definition cast_as_f64 :: "fasm_value \<Rightarrow> u64 option" where
  "cast_as_f64 v = (case v of
      VFloat32 f \<Rightarrow> Some (f64_of_f32 f)
    | VFloat64 f \<Rightarrow> Some f
    | _ \<Rightarrow> map_option f64_of_i64 (cast_as_i64 v))"

definition cast_value :: "fasm_value \<Rightarrow> fasm_type \<Rightarrow> fasm_value outcome" where
  "cast_value v t =
     (let int = (\<lambda>c. ok_or FTypeMismatch (map_option c (cast_as_i64 v)));
          float = (\<lambda>c. ok_or FTypeMismatch (map_option c (cast_as_f64 v)))
      in case t of
        TyBool \<Rightarrow> int (\<lambda>n. VBool (n \<noteq> 0))
      | TyInt8 \<Rightarrow> int (\<lambda>n. VInt8 (ucast n))
      | TyInt16 \<Rightarrow> int (\<lambda>n. VInt16 (ucast n))
      | TyInt32 \<Rightarrow> int (\<lambda>n. VInt32 (ucast n))
      | TyInt64 \<Rightarrow> int VInt64
      | TyUint8 \<Rightarrow> int (\<lambda>n. VUint8 (ucast n))
      | TyUint16 \<Rightarrow> int (\<lambda>n. VUint16 (ucast n))
      | TyUint32 \<Rightarrow> int (\<lambda>n. VUint32 (ucast n))
      | TyUint64 \<Rightarrow> int VUint64
      | TyFloat32 \<Rightarrow> float (\<lambda>f. VFloat32 (f32_of_f64 f))
      | TyFloat64 \<Rightarrow> float VFloat64
      | _ \<Rightarrow> Bad FTypeMismatch)"

subsection \<open>Reading operands\<close>

text \<open>The topmost \<open>TMP\<close> frame, and the slot \<open>idx\<close> of it, which must be one of the sixteen.\<close>

definition tmp_top :: "call_frame \<Rightarrow> u8 \<Rightarrow> slots vm_m" where
  "tmp_top cf idx =
     (case cf_tmp_frames cf of
        [] \<Rightarrow> vm_fail FIndexOutOfBounds
      | f # _ \<Rightarrow> if idx > 15 then vm_fail FIndexOutOfBounds else vm_return f)"

definition deref_value :: "fasm_value \<Rightarrow> fasm_value vm_m" where
  "deref_value ref_val =
     (let follow = (\<lambda>is_global idx.
          if is_global then vm_bind globals (\<lambda>g. vm_ok_or FNullDeref (global_get idx g))
          else vm_bind top (\<lambda>cf. vm_ok_or FNullDeref (frame_get (ucast idx) (cf_frame cf))))
      in case ref_val of
        VRefMut is_global idx \<Rightarrow> follow is_global idx
      | VRefImm is_global idx \<Rightarrow> follow is_global idx
      | VNull \<Rightarrow> vm_fail FNullDeref
      | _ \<Rightarrow> vm_return ref_val)"

primrec read_slot :: "slot_ref \<Rightarrow> fasm_value vm_m" where
  "read_slot (SlLocal idx) =
     vm_bind top (\<lambda>cf. vm_ok_or FUndeclaredSlot (frame_get idx (cf_frame cf)))"
| "read_slot (SlTmp idx) =
     vm_bind top (\<lambda>cf. vm_bind (tmp_top cf idx) (\<lambda>f. vm_ok_or FUndeclaredSlot (tmp_get idx f)))"
| "read_slot (SlGlobal idx) =
     vm_bind globals (\<lambda>g. vm_ok_or FUndeclaredSlot (global_get (ucast idx) g))"
| "read_slot (SlDerefLocal idx) =
     vm_bind top (\<lambda>cf. vm_bind (vm_ok_or FUndeclaredSlot (frame_get idx (cf_frame cf))) deref_value)"
| "read_slot (SlDerefTmp idx) =
     vm_bind top (\<lambda>cf. vm_bind (tmp_top cf idx) (\<lambda>f.
       vm_bind (vm_ok_or FUndeclaredSlot (tmp_get idx f)) deref_value))"
| "read_slot (SlDerefGlobal idx) =
     vm_bind globals (\<lambda>g. vm_bind (vm_ok_or FUndeclaredSlot (global_get (ucast idx) g)) deref_value)"
| "read_slot (SlBuiltIn b) =
     vm_bind top (\<lambda>cf. vm_return (case b of
        BiArgs \<Rightarrow> cf_args cf
      | BiRet \<Rightarrow> cf_ret_val cf
      | BiFaultIndex \<Rightarrow> VUint32 (of_nat (cf_ip cf))
      | BiFaultCode \<Rightarrow> cf_ret_val cf))"

definition read_operand :: "operand \<Rightarrow> fasm_value vm_m" where
  "read_operand op = (case op of
      OpdSlot s \<Rightarrow> read_slot s
    | OpdImm imm \<Rightarrow> vm_return (imm_to_value imm)
    | _ \<Rightarrow> vm_fail FTypeMismatch)"

definition imm_operand :: "operand \<Rightarrow> fasm_value vm_m" where
  "imm_operand op = (case op of
      OpdImm imm \<Rightarrow> vm_return (imm_to_value imm)
    | OpdSlot _ \<Rightarrow> read_operand op
    | _ \<Rightarrow> vm_fail FTypeMismatch)"

definition read_key_operand :: "operand \<Rightarrow> u32 vm_m" where
  "read_key_operand op = (case op of
      OpdKey k \<Rightarrow> vm_return k
    | OpdImm (ImUint32 k) \<Rightarrow> vm_return k
    | OpdSlot _ \<Rightarrow> vm_bind (read_operand op) (\<lambda>v. vm_lift (as_u32 v))
    | _ \<Rightarrow> vm_fail FTypeMismatch)"

definition slot_address :: "operand \<Rightarrow> bool \<times> u32" where
  "slot_address op = (case op of
      OpdSlot (SlLocal i) \<Rightarrow> (False, ucast i)
    | OpdSlot (SlGlobal i) \<Rightarrow> (True, ucast i)
    | _ \<Rightarrow> (False, 0))"

subsection \<open>Writing operands\<close>

definition set_local :: "u8 \<Rightarrow> fasm_value \<Rightarrow> unit vm_m" where
  "set_local idx v = modify_top (\<lambda>cf. cf\<lparr>cf_frame := frame_set idx v (cf_frame cf)\<rparr>)"

definition map_tmp :: "(slots \<Rightarrow> slots) \<Rightarrow> call_frame \<Rightarrow> call_frame" where
  "map_tmp f cf = (case cf_tmp_frames cf of [] \<Rightarrow> cf | t # ts \<Rightarrow> cf\<lparr>cf_tmp_frames := f t # ts\<rparr>)"

definition deref_write :: "fasm_value \<Rightarrow> fasm_value \<Rightarrow> unit vm_m" where
  "deref_write ref_val v = (case ref_val of
      VRefMut is_global idx \<Rightarrow>
        (if is_global then modify_globals (global_set idx v) else set_local (ucast idx) v)
    | VRefImm _ _ \<Rightarrow> vm_fail FWriteAccessViolation
    | VNull \<Rightarrow> vm_fail FNullDeref
    | _ \<Rightarrow> vm_fail FTypeMismatch)"

primrec write_slot :: "slot_ref \<Rightarrow> fasm_value \<Rightarrow> unit vm_m" where
  "write_slot (SlLocal idx) v = set_local idx v"
| "write_slot (SlTmp idx) v =
     vm_bind top (\<lambda>cf. vm_bind (tmp_top cf idx) (\<lambda>_. modify_top (map_tmp (tmp_put idx (Some v)))))"
| "write_slot (SlGlobal idx) v = modify_globals (global_set (ucast idx) v)"
| "write_slot (SlDerefLocal idx) v =
     vm_bind top (\<lambda>cf. vm_bind (vm_ok_or FUndeclaredSlot (frame_get idx (cf_frame cf)))
       (\<lambda>r. deref_write r v))"
| "write_slot (SlDerefTmp idx) v =
     vm_bind top (\<lambda>cf. vm_bind (tmp_top cf idx) (\<lambda>f.
       vm_bind (vm_ok_or FUndeclaredSlot (tmp_get idx f)) (\<lambda>r. deref_write r v)))"
| "write_slot (SlDerefGlobal idx) v =
     vm_bind globals (\<lambda>g. vm_bind (vm_ok_or FUndeclaredSlot (global_get (ucast idx) g))
       (\<lambda>r. deref_write r v))"
| "write_slot (SlBuiltIn b) v =
     vm_bind top (\<lambda>_. case b of
        BiRet \<Rightarrow> modify_top (\<lambda>cf. cf\<lparr>cf_ret_val := v\<rparr>)
      | _ \<Rightarrow> vm_fail FWriteAccessViolation)"

definition write_operand :: "operand \<Rightarrow> fasm_value \<Rightarrow> unit vm_m" where
  "write_operand op v = (case op of OpdSlot s \<Rightarrow> write_slot s v | _ \<Rightarrow> vm_fail FTypeMismatch)"

text \<open>
  \<open>write_target_mut\<close> returns a mutable reference to a value in place: the place here, which
  \<open>load_place\<close> and \<open>store_place\<close> read and overwrite.
\<close>

datatype place = PlLocal u8 | PlTmp u8 | PlGlobal u32

primrec load_place :: "place \<Rightarrow> fasm_value vm_m" where
  "load_place (PlLocal idx) =
     vm_bind top (\<lambda>cf. vm_ok_or FUndeclaredSlot (frame_get idx (cf_frame cf)))"
| "load_place (PlTmp idx) =
     vm_bind top (\<lambda>cf. vm_bind (tmp_top cf idx) (\<lambda>f. vm_ok_or FUndeclaredSlot (tmp_get idx f)))"
| "load_place (PlGlobal idx) =
     vm_bind globals (\<lambda>g. vm_ok_or FUndeclaredSlot (global_get idx g))"

primrec store_place :: "place \<Rightarrow> fasm_value \<Rightarrow> unit vm_m" where
  "store_place (PlLocal idx) v = set_local idx v"
| "store_place (PlTmp idx) v = modify_top (map_tmp (tmp_put idx (Some v)))"
| "store_place (PlGlobal idx) v = modify_globals (global_set idx v)"

definition write_target_mut :: "operand \<Rightarrow> (place \<times> fasm_value) vm_m" where
  "write_target_mut op =
     (let at_place = (\<lambda>p. vm_bind (load_place p) (\<lambda>v. vm_return (p, v)))
      in case op of
        OpdSlot (SlLocal idx) \<Rightarrow> at_place (PlLocal idx)
      | OpdSlot (SlTmp idx) \<Rightarrow> at_place (PlTmp idx)
      | OpdSlot (SlGlobal idx) \<Rightarrow> at_place (PlGlobal (ucast idx))
      | _ \<Rightarrow> vm_fail FTypeMismatch)"

definition release_operand :: "operand \<Rightarrow> unit vm_m" where
  "release_operand op = (\<lambda>s. ROk () (case op of
      OpdSlot (SlLocal idx) \<Rightarrow> (case vm_call_stack s of
          [] \<Rightarrow> s
        | cf # rest \<Rightarrow>
            s\<lparr>vm_call_stack := cf\<lparr>cf_frame := frame_remove idx (cf_frame cf)\<rparr> # rest\<rparr>)
    | OpdSlot (SlTmp idx) \<Rightarrow> (case vm_call_stack s of
          [] \<Rightarrow> s
        | cf # rest \<Rightarrow>
            if idx \<le> 15 then s\<lparr>vm_call_stack := map_tmp (tmp_put idx None) cf # rest\<rparr> else s)
    | OpdSlot (SlGlobal idx) \<Rightarrow> s\<lparr>vm_globals := global_remove (ucast idx) (vm_globals s)\<rparr>
    | _ \<Rightarrow> s))"

end
