(* ===== verification/Fasm_Ops.thy ===== *)
theory Fasm_Ops
  imports Fasm_Machine
begin

text \<open>
  What the collection, wrapper and vector instructions do to the values they are given: one pure
  function per match on the receiving value in \<open>Executor::execute_instruction\<close>
  (\<open>crates/fasm-vm/src/executor.rs\<close>).  A function that changes its receiver in place returns the
  new receiver, beside the value it takes out when it takes one out.
\<close>

definition out_bind :: "'a outcome \<Rightarrow> ('a \<Rightarrow> 'b outcome) \<Rightarrow> 'b outcome" where
  "out_bind r k = (case r of Good x \<Rightarrow> k x | Bad f \<Rightarrow> Bad f | Abort \<Rightarrow> Abort)"

lemma out_bind_simps [simp]:
  "out_bind (Good x) k = k x" "out_bind (Bad f) k = Bad f" "out_bind Abort k = Abort"
  by (simp_all add: out_bind_def)

definition out_map :: "('a \<Rightarrow> 'b) \<Rightarrow> 'a outcome \<Rightarrow> 'b outcome" where
  "out_map f r = out_bind r (\<lambda>x. Good (f x))"

lemma out_map_simps [simp]:
  "out_map f (Good x) = Good (f x)" "out_map f (Bad e) = Bad e" "out_map f Abort = Abort"
  by (simp_all add: out_map_def)

lemma ok_or_calm [simp]: "ok_or f r \<noteq> Abort"
  by (simp add: ok_or_def split: option.split)

lemma ok_or_Good [simp]: "ok_or f r = Good x \<longleftrightarrow> r = Some x"
  by (simp add: ok_or_def split: option.split)

lemma out_map_calm [simp]: "out_map f r = Abort \<longleftrightarrow> r = Abort"
  by (cases r) simp_all

lemma out_map_Good: "out_map f r = Good y \<longleftrightarrow> (\<exists>x. r = Good x \<and> y = f x)"
  by (cases r) auto

lemma out_bind_calm: "out_bind r k = Abort \<longleftrightarrow> r = Abort \<or> (\<exists>x. r = Good x \<and> k x = Abort)"
  by (cases r) auto

lemma out_bind_Good: "out_bind r k = Good y \<longleftrightarrow> (\<exists>x. r = Good x \<and> k x = Good y)"
  by (cases r) auto

lemma or_abort_Good [simp]: "or_abort x = Good r \<longleftrightarrow> x = Some r"
  by (cases x) auto

lemma map_host_Done [simp]: "map_host h x = Done y \<longleftrightarrow> (\<exists>z. x = Done z \<and> y = h z)"
  by (cases x) auto

subsection \<open>Ends of a list\<close>

text \<open>\<open>pop\<close>/\<open>pop_back\<close>, \<open>pop_front\<close>, \<open>last\<close>/\<open>back\<close>, \<open>front\<close>.\<close>

definition pop_last :: "'a list \<Rightarrow> ('a \<times> 'a list) option" where
  "pop_last xs = (if xs = [] then None else Some (last xs, butlast xs))"

definition pop_first :: "'a list \<Rightarrow> ('a \<times> 'a list) option" where
  "pop_first xs = (case xs of [] \<Rightarrow> None | x # xs' \<Rightarrow> Some (x, xs'))"

definition last_opt :: "'a list \<Rightarrow> 'a option" where
  "last_opt xs = (if xs = [] then None else Some (last xs))"

definition first_opt :: "'a list \<Rightarrow> 'a option" where
  "first_opt xs = (case xs of [] \<Rightarrow> None | x # _ \<Rightarrow> Some x)"

subsection \<open>Stacks, queues, double-ended queues, vectors\<close>

definition coll_push :: "fasm_value \<Rightarrow> fasm_value \<Rightarrow> fasm_value outcome" where
  "coll_push x coll = (case coll of
      VVec v \<Rightarrow> Good (VVec (v @ [x]))
    | VStack s \<Rightarrow> Good (VStack (s @ [x]))
    | VDeque d \<Rightarrow> Good (VDeque (d @ [x]))
    | _ \<Rightarrow> Bad FTypeMismatch)"

definition coll_pop :: "fasm_value \<Rightarrow> (fasm_value \<times> fasm_value) outcome" where
  "coll_pop coll = (case coll of
      VStack s \<Rightarrow> ok_or FIndexOutOfBounds (map_option (map_prod id VStack) (pop_last s))
    | _ \<Rightarrow> Bad FTypeMismatch)"

definition coll_enqueue :: "fasm_value \<Rightarrow> fasm_value \<Rightarrow> fasm_value outcome" where
  "coll_enqueue x coll = (case coll of
      VQueue q \<Rightarrow> Good (VQueue (q @ [x]))
    | VDeque d \<Rightarrow> Good (VDeque (d @ [x]))
    | _ \<Rightarrow> Bad FTypeMismatch)"

definition coll_dequeue :: "fasm_value \<Rightarrow> (fasm_value \<times> fasm_value) outcome" where
  "coll_dequeue coll = (case coll of
      VQueue q \<Rightarrow> ok_or FIndexOutOfBounds (map_option (map_prod id VQueue) (pop_first q))
    | VDeque d \<Rightarrow> ok_or FIndexOutOfBounds (map_option (map_prod id VDeque) (pop_first d))
    | _ \<Rightarrow> Bad FTypeMismatch)"

definition coll_peek :: "fasm_value \<Rightarrow> fasm_value outcome" where
  "coll_peek coll = (case coll of
      VStack s \<Rightarrow> ok_or FIndexOutOfBounds (last_opt s)
    | VQueue q \<Rightarrow> ok_or FIndexOutOfBounds (first_opt q)
    | VDeque d \<Rightarrow> ok_or FIndexOutOfBounds (first_opt d)
    | _ \<Rightarrow> Bad FTypeMismatch)"

definition coll_prepend :: "fasm_value \<Rightarrow> fasm_value \<Rightarrow> fasm_value outcome" where
  "coll_prepend x coll = (case coll of
      VDeque d \<Rightarrow> Good (VDeque (x # d))
    | _ \<Rightarrow> Bad FTypeMismatch)"

definition coll_pop_back :: "fasm_value \<Rightarrow> (fasm_value \<times> fasm_value) outcome" where
  "coll_pop_back coll = (case coll of
      VDeque d \<Rightarrow> ok_or FIndexOutOfBounds (map_option (map_prod id VDeque) (pop_last d))
    | _ \<Rightarrow> Bad FTypeMismatch)"

definition coll_peek_back :: "fasm_value \<Rightarrow> fasm_value outcome" where
  "coll_peek_back coll = (case coll of
      VDeque d \<Rightarrow> ok_or FIndexOutOfBounds (last_opt d)
    | _ \<Rightarrow> Bad FTypeMismatch)"

definition coll_get_idx :: "nat \<Rightarrow> fasm_value \<Rightarrow> fasm_value outcome" where
  "coll_get_idx i coll = (case coll of
      VVec v \<Rightarrow> ok_or FIndexOutOfBounds (nth_opt v i)
    | VHeapMin h \<Rightarrow> ok_or FIndexOutOfBounds (nth_opt h i)
    | VHeapMax h \<Rightarrow> ok_or FIndexOutOfBounds (nth_opt h i)
    | VSlice s \<Rightarrow> ok_or FIndexOutOfBounds (nth_opt s i)
    | _ \<Rightarrow> Bad FTypeMismatch)"

definition coll_set_idx :: "nat \<Rightarrow> fasm_value \<Rightarrow> fasm_value \<Rightarrow> fasm_value outcome" where
  "coll_set_idx i x coll = (case coll of
      VVec v \<Rightarrow> if i < length v then Good (VVec (v[i := x])) else Bad FIndexOutOfBounds
    | _ \<Rightarrow> Bad FTypeMismatch)"

definition coll_len :: "fasm_value \<Rightarrow> u64 outcome" where
  "coll_len coll = (case coll of
      VVec v \<Rightarrow> Good (of_nat (length v))
    | VStack s \<Rightarrow> Good (of_nat (length s))
    | VQueue q \<Rightarrow> Good (of_nat (length q))
    | VHeapMin h \<Rightarrow> Good (of_nat (length h))
    | VHeapMax h \<Rightarrow> Good (of_nat (length h))
    | VSparse s \<Rightarrow> Good (of_nat (sparse_len s))
    | VBTree b \<Rightarrow> Good (of_nat (btree_len b))
    | VSlice s \<Rightarrow> Good (of_nat (length s))
    | VDeque d \<Rightarrow> Good (of_nat (length d))
    | VBitset b \<Rightarrow> Good (ucast (bs_len b))
    | VBitvec bv \<Rightarrow> Good (bv_len bv)
    | _ \<Rightarrow> Bad FTypeMismatch)"

subsection \<open>Structs, sparse arrays, ordered maps\<close>

definition field_get :: "u32 \<Rightarrow> fasm_value \<Rightarrow> fasm_value outcome" where
  "field_get k coll = (case coll of
      VStruct s \<Rightarrow> ok_or FFieldNotFound (struct_get s k) | _ \<Rightarrow> Bad FTypeMismatch)"

definition field_set :: "u32 \<Rightarrow> fasm_value \<Rightarrow> fasm_value \<Rightarrow> fasm_value outcome" where
  "field_set k x coll = (case coll of
      VStruct s \<Rightarrow> Good (VStruct (struct_insert k x s)) | _ \<Rightarrow> Bad FTypeMismatch)"

definition field_has :: "u32 \<Rightarrow> fasm_value \<Rightarrow> fasm_value outcome" where
  "field_has k coll = (case coll of
      VStruct s \<Rightarrow> Good (VBool (struct_contains s k)) | _ \<Rightarrow> Bad FTypeMismatch)"

definition field_del :: "u32 \<Rightarrow> fasm_value \<Rightarrow> fasm_value outcome" where
  "field_del k coll = (case coll of
      VStruct s \<Rightarrow> Good (VStruct (struct_remove k s)) | _ \<Rightarrow> Bad FTypeMismatch)"

definition sparse_op_get :: "u32 \<Rightarrow> fasm_value \<Rightarrow> fasm_value outcome" where
  "sparse_op_get k coll = (case coll of
      VSparse s \<Rightarrow> ok_or FFieldNotFound (sparse_get s k) | _ \<Rightarrow> Bad FTypeMismatch)"

definition sparse_op_set :: "u32 \<Rightarrow> fasm_value \<Rightarrow> fasm_value \<Rightarrow> fasm_value outcome" where
  "sparse_op_set k x coll = (case coll of
      VSparse s \<Rightarrow> Good (VSparse (sparse_insert k x s)) | _ \<Rightarrow> Bad FTypeMismatch)"

definition sparse_op_del :: "u32 \<Rightarrow> fasm_value \<Rightarrow> fasm_value outcome" where
  "sparse_op_del k coll = (case coll of
      VSparse s \<Rightarrow> Good (VSparse (sparse_remove k s)) | _ \<Rightarrow> Bad FTypeMismatch)"

definition sparse_op_has :: "u32 \<Rightarrow> fasm_value \<Rightarrow> fasm_value outcome" where
  "sparse_op_has k coll = (case coll of
      VSparse s \<Rightarrow> Good (VBool (sparse_contains s k)) | _ \<Rightarrow> Bad FTypeMismatch)"

definition btree_op_get :: "u32 \<Rightarrow> fasm_value \<Rightarrow> fasm_value outcome" where
  "btree_op_get k coll = (case coll of
      VBTree b \<Rightarrow> ok_or FFieldNotFound (btree_get b k) | _ \<Rightarrow> Bad FTypeMismatch)"

definition btree_op_set :: "u32 \<Rightarrow> fasm_value \<Rightarrow> fasm_value \<Rightarrow> fasm_value outcome" where
  "btree_op_set k x coll = (case coll of
      VBTree b \<Rightarrow> Good (VBTree (btree_insert k x b)) | _ \<Rightarrow> Bad FTypeMismatch)"

definition btree_op_del :: "u32 \<Rightarrow> fasm_value \<Rightarrow> fasm_value outcome" where
  "btree_op_del k coll = (case coll of
      VBTree b \<Rightarrow> Good (VBTree (btree_remove k b)) | _ \<Rightarrow> Bad FTypeMismatch)"

definition btree_op_has :: "u32 \<Rightarrow> fasm_value \<Rightarrow> fasm_value outcome" where
  "btree_op_has k coll = (case coll of
      VBTree b \<Rightarrow> Good (VBool (btree_contains b k)) | _ \<Rightarrow> Bad FTypeMismatch)"

definition btree_op_min :: "fasm_value \<Rightarrow> fasm_value outcome" where
  "btree_op_min coll = (case coll of
      VBTree b \<Rightarrow> ok_or FIndexOutOfBounds (map_option VUint32 (btree_min_key b)) | _ \<Rightarrow> Bad FTypeMismatch)"

definition btree_op_max :: "fasm_value \<Rightarrow> fasm_value outcome" where
  "btree_op_max coll = (case coll of
      VBTree b \<Rightarrow> ok_or FIndexOutOfBounds (map_option VUint32 (btree_max_key b)) | _ \<Rightarrow> Bad FTypeMismatch)"

subsection \<open>Options, results, futures\<close>

definition wrap_is_some :: "fasm_value \<Rightarrow> bool" where
  "wrap_is_some v = (case v of VOption (OptSome _) \<Rightarrow> True | _ \<Rightarrow> False)"

definition wrap_unwrap :: "fasm_value \<Rightarrow> fasm_value outcome" where
  "wrap_unwrap v = (case v of
      VOption (OptSome x) \<Rightarrow> Good x
    | VOption OptNone \<Rightarrow> Bad FUnwrapFault
    | _ \<Rightarrow> Bad FTypeMismatch)"

definition wrap_is_ok :: "fasm_value \<Rightarrow> bool" where
  "wrap_is_ok v = (case v of VResult (ResOk _) \<Rightarrow> True | _ \<Rightarrow> False)"

definition wrap_unwrap_ok :: "fasm_value \<Rightarrow> fasm_value outcome" where
  "wrap_unwrap_ok v = (case v of
      VResult (ResOk x) \<Rightarrow> Good x
    | VResult (ResErr _) \<Rightarrow> Bad FUnwrapFault
    | _ \<Rightarrow> Bad FTypeMismatch)"

definition wrap_unwrap_err :: "fasm_value \<Rightarrow> fasm_value outcome" where
  "wrap_unwrap_err v = (case v of
      VResult (ResErr c) \<Rightarrow> Good (VUint32 c)
    | VResult (ResOk _) \<Rightarrow> Bad FUnwrapFault
    | _ \<Rightarrow> Bad FTypeMismatch)"

definition await_future :: "fasm_value \<Rightarrow> fasm_value" where
  "await_future v = (case v of VFuture (Some x) \<Rightarrow> x | _ \<Rightarrow> VNull)"

subsection \<open>Vectors\<close>

definition vec_key :: "fasm_value \<Rightarrow> int" where
  "vec_key v = (case numeric_as_i64 v of Some n \<Rightarrow> sint n | None \<Rightarrow> 0)"

text \<open>
  The order \<open>sort_unstable_by\<close> gives to elements with equal keys is left open by Rust; it is the
  original order here.
\<close>

definition vec_sort :: "fasm_value \<Rightarrow> fasm_value outcome" where
  "vec_sort coll = (case coll of
      VVec v \<Rightarrow> Good (VVec (sort_key vec_key v)) | _ \<Rightarrow> Bad FTypeMismatch)"

definition vec_keep :: "u8 \<Rightarrow> fasm_value \<Rightarrow> fasm_value \<Rightarrow> bool" where
  "vec_keep op_byte threshold x =
     (if op_byte = 0 then cmp_lt x threshold = Some True
      else if op_byte = 1 then eq_val x threshold
      else if op_byte = 2 then cmp_gt x threshold = Some True
      else False)"

definition vec_filter :: "u8 \<Rightarrow> fasm_value \<Rightarrow> fasm_value \<Rightarrow> fasm_value outcome" where
  "vec_filter op_byte threshold coll = (case coll of
      VVec v \<Rightarrow> Good (VVec (filter (vec_keep op_byte threshold) v)) | _ \<Rightarrow> Bad FTypeMismatch)"

fun merge_loop :: "fasm_value list \<Rightarrow> fasm_value list \<Rightarrow> fasm_value list" where
  "merge_loop (a # va) (b # vb) =
     (if vec_key a \<le> vec_key b then a # merge_loop va (b # vb) else b # merge_loop (a # va) vb)"
| "merge_loop va [] = va"
| "merge_loop [] vb = vb"

definition vec_merge :: "fasm_value \<Rightarrow> fasm_value \<Rightarrow> fasm_value outcome" where
  "vec_merge a b = (case a of
      VVec va \<Rightarrow> (case b of VVec vb \<Rightarrow> Good (VVec (merge_loop va vb)) | _ \<Rightarrow> Bad FTypeMismatch)
    | _ \<Rightarrow> Bad FTypeMismatch)"

definition vec_slice :: "nat \<Rightarrow> nat \<Rightarrow> fasm_value \<Rightarrow> fasm_value outcome" where
  "vec_slice start len coll = (case coll of
      VVec v \<Rightarrow>
        (let e = min (start + len) (length v)
         in Good (VSlice (if start \<le> e then take (e - start) (drop start v) else [])))
    | _ \<Rightarrow> Bad FTypeMismatch)"

subsection \<open>Bitsets and bit vectors\<close>

definition bits_update :: "(bitset \<Rightarrow> bitset option) \<Rightarrow> fasm_value \<Rightarrow> fasm_value outcome" where
  "bits_update f coll = (case coll of
      VBitset b \<Rightarrow> or_abort (map_option VBitset (f b)) | _ \<Rightarrow> Bad FTypeMismatch)"

definition bits_query :: "(bitset \<Rightarrow> fasm_value) \<Rightarrow> fasm_value \<Rightarrow> fasm_value outcome" where
  "bits_query f coll = (case coll of VBitset b \<Rightarrow> Good (f b) | _ \<Rightarrow> Bad FTypeMismatch)"

definition bits_combine :: "(bitset \<Rightarrow> bitset \<Rightarrow> bitset) \<Rightarrow> fasm_value \<Rightarrow> fasm_value \<Rightarrow> fasm_value outcome" where
  "bits_combine f src dst = (case dst of
      VBitset d \<Rightarrow> (case src of VBitset s \<Rightarrow> Good (VBitset (f d s)) | _ \<Rightarrow> Bad FTypeMismatch)
    | _ \<Rightarrow> Bad FTypeMismatch)"

definition bits_grow :: "u32 \<Rightarrow> bitset \<Rightarrow> bitset option" where
  "bits_grow n b = Some (grow_to (bs_len b + n) b)"

definition bitvec_query :: "(bitvec \<Rightarrow> fasm_value) \<Rightarrow> fasm_value \<Rightarrow> fasm_value outcome" where
  "bitvec_query f coll = (case coll of VBitvec b \<Rightarrow> Good (f b) | _ \<Rightarrow> Bad FTypeMismatch)"

definition bitvec_update :: "(bitvec \<Rightarrow> bitvec option) \<Rightarrow> fasm_value \<Rightarrow> fasm_value outcome" where
  "bitvec_update f coll = (case coll of
      VBitvec b \<Rightarrow> or_abort (map_option VBitvec (f b)) | _ \<Rightarrow> Bad FTypeMismatch)"

subsection \<open>Arithmetic with its faults\<close>

definition arith_result :: "fasm_value option host \<Rightarrow> fasm_value outcome" where
  "arith_result r = (case r of Done v \<Rightarrow> ok_or FTypeMismatch v | HostPanic \<Rightarrow> Abort)"

definition nonzero_divisor :: "fasm_value \<Rightarrow> fasm_value outcome \<Rightarrow> fasm_value outcome" where
  "nonzero_divisor b r = (if \<not> is_truthy b then Bad FDivisionByZero else r)"

primrec arith_binary :: "arith_op \<Rightarrow> fasm_value \<Rightarrow> fasm_value \<Rightarrow> fasm_value outcome" where
  "arith_binary OpAdd a b = arith_result (val_add a b)"
| "arith_binary OpSub a b = arith_result (val_sub a b)"
| "arith_binary OpMul a b = arith_result (val_mul a b)"
| "arith_binary OpDiv a b = nonzero_divisor b (arith_result (val_div a b))"
| "arith_binary OpMod a b = nonzero_divisor b (arith_result (val_rem a b))"
| "arith_binary OpNeg a b = ok_or FTypeMismatch (val_neg a)"

primrec compare_values :: "cmp_op \<Rightarrow> fasm_value \<Rightarrow> fasm_value \<Rightarrow> fasm_value outcome" where
  "compare_values OpEq a b = Good (VBool (eq_val a b))"
| "compare_values OpNeq a b = Good (VBool (\<not> eq_val a b))"
| "compare_values OpLt a b = ok_or FTypeMismatch (map_option VBool (cmp_lt a b))"
| "compare_values OpLte a b = ok_or FTypeMismatch (map_option VBool (cmp_lte a b))"
| "compare_values OpGt a b = ok_or FTypeMismatch (map_option VBool (cmp_gt a b))"
| "compare_values OpGte a b = ok_or FTypeMismatch (map_option VBool (cmp_gte a b))"

primrec bitwise_values :: "bitwise_op \<Rightarrow> fasm_value \<Rightarrow> fasm_value \<Rightarrow> fasm_value outcome" where
  "bitwise_values OpAnd a b = ok_or FTypeMismatch (val_bit_and a b)"
| "bitwise_values OpOr a b = ok_or FTypeMismatch (val_bit_or a b)"
| "bitwise_values OpXor a b = ok_or FTypeMismatch (val_bit_xor a b)"
| "bitwise_values OpNot a b = ok_or FTypeMismatch (val_bit_not a)"
| "bitwise_values OpShl a b = out_bind (as_u32 b) (\<lambda>s. ok_or FTypeMismatch (val_shl a s))"
| "bitwise_values OpShr a b = out_bind (as_u32 b) (\<lambda>s. ok_or FTypeMismatch (val_shr a s))"

lemma arith_result_Good [simp]: "arith_result r = Good v \<longleftrightarrow> r = Done (Some v)"
  by (cases r) (auto simp: arith_result_def)

lemma nonzero_divisor_Good [simp]: "nonzero_divisor b r = Good v \<longleftrightarrow> is_truthy b \<and> r = Good v"
  by (simp add: nonzero_divisor_def)

lemma map_host_HostPanic [simp]: "map_host h r = HostPanic \<longleftrightarrow> r = HostPanic"
  by (cases r) auto

lemma arith_result_Abort [simp]: "arith_result r = Abort \<longleftrightarrow> r = HostPanic"
  by (cases r) (auto simp: arith_result_def)

lemma nonzero_divisor_Abort [simp]: "nonzero_divisor b r = Abort \<longleftrightarrow> is_truthy b \<and> r = Abort"
  by (simp add: nonzero_divisor_def)

end
