(* ===== verification/Fasm_Containers.thy ===== *)
theory Fasm_Containers
  imports Fasm_Ops "HOL-Library.Multiset"
begin

text \<open>
  What the collection instructions guarantee: the three keyed collections are maps, queues and
  stacks keep their order, bitsets are sets, bit fields read back as written, and the vector
  instructions sort, merge and slice.
\<close>

subsection \<open>Keyed collections\<close>

text \<open>After SET_FIELD the field has the new value, after DEL_FIELD it is not found, HAS_FIELD
  tells which fields there are, and every other field is untouched.\<close>

theorem struct_is_map:
  assumes "keys_distinct s" "field_set k v (VStruct s) = Good c" "field_del k (VStruct s) = Good d"
  shows "field_get j c = (if j = k then Good v else field_get j (VStruct s))
    \<and> field_get j d = (if j = k then Bad FFieldNotFound else field_get j (VStruct s))
    \<and> field_has j c = Good (VBool (j = k \<or> struct_contains s j))
    \<and> field_has j d = Good (VBool (j \<noteq> k \<and> struct_contains s j))"
  using assms
  by (auto simp: field_set_def field_del_def field_get_def field_has_def struct_map.get_insert
      struct_map.get_remove struct_map.contains_insert struct_map.contains_remove)

lemma struct_is_map_witness:
  "field_get 1 (VStruct [(1, VBool True), (2, VNull)]) = Good (VBool True)
   \<and> field_get 2 (VStruct [(2, VNull)]) = Good VNull"
  using struct_is_map [of "[(1, VNull), (2, VNull)]" 1 "VBool True"
      "VStruct [(1, VBool True), (2, VNull)]" "VStruct [(2, VNull)]" 1]
    struct_is_map [of "[(1, VNull), (2, VNull)]" 1 "VBool True"
      "VStruct [(1, VBool True), (2, VNull)]" "VStruct [(2, VNull)]" 2]
  by (simp add: keys_distinct_def field_set_def field_del_def field_get_def)

text \<open>A sparse array is a map from keys to values: SPARSE_SET, SPARSE_DEL and SPARSE_HAS behave as
  update, deletion and domain test, and LEN counts the keys.\<close>

theorem sparse_is_map:
  assumes "keys_distinct s" "sparse_op_set k v (VSparse s) = Good c" "sparse_op_del k (VSparse s) = Good d"
  shows "sparse_op_get j c = (if j = k then Good v else sparse_op_get j (VSparse s))
    \<and> sparse_op_get j d = (if j = k then Bad FFieldNotFound else sparse_op_get j (VSparse s))
    \<and> sparse_op_has j c = Good (VBool (j = k \<or> sparse_contains s j))
    \<and> coll_len c = Good (of_nat (if sparse_contains s k then sparse_len s else Suc (sparse_len s)))
    \<and> coll_len d = Good (of_nat (if sparse_contains s k then sparse_len s - 1 else sparse_len s))"
  using assms
  by (auto simp: sparse_op_set_def sparse_op_del_def sparse_op_get_def sparse_op_has_def coll_len_def
      sparse_map.get_insert sparse_map.get_remove sparse_map.contains_insert sparse_map.len_insert
      sparse_map.len_remove simp del: of_nat_Suc)

lemma sparse_is_map_witness:
  "sparse_op_get 9 (VSparse [(7, VBool False)]) = Bad FFieldNotFound"
  using sparse_is_map [of "[(7, VNull), (9, VNull)]" 9 VNull "VSparse [(7, VNull), (9, VNull)]"
      "VSparse [(7, VNull)]" 9]
  by (simp add: keys_distinct_def sparse_op_set_def sparse_op_del_def sparse_op_get_def
      sparse_insert_def sparse_remove_def sparse_get_def)

text \<open>An ordered map is a map whose BTREE_MIN and BTREE_MAX are the least and the greatest key.\<close>

theorem btree_is_ordered_map:
  assumes "keys_ordered m" "btree_op_set k v (VBTree m) = Good c" "btree_op_del k (VBTree m) = Good d"
  shows "btree_op_get j c = (if j = k then Good v else btree_op_get j (VBTree m))
    \<and> btree_op_get j d = (if j = k then Bad FFieldNotFound else btree_op_get j (VBTree m))
    \<and> btree_op_min (VBTree m) = (if m = [] then Bad FIndexOutOfBounds else Good (VUint32 (Min (fst ` set m))))
    \<and> btree_op_max (VBTree m) = (if m = [] then Bad FIndexOutOfBounds else Good (VUint32 (Max (fst ` set m))))"
proof -
  have dom: "dom (btree_get m) = fst ` set m"
    using btree_keys [of m] by (auto simp: dom_def)
  have none: "btree_min_key m = None \<longleftrightarrow> m = []" "btree_max_key m = None \<longleftrightarrow> m = []"
    by (simp_all add: btree_min_key_def btree_max_key_def split: list.split)
  have "btree_op_min (VBTree m) = (if m = [] then Bad FIndexOutOfBounds else Good (VUint32 (Min (fst ` set m))))"
    using none(1) btree_map.min_key_Min [OF assms(1)]
    by (cases "btree_min_key m") (auto simp: btree_op_min_def dom)
  moreover have "btree_op_max (VBTree m) = (if m = [] then Bad FIndexOutOfBounds else Good (VUint32 (Max (fst ` set m))))"
    using none(2) btree_map.max_key_Max [OF assms(1)]
    by (cases "btree_max_key m") (auto simp: btree_op_max_def dom)
  ultimately show ?thesis
    using assms
    by (auto simp: btree_op_set_def btree_op_del_def btree_op_get_def btree_map.get_insert btree_map.get_remove)
qed

lemma btree_is_ordered_map_witness:
  "btree_op_min (VBTree [(3, VNull), (5, VNull)]) = Good (VUint32 3)
   \<and> btree_op_get 4 (VBTree [(3, VNull), (4, VBool True), (5, VNull)]) = Good (VBool True)"
  using btree_is_ordered_map [of "[(3, VNull), (5, VNull)]" 4 "VBool True"
      "VBTree [(3, VNull), (4, VBool True), (5, VNull)]" "VBTree [(3, VNull), (5, VNull)]" 4]
  by (simp add: keys_ordered_def btree_op_set_def btree_op_del_def btree_remove_def btree_op_min_def
      btree_min_key_def)

subsection \<open>Order of queues and stacks\<close>

text \<open>Put values in one after the other; take \<open>n\<close> values out one after the other.\<close>

fun put_all :: "(fasm_value \<Rightarrow> fasm_value \<Rightarrow> fasm_value outcome) \<Rightarrow> fasm_value list \<Rightarrow> fasm_value \<Rightarrow> fasm_value outcome" where
  "put_all put [] c = Good c"
| "put_all put (x # xs) c = out_bind (put x c) (put_all put xs)"

fun take_all :: "(fasm_value \<Rightarrow> (fasm_value \<times> fasm_value) outcome) \<Rightarrow> nat \<Rightarrow> fasm_value \<Rightarrow> (fasm_value list \<times> fasm_value) outcome" where
  "take_all out 0 c = Good ([], c)"
| "take_all out (Suc n) c = out_bind (out c) (\<lambda>(x, c').
     out_bind (take_all out n c') (\<lambda>(xs, c''). Good (x # xs, c'')))"

lemma put_all_back:
  "put_all coll_enqueue xs (VQueue q) = Good (VQueue (q @ xs))"
  "put_all coll_push xs (VStack s) = Good (VStack (s @ xs))"
  "put_all coll_push xs (VDeque d) = Good (VDeque (d @ xs))"
  "put_all coll_prepend xs (VDeque d) = Good (VDeque (rev xs @ d))"
  by (induction xs arbitrary: q s d) (simp_all add: coll_enqueue_def coll_push_def coll_prepend_def)

lemma take_all_front:
  "take_all coll_dequeue (length xs) (VQueue (xs @ q)) = Good (xs, VQueue q)"
  "take_all coll_dequeue (length xs) (VDeque (xs @ q)) = Good (xs, VDeque q)"
  by (induction xs) (simp_all add: coll_dequeue_def pop_first_def)

lemma take_all_back:
  "take_all coll_pop (length xs) (VStack (s @ xs)) = Good (rev xs, VStack s)"
  "take_all coll_pop_back (length xs) (VDeque (s @ xs)) = Good (rev xs, VDeque s)"
  by (induction xs rule: rev_induct)
    (simp_all add: coll_pop_def coll_pop_back_def pop_last_def butlast_append flip: append_assoc)

text \<open>A queue gives its values back in the order they were enqueued, a stack in the opposite
  order; a double-ended queue does either, depending on the end they are taken from and put to.\<close>

theorem queues_and_stacks_keep_order:
  "out_bind (put_all coll_enqueue xs (VQueue [])) (take_all coll_dequeue (length xs)) = Good (xs, VQueue [])
   \<and> out_bind (put_all coll_push xs (VStack [])) (take_all coll_pop (length xs)) = Good (rev xs, VStack [])
   \<and> out_bind (put_all coll_push xs (VDeque [])) (take_all coll_dequeue (length xs)) = Good (xs, VDeque [])
   \<and> out_bind (put_all coll_push xs (VDeque [])) (take_all coll_pop_back (length xs)) = Good (rev xs, VDeque [])
   \<and> out_bind (put_all coll_prepend xs (VDeque [])) (take_all coll_dequeue (length xs)) = Good (rev xs, VDeque [])"
  using take_all_front(1) [of xs "[]"] take_all_front(2) [of xs "[]"] take_all_front(2) [of "rev xs" "[]"]
    take_all_back(1) [of xs "[]"] take_all_back(2) [of xs "[]"]
  by (simp add: put_all_back)

subsection \<open>Bitsets\<close>

text \<open>C34. A bitset is the set of its bits: BIT_SET, BIT_CLR, BIT_FLIP and BIT_GET insert, remove,
  toggle and test a member, and BIT_AND, BIT_OR, BIT_XOR are intersection, union and symmetric
  difference, for operands of different capacities too.\<close>

theorem bitset_is_set:
  assumes "set_bit i b = Some b1" "flip_bit i b = Some b2"
  shows "members b1 = insert (unat i) (members b)
    \<and> members b2 = (if unat i \<in> members b then members b - {unat i} else insert (unat i) (members b))
    \<and> members (clr_bit i b) = members b - {unat i}
    \<and> get_bit i b = (unat i \<in> members b)
    \<and> members (bitset_and b c) = members b \<inter> members c
    \<and> members (bitset_or b c) = members b \<union> members c
    \<and> members (bitset_xor b c) = (members b - members c) \<union> (members c - members b)"
  using set_bit_members [OF assms(1)] flip_bit_members [OF assms(2)]
  by (simp add: clr_bit_members get_bit_members bitset_and_members bitset_or_members bitset_xor_members)

lemma bitset_is_set_witness:
  "members (the (set_bit 9 bitset_default)) = {9}"
proof -
  have u: "unat (9 :: u32) = 9" by simp
  obtain b1 b2 where b: "set_bit 9 bitset_default = Some b1" "flip_bit 9 bitset_default = Some b2"
    using set_bit_panics_iff [of 9 bitset_default] flip_bit_panics_iff [of 9 bitset_default] by force
  from bitset_is_set [OF this] b show ?thesis
    by simp
qed

text \<open>BIT_COUNT is the number of set bits (as a \<open>u32\<close>).\<close>

theorem popcount_is_cardinality:
  "bits_query (\<lambda>b. VUint32 (popcount b)) (VBitset b) = Good (VUint32 (of_nat (card (members b))))"
  by (simp add: bits_query_def popcount_card)

text \<open>BIT_SET and BIT_FLIP panic the host on exactly one index, the largest \<open>u32\<close>, and do so on
  every bitset of at most \<open>2 ^ 29 - 1\<close> bytes: the capacity \<open>idx + 1\<close> wraps to zero.\<close>

theorem bit_set_panics:
  "(bits_update (set_bit i) (VBitset b) = Abort) = (i = 0xFFFFFFFF \<and> length (bs_bytes b) < 2 ^ 29)
   \<and> (bits_update (flip_bit i) (VBitset b) = Abort) = (i = 0xFFFFFFFF \<and> length (bs_bytes b) < 2 ^ 29)"
proof -
  have "bits_update f (VBitset b) = Abort \<longleftrightarrow> f b = None" for f
    by (cases "f b") (auto simp: bits_update_def)
  moreover have m1: "(- 1 :: u32) = 0xFFFFFFFF" and "length (bs_bytes b) \<le> 2 ^ 29 - 1 \<longleftrightarrow> length (bs_bytes b) < 2 ^ 29"
    by auto
  ultimately show ?thesis
    using set_bit_panics_iff [of i b, unfolded m1] flip_bit_panics_iff [of i b] by simp
qed

text \<open>BIT_SET inside the bytes already there leaves the length field alone, whatever the index:
  LEN does not cover every bit that can be set and read.\<close>

theorem bit_set_keeps_length:
  assumes "unat i div 8 < length (bs_bytes b)"
  shows "\<exists>b'. bits_update (set_bit i) (VBitset b) = Good (VBitset b') \<and> coll_len (VBitset b') = coll_len (VBitset b)
    \<and> get_bit i b'"
proof -
  obtain b' where b': "set_bit i b = Some b'"
    using assms by (auto simp: set_bit_def Let_def reserve_bit_def)
  then have "bs_len b' = bs_len b"
    using assms by (auto simp: set_bit_def Let_def reserve_bit_def)
  with b' show ?thesis
    using set_bit_members [OF b'] by (auto simp: bits_update_def coll_len_def get_bit_members)
qed

lemma bit_set_keeps_length_witness:
  "\<exists>b'. bits_update (set_bit 7) (VBitset (bitset_new 1)) = Good (VBitset b') \<and> coll_len (VBitset b') = Good 1
    \<and> get_bit 7 b'"
  using bit_set_keeps_length [of 7 "bitset_new 1"] by (simp add: bitset_new_def div_ceil8_def coll_len_def)

subsection \<open>Bit vectors\<close>

text \<open>BITVEC_READ of the field that BITVEC_WRITE wrote gives the value, cut to the width of the
  field; every field that does not overlap it reads as before, whatever its width.\<close>

theorem bitvec_field_read_back:
  assumes "fits s (field_width n)" "bitvec_update (write_bits s n v) (VBitvec bv) = Good (VBitvec bv')"
  shows "read_bits s n bv' = take_bit (field_width n) v
    \<and> (fits s' (field_width n') \<and> (unat s' + field_width n' \<le> unat s \<or> unat s + field_width n \<le> unat s')
       \<longrightarrow> read_bits s' n' bv' = read_bits s' n' bv)"
proof -
  have "write_bits s n v bv = Some bv'"
    using assms(2) by (cases "write_bits s n v bv") (auto simp: bitvec_update_def)
  with assms(1) show ?thesis
    by (auto simp: read_bits_write_bits intro!: read_bits_write_other)
qed

lemma bitvec_field_read_back_witness:
  "\<exists>bv'. bitvec_update (write_bits 5 12 0xABC) (VBitvec bitvec_default) = Good (VBitvec bv')
     \<and> read_bits 5 12 bv' = 0xABC"
proof -
  have f: "fits 5 (field_width 12)"
    by (simp add: fits_def field_width_def)
  obtain bv' where w: "write_bits 5 12 0xABC bitvec_default = Some bv'"
    using write_bits_Some [OF f] by metis
  then have "bitvec_update (write_bits 5 12 0xABC) (VBitvec bitvec_default) = Good (VBitvec bv')"
    by (simp add: bitvec_update_def)
  with bitvec_field_read_back [OF f this, of 0 0] show ?thesis
    by (simp add: field_width_def take_bit_eq_mask mask_eq_exp_minus_1)
qed

text \<open>BITVEC_PUSH appends: the length grows by the width of the field, the field reads back at the
  old length, and every field before it is untouched.\<close>

theorem bitvec_push_appends:
  assumes "fits (bv_len bv) (field_width n)" "push_bits v n bv = Some bv'"
  shows "bv_len bv' = bv_len bv + of_nat (field_width n)
    \<and> read_bits (bv_len bv) n bv' = take_bit (field_width n) v
    \<and> (unat s' + field_width n' \<le> unat (bv_len bv) \<longrightarrow> read_bits s' n' bv' = read_bits s' n' bv)"
proof -
  have w: "write_bits (bv_len bv) n v bv = Some bv'"
    using assms(2) by (simp add: push_bits_def)
  then obtain "bv_len bv' = max (bv_len bv) (bv_len bv + of_nat (field_width n))"
    using write_bits_Some [OF assms(1), of v bv] by (metis option.inject)
  moreover have "bv_len bv \<le> bv_len bv + of_nat (field_width n)"
    using unat_pos [OF assms(1), of "field_width n"] by (simp add: word_le_nat_alt)
  moreover have "unat (bv_len bv) < 2 ^ 64"
    using unsigned_less [of "bv_len bv"] by simp
  then have "fits s' (field_width n')" if "unat s' + field_width n' \<le> unat (bv_len bv)"
    using that by (simp add: fits_def)
  ultimately show ?thesis
    using read_bits_write_bits [OF assms(1) w] read_bits_write_other [OF assms(1) _ w, of s' n']
    by (auto simp: max_def)
qed

lemma bitvec_push_appends_witness:
  "\<exists>bv'. push_bits 6 3 bitvec_default = Some bv' \<and> bv_len bv' = 3 \<and> read_bits 0 3 bv' = 6"
proof -
  have f: "fits (bv_len bitvec_default) (field_width 3)"
    by (simp add: fits_def field_width_def bitvec_default_def)
  obtain bv' where w: "push_bits 6 3 bitvec_default = Some bv'"
    unfolding push_bits_def using write_bits_Some [OF f] by metis
  from bitvec_push_appends [OF f this, of 0 0] w show ?thesis
    by (simp add: field_width_def bitvec_default_def take_bit_eq_mask mask_eq_exp_minus_1)
qed

text \<open>A BITVEC_WRITE whose end position overflows \<open>u64\<close> panics the host: the end wraps, no byte is
  added, and the first bit is out of range.\<close>

theorem bitvec_write_overflow_panics:
  assumes "2 ^ 64 \<le> unat s + field_width n" "0 < field_width n" "length (bv_bytes bv) \<le> unat s div 8"
  shows "bitvec_update (write_bits s n v) (VBitvec bv) = Abort"
proof -
  let ?n = "field_width n"
  have "?n < 2 ^ 64"
    using field_width_le [of n] by (rule le_less_trans) simp
  then have n: "unat (of_nat ?n :: u64) = ?n"
    by (simp add: unat_of_nat)
  have s: "unat s < 2 ^ 64"
    using unsigned_less [of s] by simp
  have "unat (s + of_nat ?n) = (unat s + ?n) mod 2 ^ 64"
    by (simp only: unat_word_ariths n) simp
  also have "\<dots> = (unat s + ?n - 2 ^ 64) mod 2 ^ 64"
    using assms(1) by (rule le_mod_geq)
  also have "\<dots> < 64"
    using s field_width_le [of n] by (intro le_less_trans [OF mod_less_eq_dividend]) linarith
  finally have end_small: "div_ceil8 (unat (s + of_nat ?n)) \<le> 8"
    by (simp add: div_ceil8_le)
  define bs where "bs = (if div_ceil8 (unat (s + of_nat ?n)) > length (bv_bytes bv)
    then resize_to (div_ceil8 (unat (s + of_nat ?n))) 0 (bv_bytes bv) else bv_bytes bv)"
  have "2 ^ 64 \<le> unat s + 64"
    using assms(1) add_left_mono [OF field_width_le, of "unat s" n] by linarith
  then have "8 \<le> unat s div 8"
    by simp
  then have "length bs \<le> unat s div 8"
    using assms(3) end_small by (simp add: bs_def)
  then have "write_at b (unat s) bs = None" for b
    by (simp add: write_at_def)
  moreover obtain m where "[0..<?n] = 0 # m"
    using assms(2) by (metis upt_conv_Cons)
  ultimately have "write_loop s v [0..<?n] bs = None"
    by simp
  then have "write_bits s n v bv = None"
    by (simp only: write_bits_def Let_def bs_def [symmetric] option.map)
  then show ?thesis
    by (simp add: bitvec_update_def)
qed

lemma bitvec_write_overflow_panics_witness:
  "bitvec_update (write_bits 0xFFFFFFFFFFFFFFFF 1 0) (VBitvec bitvec_default) = Abort"
  by (rule bitvec_write_overflow_panics) (simp_all add: field_width_def bitvec_default_def)

subsection \<open>Vectors\<close>

text \<open>VEC_SORT permutes the vector into ascending order of its numeric keys.\<close>

theorem vec_sort_sorts:
  "\<exists>ys. vec_sort (VVec xs) = Good (VVec ys) \<and> mset ys = mset xs \<and> sorted (map vec_key ys)"
  by (simp add: vec_sort_def)

lemma mset_merge_loop: "mset (merge_loop va vb) = mset va + mset vb"
  by (induction va vb rule: merge_loop.induct) auto

lemma set_merge: "set (merge_loop va vb) = set va \<union> set vb"
  by (induction va vb rule: merge_loop.induct) auto

lemma sorted_merge_loop:
  "sorted (map vec_key va) \<Longrightarrow> sorted (map vec_key vb) \<Longrightarrow> sorted (map vec_key (merge_loop va vb))"
  by (induction va vb rule: merge_loop.induct) (auto simp: set_merge)

text \<open>VEC_MERGE keeps every element of both vectors, and merges sorted vectors into a sorted one.\<close>

theorem vec_merge_merges:
  assumes "vec_merge (VVec va) (VVec vb) = Good (VVec vs)"
  shows "mset vs = mset va + mset vb
    \<and> (sorted (map vec_key va) \<and> sorted (map vec_key vb) \<longrightarrow> sorted (map vec_key vs))"
  using assms by (auto simp: vec_merge_def mset_merge_loop sorted_merge_loop)

lemma vec_merge_merges_witness:
  "sorted (map vec_key [VInt8 1, VUint16 2, VInt8 3])"
proof -
  have "vec_merge (VVec [VInt8 1, VInt8 3]) (VVec [VUint16 2]) = Good (VVec [VInt8 1, VUint16 2, VInt8 3])"
    by (simp add: vec_merge_def vec_key_def numeric_as_i64_def)
  from vec_merge_merges [OF this] show ?thesis
    by (simp add: vec_key_def numeric_as_i64_def)
qed

text \<open>VEC_SLICE copies the elements from the start index, at most as many as asked for: any start
  and length are allowed, and what lies beyond the end is left out.\<close>

theorem vec_slice_is_sublist:
  "vec_slice start len (VVec v) = Good (VSlice (take len (drop start v)))"
proof (cases "start + len \<le> length v")
  case False
  then show ?thesis
    by (auto simp: vec_slice_def Let_def min_def)
qed (simp add: vec_slice_def Let_def)

end
