(* ===== verification/Fasm_Numbers.thy ===== *)
theory Fasm_Numbers
  imports Fasm_Ops
begin

text \<open>
  What the arithmetic, comparison, bitwise and cast instructions compute, against the mathematical
  integers.  \<open>int_value\<close> is the number a value stands for, \<open>typed t i\<close> the value of type \<open>t\<close>
  congruent to \<open>i\<close>.
\<close>

definition int_value :: "fasm_value \<Rightarrow> int option" where
  "int_value v = (case v of
      VBool b \<Rightarrow> Some (if b then 1 else 0)
    | VInt8 n \<Rightarrow> Some (sint n)
    | VInt16 n \<Rightarrow> Some (sint n)
    | VInt32 n \<Rightarrow> Some (sint n)
    | VInt64 n \<Rightarrow> Some (sint n)
    | VUint8 n \<Rightarrow> Some (uint n)
    | VUint16 n \<Rightarrow> Some (uint n)
    | VUint32 n \<Rightarrow> Some (uint n)
    | VUint64 n \<Rightarrow> Some (uint n)
    | _ \<Rightarrow> None)"

definition int_type :: "fasm_value \<Rightarrow> fasm_type option" where
  "int_type v = (case v of
      VInt8 _ \<Rightarrow> Some TyInt8
    | VInt16 _ \<Rightarrow> Some TyInt16
    | VInt32 _ \<Rightarrow> Some TyInt32
    | VInt64 _ \<Rightarrow> Some TyInt64
    | VUint8 _ \<Rightarrow> Some TyUint8
    | VUint16 _ \<Rightarrow> Some TyUint16
    | VUint32 _ \<Rightarrow> Some TyUint32
    | VUint64 _ \<Rightarrow> Some TyUint64
    | _ \<Rightarrow> None)"

definition typed :: "fasm_type \<Rightarrow> int \<Rightarrow> fasm_value option" where
  "typed t i = (case t of
      TyBool \<Rightarrow> Some (VBool (i \<noteq> 0))
    | TyInt8 \<Rightarrow> Some (VInt8 (word_of_int i))
    | TyInt16 \<Rightarrow> Some (VInt16 (word_of_int i))
    | TyInt32 \<Rightarrow> Some (VInt32 (word_of_int i))
    | TyInt64 \<Rightarrow> Some (VInt64 (word_of_int i))
    | TyUint8 \<Rightarrow> Some (VUint8 (word_of_int i))
    | TyUint16 \<Rightarrow> Some (VUint16 (word_of_int i))
    | TyUint32 \<Rightarrow> Some (VUint32 (word_of_int i))
    | TyUint64 \<Rightarrow> Some (VUint64 (word_of_int i))
    | _ \<Rightarrow> None)"

lemma ucast_word_of_int:
  "LENGTH('b::len) \<le> LENGTH('a::len) \<Longrightarrow> ucast (word_of_int i :: 'a word) = (word_of_int i :: 'b word)"
  by transfer (simp add: min_def)

lemma word_of_int_sint: "word_of_int (sint (w :: 'a::len word)) = w"
  by simp

lemma scast_word_of_int: "scast (w :: 'a::len word) = (word_of_int (sint w) :: 'b::len word)"
  by simp

lemma ucast_as_word_of_int: "ucast (w :: 'a::len word) = (word_of_int (uint w) :: 'b::len word)"
  by simp

text \<open>The \<open>i64\<close> an operand is widened to is its number, modulo \<open>2 ^ 64\<close>.\<close>

lemma int_value_i64: "int_value v = Some x \<Longrightarrow> numeric_as_i64 v = Some (word_of_int x)"
  by (auto simp: int_value_def numeric_as_i64_def bool_word_def split: val_splits)

lemma int_typeE:
  assumes "int_type a = Some t" "int_type b = Some t" "int_value a = Some x" "int_value b = Some y"
    and "\<And>n m. a = VInt8 n \<Longrightarrow> b = VInt8 m \<Longrightarrow> t = TyInt8 \<Longrightarrow> x = sint n \<Longrightarrow> y = sint m \<Longrightarrow> thesis"
    and "\<And>n m. a = VInt16 n \<Longrightarrow> b = VInt16 m \<Longrightarrow> t = TyInt16 \<Longrightarrow> x = sint n \<Longrightarrow> y = sint m \<Longrightarrow> thesis"
    and "\<And>n m. a = VInt32 n \<Longrightarrow> b = VInt32 m \<Longrightarrow> t = TyInt32 \<Longrightarrow> x = sint n \<Longrightarrow> y = sint m \<Longrightarrow> thesis"
    and "\<And>n m. a = VInt64 n \<Longrightarrow> b = VInt64 m \<Longrightarrow> t = TyInt64 \<Longrightarrow> x = sint n \<Longrightarrow> y = sint m \<Longrightarrow> thesis"
    and "\<And>n m. a = VUint8 n \<Longrightarrow> b = VUint8 m \<Longrightarrow> t = TyUint8 \<Longrightarrow> x = uint n \<Longrightarrow> y = uint m \<Longrightarrow> thesis"
    and "\<And>n m. a = VUint16 n \<Longrightarrow> b = VUint16 m \<Longrightarrow> t = TyUint16 \<Longrightarrow> x = uint n \<Longrightarrow> y = uint m \<Longrightarrow> thesis"
    and "\<And>n m. a = VUint32 n \<Longrightarrow> b = VUint32 m \<Longrightarrow> t = TyUint32 \<Longrightarrow> x = uint n \<Longrightarrow> y = uint m \<Longrightarrow> thesis"
    and "\<And>n m. a = VUint64 n \<Longrightarrow> b = VUint64 m \<Longrightarrow> t = TyUint64 \<Longrightarrow> x = uint n \<Longrightarrow> y = uint m \<Longrightarrow> thesis"
  shows thesis
  using assms(1-4)
  by (cases a; simp add: int_type_def; cases b; simp add: int_type_def)
    (auto simp: int_value_def intro: assms(5-))

text \<open>A 64-bit operation, given as an operation on integers modulo \<open>2 ^ 64\<close>, and the operation that
  every integer type performs with it.\<close>

lemma numeric_op_typed:
  assumes "int_type a = Some t" "int_type b = Some t" "int_value a = Some x" "int_value b = Some y"
    and "int_op (word_of_int x) (word_of_int y) = Done (word_of_int z)" "typed t z = Some r"
  shows "numeric_op int_op float_op a b = Done (Some r)"
  using assms(1-4)
  by (rule int_typeE)
    (use assms(5,6) in \<open>auto simp: numeric_op_def typed_def ucast_word_of_int\<close>)

lemma bitwise_op_typed:
  assumes "int_type a = Some t" "int_type b = Some t" "int_value a = Some x" "int_value b = Some y"
    and "op' (word_of_int x) (word_of_int y) = word_of_int z" "typed t z = Some r"
  shows "bitwise_op op' a b = Some r"
  using assms(1-4)
  by (rule int_typeE)
    (use assms(5,6) in \<open>auto simp: bitwise_op_def typed_def ucast_word_of_int\<close>)

subsection \<open>Arithmetic\<close>

text \<open>ADD, SUB and MUL of two integers of the same type give the sum, difference and product
  wrapped to that type, for each of the eight integer types.\<close>

theorem add_sub_mul_wrap:
  assumes "int_type a = Some t" "int_type b = Some t" "int_value a = Some x" "int_value b = Some y"
  shows "arith_binary OpAdd a b = ok_or FTypeMismatch (typed t (x + y))
    \<and> arith_binary OpSub a b = ok_or FTypeMismatch (typed t (x - y))
    \<and> arith_binary OpMul a b = ok_or FTypeMismatch (typed t (x * y))"
proof -
  have "\<exists>r. typed t z = Some r" for z
    using assms(1) by (auto simp: int_type_def typed_def split: val_splits)
  then obtain r1 r2 r3 where r: "typed t (x + y) = Some r1" "typed t (x - y) = Some r2" "typed t (x * y) = Some r3"
    by metis
  show ?thesis
    using numeric_op_typed [OF assms, of "\<lambda>a b. Done (a + b)", OF _ r(1)]
      numeric_op_typed [OF assms, of "\<lambda>a b. Done (a - b)", OF _ r(2)]
      numeric_op_typed [OF assms, of "\<lambda>a b. Done (a * b)", OF _ r(3)]
    by (simp add: r val_add_def val_sub_def val_mul_def arith_result_def)
qed

lemma add_sub_mul_wrap_witness:
  "arith_binary OpAdd (VInt8 100) (VInt8 100) = Good (VInt8 200)
   \<and> arith_binary OpSub (VUint16 1) (VUint16 2) = Good (VUint16 0xFFFF)"
  using add_sub_mul_wrap [of "VInt8 100" TyInt8 "VInt8 100" 100 100]
    add_sub_mul_wrap [of "VUint16 1" TyUint16 "VUint16 2" 1 2]
  by (simp add: int_type_def int_value_def typed_def)

lemma typed_exists: "int_type a = Some t \<Longrightarrow> \<exists>r. typed t z = Some r"
  by (auto simp: int_type_def typed_def split: val_splits)

lemma sint_word_of_int: "- (2 ^ 63) \<le> x \<Longrightarrow> x < 2 ^ 63 \<Longrightarrow> sint (word_of_int x :: i64) = x"
  by transfer (simp add: signed_take_bit_int_eq_self)

lemma word_of_int_eq_0: "- (2 ^ 63) \<le> x \<Longrightarrow> x < 2 ^ 63 \<Longrightarrow> (word_of_int x :: i64) = 0 \<longleftrightarrow> x = 0"
  using sint_word_of_int [of x] by (metis signed_0 word_of_int_0)

lemma int_value_truthy: "int_value v = Some x \<Longrightarrow> is_truthy v \<longleftrightarrow> x \<noteq> 0"
  by (auto simp: int_value_def is_truthy_def signed_eq_0_iff unsigned_eq_0_iff split: val_splits if_splits)

lemma i64_div_Done:
  "b \<noteq> 0 \<Longrightarrow> \<not> (a = 0x8000000000000000 \<and> b = - 1) \<Longrightarrow>
     i64_div a b = Done (word_of_int (sint a sdiv sint b)) \<and> i64_rem a b = Done (word_of_int (sint a smod sint b))"
  by (simp add: i64_div_def i64_rem_def)

lemma i64_no_overflow:
  assumes "- (2 ^ 63) \<le> x" "x < 2 ^ 63" "- (2 ^ 63) \<le> y" "y < 2 ^ 63" "y \<noteq> 0" "\<not> (x = - (2 ^ 63) \<and> y = - 1)"
  shows "i64_div (word_of_int x) (word_of_int y) = Done (word_of_int (x sdiv y))"
    and "i64_rem (word_of_int x) (word_of_int y) = Done (word_of_int (x smod y))"
proof -
  have s: "sint (word_of_int x :: i64) = x" "sint (word_of_int y :: i64) = y"
    using assms by (simp_all only: sint_word_of_int)
  have "sint (0x8000000000000000 :: i64) = - (2 ^ 63)" "sint (- 1 :: i64) = - 1"
    by simp_all
  then have no_overflow: "\<not> (word_of_int x = (0x8000000000000000 :: i64) \<and> word_of_int y = (- 1 :: i64))"
    using assms(6) s by metis
  have nonzero: "(word_of_int y :: i64) \<noteq> 0"
    using assms(5) s(2) by (metis signed_0)
  have "i64_div (word_of_int x) (word_of_int y) = Done (word_of_int (x sdiv y))
      \<and> i64_rem (word_of_int x) (word_of_int y) = Done (word_of_int (x smod y))"
    using i64_div_Done [OF nonzero no_overflow] by (simp only: s)
  then show "i64_div (word_of_int x) (word_of_int y) = Done (word_of_int (x sdiv y))"
    and "i64_rem (word_of_int x) (word_of_int y) = Done (word_of_int (x smod y))"
    by simp_all
qed

lemma sint_low: "LENGTH('a::len) \<le> 64 \<Longrightarrow> - (2 ^ 63) \<le> sint (w :: 'a word)"
proof -
  assume "LENGTH('a) \<le> 64"
  then have "(2 :: int) ^ (LENGTH('a) - Suc 0) \<le> 2 ^ 63"
    by (intro power_increasing) auto
  with sint_greater_eq [of w] show ?thesis
    by linarith
qed

lemma int_value_low: "int_value v = Some x \<Longrightarrow> - (2 ^ 63) \<le> x"
  by (auto simp: int_value_def split: val_splits intro: sint_low [simplified]
      order_trans [OF _ unsigned_greater_eq])

text \<open>DIV and MOD of two integers of the same type give the quotient truncated towards zero and the
  remainder with the sign of the dividend, wrapped to the type, when the divisor is not zero, both
  numbers fit in \<open>i64\<close> and the division does not overflow \<open>i64\<close>.\<close>

theorem div_mod_truncate:
  assumes "int_type a = Some t" "int_type b = Some t" "int_value a = Some x" "int_value b = Some y"
    and "x < 2 ^ 63" "y < 2 ^ 63" "y \<noteq> 0" "\<not> (x = - (2 ^ 63) \<and> y = - 1)"
  shows "arith_binary OpDiv a b = ok_or FTypeMismatch (typed t (x sdiv y))
    \<and> arith_binary OpMod a b = ok_or FTypeMismatch (typed t (x smod y))"
proof -
  obtain r1 r2 where r: "typed t (x sdiv y) = Some r1" "typed t (x smod y) = Some r2"
    using typed_exists [OF assms(1)] by metis
  note i64 = i64_no_overflow [OF int_value_low [OF assms(3)] assms(5) int_value_low [OF assms(4)] assms(6-8)]
  show ?thesis
    using numeric_op_typed [OF assms(1-4), of i64_div, OF i64(1) r(1)]
      numeric_op_typed [OF assms(1-4), of i64_rem, OF i64(2) r(2)] int_value_truthy [OF assms(4)] assms(7)
    by (simp add: r val_div_def val_rem_def nonzero_divisor_def arith_result_def)
qed

lemma div_mod_truncate_witness:
  "arith_binary OpDiv (VInt32 (- 7)) (VInt32 2) = Good (VInt32 (- 3))
   \<and> arith_binary OpMod (VInt32 (- 7)) (VInt32 2) = Good (VInt32 (- 1))"
  using div_mod_truncate [of "VInt32 (- 7)" TyInt32 "VInt32 2" "- 7" 2]
  by (simp add: int_type_def int_value_def typed_def signed_divide_int_def signed_modulo_int_def)


lemma numeric_op_HostPanic:
  "numeric_op f g a b = HostPanic \<longleftrightarrow>
     (\<exists>t x y. int_type a = Some t \<and> int_type b = Some t \<and> int_value a = Some x \<and> int_value b = Some y
       \<and> f (word_of_int x) (word_of_int y) = HostPanic)"
  by (cases a; simp add: numeric_op_def int_type_def int_value_def; cases b; simp)

lemma sint_narrow: "LENGTH('a::len) \<le> 32 \<Longrightarrow> - 9223372036854775808 < sint (w :: 'a word) \<and> sint w < 9223372036854775808"
proof -
  assume "LENGTH('a) \<le> 32"
  then have "LENGTH('a) - Suc 0 \<le> 31"
    by simp
  then have "(2 :: int) ^ (LENGTH('a) - Suc 0) \<le> 2 ^ 31"
    by (rule power_increasing) simp
  with sint_greater_eq [of w] sint_less [of w] show ?thesis
    by simp
qed

lemma uint_narrow: "LENGTH('a::len) \<le> 32 \<Longrightarrow> uint (w :: 'a word) < 9223372036854775808"
proof -
  assume "LENGTH('a) \<le> 32"
  then have "(2 :: int) ^ LENGTH('a) \<le> 2 ^ 32"
    by (rule power_increasing) simp
  then have "uint w < 2 ^ 32"
    by (rule less_le_trans [OF unsigned_less])
  then show ?thesis
    by simp
qed

lemma int_value_narrow:
  assumes "int_type a = Some t" "int_value a = Some x" "t \<noteq> TyInt64" "t \<noteq> TyUint64"
  shows "- (2 ^ 63) < x \<and> x < 2 ^ 63"
  using assms
  by (cases a) (auto simp: int_type_def int_value_def sint_narrow uint_narrow
      intro: less_le_trans [OF _ unsigned_greater_eq])

lemma int_value_zero: "int_value v = Some x \<Longrightarrow> (word_of_int x :: i64) = 0 \<longleftrightarrow> x = 0"
proof (cases "int_type v")
  case None
  then show "int_value v = Some x \<Longrightarrow> ?thesis"
    by (cases v) (auto simp: int_type_def int_value_def)
next
  case (Some t)
  assume x: "int_value v = Some x"
  show ?thesis
  proof (cases "t = TyInt64 \<or> t = TyUint64")
    case True
    then show ?thesis
      using Some x by (cases v) (auto simp: int_type_def int_value_def signed_eq_0_iff unsigned_eq_0_iff)
  next
    case False
    with int_value_narrow [OF Some x] have "sint (word_of_int x :: i64) = x"
      by (auto simp: sint_word_of_int)
    then show ?thesis
      by (metis signed_0 word_of_int_0)
  qed
qed

definition overflowing :: "fasm_value \<Rightarrow> fasm_value \<Rightarrow> bool" where
  "overflowing a b \<longleftrightarrow> a = VInt64 0x8000000000000000 \<and> b = VInt64 (- 1)
     \<or> a = VUint64 0x8000000000000000 \<and> b = VUint64 (- 1)"

lemma numeric_op_overflow:
  assumes f: "\<And>x y. f x y = HostPanic \<longleftrightarrow> y = 0 \<or> x = 0x8000000000000000 \<and> y = - 1" and b: "is_truthy b"
  shows "numeric_op f g a b = HostPanic \<longleftrightarrow> overflowing a b"
proof
  assume "overflowing a b"
  then show "numeric_op f g a b = HostPanic"
    using f by (auto simp: overflowing_def numeric_op_def)
next
  assume "numeric_op f g a b = HostPanic"
  then obtain t x y where v: "int_type a = Some t" "int_type b = Some t" "int_value a = Some x" "int_value b = Some y"
      "f (word_of_int x) (word_of_int y) = HostPanic"
    unfolding numeric_op_HostPanic by blast
  then consider "(word_of_int y :: i64) = 0" | "word_of_int x = (0x8000000000000000 :: i64)" "word_of_int y = (- 1 :: i64)"
    using f [of "word_of_int x" "word_of_int y"] by auto
  then show "overflowing a b"
  proof cases
    case 1
    have "y = 0"
      using int_value_zero [OF v(4)] 1 by simp
    with int_value_truthy [OF v(4)] b show ?thesis
      by simp
  next
    case 2
    have "t = TyInt64 \<or> t = TyUint64"
    proof (rule ccontr)
      assume "\<not> (t = TyInt64 \<or> t = TyUint64)"
      with int_value_narrow [OF v(1,3)] have "sint (word_of_int x :: i64) = x" "- (2 ^ 63) < x"
        by (auto simp: sint_word_of_int)
      with 2(1) show False
        by simp
    qed
    then show ?thesis
      using v 2 by (cases a; cases b) (auto simp: int_type_def int_value_def overflowing_def)
  qed
qed

text \<open>C38. DIV and MOD panic the host on exactly the pairs of operands whose \<open>i64\<close> quotient
  overflows: the least number by \<open>-1\<close>, both INT64 or both UINT64 (whose bits are read as signed).
  Every divisor that is not truthy is the fault DivisionByZero, and no other arithmetic
  instruction panics.\<close>

theorem division_failures:
  "(arith_binary OpDiv a b = Abort) = overflowing a b
   \<and> (arith_binary OpMod a b = Abort) = overflowing a b
   \<and> (arith_binary OpDiv a b = Bad FDivisionByZero) = (\<not> is_truthy b)
   \<and> (arith_binary OpMod a b = Bad FDivisionByZero) = (\<not> is_truthy b)
   \<and> arith_binary OpAdd a b \<noteq> Abort \<and> arith_binary OpSub a b \<noteq> Abort \<and> arith_binary OpMul a b \<noteq> Abort"
proof -
  have o: "overflowing a b \<Longrightarrow> is_truthy b"
    by (auto simp: overflowing_def is_truthy_def)
  have "numeric_op i64_div f64_div a b = HostPanic \<longleftrightarrow> overflowing a b" if "is_truthy b"
    using that by (intro numeric_op_overflow) (simp_all add: i64_div_def)
  moreover have "numeric_op i64_rem f64_rem a b = HostPanic \<longleftrightarrow> overflowing a b" if "is_truthy b"
    using that by (intro numeric_op_overflow) (simp_all add: i64_rem_def)
  moreover have "arith_result r \<noteq> Bad FDivisionByZero" for r
    by (simp add: arith_result_def ok_or_def split: host.split option.split)
  moreover have "numeric_op (\<lambda>x y. Done (f x y)) g a b \<noteq> HostPanic" for f g
    by (simp add: numeric_op_HostPanic)
  ultimately show ?thesis
    using o by (auto simp: val_div_def val_rem_def val_add_def val_sub_def val_mul_def nonzero_divisor_def)
qed

lemma sint_high: "2 ^ 63 \<le> uint w \<Longrightarrow> sint (w :: u64) = uint w - 2 ^ 64"
proof -
  assume high: "2 ^ 63 \<le> uint w"
  have "uint w < 2 ^ 64"
    using unsigned_less [of w, where ?'a = int] by simp
  then have "sint (word_of_int (uint w - 2 ^ 64) :: i64) = uint w - 2 ^ 64"
    using high by (intro sint_word_of_int) simp_all
  moreover have "(word_of_int (uint w - 2 ^ 64) :: i64) = word_of_int (uint w) - word_of_int (2 ^ 64)"
    by (simp only: wi_hom_sub)
  moreover have "(word_of_int (2 ^ 64) :: i64) = 0"
    by transfer simp
  ultimately show ?thesis
    by (metis diff_zero word_of_int_uint)
qed

lemma sint_small: "uint v < 2 ^ 63 \<Longrightarrow> sint (v :: u64) = uint v"
proof -
  assume "uint v < 2 ^ 63"
  moreover have "- (2 ^ 63) \<le> uint v"
    by (rule order_trans [OF _ unsigned_greater_eq]) simp
  ultimately show ?thesis
    using sint_word_of_int [of "uint v"] by simp
qed

text \<open>A UINT64 dividend of \<open>2 ^ 63\<close> or more is divided as the negative number with its bits: the
  quotient is not that of the unsigned numbers.\<close>

theorem uint64_division_is_signed:
  assumes "2 ^ 63 \<le> uint w" "0 < uint v" "uint v < 2 ^ 63"
  shows "arith_binary OpDiv (VUint64 w) (VUint64 v)
    = Good (VUint64 (word_of_int (- ((2 ^ 64 - uint w) div uint v))))"
proof -
  note sw = sint_high [OF assms(1)]
  note sv = sint_small [OF assms(3)]
  have v: "v \<noteq> 0" "v \<noteq> - 1"
    using assms sv by auto
  have "sgn (uint w - 2 ^ 64) = - 1" "\<bar>uint w - 2 ^ 64\<bar> = 2 ^ 64 - uint w"
    using unsigned_less [of w, where ?'a = int] by simp_all
  then have "sint w sdiv sint v = - ((2 ^ 64 - uint w) div uint v)"
    using assms(2) v(1) by (simp add: signed_divide_int_def sw sv)
  with v show ?thesis
    by (simp add: val_div_def numeric_op_def i64_div_def nonzero_divisor_def is_truthy_def arith_result_def)
qed

lemma uint64_division_is_signed_witness:
  "arith_binary OpDiv (VUint64 0xFFFFFFFFFFFFFFFE) (VUint64 2) = Good (VUint64 0xFFFFFFFFFFFFFFFF)"
  using uint64_division_is_signed [of "0xFFFFFFFFFFFFFFFE" 2] by simp

subsection \<open>Comparison\<close>

lemma int_value_sint:
  "int_value v = Some x \<Longrightarrow> x < 2 ^ 63 \<Longrightarrow> \<exists>n. numeric_as_i64 v = Some n \<and> sint n = x"
  using int_value_i64 int_value_low sint_word_of_int by blast

lemma numeric_cmp_coerced:
  assumes "numeric_as_i64 a = Some n" "numeric_as_i64 b = Some m"
  shows "numeric_cmp f g a b = Some (f n m)"
  using assms
  by (cases a; simp add: numeric_cmp_def numeric_as_i64_def; cases b; simp)

text \<open>Comparison instructions compare the numbers two integer or boolean operands stand for, of
  the same type or of two different ones, as long as both are below \<open>2 ^ 63\<close>.\<close>

theorem compare_integers:
  assumes "int_value a = Some x" "int_value b = Some y" "x < 2 ^ 63" "y < 2 ^ 63"
  shows "compare_values OpEq a b = Good (VBool (x = y)) \<and> compare_values OpNeq a b = Good (VBool (x \<noteq> y))
    \<and> compare_values OpLt a b = Good (VBool (x < y)) \<and> compare_values OpLte a b = Good (VBool (x \<le> y))
    \<and> compare_values OpGt a b = Good (VBool (x > y)) \<and> compare_values OpGte a b = Good (VBool (x \<ge> y))"
proof -
  obtain n m where n: "numeric_as_i64 a = Some n" "sint n = x" and m: "numeric_as_i64 b = Some m" "sint m = y"
    using int_value_sint assms by metis
  have "n = m \<longleftrightarrow> x = y"
    using n(2) m(2) by (metis word_of_int_sint)
  with n m show ?thesis
    by (simp add: eq_val_def cmp_lt_def cmp_lte_def cmp_gt_def cmp_gte_def numeric_cmp_coerced)
qed

lemma compare_integers_witness:
  "compare_values OpLt (VInt8 (- 3)) (VUint32 2) = Good (VBool True)
   \<and> compare_values OpEq (VUint32 0) (VInt32 0) = Good (VBool True)"
  using compare_integers [of "VInt8 (- 3)" "- 3" "VUint32 2" 2] compare_integers [of "VUint32 0" 0 "VInt32 0" 0]
  by (simp add: int_value_def)

text \<open>Two UINT64 numbers on different sides of \<open>2 ^ 63\<close> compare the wrong way round, and a UINT64
  number is equal to the INT64 number with its bits.\<close>

theorem compare_uint64_wraps:
  assumes "2 ^ 63 \<le> uint w" "uint v < 2 ^ 63"
  shows "compare_values OpLt (VUint64 w) (VUint64 v) = Good (VBool True)
    \<and> compare_values OpGt (VUint64 v) (VUint64 w) = Good (VBool True)
    \<and> compare_values OpEq (VUint64 w) (VInt64 w) = Good (VBool True) \<and> sint w < 0 \<and> uint v < uint w"
proof -
  have "sint w < 0"
    using sint_high [OF assms(1)] unsigned_less [of w, where ?'a = int] by simp
  moreover note sint_small [OF assms(2)]
  ultimately show ?thesis
    using assms by (simp add: eq_val_def cmp_lt_def cmp_gt_def numeric_cmp_def numeric_as_i64_def
        order_less_le_trans [OF _ unsigned_greater_eq])
qed

lemma compare_uint64_wraps_witness:
  "compare_values OpLt (VUint64 0xFFFFFFFFFFFFFFFF) (VUint64 1) = Good (VBool True)"
  using compare_uint64_wraps [of "0xFFFFFFFFFFFFFFFF" 1] by simp

subsection \<open>Bitwise operations\<close>

text \<open>AND, OR, XOR and NOT of integers of the same type are the bitwise operations on the numbers,
  wrapped to that type.\<close>

theorem bitwise_on_numbers:
  assumes "int_type a = Some t" "int_type b = Some t" "int_value a = Some x" "int_value b = Some y"
  shows "bitwise_values OpAnd a b = ok_or FTypeMismatch (typed t (x AND y))
    \<and> bitwise_values OpOr a b = ok_or FTypeMismatch (typed t (x OR y))
    \<and> bitwise_values OpXor a b = ok_or FTypeMismatch (typed t (x XOR y))
    \<and> bitwise_values OpNot a b = ok_or FTypeMismatch (typed t (NOT x))"
proof -
  obtain r1 r2 r3 where r: "typed t (x AND y) = Some r1" "typed t (x OR y) = Some r2" "typed t (x XOR y) = Some r3"
    using typed_exists [OF assms(1)] by metis
  have "val_bit_not a = typed t (NOT x)"
    using assms(1,3) by (cases a) (auto simp: int_type_def int_value_def val_bit_not_def typed_def
        of_int_not_eq)
  then show ?thesis
    using bitwise_op_typed [OF assms, of "(AND)", OF _ r(1)] bitwise_op_typed [OF assms, of "(OR)", OF _ r(2)]
      bitwise_op_typed [OF assms, of "(XOR)", OF _ r(3)]
    by (simp add: r val_bit_and_def val_bit_or_def val_bit_xor_def of_int_and_eq of_int_or_eq of_int_xor_eq)
qed

lemma bitwise_on_numbers_witness:
  "bitwise_values OpAnd (VInt8 (- 1)) (VInt8 5) = Good (VInt8 5)
   \<and> bitwise_values OpNot (VUint8 0) (VUint8 0) = Good (VUint8 0xFF)"
  using bitwise_on_numbers [of "VInt8 (- 1)" TyInt8 "VInt8 5" "- 1" 5]
    bitwise_on_numbers [of "VUint8 0" TyUint8 "VUint8 0" 0 0]
  by (simp add: int_type_def int_value_def typed_def)

subsection \<open>Casts\<close>

text \<open>CAST of an integer or boolean to an integer type or to BOOL gives the number wrapped to the
  type; so a number that the target type can hold is kept.\<close>

theorem cast_integers:
  assumes "int_value v = Some x" "typed t x = Some r"
  shows "cast_value v t = Good r"
proof -
  have "cast_as_i64 v = Some (word_of_int x)"
    using int_value_i64 [OF assms(1)] assms(1)
    by (auto simp: cast_as_i64_def int_value_def split: val_splits)
  moreover have "(word_of_int x :: i64) = 0 \<longleftrightarrow> x = 0"
    by (rule int_value_zero [OF assms(1)])
  ultimately show ?thesis
    using assms(2) by (auto simp: cast_value_def typed_def ucast_word_of_int split: fasm_type.splits)
qed

lemma cast_integers_witness:
  "cast_value (VInt32 300) TyUint8 = Good (VUint8 44) \<and> cast_value (VInt8 (- 2)) TyInt64 = Good (VInt64 (- 2))"
  using cast_integers [of "VInt32 300" 300 TyUint8] cast_integers [of "VInt8 (- 2)" "- 2" TyInt64]
  by (simp add: int_value_def typed_def)

end
