(* ===== verification/Fasm_Exec.thy ===== *)
theory Fasm_Exec
  imports Fasm_Ops
begin

text \<open>
  \<open>Executor::execute_instruction\<close> (\<open>crates/fasm-vm/src/executor.rs\<close>): one function per group of
  opcodes, which reads the operands in the order of the source, applies the operation and writes
  the result.  System-call handlers and the JIT dispatcher are fields of the environment; the
  built-in handlers are those of \<open>Fasm_Run\<close>, a host program may mount others.
\<close>

subsection \<open>Environment and actions\<close>

text \<open>A handler reads and writes the global register and the process's standard streams.\<close>

type_synonym syscall = "fasm_value \<Rightarrow> slots \<times> io \<Rightarrow> (slots \<times> io, fasm_value) res"

record env =
  env_program :: program
  env_syscalls :: "i32 \<Rightarrow> syscall option"
  env_jit :: "(nat \<Rightarrow> fasm_value \<Rightarrow> fasm_value option) option"

datatype action =
  AContinue
| AJump nat
| ACallFunc nat fasm_value
| ATailCall nat fasm_value
| AReturn fasm_value
| AHalt

subsection \<open>Operand access\<close>

definition get_op :: "instruction \<Rightarrow> nat \<Rightarrow> operand vm_m" where
  "get_op ins n = vm_ok_or FTypeMismatch (nth_opt (operands ins) n)"

definition read_val :: "instruction \<Rightarrow> nat \<Rightarrow> fasm_value vm_m" where
  "read_val ins n = vm_bind (get_op ins n) read_operand"

definition write_val :: "instruction \<Rightarrow> nat \<Rightarrow> fasm_value \<Rightarrow> unit vm_m" where
  "write_val ins n v = vm_bind (get_op ins n) (\<lambda>op. write_operand op v)"

definition then_continue :: "unit vm_m \<Rightarrow> action vm_m" where
  "then_continue m = vm_bind m (\<lambda>_. vm_return AContinue)"

text \<open>Change the value in place at an operand; the function may also take a value out of it.\<close>

definition take_out :: "instruction \<Rightarrow> nat \<Rightarrow> (fasm_value \<Rightarrow> ('a \<times> fasm_value) outcome) \<Rightarrow> 'a vm_m" where
  "take_out ins n f =
     vm_bind (get_op ins n) (\<lambda>op. vm_bind (write_target_mut op) (\<lambda>(p, coll).
       vm_bind (vm_lift (f coll)) (\<lambda>(x, coll'). vm_bind (store_place p coll') (\<lambda>_. vm_return x))))"

definition update :: "instruction \<Rightarrow> nat \<Rightarrow> (fasm_value \<Rightarrow> fasm_value outcome) \<Rightarrow> unit vm_m" where
  "update ins n f = take_out ins n (\<lambda>coll. out_map (Pair ()) (f coll))"

text \<open>Read operands 0 and 1 (or only 0) and write the result to the next one.\<close>

definition binary :: "instruction \<Rightarrow> (fasm_value \<Rightarrow> fasm_value \<Rightarrow> fasm_value outcome) \<Rightarrow> action vm_m" where
  "binary ins f =
     vm_bind (read_val ins 0) (\<lambda>a. vm_bind (read_val ins 1) (\<lambda>b.
       vm_bind (vm_lift (f a b)) (\<lambda>r. then_continue (write_val ins 2 r))))"

definition unary :: "instruction \<Rightarrow> (fasm_value \<Rightarrow> fasm_value outcome) \<Rightarrow> action vm_m" where
  "unary ins f =
     vm_bind (read_val ins 0) (\<lambda>a. vm_bind (vm_lift (f a)) (\<lambda>r. then_continue (write_val ins 1 r)))"

text \<open>Operand 1 is an integer index or key; it is read before the collection.\<close>

definition read_u32 :: "instruction \<Rightarrow> nat \<Rightarrow> u32 vm_m" where
  "read_u32 ins n = vm_bind (read_val ins n) (\<lambda>v. vm_lift (as_u32 v))"

definition read_u64 :: "instruction \<Rightarrow> nat \<Rightarrow> u64 vm_m" where
  "read_u64 ins n = vm_bind (read_val ins n) (\<lambda>v. vm_lift (as_u64 v))"

definition keyed_query :: "instruction \<Rightarrow> u32 vm_m \<Rightarrow> (u32 \<Rightarrow> fasm_value \<Rightarrow> fasm_value outcome) \<Rightarrow> action vm_m" where
  "keyed_query ins key f =
     vm_bind key (\<lambda>k. vm_bind (read_val ins 0) (\<lambda>coll.
       vm_bind (vm_lift (f k coll)) (\<lambda>r. then_continue (write_val ins 2 r))))"

definition keyed_set ::
  "instruction \<Rightarrow> u32 vm_m \<Rightarrow> (u32 \<Rightarrow> fasm_value \<Rightarrow> fasm_value \<Rightarrow> fasm_value outcome) \<Rightarrow> action vm_m" where
  "keyed_set ins key f =
     vm_bind key (\<lambda>k. vm_bind (read_val ins 2) (\<lambda>v. then_continue (update ins 0 (f k v))))"

definition keyed_update :: "instruction \<Rightarrow> u32 vm_m \<Rightarrow> (u32 \<Rightarrow> fasm_value \<Rightarrow> fasm_value outcome) \<Rightarrow> action vm_m" where
  "keyed_update ins key f = vm_bind key (\<lambda>k. then_continue (update ins 0 (f k)))"

definition key_operand :: "instruction \<Rightarrow> u32 vm_m" where
  "key_operand ins = vm_bind (get_op ins 1) read_key_operand"

subsection \<open>Memory and data movement\<close>

primrec exec_mem :: "mem_op \<Rightarrow> instruction \<Rightarrow> action vm_m" where
  "exec_mem OpTmpBlock ins =
     then_continue (modify_top (\<lambda>cf. cf\<lparr>cf_tmp_frames := tmp_new # cf_tmp_frames cf\<rparr>))"
| "exec_mem OpEndTmp ins =
     vm_bind top (\<lambda>cf. case cf_tmp_frames cf of
        [] \<Rightarrow> vm_fail FIndexOutOfBounds
      | _ # ts \<Rightarrow> then_continue (modify_top (\<lambda>cf. cf\<lparr>cf_tmp_frames := ts\<rparr>)))"
| "exec_mem OpReserve ins =
     vm_bind (get_op ins 0) (\<lambda>idx_op. vm_bind (get_op ins 1) (\<lambda>type_op.
       vm_bind (get_op ins 2) (\<lambda>init_op. case type_op of
          OpdType t \<Rightarrow> then_continue (write_operand idx_op (imm_to_value_for_type t init_op))
        | _ \<Rightarrow> vm_fail FTypeMismatch)))"
| "exec_mem OpRelease ins = vm_bind (get_op ins 0) (\<lambda>op. then_continue (release_operand op))"

primrec exec_move :: "move_op \<Rightarrow> instruction \<Rightarrow> action vm_m" where
  "exec_move OpMov ins = vm_bind (read_val ins 0) (\<lambda>v. then_continue (write_val ins 1 v))"
| "exec_move OpStore ins =
     vm_bind (get_op ins 0) (\<lambda>op. vm_bind (imm_operand op) (\<lambda>v. then_continue (write_val ins 1 v)))"
| "exec_move OpAddr ins =
     vm_bind (get_op ins 0) (\<lambda>op. vm_bind (get_op ins 1) (\<lambda>target.
       case slot_address op of (is_global, idx) \<Rightarrow>
         then_continue (write_operand target (VRefMut is_global idx))))"

subsection \<open>Arithmetic, comparison, bits\<close>

definition exec_arith :: "arith_op \<Rightarrow> instruction \<Rightarrow> action vm_m" where
  "exec_arith op ins =
     (if op = OpNeg then unary ins (\<lambda>a. arith_binary OpNeg a a) else binary ins (arith_binary op))"

definition exec_cmp :: "cmp_op \<Rightarrow> instruction \<Rightarrow> action vm_m" where
  "exec_cmp op ins = binary ins (compare_values op)"

definition exec_bitwise :: "bitwise_op \<Rightarrow> instruction \<Rightarrow> action vm_m" where
  "exec_bitwise op ins =
     (if op = OpNot then unary ins (\<lambda>a. bitwise_values OpNot a a) else binary ins (bitwise_values op))"

definition exec_cast :: "instruction \<Rightarrow> action vm_m" where
  "exec_cast ins =
     vm_bind (read_val ins 0) (\<lambda>v. vm_bind (get_op ins 1) (\<lambda>type_op. case type_op of
        OpdType t \<Rightarrow> vm_bind (vm_lift (cast_value v t)) (\<lambda>r. then_continue (write_val ins 2 r))
      | _ \<Rightarrow> vm_fail FTypeMismatch))"

subsection \<open>Control flow\<close>

definition call_target :: "program \<Rightarrow> instruction \<Rightarrow> nat vm_m" where
  "call_target prog ins =
     vm_bind (get_op ins 0) (\<lambda>op. case op of
        OpdFuncRef i \<Rightarrow>
          (if unat i \<ge> length (prog_functions prog) then vm_fail FUndeclaredSlot
           else vm_return (unat i))
      | _ \<Rightarrow> vm_fail FTypeMismatch)"

definition jump_if :: "instruction \<Rightarrow> (fasm_value \<Rightarrow> bool) \<Rightarrow> action vm_m" where
  "jump_if ins c =
     vm_bind (read_val ins 0) (\<lambda>cond. vm_bind (get_op ins 1) (\<lambda>op.
       vm_bind (vm_lift (label_target op)) (\<lambda>target.
         vm_return (if c cond then AJump target else AContinue))))"

primrec exec_flow :: "flow_op \<Rightarrow> program \<Rightarrow> instruction \<Rightarrow> action vm_m" where
  "exec_flow OpNop prog ins = vm_return AContinue"
| "exec_flow OpHalt prog ins = vm_return AHalt"
| "exec_flow OpJmp prog ins =
     vm_bind (get_op ins 0) (\<lambda>op. vm_bind (vm_lift (label_target op)) (\<lambda>t. vm_return (AJump t)))"
| "exec_flow OpJz prog ins = jump_if ins (\<lambda>v. \<not> is_truthy v)"
| "exec_flow OpJnz prog ins = jump_if ins is_truthy"
| "exec_flow OpCall prog ins =
     vm_bind (call_target prog ins) (\<lambda>i. vm_bind (read_val ins 1) (\<lambda>args. vm_return (ACallFunc i args)))"
| "exec_flow OpAsyncCall prog ins =
     vm_bind (call_target prog ins) (\<lambda>i. vm_bind (read_val ins 1) (\<lambda>args. vm_return (ACallFunc i args)))"
| "exec_flow OpTailCall prog ins =
     vm_bind (call_target prog ins) (\<lambda>i. vm_bind (read_val ins 1) (\<lambda>args. vm_return (ATailCall i args)))"
| "exec_flow OpRet prog ins =
     (if operands ins = [] then vm_return (AReturn VNull)
      else vm_bind (read_val ins 0) (\<lambda>v. vm_return (AReturn v)))"
| "exec_flow OpAwait prog ins = unary ins (\<lambda>v. Good (await_future v))"

subsection \<open>System calls\<close>

definition call_handler :: "syscall \<Rightarrow> fasm_value \<Rightarrow> fasm_value vm_m" where
  "call_handler h args = (\<lambda>s.
     let put = (\<lambda>(g, i). s\<lparr>vm_globals := g, vm_io := i\<rparr>)
     in case h args (vm_globals s, vm_io s) of
        ROk v t \<Rightarrow> ROk v (put t)
      | RErr f t \<Rightarrow> RErr f (put t)
      | RPanic \<Rightarrow> RPanic
      | RExit n t \<Rightarrow> RExit n (put t))"

definition do_syscall :: "env \<Rightarrow> instruction \<Rightarrow> fasm_value vm_m" where
  "do_syscall e ins =
     vm_bind (get_op ins 0) (\<lambda>op. vm_bind (vm_lift (syscall_id op)) (\<lambda>i.
       vm_bind (read_val ins 1) (\<lambda>args.
         vm_bind (vm_ok_or FBadSyscall (env_syscalls e i)) (\<lambda>h. call_handler h args))))"

primrec exec_sys :: "sys_op \<Rightarrow> env \<Rightarrow> instruction \<Rightarrow> action vm_m" where
  "exec_sys OpSyscall e ins =
     vm_bind (do_syscall e ins) (\<lambda>r. then_continue (modify_top (\<lambda>cf. cf\<lparr>cf_ret_val := r\<rparr>)))"
| "exec_sys OpAsyncSyscall e ins =
     vm_bind (do_syscall e ins) (\<lambda>r.
       then_continue (modify_top (\<lambda>cf. cf\<lparr>cf_ret_val := VFuture (Some r)\<rparr>)))"

subsection \<open>Collections\<close>

definition push_like :: "instruction \<Rightarrow> (fasm_value \<Rightarrow> fasm_value \<Rightarrow> fasm_value outcome) \<Rightarrow> action vm_m" where
  "push_like ins f = vm_bind (read_val ins 1) (\<lambda>v. then_continue (update ins 0 (f v)))"

definition pop_like :: "instruction \<Rightarrow> (fasm_value \<Rightarrow> (fasm_value \<times> fasm_value) outcome) \<Rightarrow> action vm_m" where
  "pop_like ins f = vm_bind (take_out ins 0 f) (\<lambda>v. then_continue (write_val ins 1 v))"

primrec exec_coll :: "coll_op \<Rightarrow> instruction \<Rightarrow> action vm_m" where
  "exec_coll OpPush ins = push_like ins coll_push"
| "exec_coll OpPop ins = pop_like ins coll_pop"
| "exec_coll OpEnqueue ins = push_like ins coll_enqueue"
| "exec_coll OpDequeue ins = pop_like ins coll_dequeue"
| "exec_coll OpPeek ins = unary ins coll_peek"
| "exec_coll OpGetIdx ins =
     binary ins (\<lambda>coll i. out_bind (as_u32 i) (\<lambda>i. coll_get_idx (unat i) coll))"
| "exec_coll OpSetIdx ins = keyed_set ins (read_u32 ins 1) (\<lambda>i. coll_set_idx (unat i))"
| "exec_coll OpGetField ins = keyed_query ins (key_operand ins) field_get"
| "exec_coll OpSetField ins = keyed_set ins (key_operand ins) field_set"
| "exec_coll OpHasField ins = keyed_query ins (key_operand ins) field_has"
| "exec_coll OpDelField ins = keyed_update ins (key_operand ins) field_del"
| "exec_coll OpLen ins = unary ins (\<lambda>coll. out_map (\<lambda>n. VUint32 (ucast n)) (coll_len coll))"

definition wrap_like :: "instruction \<Rightarrow> (fasm_value \<Rightarrow> fasm_value outcome) \<Rightarrow> action vm_m" where
  "wrap_like ins f =
     vm_bind (read_val ins 1) (\<lambda>v. vm_bind (vm_lift (f v)) (\<lambda>r. then_continue (write_val ins 0 r)))"

primrec exec_wrap :: "wrap_op \<Rightarrow> instruction \<Rightarrow> action vm_m" where
  "exec_wrap OpSome ins = wrap_like ins (\<lambda>v. Good (VOption (OptSome v)))"
| "exec_wrap OpIsSome ins = unary ins (\<lambda>v. Good (VBool (wrap_is_some v)))"
| "exec_wrap OpUnwrap ins = unary ins wrap_unwrap"
| "exec_wrap OpOk ins = wrap_like ins (\<lambda>v. Good (VResult (ResOk v)))"
| "exec_wrap OpErr ins = wrap_like ins (\<lambda>v. out_map (\<lambda>c. VResult (ResErr c)) (as_u32 v))"
| "exec_wrap OpIsOk ins = unary ins (\<lambda>v. Good (VBool (wrap_is_ok v)))"
| "exec_wrap OpUnwrapOk ins = unary ins wrap_unwrap_ok"
| "exec_wrap OpUnwrapErr ins = unary ins wrap_unwrap_err"

subsection \<open>Error handling\<close>

primrec exec_try :: "try_op \<Rightarrow> instruction \<Rightarrow> action vm_m" where
  "exec_try OpTry ins =
     vm_bind (get_op ins 0) (\<lambda>c. vm_bind (vm_lift (label_target c)) (\<lambda>catch_ip.
       vm_bind (get_op ins 1) (\<lambda>e. vm_bind (vm_lift (label_target e)) (\<lambda>end_ip.
         vm_bind globals (\<lambda>g. then_continue (modify_top (\<lambda>cf.
           cf\<lparr>cf_try_guard := Some \<lparr>tg_catch_ip = catch_ip, tg_end_ip = end_ip,
               tg_frame_snap = frame_snapshot (cf_frame cf),
               tg_global_snap = global_snapshot g\<rparr>\<rparr>)))))))"
| "exec_try OpCatch ins =
     vm_bind top (\<lambda>cf.
       let e = (case cf_try_guard cf of Some g \<Rightarrow> tg_end_ip g | None \<Rightarrow> cf_ip cf)
       in vm_bind (modify_top (\<lambda>cf. cf\<lparr>cf_try_guard := None\<rparr>)) (\<lambda>_. vm_return (AJump e)))"
| "exec_try OpEndTry ins = then_continue (modify_top (\<lambda>cf. cf\<lparr>cf_try_guard := None\<rparr>))"

subsection \<open>Extended collections\<close>

primrec exec_deque :: "deque_op \<Rightarrow> instruction \<Rightarrow> action vm_m" where
  "exec_deque OpPrepend ins = push_like ins coll_prepend"
| "exec_deque OpPopBack ins = pop_like ins coll_pop_back"
| "exec_deque OpPeekBack ins = unary ins coll_peek_back"

primrec exec_vec :: "vec_op \<Rightarrow> instruction \<Rightarrow> action vm_m" where
  "exec_vec OpVecSort ins = then_continue (update ins 0 vec_sort)"
| "exec_vec OpVecFilter ins =
     vm_bind (read_val ins 0) (\<lambda>src. vm_bind (read_u32 ins 1) (\<lambda>op_byte.
       vm_bind (read_val ins 2) (\<lambda>threshold.
         vm_bind (vm_lift (vec_filter (ucast op_byte) threshold src))
           (\<lambda>r. then_continue (write_val ins 3 r)))))"
| "exec_vec OpVecMerge ins = binary ins vec_merge"
| "exec_vec OpVecSlice ins =
     vm_bind (read_val ins 0) (\<lambda>src. vm_bind (read_u32 ins 1) (\<lambda>start.
       vm_bind (read_u32 ins 2) (\<lambda>n.
         vm_bind (vm_lift (vec_slice (unat start) (unat n) src))
           (\<lambda>r. then_continue (write_val ins 3 r)))))"

primrec exec_sparse :: "sparse_op \<Rightarrow> instruction \<Rightarrow> action vm_m" where
  "exec_sparse OpSparseGet ins = keyed_query ins (read_u32 ins 1) sparse_op_get"
| "exec_sparse OpSparseSet ins = keyed_set ins (read_u32 ins 1) sparse_op_set"
| "exec_sparse OpSparseDel ins = keyed_update ins (read_u32 ins 1) sparse_op_del"
| "exec_sparse OpSparseHas ins = keyed_query ins (read_u32 ins 1) sparse_op_has"

primrec exec_btree :: "btree_op \<Rightarrow> instruction \<Rightarrow> action vm_m" where
  "exec_btree OpBTreeGet ins = keyed_query ins (read_u32 ins 1) btree_op_get"
| "exec_btree OpBTreeSet ins = keyed_set ins (read_u32 ins 1) btree_op_set"
| "exec_btree OpBTreeDel ins = keyed_update ins (read_u32 ins 1) btree_op_del"
| "exec_btree OpBTreeHas ins = keyed_query ins (read_u32 ins 1) btree_op_has"
| "exec_btree OpBTreeMin ins = unary ins btree_op_min"
| "exec_btree OpBTreeMax ins = unary ins btree_op_max"

primrec exec_bitset :: "bitset_op \<Rightarrow> instruction \<Rightarrow> action vm_m" where
  "exec_bitset OpBitSet ins = keyed_update ins (read_u32 ins 1) (\<lambda>i. bits_update (set_bit i))"
| "exec_bitset OpBitClr ins = keyed_update ins (read_u32 ins 1) (\<lambda>i. bits_update (\<lambda>b. Some (clr_bit i b)))"
| "exec_bitset OpBitGet ins = keyed_query ins (read_u32 ins 1) (\<lambda>i. bits_query (\<lambda>b. VBool (get_bit i b)))"
| "exec_bitset OpBitFlip ins = keyed_update ins (read_u32 ins 1) (\<lambda>i. bits_update (flip_bit i))"
| "exec_bitset OpBitCount ins = unary ins (bits_query (\<lambda>b. VUint32 (popcount b)))"
| "exec_bitset OpBitAnd ins = push_like ins (bits_combine bitset_and)"
| "exec_bitset OpBitOr ins = push_like ins (bits_combine bitset_or)"
| "exec_bitset OpBitXor ins = push_like ins (bits_combine bitset_xor)"
| "exec_bitset OpBitGrow ins = keyed_update ins (read_u32 ins 1) (\<lambda>n. bits_update (bits_grow n))"

primrec exec_bitvec :: "bitvec_op \<Rightarrow> instruction \<Rightarrow> action vm_m" where
  "exec_bitvec OpBitvecRead ins =
     vm_bind (read_u64 ins 1) (\<lambda>s. vm_bind (read_u32 ins 2) (\<lambda>n. vm_bind (read_val ins 0) (\<lambda>coll.
       vm_bind (vm_lift (bitvec_query (\<lambda>bv. VUint64 (read_bits s n bv)) coll))
         (\<lambda>r. then_continue (write_val ins 3 r)))))"
| "exec_bitvec OpBitvecWrite ins =
     vm_bind (read_u64 ins 1) (\<lambda>s. vm_bind (read_u32 ins 2) (\<lambda>n. vm_bind (read_u64 ins 3) (\<lambda>v.
       then_continue (update ins 0 (bitvec_update (write_bits s n v))))))"
| "exec_bitvec OpBitvecPush ins =
     vm_bind (read_u64 ins 1) (\<lambda>v. vm_bind (read_u32 ins 2) (\<lambda>n.
       then_continue (update ins 0 (bitvec_update (push_bits v n)))))"

subsection \<open>Dispatch\<close>

definition execute_instruction :: "env \<Rightarrow> instruction \<Rightarrow> action vm_m" where
  "execute_instruction e ins = (case opcode ins of
      OMem p \<Rightarrow> exec_mem p ins
    | OMove p \<Rightarrow> exec_move p ins
    | OArith p \<Rightarrow> exec_arith p ins
    | OCmp p \<Rightarrow> exec_cmp p ins
    | OBitwise p \<Rightarrow> exec_bitwise p ins
    | OFlow p \<Rightarrow> exec_flow p (env_program e) ins
    | OSys p \<Rightarrow> exec_sys p e ins
    | OColl p \<Rightarrow> exec_coll p ins
    | OWrap p \<Rightarrow> exec_wrap p ins
    | OTry p \<Rightarrow> exec_try p ins
    | ODeque p \<Rightarrow> exec_deque p ins
    | OVec p \<Rightarrow> exec_vec p ins
    | OSparse p \<Rightarrow> exec_sparse p ins
    | OBTree p \<Rightarrow> exec_btree p ins
    | OBitset p \<Rightarrow> exec_bitset p ins
    | OBitvec p \<Rightarrow> exec_bitvec p ins
    | OCast \<Rightarrow> exec_cast ins)"

end
