(* ===== verification/Fasm_Run.thy ===== *)
theory Fasm_Run
  imports Fasm_Exec
begin

text \<open>
  The executor's built-in system calls and its main loop (\<open>register_builtins\<close>, \<open>run\<close> and
  \<open>run_named\<close> in \<open>crates/fasm-vm/src/executor.rs\<close>).  One round of the loop is \<open>run_step\<close>; the loop
  is a partial function, because a program may run forever.
\<close>

subsection \<open>System calls\<close>

definition syscall_arg :: "fasm_value \<Rightarrow> fasm_value" where
  "syscall_arg args = (case args of
      VStruct s \<Rightarrow> (case struct_get s 0 of Some v \<Rightarrow> v | None \<Rightarrow> args)
    | _ \<Rightarrow> args)"

definition write_out :: "bytes \<Rightarrow> io \<Rightarrow> io" where
  "write_out bs i = i\<lparr>io_stdout := io_stdout i @ bs\<rparr>"

definition sys_print :: syscall where
  "sys_print args = (\<lambda>(g, i). ROk VNull (g, write_out (display (syscall_arg args) @ [10]) i))"

definition sys_print_vec :: syscall where
  "sys_print_vec args = (\<lambda>(g, i). ROk VNull (g, write_out (display (syscall_arg args)) i))"

text \<open>\<open>read_line\<close>: up to and including the next newline; a line that is not UTF-8 is dropped.\<close>

fun split_line :: "bytes \<Rightarrow> bytes \<times> bytes" where
  "split_line [] = ([], [])"
| "split_line (b # bs) =
     (if b = 10 then ([b], bs) else (case split_line bs of (l, r) \<Rightarrow> (b # l, r)))"

definition sys_read :: syscall where
  "sys_read args = (\<lambda>(g, i).
     case split_line (io_stdin i) of (raw, rest) \<Rightarrow>
       let line = (if utf8_valid raw then raw else [])
       in ROk (VVec (map VUint8 (trim_end line))) (g, i\<lparr>io_stdin := rest\<rparr>))"

definition sys_exit :: syscall where
  "sys_exit args =
     RExit (case args of
         VStruct s \<Rightarrow> (case struct_get s 0 of Some (VInt32 n) \<Rightarrow> n | _ \<Rightarrow> 0)
       | _ \<Rightarrow> 0)"

definition digit_value :: "u8 \<Rightarrow> i64" where
  "digit_value b = ucast (b - 48)"

fun parse_digits :: "bytes \<Rightarrow> i64 \<Rightarrow> i64 option" where
  "parse_digits [] result = Some result"
| "parse_digits (b # bs) result =
     (if \<not> is_ascii_digit b then None else parse_digits bs (result * 10 + digit_value b))"

definition parse_bytes :: "bytes \<Rightarrow> fasm_value" where
  "parse_bytes raw =
     (let bad = VResult (ResErr 1); raw = trim (utf8_lossy raw)
      in if raw = [] then bad
         else let (sign, digits) = (if hd raw = 45 then (- 1, tl raw) else (1 :: i64, raw))
              in if digits = [] then bad
                 else (case parse_digits digits 0 of
                     None \<Rightarrow> bad
                   | Some result \<Rightarrow> VResult (ResOk (VInt32 (ucast (result * sign))))))"

definition parse_int :: "fasm_value \<Rightarrow> fasm_value" where
  "parse_int args =
     (let bad = VResult (ResErr 1)
      in case args of
        VStruct s \<Rightarrow> (case struct_get s 0 of
            Some (VVec v) \<Rightarrow>
              (case collect (map as_uint8 v) of None \<Rightarrow> bad | Some raw \<Rightarrow> parse_bytes raw)
          | _ \<Rightarrow> bad)
      | _ \<Rightarrow> bad)"

definition sys_parse_int :: syscall where
  "sys_parse_int args = (\<lambda>t. ROk (parse_int args) t)"

definition builtin_syscalls :: "i32 \<Rightarrow> syscall option" where
  "builtin_syscalls =
     [0 \<mapsto> sys_print, 1 \<mapsto> sys_print_vec, 2 \<mapsto> sys_read, 3 \<mapsto> sys_exit, 4 \<mapsto> sys_parse_int]"

subsection \<open>The executor\<close>

definition executor_new :: "program \<Rightarrow> env" where
  "executor_new prog = \<lparr>env_program = prog, env_syscalls = builtin_syscalls, env_jit = None\<rparr>"

definition mount_syscall :: "i32 \<Rightarrow> syscall \<Rightarrow> env \<Rightarrow> env" where
  "mount_syscall i h e = e\<lparr>env_syscalls := (env_syscalls e)(i \<mapsto> h)\<rparr>"

definition set_jit :: "(nat \<Rightarrow> fasm_value \<Rightarrow> fasm_value option) \<Rightarrow> env \<Rightarrow> env" where
  "set_jit d e = e\<lparr>env_jit := Some d\<rparr>"

definition jit_dispatch :: "env \<Rightarrow> nat \<Rightarrow> fasm_value \<Rightarrow> fasm_value option" where
  "jit_dispatch e func_idx args = Option.bind (env_jit e) (\<lambda>d. d func_idx args)"

definition vm_new :: "bytes \<Rightarrow> vm" where
  "vm_new stdin = \<lparr>vm_globals = global_new, vm_call_stack = [], vm_io = \<lparr>io_stdin = stdin, io_stdout = []\<rparr>\<rparr>"

definition reset_call_stack :: "vm \<Rightarrow> vm" where
  "reset_call_stack s = s\<lparr>vm_call_stack := []\<rparr>"

subsection \<open>The main loop\<close>

definition MAX_CALL_DEPTH :: nat where
  "MAX_CALL_DEPTH = 512"

datatype run_error =
  ENoFunction bytes
| EFuncOutOfRange nat
| EStackOverflow
| EUnhandled bytes nat fault

primrec run_error_text :: "run_error \<Rightarrow> bytes" where
  "run_error_text (ENoFunction func) =
     ascii ''No '' @ [39] @ func @ [39] @ ascii '' function found in program''"
| "run_error_text (EFuncOutOfRange i) =
     ascii ''Function index '' @ show_nat i @ ascii '' out of range''"
| "run_error_text EStackOverflow = fault_display FStackOverflow"
| "run_error_text (EUnhandled name ip f) =
     ascii ''Unhandled fault in '' @ [39] @ name @ [39] @ ascii '' at ip '' @ show_nat ip
       @ ascii '': '' @ fault_display f"

datatype step_result =
  SNext vm
| SStop "run_error + fasm_value" vm
| SPanic
| SExit i32 vm

definition set_top_ret :: "fasm_value \<Rightarrow> call_frame list \<Rightarrow> call_frame list" where
  "set_top_ret v cfs = (case cfs of [] \<Rightarrow> [] | cf # rest \<Rightarrow> cf\<lparr>cf_ret_val := v\<rparr> # rest)"

text \<open>Pop the top frame and hand a value to its caller, or end the run.\<close>

definition return_to_caller :: "fasm_value \<Rightarrow> vm \<Rightarrow> step_result" where
  "return_to_caller v s =
     (let rest = tl (vm_call_stack s)
      in if rest = [] then SStop (Inr v) (s\<lparr>vm_call_stack := []\<rparr>)
         else SNext (s\<lparr>vm_call_stack := set_top_ret v rest\<rparr>))"

definition enter_tail :: "nat \<Rightarrow> fasm_value \<Rightarrow> call_frame \<Rightarrow> call_frame" where
  "enter_tail func_idx args cf =
     cf\<lparr>cf_func_idx := func_idx, cf_ip := 0, cf_frame := frame_new, cf_args := args,
        cf_ret_val := VNull\<rparr>"

definition on_top :: "(call_frame \<Rightarrow> call_frame) \<Rightarrow> vm \<Rightarrow> step_result" where
  "on_top f s = (case vm_call_stack s of
      [] \<Rightarrow> SPanic | cf # rest \<Rightarrow> SNext (s\<lparr>vm_call_stack := f cf # rest\<rparr>))"

definition push_call :: "nat \<Rightarrow> fasm_value \<Rightarrow> vm \<Rightarrow> vm" where
  "push_call i args s = s\<lparr>vm_call_stack := call_frame_new i args # vm_call_stack s\<rparr>"

definition perform :: "env \<Rightarrow> action \<Rightarrow> vm \<Rightarrow> step_result" where
  "perform e act s = (case act of
      AContinue \<Rightarrow> SNext s
    | AJump target \<Rightarrow> on_top (\<lambda>cf. cf\<lparr>cf_ip := target\<rparr>) s
    | ACallFunc i args \<Rightarrow>
        (case jit_dispatch e i args of
           Some ret \<Rightarrow> on_top (\<lambda>cf. cf\<lparr>cf_ret_val := ret\<rparr>) s
         | None \<Rightarrow>
             if length (vm_call_stack s) \<ge> MAX_CALL_DEPTH then SStop (Inl EStackOverflow) s
             else SNext (push_call i args s))
    | ATailCall i args \<Rightarrow>
        (case jit_dispatch e i args of
           Some ret \<Rightarrow> return_to_caller ret s
         | None \<Rightarrow> on_top (enter_tail i args) s)
    | AReturn v \<Rightarrow> return_to_caller v s
    | AHalt \<Rightarrow> SStop (Inr VNull) s)"

text \<open>A fault rolls the top frame and the globals back to its guard, or ends the run.\<close>

definition function_name :: "program \<Rightarrow> nat \<Rightarrow> bytes" where
  "function_name prog i =
     (case nth_opt (prog_functions prog) i of Some f \<Rightarrow> fun_name f | None \<Rightarrow> ascii ''<unknown>'')"

definition handle_fault :: "program \<Rightarrow> nat \<Rightarrow> nat \<Rightarrow> fault \<Rightarrow> vm \<Rightarrow> step_result" where
  "handle_fault prog func_idx ip f s = (case vm_call_stack s of
      [] \<Rightarrow> SPanic
    | cf # rest \<Rightarrow> (case cf_try_guard cf of
          Some g \<Rightarrow> SNext (s\<lparr>vm_globals := global_restore (tg_global_snap g) (vm_globals s),
              vm_call_stack := cf\<lparr>cf_try_guard := None,
                  cf_frame := frame_restore (tg_frame_snap g) (cf_frame cf),
                  cf_ret_val := VUint32 (fault_code f), cf_ip := tg_catch_ip g\<rparr> # rest\<rparr>)
        | None \<Rightarrow> SStop (Inl (EUnhandled (function_name prog func_idx) ip f)) s))"

definition run_step :: "env \<Rightarrow> vm \<Rightarrow> step_result" where
  "run_step e s = (case vm_call_stack s of
      [] \<Rightarrow> SPanic
    | cf # rest \<Rightarrow>
        (case nth_opt (prog_functions (env_program e)) (cf_func_idx cf) of
           None \<Rightarrow> SStop (Inl (EFuncOutOfRange (cf_func_idx cf))) s
         | Some fd \<Rightarrow>
             if cf_ip cf \<ge> length (fun_instrs fd) then return_to_caller (cf_ret_val cf) s
             else
               (case execute_instruction e (fun_instrs fd ! cf_ip cf)
                       (s\<lparr>vm_call_stack := cf\<lparr>cf_ip := cf_ip cf + 1\<rparr> # rest\<rparr>) of
                  ROk act s' \<Rightarrow> perform e act s'
                | RErr f s' \<Rightarrow> handle_fault (env_program e) (cf_func_idx cf) (cf_ip cf) f s'
                | RPanic \<Rightarrow> SPanic
                | RExit n s' \<Rightarrow> SExit n s')))"

partial_function (option) run_loop :: "env \<Rightarrow> vm \<Rightarrow> step_result option" where
  "run_loop e s = (case run_step e s of SNext s' \<Rightarrow> run_loop e s' | r \<Rightarrow> Some r)"

definition init_global :: "instruction \<Rightarrow> slots \<Rightarrow> slots" where
  "init_global ins g =
     (if opcode ins = OMem OpReserve
      then (case operands ins of
          OpdKey idx # OpdType t # init # _ \<Rightarrow> global_set idx (imm_to_value_for_type t init) g
        | _ \<Rightarrow> g)
      else g)"

definition init_globals :: "program \<Rightarrow> slots \<Rightarrow> slots" where
  "init_globals prog g = fold init_global (prog_global_inits prog) g"

definition run_named :: "env \<Rightarrow> bytes \<Rightarrow> fasm_value \<Rightarrow> vm \<Rightarrow> step_result option" where
  "run_named e func args s =
     (let s1 = s\<lparr>vm_globals := init_globals (env_program e) (vm_globals s)\<rparr>
      in case get_function_index (env_program e) func of
        None \<Rightarrow> Some (SStop (Inl (ENoFunction func)) s1)
      | Some i \<Rightarrow> run_loop e (push_call i args s1))"

definition run_main :: "env \<Rightarrow> vm \<Rightarrow> step_result option" where
  "run_main e s = (case get_function (env_program e) (ascii ''Main'') of
      None \<Rightarrow> Some (SStop (Inl (ENoFunction (ascii ''Main''))) s)
    | Some _ \<Rightarrow> run_named e (ascii ''Main'') (VStruct []) s)"

subsection \<open>Rounds of the loop\<close>

text \<open>Some rounds of the loop, with a bound; \<open>None\<close> when the bound is too small.\<close>

fun run_rounds :: "env \<Rightarrow> nat \<Rightarrow> vm \<Rightarrow> step_result option" where
  "run_rounds e 0 s = None"
| "run_rounds e (Suc n) s = (case run_step e s of SNext s' \<Rightarrow> run_rounds e n s' | r \<Rightarrow> Some r)"

inductive reaches :: "env \<Rightarrow> vm \<Rightarrow> vm \<Rightarrow> bool" for e where
  reaches_refl: "reaches e s s"
| reaches_step: "reaches e s s' \<Longrightarrow> run_step e s' = SNext s'' \<Longrightarrow> reaches e s s''"

lemma run_rounds_mono: "run_rounds e n s = Some r \<Longrightarrow> n \<le> m \<Longrightarrow> run_rounds e m s = Some r"
proof (induction e n s arbitrary: m rule: run_rounds.induct)
  case (2 e n s)
  then obtain m' where m: "m = Suc m'"
    using Suc_le_D by blast
  with 2 show ?case
    by (auto split: step_result.splits)
qed simp

lemma run_rounds_loop: "run_rounds e n s = Some r \<Longrightarrow> run_loop e s = Some r"
proof (induction e n s rule: run_rounds.induct)
  case (2 e n s)
  then show ?case
    by (subst run_loop.simps) (auto split: step_result.splits)
qed simp

lemma run_loop_rounds:
  assumes "run_loop e s = Some r"
  shows "\<exists>n. run_rounds e n s = Some r"
proof (rule run_loop.raw_induct [rotated, OF assms])
  fix loop e s r
  assume hyp: "\<And>e s r. loop e s = Some r \<Longrightarrow> \<exists>n. run_rounds e n s = Some r"
    and body: "(case run_step e s of SNext s' \<Rightarrow> loop e s' | r \<Rightarrow> Some r) = Some r"
  show "\<exists>n. run_rounds e n s = Some r"
  proof (cases "\<exists>s'. run_step e s = SNext s'")
    case True
    then obtain s' where s': "run_step e s = SNext s'"
      by blast
    with body obtain n where "run_rounds e n s' = Some r"
      using hyp [of e s' r] by auto
    with s' have "run_rounds e (Suc n) s = Some r"
      by simp
    then show ?thesis ..
  next
    case False
    have "run_rounds e (Suc 0) s = Some (run_step e s)"
      using False by (simp split: step_result.split)
    moreover have "r = run_step e s"
      using False body by (auto split: step_result.splits)
    ultimately show ?thesis
      by blast
  qed
qed

lemma reaches_trans: "reaches e s' s'' \<Longrightarrow> reaches e s s' \<Longrightarrow> reaches e s s''"
  by (induction rule: reaches.induct) (auto intro: reaches.intros)

lemma reaches_first: "run_step e s = SNext s' \<Longrightarrow> reaches e s' s'' \<Longrightarrow> reaches e s s''"
  by (blast intro: reaches_trans reaches.intros)

text \<open>A finished run ends in a state reached from the first one.\<close>

lemma run_rounds_ends:
  "run_rounds e n s = Some r \<Longrightarrow> \<exists>s'. reaches e s s' \<and> run_step e s' = r \<and> (\<forall>s''. r \<noteq> SNext s'')"
proof (induction e n s rule: run_rounds.induct)
  case (2 e n s)
  show ?case
  proof (cases "run_step e s")
    case (SNext s1)
    with 2 show ?thesis
      by (auto intro: reaches_first)
  qed (use 2 in \<open>auto intro: reaches.intros\<close>)
qed simp

end
