(* ===== verification/Fasm_Logic.thy ===== *)
theory Fasm_Logic
  imports Fasm_Run
begin

text \<open>
  A small program logic for the executor's monad.  \<open>keeps p I m Q\<close>: from a state with \<open>I\<close>, \<open>m\<close>
  ends in a state with \<open>I\<close> (whether it returns, faults or exits the process), its value
  satisfies \<open>Q\<close>, and it panics only if \<open>p\<close>.

  The locale \<open>value_closed\<close> says what a property of values has to satisfy to hold of every value
  an instruction makes; the locale \<open>machine_inv\<close> says what a property of the top frame and of the
  globals has to satisfy to be kept by every instruction.  Inside it, \<open>execute_keeps\<close> is proved
  once; \<open>Fasm_Safety\<close> interprets it for well-formedness and for the isolation of frames.
\<close>

subsection \<open>Rules\<close>

definition keeps :: "bool \<Rightarrow> (vm \<Rightarrow> bool) \<Rightarrow> 'a vm_m \<Rightarrow> ('a \<Rightarrow> bool) \<Rightarrow> bool" where
  "keeps p I m Q \<longleftrightarrow> (\<forall>s. I s \<longrightarrow> (case m s of
      ROk x s' \<Rightarrow> I s' \<and> Q x | RErr f s' \<Rightarrow> I s' | RPanic \<Rightarrow> p | RExit n s' \<Rightarrow> I s'))"

definition out_ok :: "bool \<Rightarrow> ('a \<Rightarrow> bool) \<Rightarrow> 'a outcome \<Rightarrow> bool" where
  "out_ok p Q r = (case r of Good x \<Rightarrow> Q x | Bad f \<Rightarrow> True | Abort \<Rightarrow> p)"

lemma out_ok_simps [simp]: "out_ok p Q (Good x) = Q x" "out_ok p Q (Bad f)" "out_ok p Q Abort = p"
  by (simp_all add: out_ok_def)

lemma out_okI: "(\<And>x. r = Good x \<Longrightarrow> Q x) \<Longrightarrow> (r = Abort \<Longrightarrow> p) \<Longrightarrow> out_ok p Q r"
  by (cases r) auto

lemma keeps_return [vm_inv]: "Q x \<Longrightarrow> keeps p I (vm_return x) Q"
  by (simp add: keeps_def vm_simps)

lemma keeps_fail [vm_inv]: "keeps p I (vm_fail f) Q"
  by (simp add: keeps_def vm_simps)

lemma keeps_panic: "p \<Longrightarrow> keeps p I vm_panic Q"
  by (simp add: keeps_def vm_simps)

lemma keeps_bind:
  assumes "keeps p I m Q" and "\<And>x. Q x \<Longrightarrow> keeps p I (k x) R"
  shows "keeps p I (vm_bind m k) R"
  unfolding keeps_def
proof (intro allI impI)
  fix s
  assume "I s"
  with assms(1) have m: "case m s of ROk x s' \<Rightarrow> I s' \<and> Q x | RErr f s' \<Rightarrow> I s' | RPanic \<Rightarrow> p | RExit n s' \<Rightarrow> I s'"
    by (simp add: keeps_def)
  show "case vm_bind m k s of ROk x s' \<Rightarrow> I s' \<and> R x | RErr f s' \<Rightarrow> I s' | RPanic \<Rightarrow> p | RExit n s' \<Rightarrow> I s'"
  proof (cases "m s")
    case (ROk x s')
    with m assms(2) [of x] show ?thesis
      by (simp add: keeps_def)
  qed (use m in simp_all)
qed

lemma keeps_bind_any:
  "keeps p I m (\<lambda>_. True) \<Longrightarrow> (\<And>x. keeps p I (k x) R) \<Longrightarrow> keeps p I (vm_bind m k) R"
  using keeps_bind [of p I m "\<lambda>_. True" k R] by simp

lemma keeps_weaken: "keeps p I m Q \<Longrightarrow> (\<And>x. Q x \<Longrightarrow> R x) \<Longrightarrow> keeps p I m R"
  using keeps_bind [of p I m Q vm_return R] by (simp add: vm_bind_return_right keeps_return)

lemma keeps_lift: "out_ok p Q r \<Longrightarrow> keeps p I (vm_lift r) Q"
  by (cases r) (auto intro: vm_inv keeps_panic)

lemma keeps_ok_or: "(\<And>x. r = Some x \<Longrightarrow> Q x) \<Longrightarrow> keeps p I (vm_ok_or f r) Q"
  by (cases r) (auto intro: vm_inv)

lemma keeps_ROk: "keeps p I m Q \<Longrightarrow> I s \<Longrightarrow> m s = ROk x s' \<Longrightarrow> I s' \<and> Q x"
  unfolding keeps_def by (drule spec [of _ s]) simp

lemma keeps_RErr: "keeps p I m Q \<Longrightarrow> I s \<Longrightarrow> m s = RErr f s' \<Longrightarrow> I s'"
  unfolding keeps_def by (drule spec [of _ s]) simp

lemma keeps_RExit: "keeps p I m Q \<Longrightarrow> I s \<Longrightarrow> m s = RExit n s' \<Longrightarrow> I s'"
  unfolding keeps_def by (drule spec [of _ s]) simp

lemma keeps_RPanic: "keeps p I m Q \<Longrightarrow> I s \<Longrightarrow> m s = RPanic \<Longrightarrow> p"
  unfolding keeps_def by (drule spec [of _ s]) simp

lemma keeps_get_op: "keeps p I (get_op ins n) (\<lambda>_. True)"
  by (simp add: get_op_def keeps_ok_or)

lemma keeps_then_continue: "keeps p I m (\<lambda>_. True) \<Longrightarrow> Q AContinue \<Longrightarrow> keeps p I (then_continue m) Q"
  unfolding then_continue_def by (rule keeps_bind_any) (auto intro: keeps_return)

subsection \<open>Pure operations that never panic\<close>

lemma as_u32_calm [simp]: "as_u32 v \<noteq> Abort"
  by (simp add: as_u32_def split: val_split)

lemma label_target_calm [simp]: "label_target op \<noteq> Abort"
  by (simp add: label_target_def split: operand.split)

lemma syscall_id_calm [simp]: "syscall_id op \<noteq> Abort"
  by (simp add: syscall_id_def split: operand.split immediate.split)

lemma as_u64_calm [simp]: "as_u64 v \<noteq> Abort"
  by (simp add: as_u64_def)

lemma cast_value_calm [simp]: "cast_value v t \<noteq> Abort"
  by (simp add: cast_value_def Let_def split: fasm_type.split)

lemma coll_calm [simp]:
  "coll_push x c \<noteq> Abort" "coll_pop c \<noteq> Abort" "coll_enqueue x c \<noteq> Abort" "coll_dequeue c \<noteq> Abort"
  "coll_peek c \<noteq> Abort" "coll_prepend x c \<noteq> Abort" "coll_pop_back c \<noteq> Abort"
  "coll_peek_back c \<noteq> Abort" "coll_get_idx i c \<noteq> Abort" "coll_set_idx i x c \<noteq> Abort"
  "coll_len c \<noteq> Abort"
  by (simp_all add: coll_push_def coll_pop_def coll_enqueue_def coll_dequeue_def coll_peek_def
      coll_prepend_def coll_pop_back_def coll_peek_back_def coll_get_idx_def coll_set_idx_def
      coll_len_def split: val_split)

lemma map_calm [simp]:
  "field_get k c \<noteq> Abort" "field_set k x c \<noteq> Abort" "field_has k c \<noteq> Abort" "field_del k c \<noteq> Abort"
  "sparse_op_get k c \<noteq> Abort" "sparse_op_set k x c \<noteq> Abort" "sparse_op_has k c \<noteq> Abort"
  "sparse_op_del k c \<noteq> Abort" "btree_op_get k c \<noteq> Abort" "btree_op_set k x c \<noteq> Abort"
  "btree_op_has k c \<noteq> Abort" "btree_op_del k c \<noteq> Abort" "btree_op_min c \<noteq> Abort"
  "btree_op_max c \<noteq> Abort"
  by (simp_all add: field_get_def field_set_def field_has_def field_del_def sparse_op_get_def
      sparse_op_set_def sparse_op_has_def sparse_op_del_def btree_op_get_def btree_op_set_def
      btree_op_has_def btree_op_del_def btree_op_min_def btree_op_max_def split: val_split)

lemma wrap_calm [simp]:
  "wrap_unwrap v \<noteq> Abort" "wrap_unwrap_ok v \<noteq> Abort" "wrap_unwrap_err v \<noteq> Abort"
  by (simp_all add: wrap_unwrap_def wrap_unwrap_ok_def wrap_unwrap_err_def
      split: val_split fasm_option.split fasm_result.split)

lemma vec_calm [simp]:
  "vec_sort c \<noteq> Abort" "vec_filter b t c \<noteq> Abort" "vec_merge c d \<noteq> Abort" "vec_slice i n c \<noteq> Abort"
  by (simp_all add: vec_sort_def vec_filter_def vec_merge_def vec_slice_def Let_def split: val_split)

lemma bits_calm [simp]:
  "bits_query f c \<noteq> Abort" "bits_combine g s c \<noteq> Abort" "bitvec_query h c \<noteq> Abort"
  by (simp_all add: bits_query_def bits_combine_def bitvec_query_def split: val_split)

lemma bits_update_calm: "(\<And>b. f b \<noteq> None) \<Longrightarrow> bits_update f c \<noteq> Abort"
  by (cases c) (auto simp: bits_update_def or_abort_def split: option.split)

lemma compare_values_calm [simp]: "compare_values op a b \<noteq> Abort"
  by (cases op) simp_all

lemma bitwise_values_calm [simp]: "bitwise_values op a b \<noteq> Abort"
  by (cases op) (simp_all add: out_bind_calm)

lemma numeric_op_calm: "numeric_op (\<lambda>x y. Done (f x y)) g a b \<noteq> HostPanic"
  by (simp add: numeric_op_def split: val_split)

lemma arith_binary_calm: "op \<noteq> OpDiv \<Longrightarrow> op \<noteq> OpMod \<Longrightarrow> arith_binary op a b \<noteq> Abort"
  by (cases op)
    (auto simp: val_add_def val_sub_def val_mul_def arith_result_def numeric_op_calm split: host.split)

subsection \<open>Properties of values\<close>

locale value_closed =
  fixes P :: "fasm_value \<Rightarrow> bool"
  assumes imm: "P (imm_to_value im)"
    and default: "P (default_for_type t)"
    and plain: "P VNull" "P (VBool tf)" "P (VUint32 n)" "P (VUint64 w)" "P (VRefMut mg rw)"
      "P (VResult (ResErr n))"
    and wrapped: "P v \<Longrightarrow> P (VOption (OptSome v))" "P v \<Longrightarrow> P (VResult (ResOk v))"
      "P v \<Longrightarrow> P (VFuture (Some v))"
    and unwrapped: "P v \<Longrightarrow> wrap_unwrap v = Good r \<Longrightarrow> P r"
      "P v \<Longrightarrow> wrap_unwrap_ok v = Good r \<Longrightarrow> P r" "P v \<Longrightarrow> P (await_future v)"
    and arith: "P a \<Longrightarrow> P b \<Longrightarrow> arith_binary ao a b = Good r \<Longrightarrow> P r"
    and bitwise: "P a \<Longrightarrow> P b \<Longrightarrow> bitwise_values bo a b = Good r \<Longrightarrow> P r"
    and cast: "P v \<Longrightarrow> cast_value v t = Good r \<Longrightarrow> P r"
    and grow_coll: "P v \<Longrightarrow> P c \<Longrightarrow> coll_push v c = Good r \<Longrightarrow> P r"
      "P v \<Longrightarrow> P c \<Longrightarrow> coll_enqueue v c = Good r \<Longrightarrow> P r"
      "P v \<Longrightarrow> P c \<Longrightarrow> coll_prepend v c = Good r \<Longrightarrow> P r"
      "P v \<Longrightarrow> P c \<Longrightarrow> coll_set_idx i v c = Good r \<Longrightarrow> P r"
      "P v \<Longrightarrow> P c \<Longrightarrow> field_set k v c = Good r \<Longrightarrow> P r"
      "P v \<Longrightarrow> P c \<Longrightarrow> sparse_op_set k v c = Good r \<Longrightarrow> P r"
      "P v \<Longrightarrow> P c \<Longrightarrow> btree_op_set k v c = Good r \<Longrightarrow> P r"
      "P v \<Longrightarrow> P c \<Longrightarrow> bits_combine bc v c = Good r \<Longrightarrow> P r"
    and read_coll: "P c \<Longrightarrow> coll_peek c = Good r \<Longrightarrow> P r" "P c \<Longrightarrow> coll_peek_back c = Good r \<Longrightarrow> P r"
      "P c \<Longrightarrow> coll_get_idx i c = Good r \<Longrightarrow> P r" "P c \<Longrightarrow> field_get k c = Good r \<Longrightarrow> P r"
      "P c \<Longrightarrow> sparse_op_get k c = Good r \<Longrightarrow> P r" "P c \<Longrightarrow> btree_op_get k c = Good r \<Longrightarrow> P r"
      "P c \<Longrightarrow> vec_filter ob v c = Good r \<Longrightarrow> P r" "P c \<Longrightarrow> vec_slice i j c = Good r \<Longrightarrow> P r"
      "P c \<Longrightarrow> P d \<Longrightarrow> vec_merge c d = Good r \<Longrightarrow> P r"
    and change_coll: "P c \<Longrightarrow> field_del k c = Good r \<Longrightarrow> P r" "P c \<Longrightarrow> sparse_op_del k c = Good r \<Longrightarrow> P r"
      "P c \<Longrightarrow> btree_op_del k c = Good r \<Longrightarrow> P r" "P c \<Longrightarrow> vec_sort c = Good r \<Longrightarrow> P r"
      "P c \<Longrightarrow> bits_update bu c = Good r \<Longrightarrow> P r" "P c \<Longrightarrow> bitvec_update bvu c = Good r \<Longrightarrow> P r"
    and pop_coll: "P c \<Longrightarrow> coll_pop c = Good rc \<Longrightarrow> P (fst rc) \<and> P (snd rc)"
      "P c \<Longrightarrow> coll_dequeue c = Good rc \<Longrightarrow> P (fst rc) \<and> P (snd rc)"
      "P c \<Longrightarrow> coll_pop_back c = Good rc \<Longrightarrow> P (fst rc) \<and> P (snd rc)"
begin

lemma imm_for_type: "P (imm_to_value_for_type t op)"
proof (cases op)
  case (OpdImm im)
  then show ?thesis
    using imm [of im] default by (cases im) (simp_all add: imm_to_value_for_type_def)
qed (simp_all add: imm_to_value_for_type_def default split: fasm_type.split)

lemma made:
  "compare_values co a b = Good r \<Longrightarrow> P r" "wrap_unwrap_err v = Good r \<Longrightarrow> P r"
  "field_has k c = Good r \<Longrightarrow> P r" "sparse_op_has k c = Good r \<Longrightarrow> P r" "btree_op_has k c = Good r \<Longrightarrow> P r"
  "btree_op_min c = Good r \<Longrightarrow> P r" "btree_op_max c = Good r \<Longrightarrow> P r"
  by (cases co; auto simp: plain)
    (auto simp: wrap_unwrap_err_def field_has_def sparse_op_has_def btree_op_has_def btree_op_min_def
      btree_op_max_def plain split: val_splits fasm_result.splits)

end

subsection \<open>Properties of the machine\<close>

text \<open>
  \<open>F\<close> of the top frame, \<open>R\<close> of the frames below it, \<open>G\<close> of the globals, \<open>H\<close> of the system-call
  handlers.  \<open>R\<close> is arbitrary: no instruction touches a frame below the top.
\<close>

definition machine_pred ::
  "(call_frame \<Rightarrow> bool) \<Rightarrow> (call_frame list \<Rightarrow> bool) \<Rightarrow> (slots \<Rightarrow> bool) \<Rightarrow> vm \<Rightarrow> bool" where
  "machine_pred F R G s \<longleftrightarrow>
     (case vm_call_stack s of [] \<Rightarrow> False | cf # rest \<Rightarrow> F cf \<and> R rest) \<and> G (vm_globals s)"

lemma machine_predE:
  assumes "machine_pred F R G s"
  obtains cf rest where "vm_call_stack s = cf # rest" "F cf" "R rest" "G (vm_globals s)"
  using assms by (auto simp: machine_pred_def split: list.splits)

text \<open>What an action carries: the index of a function of the program, and a value.\<close>

definition action_ok :: "(fasm_value \<Rightarrow> bool) \<Rightarrow> nat \<Rightarrow> action \<Rightarrow> bool" where
  "action_ok P nf act = (case act of
      ACallFunc i v \<Rightarrow> i < nf \<and> P v
    | ATailCall i v \<Rightarrow> i < nf \<and> P v
    | AReturn v \<Rightarrow> P v
    | _ \<Rightarrow> True)"

lemma action_ok_simps [simp]:
  "action_ok P nf AContinue" "action_ok P nf (AJump t)" "action_ok P nf AHalt"
  "action_ok P nf (ACallFunc i v) \<longleftrightarrow> i < nf \<and> P v"
  "action_ok P nf (ATailCall i v) \<longleftrightarrow> i < nf \<and> P v" "action_ok P nf (AReturn v) = P v"
  by (simp_all add: action_ok_def)

text \<open>The opcodes whose own work can panic in the host.\<close>

definition may_panic :: "opcode \<Rightarrow> bool" where
  "may_panic op \<longleftrightarrow> op \<in> {OArith OpDiv, OArith OpMod, OBitset OpBitSet, OBitset OpBitFlip,
     OBitvec OpBitvecWrite, OBitvec OpBitvecPush}"

lemma may_panic_simps [simp]:
  "may_panic (OArith a) \<longleftrightarrow> a = OpDiv \<or> a = OpMod"
  "may_panic (OBitset b) \<longleftrightarrow> b = OpBitSet \<or> b = OpBitFlip"
  "may_panic (OBitvec v) \<longleftrightarrow> v = OpBitvecWrite \<or> v = OpBitvecPush"
  by (auto simp: may_panic_def)

locale machine_inv = value_closed P for P :: "fasm_value \<Rightarrow> bool" +
  fixes F :: "call_frame \<Rightarrow> bool" and G :: "slots \<Rightarrow> bool" and H :: "syscall \<Rightarrow> bool" and p :: bool
    and q :: bool
  assumes frame_reads: "F cf \<Longrightarrow> frame_get i (cf_frame cf) = Some v \<Longrightarrow> P v"
      "F cf \<Longrightarrow> cf_tmp_frames cf = t # ts \<Longrightarrow> tmp_get i t = Some v \<Longrightarrow> P v"
      "F cf \<Longrightarrow> P (cf_args cf)" "F cf \<Longrightarrow> P (cf_ret_val cf)"
    and frame_writes: "F cf \<Longrightarrow> P v \<Longrightarrow> F (cf\<lparr>cf_frame := frame_set i v (cf_frame cf)\<rparr>)"
      "F cf \<Longrightarrow> P v \<Longrightarrow> F (map_tmp (tmp_put i (Some v)) cf)"
      "F cf \<Longrightarrow> P v \<Longrightarrow> F (cf\<lparr>cf_ret_val := v\<rparr>)"
    and frame_drops: "F cf \<Longrightarrow> F (cf\<lparr>cf_frame := frame_remove i (cf_frame cf)\<rparr>)"
      "F cf \<Longrightarrow> F (map_tmp (tmp_put i None) cf)"
    and frame_tmp: "F cf \<Longrightarrow> F (cf\<lparr>cf_tmp_frames := tmp_new # cf_tmp_frames cf\<rparr>)"
      "F cf \<Longrightarrow> cf_tmp_frames cf = t # ts \<Longrightarrow> F (cf\<lparr>cf_tmp_frames := ts\<rparr>)"
    and frame_guard: "q \<Longrightarrow> F cf \<Longrightarrow> F (cf\<lparr>cf_try_guard := None\<rparr>)"
      "q \<Longrightarrow> F cf \<Longrightarrow> G g \<Longrightarrow> F (cf\<lparr>cf_try_guard := Some \<lparr>tg_catch_ip = c, tg_end_ip = e,
           tg_frame_snap = cf_frame cf, tg_global_snap = g\<rparr>\<rparr>)"
    and global_reads: "G g \<Longrightarrow> global_get j g = Some v \<Longrightarrow> P v"
    and global_writes: "G g \<Longrightarrow> P v \<Longrightarrow> G (global_set j v g)" "G g \<Longrightarrow> G (global_remove j g)"
    and handlers: "H h \<Longrightarrow> P a \<Longrightarrow> G g \<Longrightarrow>
      (case h a (g, sio) of ROk v t \<Rightarrow> P v \<and> G (fst t) | RErr f t \<Rightarrow> G (fst t) | RPanic \<Rightarrow> p
        | RExit n t \<Rightarrow> G (fst t))"
begin

abbreviation inv :: "(call_frame list \<Rightarrow> bool) \<Rightarrow> vm \<Rightarrow> bool" where
  "inv R \<equiv> machine_pred F R G"

lemma keeps_top: "keeps p (inv R) top F"
  by (auto simp: keeps_def top_def machine_pred_def split: list.splits)

lemma keeps_globals: "keeps p (inv R) globals G"
  by (auto simp: keeps_def globals_def elim: machine_predE)

lemma keeps_modify_top: "(\<And>cf. F cf \<Longrightarrow> F (f cf)) \<Longrightarrow> keeps p (inv R) (modify_top f) (\<lambda>_. True)"
  unfolding keeps_def modify_top_def by (auto simp: machine_pred_def split: list.splits)

lemma keeps_modify_globals: "(\<And>g. G g \<Longrightarrow> G (f g)) \<Longrightarrow> keeps p (inv R) (modify_globals f) (\<lambda>_. True)"
  unfolding keeps_def modify_globals_def by (auto simp: machine_pred_def split: list.splits)

lemma keeps_frame_get: "F cf \<Longrightarrow> keeps p I (vm_ok_or f (frame_get i (cf_frame cf))) P"
  by (rule keeps_ok_or) (rule frame_reads(1))

lemma keeps_global_get: "G g \<Longrightarrow> keeps p I (vm_ok_or f (global_get i g)) P"
  by (rule keeps_ok_or) (rule global_reads)

lemma keeps_tmp_top: "F cf \<Longrightarrow> keeps p I (tmp_top cf i) (\<lambda>t. \<exists>ts. cf_tmp_frames cf = t # ts)"
  by (auto simp: tmp_top_def split: list.split intro: vm_inv)

lemma keeps_tmp_get: "F cf \<Longrightarrow> \<exists>ts. cf_tmp_frames cf = t # ts \<Longrightarrow> keeps p I (vm_ok_or f (tmp_get i t)) P"
  by (rule keeps_ok_or) (auto dest: frame_reads(2))

lemmas keeps_accesses = keeps_top keeps_globals keeps_frame_get keeps_global_get keeps_tmp_top keeps_tmp_get

lemma keeps_deref_value: "P v \<Longrightarrow> keeps p (inv R) (deref_value v) P"
  unfolding deref_value_def Let_def
  by (cases v) (auto intro: vm_inv keeps_bind keeps_accesses)

lemma keeps_read_slot: "keeps p (inv R) (read_slot sl) P"
proof (cases sl)
  case (SlBuiltIn b)
  then show ?thesis
    by (cases b) (auto intro: keeps_bind [OF keeps_top] keeps_return frame_reads plain)
qed (auto intro!: keeps_bind keeps_deref_value intro: keeps_accesses)

lemma keeps_read_operand: "keeps p (inv R) (read_operand op) P"
  by (cases op) (auto simp: read_operand_def intro: vm_inv keeps_read_slot imm)

lemma keeps_set_local: "P v \<Longrightarrow> keeps p (inv R) (set_local i v) (\<lambda>_. True)"
  unfolding set_local_def by (intro keeps_modify_top frame_writes)

lemma keeps_deref_write: "P v \<Longrightarrow> keeps p (inv R) (deref_write r v) (\<lambda>_. True)"
  unfolding deref_write_def
  by (cases r) (auto intro: vm_inv keeps_set_local keeps_modify_globals global_writes)

lemma keeps_write_slot: "P v \<Longrightarrow> keeps p (inv R) (write_slot sl v) (\<lambda>_. True)"
proof (cases sl)
  case (SlBuiltIn b)
  then show "P v \<Longrightarrow> ?thesis"
    by (cases b) (auto intro: keeps_bind [OF keeps_top] keeps_fail keeps_modify_top frame_writes)
qed (auto intro!: keeps_bind keeps_deref_write keeps_set_local keeps_modify_top keeps_modify_globals
    intro: keeps_accesses frame_writes global_writes)

lemma keeps_write_operand: "P v \<Longrightarrow> keeps p (inv R) (write_operand op v) (\<lambda>_. True)"
  by (cases op) (auto simp: write_operand_def intro: vm_inv keeps_write_slot)

lemma keeps_imm_operand: "keeps p (inv R) (imm_operand op) P"
  by (cases op) (auto simp: imm_operand_def intro: vm_inv keeps_read_operand imm)

lemma keeps_lift_calm: "r \<noteq> Abort \<Longrightarrow> keeps p I (vm_lift r) (\<lambda>_. True)"
  by (rule keeps_lift, cases r) simp_all

lemma keeps_read_key: "keeps p (inv R) (read_key_operand op) (\<lambda>_. True)"
proof (cases op)
  case (OpdImm im)
  then show ?thesis
    by (cases im) (auto simp: read_key_operand_def intro: vm_inv)
next
  case (OpdSlot sl)
  then show ?thesis
    by (simp add: read_key_operand_def)
      (rule keeps_bind [OF keeps_read_operand], simp add: keeps_lift_calm)
qed (auto simp: read_key_operand_def intro: vm_inv)

lemma keeps_load_place: "keeps p (inv R) (load_place pl) P"
  by (cases pl) (auto intro!: keeps_bind intro: keeps_accesses)

lemma keeps_store_place: "P v \<Longrightarrow> keeps p (inv R) (store_place pl v) (\<lambda>_. True)"
  by (cases pl) (auto intro!: keeps_set_local keeps_modify_top keeps_modify_globals
      intro: frame_writes global_writes)

lemma keeps_write_target: "keeps p (inv R) (write_target_mut op) (\<lambda>pv. P (snd pv))"
proof -
  have at: "keeps p (inv R) (vm_bind (load_place pl) (\<lambda>v. vm_return (pl, v))) (\<lambda>pv. P (snd pv))" for pl
    by (rule keeps_bind [OF keeps_load_place]) (simp add: keeps_return)
  show ?thesis
    by (cases op) (auto simp: write_target_mut_def Let_def at simp del: load_place.simps
        intro: keeps_fail split: slot_ref.split)
qed

lemma keeps_release: "keeps p (inv R) (release_operand op) (\<lambda>_. True)"
  unfolding keeps_def release_operand_def
  by (auto simp: machine_pred_def frame_drops global_writes split: operand.split slot_ref.split list.splits)

subsection \<open>Instruction shapes\<close>

lemma keeps_read_val: "keeps p (inv R) (read_val ins n) P"
  unfolding read_val_def by (rule keeps_bind [OF keeps_get_op]) (rule keeps_read_operand)

lemma keeps_write_val: "P v \<Longrightarrow> keeps p (inv R) (write_val ins n v) (\<lambda>_. True)"
  unfolding write_val_def by (rule keeps_bind [OF keeps_get_op]) (rule keeps_write_operand)

lemma keeps_read_u32: "keeps p (inv R) (read_u32 ins n) (\<lambda>_. True)"
  unfolding read_u32_def by (rule keeps_bind [OF keeps_read_val]) (simp add: keeps_lift_calm)

lemma keeps_read_u64: "keeps p (inv R) (read_u64 ins n) (\<lambda>_. True)"
  unfolding read_u64_def by (rule keeps_bind [OF keeps_read_val]) (simp add: keeps_lift_calm)

lemma keeps_key_operand: "keeps p (inv R) (key_operand ins) (\<lambda>_. True)"
  unfolding key_operand_def by (rule keeps_bind [OF keeps_get_op]) (rule keeps_read_key)

lemma keeps_finish: "P v \<Longrightarrow> keeps p (inv R) (then_continue (write_val ins n v)) (action_ok P nf)"
  by (rule keeps_then_continue) (simp_all add: keeps_write_val)

lemma keeps_lift_finish:
  assumes "\<And>v. r = Good v \<Longrightarrow> P v" and "r \<noteq> Abort"
  shows "keeps p (inv R) (vm_bind (vm_lift r) (\<lambda>v. then_continue (write_val ins n v))) (action_ok P nf)"
  by (rule keeps_bind [OF keeps_lift [of p P] keeps_finish])
    (use assms in \<open>auto intro: out_okI\<close>)

lemma keeps_take_out:
  assumes "\<And>c. P c \<Longrightarrow> out_ok p (\<lambda>xc. Q (fst xc) \<and> P (snd xc)) (f c)"
  shows "keeps p (inv R) (take_out ins n f) Q"
  unfolding take_out_def
  by (auto intro!: keeps_bind [OF keeps_get_op] keeps_bind [OF keeps_write_target]
      keeps_bind [OF keeps_lift [OF assms]] keeps_bind [OF keeps_store_place] keeps_return)

lemma keeps_update:
  assumes "\<And>c r. P c \<Longrightarrow> f c = Good r \<Longrightarrow> P r" and "\<And>c. f c = Abort \<Longrightarrow> p"
  shows "keeps p (inv R) (then_continue (update ins n f)) (action_ok P nf)"
  unfolding update_def
  by (rule keeps_then_continue, rule keeps_take_out)
    (auto intro!: out_okI simp: out_map_Good dest: assms)

lemma keeps_binary:
  assumes "\<And>a b r. P a \<Longrightarrow> P b \<Longrightarrow> f a b = Good r \<Longrightarrow> P r" and "\<And>a b. f a b = Abort \<Longrightarrow> p"
  shows "keeps p (inv R) (binary ins f) (action_ok P nf)"
  unfolding binary_def
  by (rule keeps_bind [OF keeps_read_val], rule keeps_bind [OF keeps_read_val],
      rule keeps_bind [OF keeps_lift keeps_finish])
    (auto intro: out_okI dest: assms)

lemma keeps_unary:
  assumes "\<And>a r. P a \<Longrightarrow> f a = Good r \<Longrightarrow> P r" and "\<And>a. f a = Abort \<Longrightarrow> p"
  shows "keeps p (inv R) (unary ins f) (action_ok P nf)"
  unfolding unary_def
  by (rule keeps_bind [OF keeps_read_val], rule keeps_bind [OF keeps_lift keeps_finish])
    (auto intro: out_okI dest: assms)

lemma keeps_wrap_like:
  assumes "\<And>a r. P a \<Longrightarrow> f a = Good r \<Longrightarrow> P r" and "\<And>a. f a \<noteq> Abort"
  shows "keeps p (inv R) (wrap_like ins f) (action_ok P nf)"
  unfolding wrap_like_def
  by (rule keeps_bind [OF keeps_read_val], rule keeps_bind [OF keeps_lift keeps_finish])
    (auto intro: out_okI dest: assms(1) simp: assms(2))

lemma keeps_push_like:
  assumes "\<And>v c r. P v \<Longrightarrow> P c \<Longrightarrow> f v c = Good r \<Longrightarrow> P r" and "\<And>v c. f v c \<noteq> Abort"
  shows "keeps p (inv R) (push_like ins f) (action_ok P nf)"
  unfolding push_like_def
  by (rule keeps_bind [OF keeps_read_val], rule keeps_update) (auto dest: assms(1) simp: assms(2))

lemma keeps_pop_like:
  assumes "\<And>c rc. P c \<Longrightarrow> f c = Good rc \<Longrightarrow> P (fst rc) \<and> P (snd rc)" and "\<And>c. f c \<noteq> Abort"
  shows "keeps p (inv R) (pop_like ins f) (action_ok P nf)"
  unfolding pop_like_def
  by (rule keeps_bind [OF keeps_take_out keeps_finish])
    (auto intro!: out_okI dest: assms(1) simp: assms(2))

lemma keeps_keyed_query:
  assumes "keeps p (inv R) key (\<lambda>_. True)" and "\<And>k c r. P c \<Longrightarrow> f k c = Good r \<Longrightarrow> P r"
    and "\<And>k c. f k c \<noteq> Abort"
  shows "keeps p (inv R) (keyed_query ins key f) (action_ok P nf)"
  unfolding keyed_query_def
  by (rule keeps_bind [OF assms(1)], rule keeps_bind [OF keeps_read_val],
      rule keeps_bind [OF keeps_lift keeps_finish])
    (auto intro: out_okI dest: assms(2) simp: assms(3))

lemma keeps_keyed_set:
  assumes "keeps p (inv R) key (\<lambda>_. True)" and "\<And>k v c r. P v \<Longrightarrow> P c \<Longrightarrow> f k v c = Good r \<Longrightarrow> P r"
    and "\<And>k v c. f k v c \<noteq> Abort"
  shows "keeps p (inv R) (keyed_set ins key f) (action_ok P nf)"
  unfolding keyed_set_def
  by (rule keeps_bind [OF assms(1)], rule keeps_bind [OF keeps_read_val], rule keeps_update)
    (auto dest: assms(2) simp: assms(3))

lemma keeps_keyed_update:
  assumes "keeps p (inv R) key (\<lambda>_. True)" and "\<And>k c r. P c \<Longrightarrow> f k c = Good r \<Longrightarrow> P r"
    and "\<And>k c. f k c = Abort \<Longrightarrow> p"
  shows "keeps p (inv R) (keyed_update ins key f) (action_ok P nf)"
  unfolding keyed_update_def
  by (rule keeps_bind [OF assms(1)], rule keeps_update) (auto dest: assms(2,3))

subsection \<open>Instructions\<close>

lemma keeps_exec_mem: "keeps p (inv R) (exec_mem m ins) (action_ok P nf)"
proof (cases m)
  case OpTmpBlock
  then show ?thesis
    by (simp add: keeps_then_continue keeps_modify_top frame_tmp(1))
next
  case OpEndTmp
  have "keeps p (inv R) (exec_mem OpEndTmp ins) (action_ok P nf)"
    unfolding keeps_def
    by (auto simp: top_def then_continue_def modify_top_def vm_bind_def vm_simps machine_pred_def
        split: list.splits dest: frame_tmp(2))
  with OpEndTmp show ?thesis by simp
next
  case OpReserve
  have "keeps p (inv R) (exec_mem OpReserve ins) (action_ok P nf)"
    by (auto intro!: keeps_bind [OF keeps_get_op] keeps_then_continue keeps_write_operand imm_for_type
        intro: keeps_fail split: operand.split)
  with OpReserve show ?thesis by simp
next
  case OpRelease
  have "keeps p (inv R) (exec_mem OpRelease ins) (action_ok P nf)"
    by (auto intro!: keeps_bind [OF keeps_get_op] keeps_then_continue keeps_release)
  with OpRelease show ?thesis by simp
qed

lemma keeps_exec_move: "keeps p (inv R) (exec_move m ins) (action_ok P nf)"
  by (cases m)
    (auto intro!: keeps_bind [OF keeps_get_op] keeps_bind [OF keeps_read_val]
      keeps_bind [OF keeps_imm_operand] keeps_finish keeps_then_continue keeps_write_operand plain
      split: prod.split)

lemma keeps_exec_cmp: "keeps p (inv R) (exec_cmp m ins) (action_ok P nf)"
  unfolding exec_cmp_def by (rule keeps_binary) (auto dest: made)

lemma keeps_exec_bitwise: "keeps p (inv R) (exec_bitwise m ins) (action_ok P nf)"
  unfolding exec_bitwise_def
  by (auto intro!: keeps_unary keeps_binary dest: bitwise simp del: bitwise_values.simps)

lemma keeps_exec_cast: "keeps p (inv R) (exec_cast ins) (action_ok P nf)"
  unfolding exec_cast_def
  by (auto intro!: keeps_bind [OF keeps_read_val] keeps_bind [OF keeps_get_op] keeps_lift_finish
      intro: keeps_fail dest: cast split: operand.split)

lemma keeps_call_target: "keeps p (inv R) (call_target prog ins) (\<lambda>i. i < length (prog_functions prog))"
  unfolding call_target_def
  by (rule keeps_bind [OF keeps_get_op]) (simp add: keeps_fail keeps_return split: operand.split)

lemma keeps_label: "keeps p (inv R) (vm_lift (label_target op)) (\<lambda>_. True)"
  by (simp add: keeps_lift_calm)

lemma keeps_jump_if: "keeps p (inv R) (jump_if ins c) (action_ok P nf)"
  unfolding jump_if_def
  by (intro keeps_bind [OF keeps_read_val] keeps_bind [OF keeps_get_op] keeps_bind [OF keeps_label]
      keeps_return) simp

lemma keeps_exec_flow: "keeps p (inv R) (exec_flow m prog ins) (action_ok P (length (prog_functions prog)))"
proof (cases m)
  case OpRet
  then show ?thesis
    by (auto intro!: keeps_bind [OF keeps_read_val] keeps_return plain)
next
  case OpAwait
  then show ?thesis
    by (auto intro!: keeps_unary dest: unwrapped)
qed (auto intro!: keeps_return keeps_jump_if keeps_bind [OF keeps_get_op] keeps_bind [OF keeps_label]
    keeps_bind [OF keeps_call_target] keeps_bind [OF keeps_read_val])

lemma keeps_call_handler: "H h \<Longrightarrow> P a \<Longrightarrow> keeps p (inv R) (call_handler h a) P"
  unfolding keeps_def
proof (intro allI impI)
  fix s
  assume h: "H h" "P a" and s: "inv R s"
  then have "G (vm_globals s)"
    by (simp add: machine_pred_def)
  from handlers [OF h this, of "vm_io s"] s
  show "case call_handler h a s of ROk x s' \<Rightarrow> inv R s' \<and> P x | RErr f s' \<Rightarrow> inv R s' | RPanic \<Rightarrow> p
      | RExit n s' \<Rightarrow> inv R s'"
    by (cases "h a (vm_globals s, vm_io s)") (auto simp: call_handler_def machine_pred_def)
qed

lemma keeps_do_syscall:
  "(\<And>i h. env_syscalls e i = Some h \<Longrightarrow> H h) \<Longrightarrow> keeps p (inv R) (do_syscall e ins) P"
  unfolding do_syscall_def
  by (rule keeps_bind [OF keeps_get_op], rule keeps_bind [OF keeps_lift_calm], simp,
      rule keeps_bind [OF keeps_read_val], rule keeps_bind [OF keeps_ok_or [where Q = H]])
    (auto intro: keeps_call_handler)

lemma keeps_exec_sys:
  assumes "\<And>i h. env_syscalls e i = Some h \<Longrightarrow> H h"
  shows "keeps p (inv R) (exec_sys m e ins) (action_ok P nf)"
  by (cases m)
    (auto intro!: keeps_bind [OF keeps_do_syscall] keeps_then_continue keeps_modify_top frame_writes
      wrapped dest: assms)

lemma keeps_exec_coll: "keeps p (inv R) (exec_coll m ins) (action_ok P nf)"
proof (cases m)
  case OpPeek
  show ?thesis
    unfolding OpPeek exec_coll.simps by (rule keeps_unary) (auto dest: read_coll(1))
next
  case OpGetIdx
  show ?thesis
    unfolding OpGetIdx exec_coll.simps
    by (rule keeps_binary) (auto simp: out_bind_Good out_bind_calm dest: read_coll(3))
next
  case OpHasField
  then show ?thesis
    by (auto intro!: keeps_keyed_query keeps_key_operand dest: made(3))
next
  case OpDelField
  then show ?thesis
    by (auto intro!: keeps_keyed_update keeps_key_operand dest: change_coll(1))
next
  case OpLen
  show ?thesis
    unfolding OpLen exec_coll.simps by (rule keeps_unary) (auto simp: out_map_Good plain)
qed (simp_all add: keeps_push_like [OF grow_coll(1)] keeps_push_like [OF grow_coll(2)]
    keeps_pop_like [OF pop_coll(1)] keeps_pop_like [OF pop_coll(2)]
    keeps_keyed_set [OF keeps_read_u32 grow_coll(4)] keeps_keyed_set [OF keeps_key_operand grow_coll(5)]
    keeps_keyed_query [OF keeps_key_operand read_coll(4)])

lemma keeps_exec_wrap: "keeps p (inv R) (exec_wrap m ins) (action_ok P nf)"
  by (cases m)
    (auto intro!: keeps_wrap_like keeps_unary plain wrapped simp: out_map_Good
      dest: unwrapped made)

lemma keeps_exec_try:
  assumes q
  shows "keeps p (inv R) (exec_try m ins) (action_ok P nf)"
proof (cases m)
  case OpTry
  have "keeps p (inv R) (exec_try OpTry ins) (action_ok P nf)"
    using assms by (auto intro!: keeps_bind [OF keeps_get_op] keeps_bind [OF keeps_label] keeps_bind [OF keeps_globals]
        keeps_then_continue keeps_modify_top simp: frame_guard frame_snapshot_def global_snapshot_def)
  with OpTry show ?thesis by simp
qed (use assms in \<open>auto intro!: keeps_bind [OF keeps_top] keeps_bind_any keeps_then_continue keeps_modify_top
    keeps_return frame_guard simp: Let_def\<close>)

lemma keeps_exec_deque: "keeps p (inv R) (exec_deque m ins) (action_ok P nf)"
  by (cases m)
    (auto intro!: keeps_push_like keeps_pop_like keeps_unary dest: grow_coll read_coll pop_coll)

lemma keeps_exec_vec: "keeps p (inv R) (exec_vec m ins) (action_ok P nf)"
proof (cases m)
  case OpVecSort
  then show ?thesis
    by (auto intro!: keeps_update dest: change_coll)
next
  case OpVecMerge
  then show ?thesis
    by (auto intro!: keeps_binary dest: read_coll)
qed (auto intro!: keeps_bind [OF keeps_read_val] keeps_bind [OF keeps_read_u32] keeps_lift_finish
    dest: read_coll)

lemma keeps_exec_sparse: "keeps p (inv R) (exec_sparse m ins) (action_ok P nf)"
  by (cases m)
    (auto intro!: keeps_keyed_query keeps_keyed_set keeps_keyed_update keeps_read_u32
      dest: grow_coll read_coll change_coll made)

lemma keeps_exec_btree: "keeps p (inv R) (exec_btree m ins) (action_ok P nf)"
  by (cases m)
    (auto intro!: keeps_keyed_query keeps_keyed_set keeps_keyed_update keeps_read_u32 keeps_unary
      dest: grow_coll read_coll change_coll made)

lemma bits_query_Good: "bits_query f c = Good r \<Longrightarrow> \<exists>b. r = f b"
  by (auto simp: bits_query_def split: val_splits)

lemma bitvec_query_Good: "bitvec_query f c = Good r \<Longrightarrow> \<exists>b. r = f b"
  by (auto simp: bitvec_query_def split: val_splits)

lemma keeps_exec_bitset:
  assumes "m = OpBitSet \<or> m = OpBitFlip \<Longrightarrow> p"
  shows "keeps p (inv R) (exec_bitset m ins) (action_ok P nf)"
proof (cases "m = OpBitSet \<or> m = OpBitFlip")
  case True
  then show ?thesis
    using keeps_keyed_update [OF keeps_read_u32 change_coll(5) assms] by auto
next
  case False
  then show ?thesis
    by (cases m)
      (auto intro!: keeps_keyed_query keeps_keyed_update keeps_push_like keeps_unary keeps_read_u32 plain
        simp: bits_update_calm bits_grow_def dest!: bits_query_Good dest: grow_coll change_coll)
qed

lemma keeps_exec_bitvec:
  assumes "m = OpBitvecWrite \<or> m = OpBitvecPush \<Longrightarrow> p"
  shows "keeps p (inv R) (exec_bitvec m ins) (action_ok P nf)"
proof (cases "m = OpBitvecWrite \<or> m = OpBitvecPush")
  case True
  have "keeps p (inv R) (then_continue (update ins 0 (bitvec_update h))) (action_ok P nf)" for h
    by (rule keeps_update [OF change_coll(6) assms [OF True]])
  with True show ?thesis
    by (auto intro!: keeps_bind [OF keeps_read_u64] keeps_bind [OF keeps_read_u32])
next
  case False
  then show ?thesis
    by (cases m)
      (auto intro!: keeps_bind [OF keeps_read_u64] keeps_bind [OF keeps_read_u32]
        keeps_bind [OF keeps_read_val] keeps_lift_finish plain dest!: bitvec_query_Good)
qed

lemma keeps_exec_arith:
  assumes "m = OpDiv \<or> m = OpMod \<Longrightarrow> p"
  shows "keeps p (inv R) (exec_arith m ins) (action_ok P nf)"
proof -
  have "arith_binary m a b = Abort \<Longrightarrow> p" for a b
    using assms arith_binary_calm by blast
  then show ?thesis
    unfolding exec_arith_def
    by (cases "m = OpNeg")
      (auto intro!: keeps_unary keeps_binary dest: arith [where ao = m] arith [where ao = OpNeg]
        simp del: arith_binary.simps)
qed

lemma execute_keeps:
  assumes "\<And>i h. env_syscalls e i = Some h \<Longrightarrow> H h" and "may_panic (opcode ins) \<Longrightarrow> p"
    and "\<And>t. opcode ins = OTry t \<Longrightarrow> q"
  shows "keeps p (inv R) (execute_instruction e ins) (action_ok P (length (prog_functions (env_program e))))"
proof (cases "opcode ins")
  case (OArith m)
  then show ?thesis
    using assms(2) by (simp add: execute_instruction_def keeps_exec_arith)
next
  case (OBitset m)
  then show ?thesis
    using assms(2) by (simp add: execute_instruction_def keeps_exec_bitset)
next
  case (OBitvec m)
  then show ?thesis
    using assms(2) by (simp add: execute_instruction_def keeps_exec_bitvec)
next
  case (OSys m)
  then show ?thesis
    using keeps_exec_sys assms(1) by (simp add: execute_instruction_def)
next
  case (OTry m)
  then show ?thesis
    using assms(3) by (simp add: execute_instruction_def keeps_exec_try)
qed (simp_all add: execute_instruction_def keeps_exec_mem keeps_exec_move keeps_exec_cmp
    keeps_exec_bitwise keeps_exec_flow keeps_exec_coll keeps_exec_wrap
    keeps_exec_deque keeps_exec_vec keeps_exec_sparse keeps_exec_btree keeps_exec_cast)

end

end
