(* ===== verification/Fasm_Wellformed.thy ===== *)
theory Fasm_Wellformed
  imports Fasm_Logic
begin

text \<open>
  Well-formed values: every struct and sparse array inside has distinct keys, every ordered map
  has its keys in increasing order.  These are the invariants of \<open>FasmStruct\<close>, \<open>FxHashMap\<close> and
  \<open>BTreeMap\<close>; every value operation keeps them (\<open>wf_closed\<close>).
\<close>

abbreviation holds :: "bool list \<Rightarrow> bool" where
  "holds \<equiv> list_all (\<lambda>b. b)"

primrec wf_value :: "fasm_value \<Rightarrow> bool" where
  "wf_value VNull = True"
| "wf_value (VBool _) = True"
| "wf_value (VInt8 _) = True"
| "wf_value (VInt16 _) = True"
| "wf_value (VInt32 _) = True"
| "wf_value (VInt64 _) = True"
| "wf_value (VUint8 _) = True"
| "wf_value (VUint16 _) = True"
| "wf_value (VUint32 _) = True"
| "wf_value (VUint64 _) = True"
| "wf_value (VFloat32 _) = True"
| "wf_value (VFloat64 _) = True"
| "wf_value (VRefMut _ _) = True"
| "wf_value (VRefImm _ _) = True"
| "wf_value (VVec xs) = holds (map wf_value xs)"
| "wf_value (VStruct kvs) =
     (list_all snd (map (map_prod id wf_value) kvs) \<and> keys_distinct kvs)"
| "wf_value (VStack xs) = holds (map wf_value xs)"
| "wf_value (VQueue xs) = holds (map wf_value xs)"
| "wf_value (VHeapMin xs) = holds (map wf_value xs)"
| "wf_value (VHeapMax xs) = holds (map wf_value xs)"
| "wf_value (VSparse kvs) =
     (list_all snd (map (map_prod id wf_value) kvs) \<and> keys_distinct kvs)"
| "wf_value (VBTree kvs) =
     (list_all snd (map (map_prod id wf_value) kvs) \<and> keys_ordered kvs)"
| "wf_value (VSlice xs) = holds (map wf_value xs)"
| "wf_value (VDeque xs) = holds (map wf_value xs)"
| "wf_value (VBitset _) = True"
| "wf_value (VBitvec _) = True"
| "wf_value (VOption o') =
     (case map_fasm_option wf_value o' of OptNone \<Rightarrow> True | OptSome b \<Rightarrow> b)"
| "wf_value (VResult r) =
     (case map_fasm_result wf_value r of ResOk b \<Rightarrow> b | ResErr _ \<Rightarrow> True)"
| "wf_value (VFuture f) = (case map_option wf_value f of None \<Rightarrow> True | Some b \<Rightarrow> b)"

abbreviation wf_pairs :: "(u32 \<times> fasm_value) list \<Rightarrow> bool" where
  "wf_pairs \<equiv> list_all (\<lambda>kv. wf_value (snd kv))"

lemma wf_lists [simp]:
  "holds (map wf_value xs) = list_all wf_value xs"
  "list_all snd (map (map_prod id wf_value) kvs) = wf_pairs kvs"
  by (simp_all add: list_all_iff split_beta)

subsection \<open>Lists and maps of well-formed values\<close>

lemma wf_last: "list_all wf_value xs \<Longrightarrow> last_opt xs = Some v \<Longrightarrow> wf_value v"
  by (auto simp: last_opt_def list_all_iff split: if_splits)

lemma wf_first: "list_all wf_value xs \<Longrightarrow> first_opt xs = Some v \<Longrightarrow> wf_value v"
  by (auto simp: first_opt_def split: list.splits)

lemma wf_pop_last: "list_all wf_value xs \<Longrightarrow> pop_last xs = Some (v, ys) \<Longrightarrow> wf_value v \<and> list_all wf_value ys"
  by (auto simp: pop_last_def list_all_iff dest: in_set_butlastD split: if_splits)

lemma wf_pop_first: "list_all wf_value xs \<Longrightarrow> pop_first xs = Some (v, ys) \<Longrightarrow> wf_value v \<and> list_all wf_value ys"
  by (auto simp: pop_first_def split: list.splits)

lemma wf_map_of: "wf_pairs kvs \<Longrightarrow> map_of kvs k = Some v \<Longrightarrow> wf_value v"
  by (auto simp: list_all_iff dest!: map_of_SomeD)

lemma wf_struct_insert: "wf_pairs kvs \<Longrightarrow> wf_value v \<Longrightarrow> wf_pairs (struct_insert k v kvs)"
  by (induction k v kvs rule: struct_insert.induct) auto

lemma wf_struct_remove: "wf_pairs kvs \<Longrightarrow> wf_pairs (struct_remove k kvs)"
  using set_struct_remove by (fastforce simp: list_all_iff)

lemma wf_sparse_insert: "wf_pairs kvs \<Longrightarrow> wf_value v \<Longrightarrow> wf_pairs (sparse_insert k v kvs)"
  unfolding sparse_insert_def by (induction kvs) auto

lemma wf_sparse_remove: "wf_pairs kvs \<Longrightarrow> wf_pairs (sparse_remove k kvs)"
  unfolding sparse_remove_def AList.delete_eq by (auto simp: list_all_iff)

lemma wf_btree_insert: "wf_pairs kvs \<Longrightarrow> wf_value v \<Longrightarrow> wf_pairs (btree_insert k v kvs)"
  by (induction k v kvs rule: btree_insert.induct) auto

lemma wf_btree_remove: "wf_pairs kvs \<Longrightarrow> wf_pairs (btree_remove k kvs)"
  by (auto simp: btree_remove_def list_all_iff)

lemma set_merge_loop: "set (merge_loop va vb) = set va \<union> set vb"
  by (induction va vb rule: merge_loop.induct) auto

subsection \<open>Closure\<close>

lemma numeric_op_wf: "numeric_op f g a b = Done (Some r) \<Longrightarrow> wf_value r"
  by (auto simp: numeric_op_def Let_def split: val_splits)

lemma arith_binary_wf: "arith_binary op a b = Good r \<Longrightarrow> wf_value r"
  by (cases op)
    (auto simp: val_add_def val_sub_def val_mul_def val_div_def val_rem_def val_neg_def
      dest: numeric_op_wf split: val_splits)

lemma bitwise_op_wf: "bitwise_op f a b = Some r \<Longrightarrow> wf_value r"
  by (auto simp: bitwise_op_def split: val_splits)

lemma shift_wf: "val_shl a s = Some r \<Longrightarrow> wf_value r" "val_shr a s = Some r \<Longrightarrow> wf_value r"
  by (auto simp: val_shl_def val_shr_def split: val_splits)

lemma bitwise_values_wf: "bitwise_values op a b = Good r \<Longrightarrow> wf_value r"
  by (cases op)
    (auto simp: val_bit_and_def val_bit_or_def val_bit_xor_def val_bit_not_def out_bind_Good
      dest: bitwise_op_wf shift_wf split: val_splits)

lemma cast_value_wf: "cast_value v t = Good r \<Longrightarrow> wf_value r"
  by (auto simp: cast_value_def Let_def split: fasm_type.splits)

lemma grow_coll_wf:
  assumes "wf_value v" "wf_value c"
  shows "coll_push v c = Good r \<Longrightarrow> wf_value r" "coll_enqueue v c = Good r \<Longrightarrow> wf_value r"
    "coll_prepend v c = Good r \<Longrightarrow> wf_value r" "coll_set_idx i v c = Good r \<Longrightarrow> wf_value r"
    "field_set k v c = Good r \<Longrightarrow> wf_value r" "sparse_op_set k v c = Good r \<Longrightarrow> wf_value r"
    "btree_op_set k v c = Good r \<Longrightarrow> wf_value r" "bits_combine g v c = Good r \<Longrightarrow> wf_value r"
  using assms
  by (auto simp: coll_push_def coll_enqueue_def coll_prepend_def coll_set_idx_def field_set_def
      sparse_op_set_def btree_op_set_def bits_combine_def wf_struct_insert wf_sparse_insert
      wf_btree_insert struct_map.inv_insert sparse_map.inv_insert btree_map.inv_insert
      split: val_splits if_splits)

lemma read_coll_wf:
  assumes "wf_value c"
  shows "coll_peek c = Good r \<Longrightarrow> wf_value r" "coll_peek_back c = Good r \<Longrightarrow> wf_value r"
    "coll_get_idx i c = Good r \<Longrightarrow> wf_value r" "field_get k c = Good r \<Longrightarrow> wf_value r"
    "sparse_op_get k c = Good r \<Longrightarrow> wf_value r" "btree_op_get k c = Good r \<Longrightarrow> wf_value r"
    "vec_filter ob v c = Good r \<Longrightarrow> wf_value r" "vec_slice i j c = Good r \<Longrightarrow> wf_value r"
    "wf_value d \<Longrightarrow> vec_merge c d = Good r \<Longrightarrow> wf_value r"
  using assms
  by (auto simp: coll_peek_def coll_peek_back_def coll_get_idx_def field_get_def sparse_op_get_def
      btree_op_get_def vec_filter_def vec_slice_def vec_merge_def Let_def struct_get_map_of
      sparse_get_map_of btree_get_map_of list_all_nth wf_last wf_first wf_map_of
      split: val_splits)
    (auto simp: list_all_iff set_merge_loop dest: in_set_takeD in_set_dropD)

lemma change_coll_wf:
  assumes "wf_value c"
  shows "field_del k c = Good r \<Longrightarrow> wf_value r" "sparse_op_del k c = Good r \<Longrightarrow> wf_value r"
    "btree_op_del k c = Good r \<Longrightarrow> wf_value r" "vec_sort c = Good r \<Longrightarrow> wf_value r"
    "bits_update f c = Good r \<Longrightarrow> wf_value r" "bitvec_update h c = Good r \<Longrightarrow> wf_value r"
  using assms
  by (auto simp: field_del_def sparse_op_del_def btree_op_del_def vec_sort_def bits_update_def
      bitvec_update_def wf_struct_remove wf_sparse_remove wf_btree_remove struct_map.inv_remove
      sparse_map.inv_remove btree_map.inv_remove split: val_splits)
    (auto simp: list_all_iff)

lemma pop_coll_wf:
  assumes "wf_value c"
  shows "coll_pop c = Good rc \<Longrightarrow> wf_value (fst rc) \<and> wf_value (snd rc)"
    "coll_dequeue c = Good rc \<Longrightarrow> wf_value (fst rc) \<and> wf_value (snd rc)"
    "coll_pop_back c = Good rc \<Longrightarrow> wf_value (fst rc) \<and> wf_value (snd rc)"
  using assms
  by (auto simp: coll_pop_def coll_dequeue_def coll_pop_back_def split: val_splits
      dest: wf_pop_last wf_pop_first)

lemma imm_wf: "wf_value (imm_to_value im)"
  by (cases im) (auto simp: list_all_iff)

lemma default_wf: "wf_value (default_for_type t)"
  by (cases t) (simp_all add: keys_ordered_def)

interpretation wf_closed: value_closed wf_value
proof unfold_locales
  fix v r
  show "wf_value v \<Longrightarrow> wrap_unwrap v = Good r \<Longrightarrow> wf_value r"
    by (auto simp: wrap_unwrap_def split: val_splits fasm_option.splits)
  show "wf_value v \<Longrightarrow> wrap_unwrap_ok v = Good r \<Longrightarrow> wf_value r"
    by (auto simp: wrap_unwrap_ok_def split: val_splits fasm_result.splits)
  show "wf_value v \<Longrightarrow> wf_value (await_future v)"
    by (auto simp: await_future_def split: val_splits option.splits)
qed (simp_all add: imm_wf default_wf,
    ((erule arith_binary_wf bitwise_values_wf cast_value_wf) |
     (rule grow_coll_wf read_coll_wf change_coll_wf pop_coll_wf, assumption+))+)

text \<open>The trivial property, for the properties of the machine that say nothing of values.\<close>

interpretation any_closed: value_closed "\<lambda>_. True"
  by unfold_locales simp_all

end
