(* ===== verification/Fasm_Safety.thy ===== *)
theory Fasm_Safety
  imports Fasm_Wellformed
begin

text \<open>
  Safety of the executor.  \<open>vm_ok\<close> is its invariant: a call stack of 1 to 512 frames, each of an
  existing function, with at most 256 slots, \<open>TMP\<close> frames of sixteen slots, and well-formed values
  in slots, snapshots and globals.  Every round of the loop keeps it, and with it no lookup the
  loop makes without a check can fail; what remains of the ways to panic is listed.
\<close>

subsection \<open>The invariant\<close>

definition slots_ok :: "slots \<Rightarrow> bool" where
  "slots_ok f \<longleftrightarrow> list_all (pred_option wf_value) f"

definition local_ok :: "slots \<Rightarrow> bool" where
  "local_ok f \<longleftrightarrow> length f \<le> 256 \<and> slots_ok f"

definition tmp_ok :: "slots \<Rightarrow> bool" where
  "tmp_ok t \<longleftrightarrow> length t = 16 \<and> slots_ok t"

definition guard_ok :: "try_guard \<Rightarrow> bool" where
  "guard_ok g \<longleftrightarrow> local_ok (tg_frame_snap g) \<and> slots_ok (tg_global_snap g)"

definition frame_ok :: "nat \<Rightarrow> call_frame \<Rightarrow> bool" where
  \<comment> \<open>in a program of \<open>n\<close> functions\<close>
  "frame_ok n cf \<longleftrightarrow> cf_func_idx cf < n \<and> local_ok (cf_frame cf) \<and> wf_value (cf_args cf)
     \<and> wf_value (cf_ret_val cf) \<and> pred_option guard_ok (cf_try_guard cf)
     \<and> list_all tmp_ok (cf_tmp_frames cf)"

definition vm_ok :: "program \<Rightarrow> vm \<Rightarrow> bool" where
  "vm_ok prog s \<longleftrightarrow> vm_call_stack s \<noteq> [] \<and> length (vm_call_stack s) \<le> MAX_CALL_DEPTH
     \<and> list_all (frame_ok (length (prog_functions prog))) (vm_call_stack s)
     \<and> slots_ok (vm_globals s)"

text \<open>
  What the executor relies on of the code it calls: a handler given well-formed values returns
  one and leaves the globals well-formed, and panics only if \<open>p\<close>; so does the JIT dispatcher.
\<close>

definition handler_ok :: "bool \<Rightarrow> syscall \<Rightarrow> bool" where
  "handler_ok p h \<longleftrightarrow> (\<forall>a g i. wf_value a \<longrightarrow> slots_ok g \<longrightarrow>
     (case h a (g, i) of ROk v t \<Rightarrow> wf_value v \<and> slots_ok (fst t) | RErr f t \<Rightarrow> slots_ok (fst t)
        | RPanic \<Rightarrow> p | RExit n t \<Rightarrow> slots_ok (fst t)))"

definition env_ok :: "bool \<Rightarrow> env \<Rightarrow> bool" where
  "env_ok p e \<longleftrightarrow> (\<forall>i h. env_syscalls e i = Some h \<longrightarrow> handler_ok p h)
     \<and> (\<forall>i a v. wf_value a \<longrightarrow> jit_dispatch e i a = Some v \<longrightarrow> wf_value v)"

lemma local_ok_set: "local_ok f \<Longrightarrow> wf_value v \<Longrightarrow> local_ok (frame_set i v f)"
  by (simp add: local_ok_def slots_ok_def length_frame_set)
    (simp add: frame_set_def list_all_slot_set)

lemma slots_ok_Nil [simp]: "slots_ok []"
  by (simp add: slots_ok_def)

lemma tmp_ok_put: "tmp_ok t \<Longrightarrow> pred_option wf_value v \<Longrightarrow> tmp_ok (tmp_put i v t)"
  by (auto simp: tmp_ok_def slots_ok_def tmp_put_def)

lemma frame_ok_map_tmp:
  "frame_ok n cf \<Longrightarrow> pred_option wf_value v \<Longrightarrow> frame_ok n (map_tmp (tmp_put i v) cf)"
  by (auto simp: frame_ok_def map_tmp_def tmp_ok_put split: list.split)

interpretation wf_machine: machine_inv wf_value "frame_ok n" slots_ok "handler_ok p" p True for n p
proof unfold_locales
  fix cf i v t ts
  show "frame_ok n cf \<Longrightarrow> frame_get i (cf_frame cf) = Some v \<Longrightarrow> wf_value v"
    by (auto simp: frame_ok_def local_ok_def slots_ok_def frame_get_def dest: pred_slot_get)
  show "frame_ok n cf \<Longrightarrow> cf_tmp_frames cf = t # ts \<Longrightarrow> tmp_get i t = Some v \<Longrightarrow> wf_value v"
    by (auto simp: frame_ok_def tmp_ok_def slots_ok_def tmp_get_def dest: pred_slot_get)
  show "frame_ok n cf \<Longrightarrow> frame_ok n (cf\<lparr>cf_frame := frame_remove i (cf_frame cf)\<rparr>)"
    by (auto simp: frame_ok_def local_ok_def slots_ok_def frame_remove_def list_all_slot_remove)
  show "frame_ok n cf \<Longrightarrow> frame_ok n (cf\<lparr>cf_tmp_frames := tmp_new # cf_tmp_frames cf\<rparr>)"
    by (auto simp: frame_ok_def tmp_ok_def slots_ok_def tmp_new_def list_all_iff)
  show "frame_ok n cf \<Longrightarrow> wf_value v \<Longrightarrow> frame_ok n (map_tmp (tmp_put i (Some v)) cf)"
    and "frame_ok n cf \<Longrightarrow> frame_ok n (map_tmp (tmp_put i None) cf)"
    by (simp_all add: frame_ok_map_tmp)
next
  fix g :: slots and j v
  show "slots_ok g \<Longrightarrow> global_get j g = Some v \<Longrightarrow> wf_value v"
    by (auto simp: slots_ok_def global_get_def dest: pred_slot_get)
  show "slots_ok g \<Longrightarrow> wf_value v \<Longrightarrow> slots_ok (global_set j v g)"
    by (simp add: slots_ok_def global_set_def list_all_slot_set)
  show "slots_ok g \<Longrightarrow> slots_ok (global_remove j g)"
    by (simp add: slots_ok_def global_remove_def list_all_slot_remove)
qed (auto simp: frame_ok_def local_ok_set guard_ok_def handler_ok_def)

subsection \<open>Rounds keep the invariant\<close>

definition below_ok :: "nat \<Rightarrow> call_frame list \<Rightarrow> bool" where
  "below_ok n rest \<longleftrightarrow> length rest < MAX_CALL_DEPTH \<and> list_all (frame_ok n) rest"

lemma vm_ok_machine:
  "vm_ok prog s \<longleftrightarrow>
     machine_pred (frame_ok (length (prog_functions prog)))
       (below_ok (length (prog_functions prog))) slots_ok s"
  by (auto simp: vm_ok_def machine_pred_def below_ok_def Suc_le_eq split: list.split)

lemma frame_ok_fields [simp]:
  "frame_ok n (cf\<lparr>cf_ip := i\<rparr>) = frame_ok n cf"
  "frame_ok n cf \<Longrightarrow> frame_ok n (cf\<lparr>cf_ret_val := v\<rparr>) = wf_value v"
  by (auto simp: frame_ok_def)

lemma frame_ok_new: "i < n \<Longrightarrow> wf_value a \<Longrightarrow> frame_ok n (call_frame_new i a)"
  by (simp add: frame_ok_def call_frame_new_def local_ok_def frame_new_def)

lemma frame_ok_tail: "frame_ok n cf \<Longrightarrow> i < n \<Longrightarrow> wf_value a \<Longrightarrow> frame_ok n (enter_tail i a cf)"
  by (simp add: frame_ok_def enter_tail_def local_ok_def frame_new_def)

lemma frame_ok_ret: "frame_ok n cf \<Longrightarrow> wf_value (cf_ret_val cf)"
  by (simp add: frame_ok_def)

text \<open>What one round may end in, from a state with the invariant.\<close>

definition step_ok :: "program \<Rightarrow> bool \<Rightarrow> step_result \<Rightarrow> bool" where
  "step_ok prog p r = (case r of
      SNext s' \<Rightarrow> vm_ok prog s'
    | SStop (Inr v) s' \<Rightarrow> wf_value v \<and> slots_ok (vm_globals s')
    | SStop (Inl err) s' \<Rightarrow> (\<forall>i. err \<noteq> EFuncOutOfRange i) \<and> slots_ok (vm_globals s')
    | SPanic \<Rightarrow> p
    | SExit n s' \<Rightarrow> slots_ok (vm_globals s'))"

lemma step_ok_simps [simp]:
  "step_ok prog p (SNext s') = vm_ok prog s'"
  "step_ok prog p (SStop (Inr v) s') \<longleftrightarrow> wf_value v \<and> slots_ok (vm_globals s')"
  "step_ok prog p SPanic = p"
  "step_ok prog p (SExit n s') = slots_ok (vm_globals s')"
  "step_ok prog p (SStop (Inl err) s') \<longleftrightarrow>
     (\<forall>i. err \<noteq> EFuncOutOfRange i) \<and> slots_ok (vm_globals s')"
  by (simp_all add: step_ok_def)

lemma vm_okE:
  assumes "vm_ok prog s"
  obtains cf rest where "vm_call_stack s = cf # rest" "frame_ok (length (prog_functions prog)) cf"
    "below_ok (length (prog_functions prog)) rest" "slots_ok (vm_globals s)"
  using assms unfolding vm_ok_machine by (rule machine_predE)

lemma vm_okI:
  "frame_ok (length (prog_functions prog)) cf \<Longrightarrow> below_ok (length (prog_functions prog)) rest \<Longrightarrow>
     slots_ok (vm_globals s) \<Longrightarrow> vm_ok prog (s\<lparr>vm_call_stack := cf # rest\<rparr>)"
  by (simp add: vm_ok_machine machine_pred_def)

lemma return_ok: "vm_ok prog s \<Longrightarrow> wf_value v \<Longrightarrow> step_ok prog p (return_to_caller v s)"
  by (elim vm_okE)
    (auto simp: return_to_caller_def set_top_ret_def Let_def below_ok_def intro!: vm_okI
      split: list.split)

lemma on_top_ok:
  assumes "vm_ok prog s"
    and "\<And>cf. frame_ok (length (prog_functions prog)) cf \<Longrightarrow> frame_ok (length (prog_functions prog)) (f cf)"
  shows "step_ok prog p (on_top f s)"
  using assms(1) by (elim vm_okE) (auto simp: on_top_def intro!: vm_okI assms(2))

lemma push_ok:
  assumes "vm_ok prog s" "i < length (prog_functions prog)" "wf_value a"
    and "length (vm_call_stack s) < MAX_CALL_DEPTH"
  shows "vm_ok prog (push_call i a s)"
  using assms by (simp add: vm_ok_def push_call_def frame_ok_new)

lemma perform_ok:
  assumes "env_ok p e" "vm_ok (env_program e) s"
    and "action_ok wf_value (length (prog_functions (env_program e))) act"
  shows "step_ok (env_program e) q (perform e act s)"
proof (cases act)
  case (ACallFunc i a)
  then have "jit_dispatch e i a = Some v \<Longrightarrow> wf_value v" for v
    using assms by (auto simp: env_ok_def)
  with ACallFunc assms show ?thesis
    by (auto simp: perform_def on_top_ok push_ok vm_okE split: option.split elim: vm_okE)
next
  case (ATailCall i a)
  then have "jit_dispatch e i a = Some v \<Longrightarrow> wf_value v" for v
    using assms by (auto simp: env_ok_def)
  with ATailCall assms show ?thesis
    by (auto simp: perform_def on_top_ok return_ok frame_ok_tail split: option.split)
qed (use assms in \<open>auto simp: perform_def on_top_ok return_ok elim: vm_okE\<close>)

lemma handle_fault_ok:
  assumes "vm_ok prog s"
  shows "step_ok prog q (handle_fault prog i ip f s)"
proof -
  obtain cf rest where s: "vm_call_stack s = cf # rest" "frame_ok (length (prog_functions prog)) cf"
    "below_ok (length (prog_functions prog)) rest" "slots_ok (vm_globals s)"
    using assms by (rule vm_okE)
  show ?thesis
  proof (cases "cf_try_guard cf")
    case (Some g)
    with s(2) have "guard_ok g"
      by (simp add: frame_ok_def)
    with s Some show ?thesis
      by (simp add: handle_fault_def vm_ok_machine machine_pred_def frame_ok_def guard_ok_def
          frame_restore_def global_restore_def)
  qed (use s in \<open>simp add: handle_fault_def\<close>)
qed

text \<open>The instruction the next round executes, if any.\<close>

definition current_instr :: "program \<Rightarrow> vm \<Rightarrow> instruction option" where
  "current_instr prog s = (case vm_call_stack s of
      [] \<Rightarrow> None
    | cf # _ \<Rightarrow> Option.bind (nth_opt (prog_functions prog) (cf_func_idx cf))
        (\<lambda>fd. nth_opt (fun_instrs fd) (cf_ip cf)))"

lemma run_step_ok:
  assumes "env_ok p e" "vm_ok (env_program e) s"
    and risk: "\<And>ins. current_instr (env_program e) s = Some ins \<Longrightarrow> may_panic (opcode ins) \<Longrightarrow> p"
  shows "step_ok (env_program e) p (run_step e s)"
proof -
  let ?n = "length (prog_functions (env_program e))"
  obtain cf rest where s: "vm_call_stack s = cf # rest" "frame_ok ?n cf" "below_ok ?n rest"
    "slots_ok (vm_globals s)"
    using assms(2) by (rule vm_okE)
  define fd where "fd = prog_functions (env_program e) ! cf_func_idx cf"
  have fd: "nth_opt (prog_functions (env_program e)) (cf_func_idx cf) = Some fd"
    using s(2) by (simp add: frame_ok_def fd_def)
  show ?thesis
  proof (cases "cf_ip cf < length (fun_instrs fd)")
    case False
    then show ?thesis
      using return_ok [OF assms(2) frame_ok_ret [OF s(2)]] by (simp add: run_step_def s(1) fd del: nth_opt_Some)
  next
    case True
    define ins where "ins = fun_instrs fd ! cf_ip cf"
    define s1 where "s1 = s\<lparr>vm_call_stack := cf\<lparr>cf_ip := cf_ip cf + 1\<rparr> # rest\<rparr>"
    have step: "run_step e s = (case execute_instruction e ins s1 of
        ROk act s' \<Rightarrow> perform e act s'
      | RErr f s' \<Rightarrow> handle_fault (env_program e) (cf_func_idx cf) (cf_ip cf) f s'
      | RPanic \<Rightarrow> SPanic | RExit n s' \<Rightarrow> SExit n s')"
      using True by (simp add: run_step_def s(1) fd ins_def s1_def del: nth_opt_Some)
    have "vm_ok (env_program e) s1"
      unfolding s1_def by (rule vm_okI) (use s in simp_all)
    then have I: "machine_pred (frame_ok ?n) (below_ok ?n) slots_ok s1"
      by (simp add: vm_ok_machine)
    have "current_instr (env_program e) s = Some ins"
      by (simp add: current_instr_def s(1) fd del: nth_opt_Some) (simp add: True ins_def)
    then have K: "keeps p (machine_pred (frame_ok ?n) (below_ok ?n) slots_ok)
        (execute_instruction e ins) (action_ok wf_value ?n)"
      using assms(1) risk by (intro wf_machine.execute_keeps) (auto simp: env_ok_def)
    show ?thesis
    proof (cases "execute_instruction e ins s1")
      case (ROk act s')
      with keeps_ROk [OF K I] have "vm_ok (env_program e) s'" "action_ok wf_value ?n act"
        by (simp_all add: vm_ok_machine)
      with ROk step assms(1) show ?thesis
        by (simp add: perform_ok)
    next
      case (RErr f s')
      with keeps_RErr [OF K I] have "vm_ok (env_program e) s'"
        by (simp add: vm_ok_machine)
      with RErr step show ?thesis
        by (simp add: handle_fault_ok)
    next
      case (RExit n s')
      with keeps_RExit [OF K I] step show ?thesis
        by (simp add: machine_pred_def)
    qed (use keeps_RPanic [OF K I] step in simp)
  qed
qed

end
