(* ===== verification/Fasm_Slots.thy ===== *)
theory Fasm_Slots
  imports Fasm_Safety
begin

text \<open>
  Slots and references as an instruction sees them: what a write changes, what is read after it,
  and what \<open>&slot\<close> stands for.
\<close>

subsection \<open>Direct slots\<close>

definition is_direct :: "slot_ref \<Rightarrow> bool" where
  "is_direct sl \<longleftrightarrow> (case sl of SlLocal _ \<Rightarrow> True | SlGlobal _ \<Rightarrow> True | SlTmp _ \<Rightarrow> True | _ \<Rightarrow> False)"

text \<open>What reading a slot gives, without the state (reading changes nothing).\<close>

definition slot_value :: "slot_ref \<Rightarrow> vm \<Rightarrow> (fault + fasm_value) option" where
  "slot_value sl s = (case read_slot sl s of
      ROk v _ \<Rightarrow> Some (Inr v) | RErr f _ \<Rightarrow> Some (Inl f) | RPanic \<Rightarrow> None | RExit _ _ \<Rightarrow> None)"

lemmas slot_eval = vm_bind_def top_def globals_def vm_ok_or_def vm_return_def vm_fail_def modify_top_def
  modify_globals_def set_local_def tmp_top_def map_tmp_def

lemma slot_value_ok_or:
  "(case (case x of None \<Rightarrow> vm_fail f | Some y \<Rightarrow> vm_return y) s of
      ROk v _ \<Rightarrow> Some (Inr v) | RErr f _ \<Rightarrow> Some (Inl f) | RPanic \<Rightarrow> None | RExit _ _ \<Rightarrow> None)
     = Some (case x of None \<Rightarrow> Inl f | Some y \<Rightarrow> Inr y)"
  by (simp add: vm_simps split: option.split)

lemma ucast_u16_inject [simp]: "(ucast (i :: u16) :: u32) = ucast j \<longleftrightarrow> i = j"
  by (auto simp: word_unat_eq_iff [where 'a = 32] unat_ucast_up word_unat_eq_iff [where 'a = 16])

text \<open>Slots are independent cells: after a write to a local, global or TMP slot the slot reads back
  the value written, and every other slot reads what it read before.\<close>

theorem write_then_read:
  assumes "is_direct sl" "write_slot sl v s = ROk () s'" "vm_ok prog s"
  shows "slot_value sl s' = Some (Inr v) \<and> (is_direct sl' \<and> sl' \<noteq> sl \<longrightarrow> slot_value sl' s' = slot_value sl' s)"
proof -
  obtain cf rest where s: "vm_call_stack s = cf # rest" "list_all tmp_ok (cf_tmp_frames cf)"
    using assms(3) by (elim vm_okE) (auto simp: frame_ok_def)
  have "slot_value sl s' = Some (Inr v)"
    using assms(1,2) s
    by (cases sl) (auto simp: is_direct_def slot_value_def slot_eval frame_store.get_set global_store.get_set
        tmp_get_put tmp_ok_def slot_value_ok_or split: list.splits if_splits)
  moreover have "slot_value sl' s' = slot_value sl' s" if "is_direct sl'" "sl' \<noteq> sl"
    using assms(1,2) s that
    by (cases sl; cases sl') (auto simp: is_direct_def slot_value_def slot_eval frame_store.get_set
        global_store.get_set tmp_get_put tmp_ok_def slot_value_ok_or split: list.splits if_splits)
  ultimately show ?thesis
    by blast
qed

definition slot_demo :: vm where
  \<comment> \<open>local 0 holds an immutable reference to local 1, local 1 the number 7, local 2 a mutable one\<close>
  "slot_demo = vm_new []\<lparr>vm_call_stack := [(call_frame_new 0 VNull)
     \<lparr>cf_frame := [Some (VRefImm False 1), Some (VInt32 7), Some (VRefMut False 1)]\<rparr>]\<rparr>"

lemma slot_demo_ok: "vm_ok (program_new\<lparr>prog_functions := [\<lparr>fun_name = [], fun_params = [], fun_instrs = []\<rparr>]\<rparr>) slot_demo"
  by (simp add: vm_ok_def slot_demo_def vm_new_def frame_ok_def local_ok_def slots_ok_def call_frame_new_def
      MAX_CALL_DEPTH_def global_new_def)

lemmas slot_demo_eval = slot_demo_def slot_value_def slot_eval vm_new_def call_frame_new_def frame_get_def
  slot_get_def nth_opt_def

lemma write_then_read_witness:
  "\<exists>s'. write_slot (SlLocal 1) (VBool True) slot_demo = ROk () s'
     \<and> slot_value (SlLocal 1) s' = Some (Inr (VBool True))
     \<and> slot_value (SlLocal 0) s' = Some (Inr (VRefImm False 1))"
proof -
  have old: "slot_value (SlLocal 0) slot_demo = Some (Inr (VRefImm False 1))"
    by (simp add: slot_demo_eval)
  moreover obtain s' where "write_slot (SlLocal 1) (VBool True) slot_demo = ROk () s'"
    by (simp add: slot_eval slot_demo_def)
  ultimately show ?thesis
    using write_then_read [OF _ _ slot_demo_ok, of "SlLocal 1" "VBool True" s' "SlLocal 0"]
    by (simp add: is_direct_def)
qed

subsection \<open>References\<close>

lemma ucast_u8_u32 [simp]: "ucast (ucast (i :: u8) :: u32) = i"
  by (rule bit_word_eqI) (simp add: bit_ucast_iff)



text \<open>Writing through an immutable reference is refused with WriteAccessViolation and nothing
  changes, for every kind of slot that can hold the reference.\<close>

theorem immutable_reference_refused:
  assumes "(sl, dsl) \<in> {(SlLocal i, SlDerefLocal i), (SlTmp i, SlDerefTmp i), (SlGlobal k, SlDerefGlobal k)}"
    and "slot_value sl s = Some (Inr (VRefImm is_global j))"
  shows "write_slot dsl v s = RErr FWriteAccessViolation s"
  using assms
  by (auto simp: slot_value_def slot_eval deref_write_def split: list.splits option.splits if_splits)

lemma immutable_reference_refused_witness:
  "write_slot (SlDerefLocal 0) VNull slot_demo = RErr FWriteAccessViolation slot_demo"
proof -
  have "slot_value (SlLocal 0) slot_demo = Some (Inr (VRefImm False 1))"
    by (simp add: slot_demo_eval)
  from immutable_reference_refused [OF _ this, of "SlDerefLocal 0" 0 0] show ?thesis
    by simp
qed

text \<open>ADDR makes every reference mutable: after ADDR into a slot that held an immutable reference,
  a write through that slot reaches the value.\<close>

theorem addr_forgets_immutability:
  assumes "vm_call_stack s = cf # rest" "i \<noteq> j"
  shows "\<exists>s1 s2. exec_move OpAddr (instr_new (OMove OpAddr) [OpdSlot (SlLocal i), OpdSlot (SlLocal j)]) s
      = ROk AContinue s1 \<and> write_slot (SlDerefLocal j) v s1 = ROk () s2 \<and> slot_value (SlLocal i) s2 = Some (Inr v)"
  using assms by (auto simp: slot_value_def slot_eval get_op_def then_continue_def instr_new_def slot_address_def
      write_operand_def deref_write_def slot_value_ok_or frame_store.get_set)

lemma addr_forgets_immutability_witness:
  "\<exists>s1 s2. write_slot (SlDerefLocal 0) VNull s1 = ROk () s2 \<and> slot_value (SlLocal 1) s2 = Some (Inr VNull)"
  using addr_forgets_immutability [of slot_demo _ "[]" 1 0 VNull] by (auto simp: slot_demo_def)

text \<open>A reference to a local is resolved in the frame that uses it: handed to a callee as an
  argument, it denotes the callee's slot of that index, which is empty in a new frame.\<close>

theorem local_reference_not_portable:
  assumes "vm_call_stack s = cf # rest" "frame_get (ucast j) (cf_frame cf) = Some v"
  shows "deref_value (VRefMut False j) s = ROk v s
    \<and> deref_value (VRefMut False j) (push_call i (VRefMut False j) s)
      = RErr FNullDeref (push_call i (VRefMut False j) s)"
  using assms by (simp add: deref_value_def slot_eval push_call_def call_frame_new_def frame_store.get_fresh)

lemma local_reference_not_portable_witness:
  "deref_value (VRefMut False 1) slot_demo = ROk (VInt32 7) slot_demo
   \<and> deref_value (VRefMut False 1) (push_call 0 (VRefMut False 1) slot_demo)
      = RErr FNullDeref (push_call 0 (VRefMut False 1) slot_demo)"
  by (rule local_reference_not_portable [of slot_demo "hd (vm_call_stack slot_demo)" "[]" 1 "VInt32 7" 0])
    (simp_all add: slot_demo_eval)

end
