(* ===== verification/Fasm_Isolation.thy ===== *)
theory Fasm_Isolation
  imports Fasm_Safety
begin

text \<open>
  Which parts of the machine an instruction and a round of the loop can reach.  The locale of
  \<open>Fasm_Logic\<close> is interpreted for the property that the top frame is still the same activation
  (same function, instruction pointer and arguments); the frames below it are any list.
\<close>

subsection \<open>Instructions reach only the top frame\<close>

definition same_activation :: "call_frame \<Rightarrow> call_frame \<Rightarrow> bool" where
  "same_activation cf cf' \<longleftrightarrow>
     cf_func_idx cf' = cf_func_idx cf \<and> cf_ip cf' = cf_ip cf \<and> cf_args cf' = cf_args cf"

lemma same_activation_refl [simp]: "same_activation cf cf"
  by (simp add: same_activation_def)

text \<open>What evaluates a round on concrete states.\<close>

lemmas round_eval =
  run_step_def execute_instruction_def perform_def handle_fault_def push_call_def call_frame_new_def
  on_top_def set_top_ret_def return_to_caller_def enter_tail_def jump_if_def call_target_def read_val_def
  write_val_def get_op_def read_operand_def write_operand_def label_target_def then_continue_def
  vm_bind_def vm_ok_or_def vm_return_def vm_fail_def top_def modify_top_def globals_def modify_globals_def
  set_local_def nth_opt_def frame_new_def global_new_def MAX_CALL_DEPTH_def jit_dispatch_def
  executor_new_def

interpretation activation: machine_inv "\<lambda>_. True" "same_activation cf" "\<lambda>_. True" "\<lambda>_. True" True True for cf
  by unfold_locales (auto simp: same_activation_def map_tmp_def split: list.split res.split)

lemma execute_isolated:
  assumes "vm_call_stack s = cf # rest" "execute_instruction e ins s = r"
  shows "case r of
      ROk act s' \<Rightarrow> \<exists>cf'. vm_call_stack s' = cf' # rest \<and> same_activation cf cf'
    | RErr f s' \<Rightarrow> \<exists>cf'. vm_call_stack s' = cf' # rest \<and> same_activation cf cf'
    | RPanic \<Rightarrow> True
    | RExit n s' \<Rightarrow> \<exists>cf'. vm_call_stack s' = cf' # rest \<and> same_activation cf cf'"
proof -
  let ?I = "machine_pred (same_activation cf) (\<lambda>r. r = rest) (\<lambda>_. True)"
  have K: "keeps True ?I (execute_instruction e ins) (action_ok (\<lambda>_. True) (length (prog_functions (env_program e))))"
    by (rule activation.execute_keeps) simp_all
  have I: "?I s"
    using assms(1) by (simp add: machine_pred_def)
  have "?I s' \<Longrightarrow> \<exists>cf'. vm_call_stack s' = cf' # rest \<and> same_activation cf cf'" for s'
    by (auto elim: machine_predE)
  then show ?thesis
    using assms(2) keeps_ROk [OF K I] keeps_RErr [OF K I] keeps_RExit [OF K I] by (cases r) auto
qed

text \<open>An instruction changes the top frame and the globals only: every frame below is left exactly
  as it was, and the top frame stays at the same function, the same position and the same
  arguments, whether the instruction succeeds or faults.\<close>

theorem instruction_touches_top_only:
  assumes "vm_call_stack s = cf # rest"
    and "execute_instruction e ins s = ROk act s' \<or> execute_instruction e ins s = RErr f s'"
  shows "tl (vm_call_stack s') = rest \<and> cf_func_idx (hd (vm_call_stack s')) = cf_func_idx cf
    \<and> cf_ip (hd (vm_call_stack s')) = cf_ip cf \<and> cf_args (hd (vm_call_stack s')) = cf_args cf"
  using assms(2) execute_isolated [OF assms(1) refl, of e ins] by (auto simp: same_activation_def)

subsection \<open>Only the TRY group touches the guard\<close>

interpretation guarded: machine_inv "\<lambda>_. True" "\<lambda>cf. cf_try_guard cf = g" "\<lambda>_. True" "\<lambda>_. True" True False for g
  by unfold_locales (auto simp: map_tmp_def split: list.split res.split)

definition is_try :: "instruction \<Rightarrow> bool" where
  "is_try ins \<longleftrightarrow> (case opcode ins of OTry _ \<Rightarrow> True | _ \<Rightarrow> False)"

lemma exec_try_fault: "exec_try m ins s = RErr f s' \<Longrightarrow> s' = s"
  by (cases m) (auto simp: vm_bind_def get_op_def vm_ok_or_def vm_lift_def vm_return_def vm_fail_def
      vm_panic_def globals_def then_continue_def modify_top_def top_def Let_def
      split: option.splits outcome.splits res.splits list.splits)

lemma execute_guard:
  assumes "vm_call_stack s = cf # rest"
    and "\<not> is_try ins \<and> execute_instruction e ins s = ROk act s' \<or> execute_instruction e ins s = RErr f s'"
  shows "\<exists>cf'. vm_call_stack s' = cf' # rest \<and> cf_try_guard cf' = cf_try_guard cf"
proof (cases "is_try ins")
  case True
  with assms show ?thesis
    by (auto simp: is_try_def execute_instruction_def dest: exec_try_fault split: opcode.splits)
next
  case False
  let ?I = "machine_pred (\<lambda>cf'. cf_try_guard cf' = cf_try_guard cf) (\<lambda>r. r = rest) (\<lambda>_. True)"
  have K: "keeps True ?I (execute_instruction e ins) (action_ok (\<lambda>_. True) (length (prog_functions (env_program e))))"
    by (rule guarded.execute_keeps) (use False in \<open>simp_all add: is_try_def\<close>)
  have I: "?I s"
    using assms(1) by (simp add: machine_pred_def)
  have "?I s'"
    using assms(2) keeps_ROk [OF K I] keeps_RErr [OF K I] by blast
  then show ?thesis
    by (auto elim: machine_predE)
qed

definition caller_demo :: program where
  \<comment> \<open>\<open>Main\<close> calls function 1, which returns its arguments\<close>
  "caller_demo = \<lparr>prog_version = 1, prog_global_inits = [],
     prog_functions =
       [\<lparr>fun_name = ascii ''Main'', fun_params = [],
         fun_instrs = [instr_new (OFlow OpCall) [OpdFuncRef 1, OpdImm (ImInt32 7)]]\<rparr>,
        \<lparr>fun_name = ascii ''Id'', fun_params = [],
         fun_instrs = [instr_new (OFlow OpRet) [OpdSlot (SlBuiltIn BiArgs)]]\<rparr>]\<rparr>"

lemma instruction_touches_top_only_witness:
  "tl (vm_call_stack (vm_new []\<lparr>vm_call_stack := [call_frame_new 1 (VBool True), call_frame_new 0 VNull]\<rparr>))
     = [call_frame_new 0 VNull]"
proof -
  let ?s = "vm_new []\<lparr>vm_call_stack := [call_frame_new 1 (VBool True), call_frame_new 0 VNull]\<rparr>"
  have "execute_instruction (executor_new caller_demo) (instr_new (OFlow OpNop) []) ?s = ROk AContinue ?s"
    by (simp add: round_eval instr_new_def)
  with instruction_touches_top_only [of ?s] show ?thesis
    by simp
qed

subsection \<open>Rounds reach only the top frame and its caller's return value\<close>

lemma length_set_top_ret [simp]: "length (set_top_ret v cfs) = length cfs"
  by (simp add: set_top_ret_def split: list.split)

lemma set_top_ret_Nil [simp]:
  "set_top_ret v cfs = [] \<longleftrightarrow> cfs = []" "[] = set_top_ret v cfs \<longleftrightarrow> cfs = []"
  by (simp_all add: set_top_ret_def split: list.split)

lemma return_to_caller_Next:
  "return_to_caller v s = SNext s' \<Longrightarrow> vm_call_stack s' = set_top_ret v (tl (vm_call_stack s))
    \<and> tl (vm_call_stack s) \<noteq> []"
  by (auto simp: return_to_caller_def Let_def split: if_splits)

text \<open>
  The state in which the current instruction executes; whether it faults; and whether the round
  leaves the top frame's guard alone, because the instruction neither faults nor is of the TRY group.
\<close>

definition advance :: "vm \<Rightarrow> vm" where
  "advance s = (case vm_call_stack s of
      [] \<Rightarrow> s | cf # rest \<Rightarrow> s\<lparr>vm_call_stack := cf\<lparr>cf_ip := cf_ip cf + 1\<rparr> # rest\<rparr>)"

definition quiet :: "env \<Rightarrow> vm \<Rightarrow> bool" where
  "quiet e s \<longleftrightarrow> (\<forall>ins. current_instr (env_program e) s = Some ins \<longrightarrow>
     \<not> is_try ins \<and> (\<forall>f s'. execute_instruction e ins (advance s) \<noteq> RErr f s'))"

lemma current_instrE:
  assumes "current_instr prog s = Some ins"
  obtains cf rest fd where "vm_call_stack s = cf # rest"
    "nth_opt (prog_functions prog) (cf_func_idx cf) = Some fd"
    "cf_ip cf < length (fun_instrs fd)" "ins = fun_instrs fd ! cf_ip cf"
proof (cases "vm_call_stack s")
  case (Cons cf rest)
  with assms show ?thesis
    using that [OF Cons] by (auto simp: current_instr_def bind_eq_Some_conv)
qed (use assms in \<open>simp add: current_instr_def\<close>)

lemma run_step_current:
  assumes "current_instr (env_program e) s = Some ins" "vm_call_stack s = cf # rest"
  shows "run_step e s = (case execute_instruction e ins (advance s) of
        ROk act s' \<Rightarrow> perform e act s'
      | RErr f s' \<Rightarrow> handle_fault (env_program e) (cf_func_idx cf) (cf_ip cf) f s'
      | RPanic \<Rightarrow> SPanic | RExit n s' \<Rightarrow> SExit n s')"
proof (rule current_instrE [OF assms(1)])
  fix cf' rest' fd
  assume "vm_call_stack s = cf' # rest'"
    and "nth_opt (prog_functions (env_program e)) (cf_func_idx cf') = Some fd"
    and "cf_ip cf' < length (fun_instrs fd)" "ins = fun_instrs fd ! cf_ip cf'"
  with assms(2) show ?thesis
    by (simp add: run_step_def advance_def del: nth_opt_Some)
qed

lemma run_step_return:
  assumes "current_instr (env_program e) s = None" "run_step e s = SNext s'"
  shows "\<exists>v. return_to_caller v s = SNext s'"
  using assms by (auto simp: run_step_def current_instr_def nth_opt_def split: list.splits option.splits if_splits)

text \<open>One round from a stack \<open>cf # rest\<close>: it changes the top frame, pushes a frame, or returns.\<close>

lemma run_step_stack:
  assumes "vm_call_stack s = cf # rest" "run_step e s = SNext s'"
  shows "(\<exists>cf'. vm_call_stack s' = cf' # rest \<and> (quiet e s \<longrightarrow> cf_try_guard cf' = cf_try_guard cf))
    \<or> (\<exists>new cf'. vm_call_stack s' = new # cf' # rest \<and> Suc (length rest) < MAX_CALL_DEPTH
        \<and> (quiet e s \<longrightarrow> cf_try_guard cf' = cf_try_guard cf))
    \<or> (\<exists>v. rest \<noteq> [] \<and> vm_call_stack s' = set_top_ret v rest)"
proof (cases "current_instr (env_program e) s")
  case None
  then show ?thesis
    using run_step_return [OF None assms(2)] return_to_caller_Next assms(1) by fastforce
next
  case (Some ins)
  let ?cf1 = "cf\<lparr>cf_ip := cf_ip cf + 1\<rparr>"
  have adv: "vm_call_stack (advance s) = ?cf1 # rest"
    by (simp add: advance_def assms(1))
  note step = run_step_current [OF Some assms(1)]
  show ?thesis
  proof (cases "execute_instruction e ins (advance s)")
    case (ROk act s2)
    obtain cf2 where s2: "vm_call_stack s2 = cf2 # rest"
      and guard: "quiet e s \<longrightarrow> cf_try_guard cf2 = cf_try_guard cf"
    proof (cases "is_try ins")
      case True
      then have "\<not> quiet e s"
        using Some by (auto simp: quiet_def)
      then show ?thesis
        using execute_isolated [OF adv ROk] that by auto
    next
      case False
      with execute_guard [OF adv, of ins e act s2] ROk that show ?thesis by auto
    qed
    have ret: "\<exists>v. rest \<noteq> [] \<and> vm_call_stack s' = set_top_ret v rest" if "return_to_caller v s2 = SNext s'" for v
      using return_to_caller_Next [OF that] s2 by auto
    from ROk step assms(2) have "perform e act s2 = SNext s'"
      by simp
    then show ?thesis
      using s2 guard ret
      by (cases act) (auto simp: perform_def on_top_def push_call_def enter_tail_def split: option.splits if_splits)
  next
    case (RErr f s2)
    then have "\<not> quiet e s"
      using Some by (auto simp: quiet_def)
    moreover obtain cf2 where "vm_call_stack s2 = cf2 # rest"
      using execute_isolated [OF adv RErr] by auto
    ultimately show ?thesis
      using step RErr assms(2) by (auto simp: handle_fault_def split: option.splits)
  qed (use step assms(2) in simp_all)
qed

text \<open>C36. The call stack never holds more than 512 frames, whatever the program, the system calls and
  the JIT do.\<close>

theorem call_depth_bounded:
  assumes "reaches e s s'" "vm_call_stack s \<noteq> []" "length (vm_call_stack s) \<le> MAX_CALL_DEPTH"
  shows "vm_call_stack s' \<noteq> [] \<and> length (vm_call_stack s') \<le> 512"
proof -
  have "vm_call_stack s' \<noteq> [] \<and> length (vm_call_stack s') \<le> MAX_CALL_DEPTH"
    using assms
  proof (induction rule: reaches.induct)
    case (reaches_step s s' s'')
    then obtain cf rest where "vm_call_stack s' = cf # rest"
      by (cases "vm_call_stack s'") auto
    from run_step_stack [OF this reaches_step.hyps(2)] this reaches_step show ?case
      by (auto simp: Suc_le_eq)
  qed simp_all
  then show ?thesis
    by (simp add: MAX_CALL_DEPTH_def)
qed

definition demo_caller :: vm where
  "demo_caller = push_call 0 (VStruct []) (vm_new [])"

lemma demo_call:
  "run_step (executor_new caller_demo) demo_caller
     = SNext (push_call 1 (VInt32 7)
         (vm_new []\<lparr>vm_call_stack := [(call_frame_new 0 (VStruct []))\<lparr>cf_ip := 1\<rparr>]\<rparr>))"
  by (simp add: round_eval demo_caller_def caller_demo_def instr_new_def vm_new_def)

lemma demo_return:
  "run_step (executor_new caller_demo) (push_call 1 (VInt32 7)
      (vm_new []\<lparr>vm_call_stack := [(call_frame_new 0 (VStruct []))\<lparr>cf_ip := 1\<rparr>]\<rparr>))
     = SNext (vm_new []\<lparr>vm_call_stack := [(call_frame_new 0 (VStruct []))\<lparr>cf_ip := 1, cf_ret_val := VInt32 7\<rparr>]\<rparr>)"
  by (simp add: round_eval caller_demo_def instr_new_def vm_new_def)

lemma call_depth_bounded_witness:
  "length (vm_call_stack (push_call 1 (VInt32 7)
      (vm_new []\<lparr>vm_call_stack := [(call_frame_new 0 (VStruct []))\<lparr>cf_ip := 1\<rparr>]\<rparr>))) \<le> 512"
  using call_depth_bounded [OF reaches_step [OF reaches_refl demo_call]]
  by (simp add: demo_caller_def push_call_def vm_new_def MAX_CALL_DEPTH_def)

subsection \<open>A call leaves its caller alone\<close>

text \<open>Rounds that start in states with more than \<open>k\<close> frames.\<close>

inductive deeper :: "env \<Rightarrow> nat \<Rightarrow> vm \<Rightarrow> vm \<Rightarrow> bool" for e k where
  deeper_refl: "deeper e k s s"
| deeper_step: "deeper e k s s' \<Longrightarrow> k < length (vm_call_stack s') \<Longrightarrow> run_step e s' = SNext s'' \<Longrightarrow> deeper e k s s''"

lemma deeper_base:
  assumes "deeper e (length base) s s'" "vm_call_stack s = up @ base" "up \<noteq> []" "base \<noteq> []"
  shows "(\<exists>up'. up' \<noteq> [] \<and> vm_call_stack s' = up' @ base) \<or> (\<exists>v. vm_call_stack s' = set_top_ret v base)"
  using assms
proof (induction rule: deeper.induct)
  case (deeper_step s s' s'')
  have "\<exists>up'. up' \<noteq> [] \<and> vm_call_stack s' = up' @ base"
  proof (rule ccontr)
    assume "\<not> ?thesis"
    with deeper_step obtain v where "vm_call_stack s' = set_top_ret v base"
      by auto
    with deeper_step.hyps(2) show False
      by simp
  qed
  then obtain cf ups where s': "vm_call_stack s' = cf # ups @ base"
    by (metis append_Cons neq_Nil_conv)
  from run_step_stack [OF this deeper_step.hyps(3)] show ?case
  proof (elim disjE exE conjE)
    fix v
    assume v: "vm_call_stack s'' = set_top_ret v (ups @ base)"
    show ?thesis
    proof (cases ups)
      case (Cons u us)
      with v have "vm_call_stack s'' = (u\<lparr>cf_ret_val := v\<rparr> # us) @ base"
        by (simp add: set_top_ret_def)
      then show ?thesis by blast
    qed (use v in auto)
  next
    fix cf'
    assume "vm_call_stack s'' = cf' # ups @ base"
    then have "vm_call_stack s'' = (cf' # ups) @ base"
      by simp
    then show ?thesis by blast
  next
    fix new cf'
    assume "vm_call_stack s'' = new # cf' # ups @ base"
    then have "vm_call_stack s'' = (new # cf' # ups) @ base"
      by simp
    then show ?thesis by blast
  qed
qed simp

text \<open>C28. A call leaves its caller alone: when the rounds that started with a pushed call come back to
  the caller's depth, the caller's frame has the call's value in \<open>$ret\<close> and is otherwise what it
  was (slots, arguments, position, TRY guard, TMP frames), and so are all the frames below it.\<close>

theorem call_returns_to_caller:
  assumes "vm_call_stack s = caller # rest"
    and "deeper e (length (vm_call_stack s)) (push_call i args s) s'"
    and "length (vm_call_stack s') = length (vm_call_stack s)"
  shows "\<exists>v. vm_call_stack s' = caller\<lparr>cf_ret_val := v\<rparr> # rest"
proof -
  have "vm_call_stack (push_call i args s) = [call_frame_new i args] @ vm_call_stack s"
    by (simp add: push_call_def)
  with deeper_base [OF assms(2)] assms(1,3) show ?thesis
    by (force simp: set_top_ret_def)
qed

lemma call_returns_to_caller_witness:
  "\<exists>v. [(call_frame_new 0 (VStruct []))\<lparr>cf_ip := 1, cf_ret_val := VInt32 7\<rparr>]
     = [(call_frame_new 0 (VStruct []))\<lparr>cf_ip := 1, cf_ret_val := v\<rparr>]"
proof -
  let ?s = "vm_new []\<lparr>vm_call_stack := [(call_frame_new 0 (VStruct []))\<lparr>cf_ip := 1\<rparr>]\<rparr>"
  let ?s' = "vm_new []\<lparr>vm_call_stack := [(call_frame_new 0 (VStruct []))\<lparr>cf_ip := 1, cf_ret_val := VInt32 7\<rparr>]\<rparr>"
  have "deeper (executor_new caller_demo) (length (vm_call_stack ?s)) (push_call 1 (VInt32 7) ?s) ?s'"
    by (rule deeper_step [OF deeper_refl _ demo_return]) (simp add: push_call_def)
  with call_returns_to_caller [of ?s "(call_frame_new 0 (VStruct []))\<lparr>cf_ip := 1\<rparr>" "[]"
      "executor_new caller_demo" 1 "VInt32 7" ?s']
  show ?thesis
    by simp
qed

end
