(* ===== verification/Fasm_Transactions.thy ===== *)
theory Fasm_Transactions
  imports Fasm_Isolation
begin

text \<open>
  TRY, the machine's transaction.  From the TRY on, the block's own instructions may run, calls
  may be made and return, callees may raise and handle faults of their own; when an instruction of
  the block itself faults, the globals and the frame are those of the TRY.  The theory also states
  what a TRY does not protect: a fault in a callee without a guard, a stack overflow, and a block
  left by a tail call.
\<close>

subsection \<open>Inside a TRY block\<close>

text \<open>
  Rounds made while the frame above \<open>base\<close> is in its block: it stays on the stack, and a round it
  makes itself neither faults nor executes a TRY, CATCH or ENDTRY.
\<close>

inductive block_rounds :: "env \<Rightarrow> call_frame list \<Rightarrow> vm \<Rightarrow> vm \<Rightarrow> bool" for e base where
  block_refl: "block_rounds e base s s"
| block_step: "block_rounds e base s s' \<Longrightarrow> run_step e s' = SNext s''
    \<Longrightarrow> length base < length (vm_call_stack s'')
    \<Longrightarrow> length (vm_call_stack s') = Suc (length base) \<longrightarrow> quiet e s'
    \<Longrightarrow> block_rounds e base s s''"

definition under_guard :: "try_guard \<Rightarrow> call_frame list \<Rightarrow> vm \<Rightarrow> bool" where
  "under_guard g base s \<longleftrightarrow>
     (\<exists>up cf. vm_call_stack s = up @ cf # base \<and> cf_try_guard cf = Some g)"

lemma under_guardI: "vm_call_stack s = up @ cf # base \<Longrightarrow> cf_try_guard cf = Some g \<Longrightarrow> under_guard g base s"
  by (auto simp: under_guard_def)

lemma under_guard_step:
  assumes "under_guard g base s" "run_step e s = SNext s'" "length base < length (vm_call_stack s')"
    and "length (vm_call_stack s) = Suc (length base) \<longrightarrow> quiet e s"
  shows "under_guard g base s'"
proof -
  obtain up cf where s: "vm_call_stack s = up @ cf # base" and g: "cf_try_guard cf = Some g"
    using assms(1) by (auto simp: under_guard_def)
  show ?thesis
  proof (cases up)
    case Nil
    with s assms(4) have "quiet e s"
      by simp
    moreover have "vm_call_stack s = cf # base"
      using Nil s by simp
    ultimately show ?thesis
      using run_step_stack [OF _ assms(2), of cf base] assms(3) g
      by (auto intro: under_guardI [of _ "[]"] under_guardI [of _ "[new]" for new])
  next
    case (Cons u us)
    then have "vm_call_stack s = u # us @ cf # base"
      using s by simp
    from run_step_stack [OF this assms(2)] show ?thesis
    proof (elim disjE exE conjE)
      fix v
      assume v: "vm_call_stack s' = set_top_ret v (us @ cf # base)"
      show ?thesis
      proof (cases us)
        case Nil
        with v g show ?thesis
          by (intro under_guardI [of s' "[]" "cf\<lparr>cf_ret_val := v\<rparr>"]) (simp_all add: set_top_ret_def)
      next
        case (Cons w ws)
        with v g show ?thesis
          by (intro under_guardI [of s' "w\<lparr>cf_ret_val := v\<rparr> # ws" cf]) (simp_all add: set_top_ret_def)
      qed
    next
      fix cf'
      assume "vm_call_stack s' = cf' # us @ cf # base"
      with g show ?thesis
        by (intro under_guardI [of s' "cf' # us" cf]) simp_all
    next
      fix new cf'
      assume "vm_call_stack s' = new # cf' # us @ cf # base"
      with g show ?thesis
        by (intro under_guardI [of s' "new # cf' # us" cf]) simp_all
    qed
  qed
qed

lemma under_guard_rounds: "block_rounds e base s s' \<Longrightarrow> under_guard g base s \<Longrightarrow> under_guard g base s'"
  by (induction rule: block_rounds.induct) (auto intro: under_guard_step)

lemma try_opens:
  assumes "vm_call_stack s = cf # base" "current_instr (env_program e) s = Some ins"
    and "ins = instr_new (OTry OpTry) [OpdLabelTarget c, OpdLabelTarget d]"
  shows "run_step e s = SNext (s\<lparr>vm_call_stack := cf\<lparr>cf_ip := cf_ip cf + 1, cf_try_guard := Some
      \<lparr>tg_catch_ip = unat c, tg_end_ip = unat d, tg_frame_snap = cf_frame cf,
       tg_global_snap = vm_globals s\<rparr>\<rparr> # base\<rparr>)"
  using run_step_current [OF assms(2,1)] assms(1,3)
  by (simp add: execute_instruction_def advance_def get_op_def label_target_def globals_def
      modify_top_def then_continue_def vm_bind_def vm_simps perform_def instr_new_def
      frame_snapshot_def global_snapshot_def)

text \<open>C3. TRY is a transaction: when, after any rounds inside the block (its own instructions, calls,
  returns, tail calls, handled faults of callees), an instruction of the block faults, the next
  round continues at the CATCH label with the globals and the slots as they were at the TRY, the
  fault's code in \<open>$ret\<close>, the guard closed and the frames below untouched.\<close>

theorem try_block_rolls_back:
  assumes "vm_call_stack s0 = cf0 # base" "current_instr (env_program e) s0 = Some ins"
    and "ins = instr_new (OTry OpTry) [OpdLabelTarget c, OpdLabelTarget d]" "run_step e s0 = SNext s1"
    and "block_rounds e base s1 s" "length (vm_call_stack s) = Suc (length base)"
    and "current_instr (env_program e) s = Some bad" "execute_instruction e bad (advance s) = RErr f s2"
  shows "\<exists>s' cf'. run_step e s = SNext s' \<and> vm_call_stack s' = cf' # base
    \<and> vm_globals s' = vm_globals s0 \<and> cf_frame cf' = cf_frame cf0 \<and> cf_ip cf' = unat c
    \<and> cf_ret_val cf' = VUint32 (fault_code f) \<and> cf_try_guard cf' = None"
proof -
  define g where "g = \<lparr>tg_catch_ip = unat c, tg_end_ip = unat d, tg_frame_snap = cf_frame cf0,
    tg_global_snap = vm_globals s0\<rparr>"
  have "under_guard g base s1"
    using try_opens [OF assms(1-3)] assms(4) by (auto simp: g_def intro: under_guardI [of _ "[]"])
  then have "under_guard g base s"
    by (rule under_guard_rounds [OF assms(5)])
  then obtain cf where cf: "vm_call_stack s = cf # base" "cf_try_guard cf = Some g"
    using assms(6) by (auto simp: under_guard_def)
  have "vm_call_stack (advance s) = cf\<lparr>cf_ip := cf_ip cf + 1\<rparr> # base"
    by (simp add: advance_def cf)
  from execute_guard [OF this] assms(8) obtain cf2
    where "vm_call_stack s2 = cf2 # base" "cf_try_guard cf2 = Some g"
    by (fastforce simp: cf)
  then show ?thesis
    using run_step_current [OF assms(7) cf(1)] assms(8)
    by (simp add: handle_fault_def g_def frame_restore_def global_restore_def)
qed

definition try_demo :: env where
  \<comment> \<open>\<open>Main\<close>: TRY, store 5 in global 0, an unmatched END_TMP, which faults, CATCH, ENDTRY\<close>
  "try_demo = executor_new \<lparr>prog_version = 1, prog_global_inits = [],
     prog_functions =
       [\<lparr>fun_name = ascii ''Main'', fun_params = [],
         fun_instrs =
           [instr_new (OTry OpTry) [OpdLabelTarget 3, OpdLabelTarget 4],
            instr_new (OMove OpStore) [OpdImm (ImInt32 5), OpdSlot (SlGlobal 0)],
            instr_new (OMem OpEndTmp) [],
            instr_new (OTry OpCatch) [],
            instr_new (OTry OpEndTry) []]\<rparr>,
        \<lparr>fun_name = ascii ''Bad'', fun_params = [], fun_instrs = [instr_new (OMem OpEndTmp) []]\<rparr>,
        \<lparr>fun_name = ascii ''Deep'', fun_params = [],
         fun_instrs = [instr_new (OFlow OpCall) [OpdFuncRef 2, OpdImm ImNull]]\<rparr>]\<rparr>"

definition try_demo_start :: vm where
  "try_demo_start = push_call 0 VNull (vm_new [])"

definition try_demo_frame :: "nat \<Rightarrow> call_frame" where
  "try_demo_frame i = (call_frame_new 0 VNull)\<lparr>cf_ip := i, cf_try_guard := Some
     \<lparr>tg_catch_ip = 3, tg_end_ip = 4, tg_frame_snap = [], tg_global_snap = []\<rparr>\<rparr>"

definition try_demo_open :: vm where
  "try_demo_open = vm_new []\<lparr>vm_call_stack := [try_demo_frame 1]\<rparr>"

definition try_demo_dirty :: vm where
  "try_demo_dirty = vm_new []\<lparr>vm_call_stack := [try_demo_frame 2], vm_globals := [Some (VInt32 5)]\<rparr>"

lemmas try_demo_defs =
  try_demo_def try_demo_start_def try_demo_frame_def try_demo_open_def try_demo_dirty_def instr_new_def vm_new_def
  current_instr_def advance_def exec_move.simps imm_operand_def global_set_def slot_set_def resize_to_def
  frame_snapshot_def global_snapshot_def

lemma try_demo_run:
  "run_step try_demo try_demo_start = SNext try_demo_open"
  "run_step try_demo try_demo_open = SNext try_demo_dirty"
  "quiet try_demo try_demo_open"
  "current_instr (env_program try_demo) try_demo_start
     = Some (instr_new (OTry OpTry) [OpdLabelTarget 3, OpdLabelTarget 4])"
  "current_instr (env_program try_demo) try_demo_dirty = Some (instr_new (OMem OpEndTmp) [])"
  "execute_instruction try_demo (instr_new (OMem OpEndTmp) []) (advance try_demo_dirty)
     = RErr FIndexOutOfBounds (advance try_demo_dirty)"
  by (simp_all add: round_eval try_demo_defs quiet_def is_try_def)

lemma try_block_rolls_back_witness:
  "\<exists>s' cf'. run_step try_demo try_demo_dirty = SNext s' \<and> vm_call_stack s' = [cf']
    \<and> vm_globals s' = [] \<and> cf_ip cf' = 3 \<and> cf_ret_val cf' = VUint32 2"
proof -
  have "block_rounds try_demo [] try_demo_open try_demo_dirty"
    by (rule block_step [OF block_refl]) (simp_all add: try_demo_run, simp add: try_demo_dirty_def)
  from try_block_rolls_back [OF _ try_demo_run(4) refl try_demo_run(1) this _ try_demo_run(5,6),
      of "call_frame_new 0 VNull"]
  show ?thesis
    by (auto simp: try_demo_start_def try_demo_dirty_def push_call_def vm_new_def global_new_def)
qed

subsection \<open>What TRY does not protect\<close>

text \<open>A fault in a frame without a guard of its own ends the run, and its mutations stay, whatever
  guards its callers have.\<close>

theorem unguarded_fault_ends_run:
  assumes "vm_call_stack s = cf # rest" "cf_try_guard cf = None"
    and "current_instr (env_program e) s = Some ins" "execute_instruction e ins (advance s) = RErr f s'"
  shows "run_step e s = SStop (Inl (EUnhandled (function_name (env_program e) (cf_func_idx cf)) (cf_ip cf) f)) s'"
proof -
  have "vm_call_stack (advance s) = cf\<lparr>cf_ip := cf_ip cf + 1\<rparr> # rest"
    by (simp add: advance_def assms(1))
  from execute_guard [OF this] assms(2,4) obtain cf2
    where "vm_call_stack s' = cf2 # rest" "cf_try_guard cf2 = None"
    by fastforce
  then show ?thesis
    using run_step_current [OF assms(3,1)] assms(4) by (simp add: handle_fault_def)
qed

lemma unguarded_fault_ends_run_witness:
  "\<exists>s'. run_step try_demo (push_call 1 VNull try_demo_open)
     = SStop (Inl (EUnhandled (ascii ''Bad'') 0 FIndexOutOfBounds)) s'"
proof -
  let ?s = "push_call 1 VNull try_demo_open"
  have "current_instr (env_program try_demo) ?s = Some (instr_new (OMem OpEndTmp) [])"
    "execute_instruction try_demo (instr_new (OMem OpEndTmp) []) (advance ?s) = RErr FIndexOutOfBounds (advance ?s)"
    by (simp_all add: round_eval try_demo_defs)
  from unguarded_fault_ends_run [OF _ _ this, of "call_frame_new 1 VNull" "vm_call_stack try_demo_open"] show ?thesis
    by (simp add: push_call_def call_frame_new_def function_name_def try_demo_def executor_new_def)
qed

text \<open>A call at depth 512 that the JIT does not take stops the run with the stack-overflow message
  instead of a fault: no TRY block catches it.\<close>

theorem stack_overflow_not_caught:
  assumes "vm_call_stack s = cf # rest" "512 \<le> length (vm_call_stack s)"
    and "current_instr (env_program e) s = Some ins" "opcode ins = OFlow OpCall"
    and "execute_instruction e ins (advance s) = ROk (ACallFunc i args) s'" "jit_dispatch e i args = None"
  shows "run_step e s = SStop (Inl EStackOverflow) s'"
proof -
  have "vm_call_stack (advance s) = cf\<lparr>cf_ip := cf_ip cf + 1\<rparr> # rest"
    by (simp add: advance_def assms(1))
  from execute_isolated [OF this assms(5)] have "length (vm_call_stack s') = length (vm_call_stack s)"
    by (auto simp: assms(1))
  then show ?thesis
    using run_step_current [OF assms(3,1)] assms(2,5,6) by (simp add: perform_def MAX_CALL_DEPTH_def)
qed

lemma stack_overflow_not_caught_witness:
  "\<exists>s'. run_step try_demo (vm_new []\<lparr>vm_call_stack := call_frame_new 2 VNull # replicate 511 (try_demo_frame 1)\<rparr>)
     = SStop (Inl EStackOverflow) s'"
proof -
  let ?call = "instr_new (OFlow OpCall) [OpdFuncRef 2, OpdImm ImNull]"
  let ?s = "vm_new []\<lparr>vm_call_stack := call_frame_new 2 VNull # replicate 511 (try_demo_frame 1)\<rparr>"
  have "current_instr (env_program try_demo) ?s = Some ?call"
    "execute_instruction try_demo ?call (advance ?s) = ROk (ACallFunc 2 VNull) (advance ?s)"
    "jit_dispatch try_demo 2 VNull = None"
    by (simp_all add: round_eval try_demo_defs)
  from stack_overflow_not_caught [OF _ _ this(1) _ this(2,3)] show ?thesis
    by (simp add: instr_new_def)
qed

text \<open>A tail call keeps the guard of the block it leaves: a later fault resumes the callee's code
  at the caller's CATCH position, over the caller's slots.\<close>

theorem tail_call_keeps_guard:
  assumes "vm_call_stack s = cf # rest" "cf_try_guard cf = Some g" "jit_dispatch e i args = None"
    and "perform e (ATailCall i args) s = SNext s1"
  shows "\<exists>s2 cf2. handle_fault (env_program e) i ip f s1 = SNext s2 \<and> vm_call_stack s2 = cf2 # rest
    \<and> cf_func_idx cf2 = i \<and> cf_args cf2 = args \<and> cf_ip cf2 = tg_catch_ip g \<and> cf_frame cf2 = tg_frame_snap g"
proof -
  have s1: "s1 = s\<lparr>vm_call_stack := enter_tail i args cf # rest\<rparr>"
    using assms by (simp add: perform_def on_top_def)
  show ?thesis
    using assms(2) unfolding s1 by (simp add: handle_fault_def enter_tail_def frame_restore_def)
qed

lemma tail_call_keeps_guard_witness:
  "\<exists>s1 s2 cf2. perform try_demo (ATailCall 1 (VBool True)) try_demo_dirty = SNext s1
    \<and> handle_fault (env_program try_demo) 1 0 FNullDeref s1 = SNext s2
    \<and> vm_call_stack s2 = [cf2] \<and> cf_func_idx cf2 = 1 \<and> cf_ip cf2 = 3"
proof -
  let ?s1 = "try_demo_dirty\<lparr>vm_call_stack := [enter_tail 1 (VBool True) (try_demo_frame 2)]\<rparr>"
  have jit: "jit_dispatch try_demo 1 (VBool True) = None"
    by (simp add: round_eval try_demo_def)
  moreover have step: "perform try_demo (ATailCall 1 (VBool True)) try_demo_dirty = SNext ?s1"
    using jit by (simp add: perform_def on_top_def try_demo_dirty_def)
  ultimately show ?thesis
    using tail_call_keeps_guard [OF _ _ jit step, of "try_demo_frame 2" "[]" _ 0 FNullDeref]
    by (auto simp: try_demo_dirty_def try_demo_frame_def)
qed

end
