(* ===== verification/Fasm_Behaviour.thy ===== *)
theory Fasm_Behaviour
  imports Fasm_Isolation
begin

text \<open>
  Whole runs and the slots: the invariant along a run and what a safe program can end in, the
  loop against its bounded version, termination of code that only jumps forward, reads after
  writes, references, and PARSE_INT against the decimal display of integers.
\<close>

subsection \<open>Safety of runs\<close>

lemma env_ok_mono: "env_ok p e \<Longrightarrow> (p \<Longrightarrow> q) \<Longrightarrow> env_ok q e"
  unfolding env_ok_def handler_ok_def by (fastforce split: res.splits)

lemma reaches_ok:
  assumes "env_ok p e" "vm_ok (env_program e) s" "reaches e s s'"
  shows "vm_ok (env_program e) s'"
  using assms(3,2)
proof (induction rule: reaches.induct)
  case (reaches_step s s' s'')
  have "step_ok (env_program e) True (run_step e s')"
    using reaches_step env_ok_mono [OF assms(1)] by (intro run_step_ok) auto
  with reaches_step.hyps(2) show ?case
    by simp
qed

text \<open>C2. Every state a run reaches satisfies the machine invariant: 1 to 512 frames of existing
  functions, at most 256 slots each, and well-formed values everywhere, snapshots included.\<close>

theorem machine_invariant:
  assumes "env_ok p e" "vm_ok (env_program e) s" "reaches e s s'"
  shows "vm_ok (env_program e) s'"
  by (rule reaches_ok [OF assms])

lemma parse_int_ok: "wf_value (parse_int a)"
proof -
  have "wf_value (parse_bytes raw)" for raw
    by (simp add: parse_bytes_def Let_def split: prod.split option.split)
  then show ?thesis
    by (simp add: parse_int_def Let_def split: val_split option.split)
qed

lemma builtins_ok: "builtin_syscalls i = Some h \<Longrightarrow> handler_ok False h"
proof -
  have "handler_ok False sys_print" "handler_ok False sys_print_vec" "handler_ok False sys_exit"
    "handler_ok False sys_parse_int" "handler_ok False sys_read"
    by (simp_all add: handler_ok_def sys_print_def sys_print_vec_def sys_exit_def sys_parse_int_def
        parse_int_ok sys_read_def list_all_iff Let_def split: prod.split)
  then show "builtin_syscalls i = Some h \<Longrightarrow> handler_ok False h"
    by (auto simp: builtin_syscalls_def split: if_splits)
qed

lemma executor_new_ok: "env_ok False (executor_new prog)"
  by (auto simp: env_ok_def executor_new_def jit_dispatch_def intro: builtins_ok)

lemma machine_invariant_witness:
  "vm_ok caller_demo (push_call 1 (VInt32 7)
     (vm_new []\<lparr>vm_call_stack := [(call_frame_new 0 (VStruct []))\<lparr>cf_ip := 1\<rparr>]\<rparr>))"
proof -
  have "vm_ok caller_demo demo_caller"
    by (simp add: vm_ok_def demo_caller_def push_call_def vm_new_def global_new_def MAX_CALL_DEPTH_def
        frame_ok_new keys_distinct_def caller_demo_def)
  then show ?thesis
    using machine_invariant [OF executor_new_ok _ reaches_step [OF reaches_refl demo_call]]
    by (simp add: executor_new_def)
qed

lemma init_globals_ok: "slots_ok g \<Longrightarrow> slots_ok (init_globals prog g)"
proof -
  have "slots_ok g \<Longrightarrow> slots_ok (fold init_global inss g)" for inss
  proof (induction inss arbitrary: g)
    case (Cons ins inss)
    have "slots_ok (init_global ins g)"
      using Cons.prems wf_closed.imm_for_type
      by (auto simp: init_global_def slots_ok_def global_set_def intro!: list_all_slot_set
          split: list.split operand.split)
    then show ?case
      using Cons.IH by simp
  qed simp
  then show "slots_ok g \<Longrightarrow> ?thesis"
    by (simp add: init_globals_def)
qed

text \<open>A program without the six instructions that can panic the host.\<close>

definition prog_calm :: "program \<Rightarrow> bool" where
  "prog_calm prog \<longleftrightarrow>
     list_all (\<lambda>fd. list_all (\<lambda>ins. \<not> may_panic (opcode ins)) (fun_instrs fd)) (prog_functions prog)"

lemma prog_calmD: "prog_calm prog \<Longrightarrow> current_instr prog s = Some ins \<Longrightarrow> \<not> may_panic (opcode ins)"
proof (elim current_instrE)
  fix cf :: call_frame and rest fd
  assume "prog_calm prog" "nth_opt (prog_functions prog) (cf_func_idx cf) = Some fd"
    and ins: "cf_ip cf < length (fun_instrs fd)" "ins = fun_instrs fd ! cf_ip cf"
  then have "list_all (\<lambda>ins. \<not> may_panic (opcode ins)) (fun_instrs fd)"
    by (auto simp: prog_calm_def list_all_length)
  with ins show ?thesis
    by (simp add: list_all_length)
qed

text \<open>The run of such a program on an executor whose call stack is empty, with whatever well-formed
  globals an earlier run left.\<close>

lemma run_named_step_ok:
  assumes "env_ok False e" "prog_calm (env_program e)" "wf_value args"
    and "vm_call_stack t = []" "slots_ok (vm_globals t)" "run_named e func args t = Some r"
  shows "step_ok (env_program e) False r \<and> (\<forall>s. r \<noteq> SNext s)"
proof (cases "get_function_index (env_program e) func")
  case None
  then show ?thesis
    using assms(5,6) init_globals_ok [OF assms(5)] by (auto simp: run_named_def)
next
  case (Some i)
  define s where "s = push_call i args (t\<lparr>vm_globals := init_globals (env_program e) (vm_globals t)\<rparr>)"
  have "run_loop e s = Some r"
    using assms(6) Some by (simp add: run_named_def s_def)
  then obtain n where "run_rounds e n s = Some r"
    using run_loop_rounds by blast
  then obtain s' where s': "reaches e s s'" "run_step e s' = r" "\<forall>s. r \<noteq> SNext s"
    using run_rounds_ends [of e n s r] by auto
  have "vm_ok (env_program e) s"
    using assms(3,4) init_globals_ok [OF assms(5)] get_function_index_in_range [OF Some]
    by (simp add: s_def vm_ok_def push_call_def MAX_CALL_DEPTH_def frame_ok_new)
  then have "vm_ok (env_program e) s'"
    using reaches_ok [OF assms(1) _ s'(1)] by simp
  then have "step_ok (env_program e) False r"
    using run_step_ok [OF assms(1), of s'] prog_calmD [OF assms(2)] s'(2) by auto
  with s'(3) show ?thesis
    by simp
qed

lemma run_named_ok:
  assumes "prog_calm prog" "wf_value args"
    and "run_named (executor_new prog) func args (vm_new stdin) = Some r"
  shows "r \<noteq> SPanic \<and> (\<forall>i s. r \<noteq> SStop (Inl (EFuncOutOfRange i)) s) \<and> (\<forall>v s. r = SStop (Inr v) s \<longrightarrow> wf_value v)"
  using run_named_step_ok [OF executor_new_ok _ assms(2) _ _ assms(3)] assms(1)
  by (auto simp: executor_new_def vm_new_def global_new_def)

text \<open>C1. A program without DIV, MOD, BIT_SET, BIT_FLIP, BITVEC_WRITE and BITVEC_PUSH, run on a fresh
  executor with any well-formed arguments and input, never panics the host and never looks a
  function up out of range; the value it returns is well-formed.\<close>

theorem run_named_safe:
  assumes "prog_calm prog" "wf_value args"
    and "run_named (executor_new prog) func args (vm_new stdin) = Some r"
  shows "r \<noteq> SPanic \<and> (\<forall>i s. r \<noteq> SStop (Inl (EFuncOutOfRange i)) s) \<and> (\<forall>v s. r = SStop (Inr v) s \<longrightarrow> wf_value v)"
  by (rule run_named_ok [OF assms])

lemma run_named_safe_witness:
  "run_named (executor_new caller_demo) (ascii ''Id'') (VBool True) (vm_new []) \<noteq> Some SPanic"
proof -
  have "prog_calm caller_demo"
    by (simp add: prog_calm_def caller_demo_def instr_new_def may_panic_def)
  from run_named_safe [OF this, of "VBool True" "ascii ''Id''" "[]"] show ?thesis
    by auto
qed

subsection \<open>The loop and its bounded version\<close>

text \<open>The loop returns exactly when some number of rounds is enough, and then with the same
  outcome: the bound of \<open>run_rounds\<close> is never the reason of a result.\<close>

theorem run_loop_is_bounded_run: "run_loop e s = Some r \<longleftrightarrow> (\<exists>n. run_rounds e n s = Some r)"
  using run_loop_rounds run_rounds_loop by blast

subsection \<open>PARSE_INT\<close>

lemma digit_value_digit: "d < 10 \<Longrightarrow> digit_value (of_nat (48 + d)) = of_nat d"
  by (simp add: digit_value_def word_unat_eq_iff unat_ucast_up) (simp add: unat_of_nat)

lemma parse_digits_append:
  "list_all is_ascii_digit xs \<Longrightarrow> parse_digits (xs @ ys) a
     = parse_digits ys (the (parse_digits xs a))"
  by (induction xs arbitrary: a) auto

lemma parse_digits_nat: "parse_digits (nat_digits n) 0 = Some (of_nat n)"
proof (induction n rule: nat_digits.induct)
  case (1 n)
  show ?case
  proof (cases "n < 10")
    case True
    then show ?thesis
      using digit_byte [OF True] digit_value_digit [OF True] by (subst nat_digits.simps) (simp del: of_nat_add)
  next
    case False
    let ?d = "n mod 10"
    have d: "?d < 10"
      by simp
    have "of_nat (n div 10) * 10 + of_nat ?d = (of_nat n :: i64)"
      by (metis div_mult_mod_eq of_nat_add of_nat_mult of_nat_numeral)
    then show ?thesis
      using False 1 digit_byte [OF d] digit_value_digit [OF d] nat_digits_ascii [of "n div 10"]
      by (subst nat_digits.simps) (simp add: parse_digits_append del: of_nat_add)
  qed
qed

lemma digit_visible: "is_ascii_digit b \<Longrightarrow> 0x20 < b \<and> b < 0x80 \<and> b \<noteq> 45"
  unfolding is_ascii_digit_def by (auto simp: word_le_nat_alt word_less_nat_alt)

lemma show_int_visible:
  "show_int k \<noteq> []" "list_all (\<lambda>b. 0x20 < b \<and> b < 0x80) (show_int k)"
  using nat_digits_ascii nat_digits_nonempty digit_visible
  by (auto simp: show_int_def list_all_iff)

lemma trimmed_show_int: "trim (utf8_lossy (show_int k)) = show_int k"
proof -
  note vis = show_int_visible [of k]
  have "list_all (\<lambda>b. b < 0x80) (show_int k)"
    using vis(2) unfolding list_all_iff by blast
  then have "utf8_lossy (show_int k) = show_int k"
    by (rule utf8_lossy_valid [OF utf8_valid_ascii])
  moreover have "trim (show_int k) = show_int k"
    using list_all_hd [OF vis(2,1)] list_all_last [OF vis(2,1)] vis(1) by (intro trim_visible) blast+
  ultimately show ?thesis
    by simp
qed

lemma parse_bytes_show_int: "parse_bytes (show_int k) = VResult (ResOk (VInt32 (word_of_int k)))"
proof -
  have conv: "(ucast (word_of_int i :: i64) :: i32) = word_of_int i" for i
    by (rule bit_word_eqI) (simp add: bit_ucast_iff bit_word_of_int_iff)
  show ?thesis
  proof (cases "k < 0")
    case True
    have "(of_nat (nat (- k)) :: i64) * - 1 = word_of_int k"
      using True by (simp add: of_nat_nat)
    then show ?thesis
      using True by (simp add: parse_bytes_def trimmed_show_int conv Let_def)
        (simp add: show_int_def nat_digits_nonempty parse_digits_nat conv)
  next
    case False
    obtain d ds where ds: "nat_digits (nat k) = d # ds" "is_ascii_digit d"
      using nat_digits_nonempty [of "nat k"] nat_digits_ascii [of "nat k"] by (cases "nat_digits (nat k)") auto
    have parsed: "parse_digits (d # ds) 0 = Some (word_of_int k)"
      using parse_digits_nat [of "nat k"] False ds(1) by (simp add: of_nat_nat del: parse_digits.simps)
    have "show_int k = d # ds" "d \<noteq> 45"
      using False ds digit_visible by (auto simp: show_int_def)
    then show ?thesis
      using trimmed_show_int [of k] by (simp add: parse_bytes_def Let_def parsed conv del: parse_digits.simps)
  qed
qed

text \<open>PARSE_INT reads back what PRINT writes for every INT32; on the decimal digits of any other
  integer it does not fail but gives the number wrapped to 32 bits.\<close>

theorem parse_int_reads_display:
  "parse_int (VStruct [(0, VVec (map VUint8 (show_int k)))]) = VResult (ResOk (VInt32 (word_of_int k)))
   \<and> parse_int (VStruct [(0, VVec (map VUint8 (display (VInt32 n))))]) = VResult (ResOk (VInt32 n))"
proof -
  have "collect (map as_uint8 (map VUint8 bs)) = Some bs" for bs
    by (induction bs) (auto simp: as_uint8_def)
  then show ?thesis
    by (simp add: parse_int_def struct_get_def parse_bytes_show_int Let_def)
qed


end
