(* ===== verification/Fasm_Progress.thy ===== *)
theory Fasm_Progress
  imports Fasm_Isolation
begin

text \<open>
  Termination.  A run may last forever, but not in code that only jumps forward: every round moves
  the instruction pointer on, so as many rounds as instructions are left, and one to return, are
  enough.
\<close>

subsection \<open>The actions an instruction can ask for\<close>

definition yields :: "'a vm_m \<Rightarrow> ('a \<Rightarrow> bool) \<Rightarrow> bool" where
  "yields m Q \<longleftrightarrow> (\<forall>s x s'. m s = ROk x s' \<longrightarrow> Q x)"

lemma yieldsD: "yields m Q \<Longrightarrow> m s = ROk x s' \<Longrightarrow> Q x"
  by (auto simp: yields_def)

lemma yields_bind: "(\<And>x. yields (k x) Q) \<Longrightarrow> yields (vm_bind m k) Q"
  by (auto simp: yields_def vm_bind_def split: res.splits)

lemma yields_return: "Q x \<Longrightarrow> yields (vm_return x) Q"
  by (auto simp: yields_def vm_return_def)

lemma yields_fail: "yields (vm_fail f) Q"
  by (simp add: yields_def vm_fail_def)

lemma yields_panic: "yields vm_panic Q"
  by (simp add: yields_def vm_panic_def)

lemma yields_continue: "Q AContinue \<Longrightarrow> yields (then_continue m) Q"
  unfolding then_continue_def by (intro yields_bind yields_return)

lemmas yields_intros = yields_bind yields_return yields_fail yields_panic yields_continue

lemma yields_shapes:
  "Q AContinue \<Longrightarrow> yields (binary ins f) Q" "Q AContinue \<Longrightarrow> yields (unary ins g) Q"
  "Q AContinue \<Longrightarrow> yields (keyed_query ins key h) Q" "Q AContinue \<Longrightarrow> yields (keyed_set ins key h') Q"
  "Q AContinue \<Longrightarrow> yields (keyed_update ins key h) Q" "Q AContinue \<Longrightarrow> yields (push_like ins f) Q"
  "Q AContinue \<Longrightarrow> yields (pop_like ins g') Q" "Q AContinue \<Longrightarrow> yields (wrap_like ins g) Q"
  unfolding binary_def unary_def keyed_query_def keyed_set_def keyed_update_def push_like_def pop_like_def
    wrap_like_def by (intro yields_intros; assumption)+

lemma yields_groups:
  assumes "Q AContinue"
  shows "yields (exec_mem m1 ins) Q" "yields (exec_move m2 ins) Q" "yields (exec_arith m3 ins) Q"
    "yields (exec_cmp m4 ins) Q" "yields (exec_bitwise m5 ins) Q" "yields (exec_cast ins) Q"
    "yields (exec_sys m6 e ins) Q" "yields (exec_coll m7 ins) Q" "yields (exec_wrap m8 ins) Q"
    "yields (exec_deque m9 ins) Q" "yields (exec_vec m10 ins) Q" "yields (exec_sparse m11 ins) Q"
    "yields (exec_btree m12 ins) Q" "yields (exec_bitset m13 ins) Q" "yields (exec_bitvec m14 ins) Q"
  by (cases m1, auto intro!: yields_intros assms split: operand.split list.split)
    (cases m2; auto intro!: yields_intros assms split: prod.split
    | auto simp: exec_arith_def exec_cmp_def exec_bitwise_def exec_cast_def intro!: yields_intros yields_shapes assms
        split: operand.split
    | cases m6; auto intro!: yields_intros assms | cases m7; auto intro!: yields_shapes assms
    | cases m8; auto intro!: yields_shapes assms | cases m9; auto intro!: yields_shapes assms
    | cases m10; auto intro!: yields_intros yields_shapes assms
    | cases m11; auto intro!: yields_shapes assms | cases m12; auto intro!: yields_shapes assms
    | cases m13; auto intro!: yields_shapes assms | cases m14; auto intro!: yields_intros assms)+

subsection \<open>Code that only jumps forward\<close>

definition labels_after :: "nat \<Rightarrow> instruction \<Rightarrow> bool" where
  "labels_after i ins \<longleftrightarrow>
     list_all (\<lambda>op. case op of OpdLabelTarget t \<Rightarrow> i < unat t | _ \<Rightarrow> True) (operands ins)"

definition forward_instr :: "nat \<Rightarrow> instruction \<Rightarrow> bool" where
  "forward_instr i ins \<longleftrightarrow> labels_after i ins \<and>
     (case opcode ins of
        OTry _ \<Rightarrow> False
      | OFlow f \<Rightarrow> f \<notin> {OpCall, OpAsyncCall, OpTailCall}
      | _ \<Rightarrow> True)"

definition forward_only :: "function_def \<Rightarrow> bool" where
  "forward_only fd \<longleftrightarrow> list_all (\<lambda>(i, ins). forward_instr i ins) (enumerate 0 (fun_instrs fd))"

lemma forward_onlyD: "forward_only fd \<Longrightarrow> i < length (fun_instrs fd) \<Longrightarrow> forward_instr i (fun_instrs fd ! i)"
  by (auto simp: forward_only_def list_all_length nth_enumerate_eq)

definition forward_action :: "nat \<Rightarrow> action \<Rightarrow> bool" where
  "forward_action i act \<longleftrightarrow> (case act of
      AJump t \<Rightarrow> i < t | ACallFunc _ _ \<Rightarrow> False | ATailCall _ _ \<Rightarrow> False | _ \<Rightarrow> True)"

lemma forward_action_simps [simp]:
  "forward_action i AContinue" "forward_action i (AReturn v)" "forward_action i AHalt"
  "forward_action i (AJump t) = (i < t)" "\<not> forward_action i (ACallFunc j a)"
  "\<not> forward_action i (ATailCall j a)"
  by (simp_all add: forward_action_def)

text \<open>What is read of an operand is one of the instruction's operands.\<close>

lemma yields_get_op: "yields (get_op ins n) (\<lambda>op. op \<in> set (operands ins))"
  by (auto simp: yields_def get_op_def vm_ok_or_def vm_return_def vm_fail_def split: option.splits)

lemma yields_bind_dep: "yields m P \<Longrightarrow> (\<And>x. P x \<Longrightarrow> yields (k x) Q) \<Longrightarrow> yields (vm_bind m k) Q"
  by (fastforce simp: yields_def vm_bind_def split: res.splits)

lemma yields_label:
  assumes "labels_after i ins" "op \<in> set (operands ins)"
  shows "yields (vm_lift (label_target op)) (\<lambda>t. i < t)"
proof (cases op)
  case (OpdLabelTarget t)
  with assms have "i < unat t"
    by (fastforce simp: labels_after_def list_all_iff)
  with OpdLabelTarget show ?thesis
    by (simp add: label_target_def yields_return)
qed (simp_all add: label_target_def yields_fail)

lemma yields_jump_if: "labels_after i ins \<Longrightarrow> yields (jump_if ins c) (forward_action i)"
  unfolding jump_if_def
  by (rule yields_bind, rule yields_bind_dep [OF yields_get_op], rule yields_bind_dep [OF yields_label])
    (auto intro: yields_return)

lemma yields_jump: "labels_after i ins \<Longrightarrow> yields (exec_flow OpJmp prog ins) (forward_action i)"
  unfolding exec_flow.simps
  by (rule yields_bind_dep [OF yields_get_op], rule yields_bind_dep [OF yields_label])
    (auto intro: yields_return)

lemma yields_forward: "forward_instr i ins \<Longrightarrow> yields (execute_instruction e ins) (forward_action i)"
proof (cases "opcode ins")
  case (OFlow m)
  assume "forward_instr i ins"
  with OFlow have "m \<notin> {OpCall, OpAsyncCall, OpTailCall}" "labels_after i ins"
    by (simp_all add: forward_instr_def)
  then show ?thesis
    using OFlow yields_jump by (cases m) (auto simp: execute_instruction_def intro!: yields_return yields_bind
        yields_shapes yields_jump_if simp del: exec_flow.simps(3))
qed (simp_all add: execute_instruction_def yields_groups forward_instr_def)

subsection \<open>Termination\<close>

lemma forward_terminates:
  assumes "vm_call_stack s = [cf]" "cf_try_guard cf = None" "forward_only fd"
    and "nth_opt (prog_functions (env_program e)) (cf_func_idx cf) = Some fd"
    and "length (fun_instrs fd) - cf_ip cf < n"
  shows "\<exists>r. run_rounds e n s = Some r"
  using assms(1,2,4,5)
proof (induction n arbitrary: s cf)
  case (Suc n)
  note fd = Suc.prems(3)
  show ?case
  proof (cases "cf_ip cf < length (fun_instrs fd)")
    case False
    then have "\<exists>r s'. run_step e s = SStop r s'"
      using Suc.prems(1) fd by (simp add: run_step_def return_to_caller_def del: nth_opt_Some)
    then show ?thesis
      by auto
  next
    case True
    define ins where "ins = fun_instrs fd ! cf_ip cf"
    have cur: "current_instr (env_program e) s = Some ins"
      using Suc.prems(1) fd True by (simp add: current_instr_def ins_def del: nth_opt_Some) (simp add: nth_opt_def)
    have fwd: "forward_instr (cf_ip cf) ins"
      using forward_onlyD [OF assms(3) True] by (simp add: ins_def)
    then have not_try: "\<not> is_try ins"
      by (auto simp: forward_instr_def is_try_def split: opcode.splits)
    have adv: "vm_call_stack (advance s) = [cf\<lparr>cf_ip := cf_ip cf + 1\<rparr>]"
      by (simp add: advance_def Suc.prems(1))
    note step = run_step_current [OF cur Suc.prems(1)]
    show ?thesis
    proof (cases "execute_instruction e ins (advance s)")
      case (ROk act s2)
      then have act: "forward_action (cf_ip cf) act"
        using yieldsD [OF yields_forward [OF fwd]] by blast
      obtain cf2 where cf2: "vm_call_stack s2 = [cf2]" "cf_try_guard cf2 = None"
        "cf_func_idx cf2 = cf_func_idx cf" "cf_ip cf2 = cf_ip cf + 1"
        using execute_isolated [OF adv ROk] execute_guard [OF adv, of ins e act s2] ROk not_try Suc.prems(2)
        by (auto simp: same_activation_def)
      have later: "\<exists>r. run_rounds e n s' = Some r"
        if "vm_call_stack s' = [cf2\<lparr>cf_ip := t\<rparr>]" "cf_ip cf < t" for s' t
        by (rule Suc.IH [of s' "cf2\<lparr>cf_ip := t\<rparr>"]) (use that cf2 fd Suc.prems(4) True in \<open>simp_all del: nth_opt_Some\<close>)
      show ?thesis
      proof (cases act)
        case AContinue
        then show ?thesis
          using step ROk later [of s2 "cf_ip cf2"] cf2 by (simp add: perform_def)
      next
        case (AJump t)
        then show ?thesis
          using step ROk later [of "s2\<lparr>vm_call_stack := [cf2\<lparr>cf_ip := t\<rparr>]\<rparr>" t] act cf2
          by (simp add: perform_def on_top_def)
      qed (use step ROk act cf2 in \<open>simp_all add: perform_def return_to_caller_def\<close>)
    next
      case (RErr f s2)
      then obtain cf2 where "vm_call_stack s2 = [cf2]" "cf_try_guard cf2 = None"
        using execute_guard [OF adv, of ins e undefined s2 f] Suc.prems(2) by auto
      then show ?thesis
        using step RErr by (simp add: handle_fault_def)
    qed (simp_all add: step)
  qed
qed simp

text \<open>C30. A function without calls and TRY blocks whose jumps all go forward ends, whatever the
  system calls do: one round for each instruction left and one to return are enough.\<close>

theorem forward_code_terminates:
  assumes "vm_call_stack s = [cf]" "cf_try_guard cf = None" "forward_only fd"
    and "nth_opt (prog_functions (env_program e)) (cf_func_idx cf) = Some fd"
  shows "\<exists>r. run_rounds e (Suc (length (fun_instrs fd) - cf_ip cf)) s = Some r \<and> run_loop e s = Some r"
  using forward_terminates [OF assms, of "Suc (length (fun_instrs fd) - cf_ip cf)"] run_rounds_loop
  by (auto simp del: run_rounds.simps)

definition forward_demo :: function_def where
  "forward_demo = \<lparr>fun_name = ascii ''Main'', fun_params = [],
     fun_instrs =
       [instr_new (OFlow OpJz) [OpdImm (ImBool False), OpdLabelTarget 2],
        instr_new (OFlow OpHalt) [],
        instr_new (OFlow OpRet) [OpdImm (ImInt32 3)]]\<rparr>"

lemma forward_code_terminates_witness:
  "\<exists>r. run_rounds (executor_new (program_new\<lparr>prog_functions := [forward_demo]\<rparr>)) 4
     (push_call 0 VNull (vm_new [])) = Some r"
proof -
  let ?e = "executor_new (program_new\<lparr>prog_functions := [forward_demo]\<rparr>)"
  have "forward_only forward_demo"
    by (simp add: forward_only_def forward_demo_def instr_new_def forward_instr_def labels_after_def)
  from forward_code_terminates [of "push_call 0 VNull (vm_new [])" "call_frame_new 0 VNull", OF _ _ this, of ?e]
  show ?thesis
    by (auto simp: push_call_def vm_new_def call_frame_new_def executor_new_def program_new_def forward_demo_def
        numeral_eq_Suc simp del: run_rounds.simps)
qed

end
