(* ===== verification/Fasm_Syntax.thy ===== *)
theory Fasm_Syntax
  imports Fasm_Bytecode Fasm_FloatText
begin

text \<open>
  The compiler's data (\<open>crates/fasm-compiler/src/token.rs\<close>, \<open>ast.rs\<close>): tokens and the syntax tree,
  with the errors of its stages.  The sources report an error as a message text; here it is a
  constructor with the same parameters (line, names, offending token).
\<close>

subsection \<open>Tokens\<close>

text \<open>A source text is its Unicode code points (Rust's \<open>char\<close>); names and strings are UTF-8.\<close>

type_synonym source_text = "nat list"

datatype token_kind =
  TkInteger i64
| TkHex u64
| TkFloat u64
| TkString bytes
| TkIdent bytes
| TkComma
| TkAmpersand
| TkDot
| TkEof

record token =
  tok_kind :: token_kind
  tok_line :: nat

definition token_new :: "token_kind \<Rightarrow> nat \<Rightarrow> token" where
  "token_new k ln = \<lparr>tok_kind = k, tok_line = ln\<rparr>"

subsection \<open>Syntax tree\<close>

datatype ast_value =
  AvIdent bytes
| AvInteger i64
| AvHex u64
| AvFloat u64
| AvDeref bytes
| AvStr bytes
| AvNull
| AvTrue
| AvFalse

record define_decl =
  def_name :: bytes
  def_value :: ast_value
  def_line :: nat

record import_decl =
  imp_path :: bytes
  imp_alias :: bytes
  imp_line :: nat

record global_reserve =
  gr_index :: u32
  gr_type :: fasm_type
  gr_init :: ast_value
  gr_line :: nat

record param_decl =
  pd_key :: ast_value
  pd_type :: fasm_type
  pd_name :: bytes
  pd_required :: bool
  pd_line :: nat

record local_decl =
  ld_index :: u8
  ld_type :: fasm_type
  ld_name :: bytes
  ld_line :: nat

record instr =
  in_mnemonic :: bytes
  in_operands :: "ast_value list"
  in_line :: nat

text \<open>The fields of \<open>TryBlock\<close>: catch label, end label, body, catch body, line.\<close>

datatype statement =
  StLocal local_decl
| StLabel bytes nat
| StInstr instr
| StTry bytes bytes "statement list" "statement list" nat

record func_ast =
  fa_name :: bytes
  fa_params :: "param_decl list"
  fa_body :: "statement list"
  fa_line :: nat

record program_ast =
  pa_defines :: "define_decl list"
  pa_imports :: "import_decl list"
  pa_reserves :: "global_reserve list"
  pa_functions :: "func_ast list"

definition program_ast_default :: program_ast where
  "program_ast_default = \<lparr>pa_defines = [], pa_imports = [], pa_reserves = [], pa_functions = []\<rparr>"

subsection \<open>Errors\<close>

datatype lex_error =
  LxSlash nat | LxUnterminatedString nat | LxExpectedDigit nat | LxBadHex nat | LxBadFloat nat |
  LxBadInteger nat bytes | LxUnexpectedChar nat nat

datatype parse_error =
  PsNoEof | PsExpectedIdent nat token_kind | PsExpectedComma nat token_kind |
  PsUnexpectedToken nat token_kind | PsUnexpectedKeyword nat bytes | PsUnterminatedFunc nat bytes |
  PsRequiredOrOptional nat bytes | PsExpectedStatement nat token_kind | PsUnterminatedTry nat |
  PsExpectedValue nat token_kind | PsUnknownType nat bytes | PsExpectedType nat token_kind |
  PsExpectedU32 nat token_kind | PsSlotRange u32 | PsExpectedString nat token_kind | PsOutOfFuel

datatype validate_error =
  VaDuplicateFunc nat bytes | VaNoMain | VaUnclosedTmp bytes | VaDuplicateLabel nat bytes |
  VaEndTmp nat | VaJumpInTmp nat | VaUndefinedLabel nat bytes bytes | VaUndefinedCall nat bytes |
  VaUndeclaredDeref nat bytes bytes

datatype emit_error =
  EmMissingOperand nat bytes nat | EmUnresolvedSlot nat nat | EmUndefinedFunction nat bytes |
  EmFilterOp nat | EmUnknownInstruction nat bytes | EmUnknownType bytes | EmExpectedType |
  EmUndefinedLabel nat bytes | EmExpectedLabel nat | EmUndefinedSyscall nat bytes |
  EmExpectedSyscall nat | EmExpectedName

datatype compile_error =
  CeLex lex_error | CeParse parse_error | CeValidate validate_error | CeEmit emit_error

text \<open>The operator \<open>?\<close> on a result.\<close>

definition res_bind :: "'e + 'a \<Rightarrow> ('a \<Rightarrow> 'e + 'b) \<Rightarrow> 'e + 'b" where
  "res_bind r f = (case r of Inl e \<Rightarrow> Inl e | Inr x \<Rightarrow> f x)"

lemma res_bind_simps [simp]: "res_bind (Inl e) f = Inl e" "res_bind (Inr x) f = f x"
  by (simp_all add: res_bind_def)

lemma res_bind_Inr [simp]: "res_bind r f = Inr y \<longleftrightarrow> (\<exists>x. r = Inr x \<and> f x = Inr y)"
  by (cases r) auto

lemma res_bind_cong [fundef_cong]:
  "r = r' \<Longrightarrow> (\<And>x. r' = Inr x \<Longrightarrow> f x = g x) \<Longrightarrow> res_bind r f = res_bind r' g"
  by (cases r') auto

subsection \<open>Names\<close>

lemma ascii_inject [simp]: "ascii s = ascii t \<longleftrightarrow> s = t"
proof -
  have "c = d" if "of_char c = (of_char d :: u8)" for c d
  proof -
    have "unat (of_nat (of_char e) :: u8) = of_char e" for e
      by (simp add: unat_of_nat)
    with that show ?thesis
      by (metis of_nat_of_char of_char_eq_iff)
  qed
  then show ?thesis
    by (auto simp: ascii_def inj_def dest: map_injective)
qed

lemma ascii_Nil [simp]: "ascii [] = []" "ascii s = [] \<longleftrightarrow> s = []" "[] = ascii s \<longleftrightarrow> s = []"
  by (auto simp: ascii_def)

end
