(* ===== verification/Fasm_Lexer.thy ===== *)
theory Fasm_Lexer
  imports Fasm_Syntax
begin

text \<open>
  The lexer, \<open>crates/fasm-compiler/src/lexer.rs\<close>: from code points to tokens with line numbers.
  Which code points above ASCII are alphabetic or numeric is Unicode data of Rust's standard
  library; it is the parameter \<open>char_class\<close>, consulted for those code points only.
\<close>

subsection \<open>Characters\<close>

record char_class =
  cc_alphabetic :: "nat \<Rightarrow> bool"
  cc_numeric :: "nat \<Rightarrow> bool"

definition is_digit_char :: "nat \<Rightarrow> bool" where
  "is_digit_char c \<longleftrightarrow> 48 \<le> c \<and> c \<le> 57"

definition is_ascii_letter :: "nat \<Rightarrow> bool" where
  "is_ascii_letter c \<longleftrightarrow> 65 \<le> c \<and> c \<le> 90 \<or> 97 \<le> c \<and> c \<le> 122"

definition is_hex_char :: "nat \<Rightarrow> bool" where
  "is_hex_char c \<longleftrightarrow> is_digit_char c \<or> 65 \<le> c \<and> c \<le> 70 \<or> 97 \<le> c \<and> c \<le> 102"

definition is_alphabetic :: "char_class \<Rightarrow> nat \<Rightarrow> bool" where
  "is_alphabetic u c \<longleftrightarrow> (if c < 128 then is_ascii_letter c else cc_alphabetic u c)"

definition is_alphanumeric :: "char_class \<Rightarrow> nat \<Rightarrow> bool" where
  "is_alphanumeric u c \<longleftrightarrow>
     is_alphabetic u c \<or> (if c < 128 then is_digit_char c else cc_numeric u c)"

definition ident_start :: "char_class \<Rightarrow> nat \<Rightarrow> bool" where
  "ident_start u c \<longleftrightarrow> is_alphabetic u c \<or> c = 95 \<or> c = 36"

definition ident_char :: "char_class \<Rightarrow> nat \<Rightarrow> bool" where
  "ident_char u c \<longleftrightarrow> is_alphanumeric u c \<or> c = 95 \<or> c = 36"

text \<open>\<open>String::push\<close>: the UTF-8 encoding of a code point.\<close>

definition utf8_encode :: "nat \<Rightarrow> bytes" where
  "utf8_encode c =
     (if c < 0x80 then [of_nat c]
      else if c < 0x800 then [of_nat (0xC0 + c div 64), of_nat (0x80 + c mod 64)]
      else if c < 0x10000 then
        [of_nat (0xE0 + c div 4096), of_nat (0x80 + c div 64 mod 64), of_nat (0x80 + c mod 64)]
      else
        [of_nat (0xF0 + c div 262144), of_nat (0x80 + c div 4096 mod 64),
         of_nat (0x80 + c div 64 mod 64), of_nat (0x80 + c mod 64)])"

definition utf8 :: "source_text \<Rightarrow> bytes" where
  "utf8 cs = concat (map utf8_encode cs)"

subsection \<open>Numbers\<close>

definition digits_value :: "nat \<Rightarrow> nat list \<Rightarrow> nat" where
  "digits_value base ds = foldl (\<lambda>n d. n * base + d) 0 ds"

definition hex_value :: "nat \<Rightarrow> nat" where
  "hex_value c = (if c \<le> 57 then c - 48 else if c \<le> 70 then c - 55 else c - 87)"

definition decimal :: "source_text \<Rightarrow> nat" where
  "decimal ds = digits_value 10 (map hex_value ds)"

text \<open>\<open>str::parse\<close> on an optional minus sign and decimal digits, and \<open>u64::from_str_radix\<close>.\<close>

definition parse_i64 :: "bool \<Rightarrow> source_text \<Rightarrow> i64 option" where
  "parse_i64 neg ds =
     (let i = (if neg then - int (decimal ds) else int (decimal ds))
      in if ds \<noteq> [] \<and> - (2 ^ 63) \<le> i \<and> i < 2 ^ 63 then Some (word_of_int i) else None)"

definition parse_hex_u64 :: "source_text \<Rightarrow> u64 option" where
  "parse_hex_u64 ds =
     (let n = digits_value 16 (map hex_value ds)
      in if ds \<noteq> [] \<and> n < 2 ^ 64 then Some (of_nat n) else None)"

definition parse_f64 :: "bool \<Rightarrow> source_text \<Rightarrow> source_text \<Rightarrow> u64 option" where
  "parse_f64 neg ds fs =
     (if ds = [] \<and> fs = [] then None
      else Some (f64_ratio neg (int (decimal (ds @ fs))) (10 ^ length fs)))"

text \<open>The number that starts with the given character, and the rest of the text.\<close>

definition peeks :: "nat \<Rightarrow> source_text \<Rightarrow> bool" where
  "peeks c cs \<longleftrightarrow> (case cs of [] \<Rightarrow> False | d # _ \<Rightarrow> d = c)"

definition lex_decimal ::
  "nat \<Rightarrow> bool \<Rightarrow> source_text \<Rightarrow> source_text \<Rightarrow> lex_error + (token_kind \<times> source_text)" where
  \<comment> \<open>\<open>zero\<close>: the digits consumed before, a zero or nothing\<close>
  "lex_decimal ln neg zero cs =
     (let ds = zero @ takeWhile is_digit_char cs; rest = dropWhile is_digit_char cs
      in if peeks 46 rest then
           (case parse_f64 neg ds (takeWhile is_digit_char (tl rest)) of
              None \<Rightarrow> Inl (LxBadFloat ln)
            | Some f \<Rightarrow> Inr (TkFloat f, dropWhile is_digit_char (tl rest)))
         else
           (case parse_i64 neg ds of
              None \<Rightarrow> Inl (LxBadInteger ln (utf8 ((if neg then [45] else []) @ ds)))
            | Some i \<Rightarrow> Inr (TkInteger i, rest)))"

definition lex_hex :: "nat \<Rightarrow> source_text \<Rightarrow> lex_error + (token_kind \<times> source_text)" where
  "lex_hex ln cs =
     (case parse_hex_u64 (takeWhile is_hex_char cs) of
        None \<Rightarrow> Inl (LxBadHex ln)
      | Some n \<Rightarrow> Inr (TkHex n, dropWhile is_hex_char cs))"

definition lex_unsigned ::
  "nat \<Rightarrow> bool \<Rightarrow> source_text \<Rightarrow> lex_error + (token_kind \<times> source_text)" where
  "lex_unsigned ln neg cs =
     (if peeks 48 cs then
        (if peeks 120 (tl cs) \<or> peeks 88 (tl cs) then lex_hex ln (tl (tl cs))
         else lex_decimal ln neg [48] (tl cs))
      else lex_decimal ln neg [] cs)"

definition lex_number :: "nat \<Rightarrow> source_text \<Rightarrow> lex_error + (token_kind \<times> source_text)" where
  "lex_number ln cs =
     (if peeks 45 cs then
        (if tl cs \<noteq> [] \<and> is_digit_char (hd (tl cs)) then lex_unsigned ln True (tl cs)
         else Inl (LxExpectedDigit ln))
      else lex_unsigned ln False cs)"

subsection \<open>Strings and comments\<close>

definition escape :: "nat \<Rightarrow> bytes" where
  "escape c = (if c = 110 then [10] else if c = 116 then [9] else if c = 34 then [34]
     else if c = 92 then [92] else [])"

fun lex_string :: "source_text \<Rightarrow> bytes \<Rightarrow> (bytes \<times> source_text) option" where
  "lex_string [] s = None"
| "lex_string [c] s = (if c = 34 then Some (s, []) else None)"
| "lex_string (c # e # cs) s =
     (if c = 34 then Some (s, e # cs)
      else if c = 92 then lex_string cs (s @ escape e)
      else lex_string (e # cs) (s @ utf8_encode c))"

definition skip_comment :: "nat \<Rightarrow> source_text \<Rightarrow> nat \<times> source_text" where
  "skip_comment ln cs = (case dropWhile (\<lambda>c. c \<noteq> 10) cs of
      [] \<Rightarrow> (ln, []) | _ # rest \<Rightarrow> (ln + 1, rest))"

subsection \<open>The loop\<close>

text \<open>One round of the loop: the tokens pushed, the new line number and the rest of the text.\<close>

definition lex_step ::
  "char_class \<Rightarrow> nat \<Rightarrow> nat \<Rightarrow> source_text \<Rightarrow> lex_error + (token list \<times> nat \<times> source_text)" where
  "lex_step u ln c cs =
     (if c = 10 then Inr ([], ln + 1, cs)
      else if c = 32 \<or> c = 9 \<or> c = 13 then Inr ([], ln, cs)
      else if c = 47 then
        (case cs of
           d # _ \<Rightarrow> if d = 47 then Inr ([], skip_comment ln cs) else Inl (LxSlash ln)
         | [] \<Rightarrow> Inl (LxSlash ln))
      else if c = 44 then Inr ([token_new TkComma ln], ln, cs)
      else if c = 38 then Inr ([token_new TkAmpersand ln], ln, cs)
      else if c = 46 then Inr ([token_new TkDot ln], ln, cs)
      else if c = 34 then
        (case lex_string cs [] of
           None \<Rightarrow> Inl (LxUnterminatedString ln)
         | Some (s, rest) \<Rightarrow> Inr ([token_new (TkString s) ln], ln, rest))
      else if is_digit_char c \<or> c = 45 then
        (case lex_number ln (c # cs) of
           Inl e \<Rightarrow> Inl e
         | Inr (k, rest) \<Rightarrow> Inr ([token_new k ln], ln, rest))
      else if ident_start u c then
        Inr ([token_new (TkIdent (utf8 (takeWhile (ident_char u) (c # cs)))) ln], ln,
             dropWhile (ident_char u) (c # cs))
      else Inl (LxUnexpectedChar ln c))"

text \<open>A round that goes on consumes the character it looked at.\<close>

lemma dropWhile_shorter: "length (dropWhile P xs) \<le> length xs"
  by (simp add: dropWhile_eq_drop)

lemma peeks_Cons [simp]: "peeks c (d # cs) \<longleftrightarrow> d = c" "\<not> peeks c []"
  by (simp_all add: peeks_def)

lemma lex_decimal_rest:
  "lex_decimal ln neg zero cs = Inr (k, rest) \<Longrightarrow> length rest \<le> length (dropWhile is_digit_char cs)"
  using dropWhile_shorter [of is_digit_char "tl (dropWhile is_digit_char cs)"]
  by (auto simp: lex_decimal_def Let_def split: option.splits if_splits)

lemma lex_decimal_shorter: "lex_decimal ln neg zero cs = Inr (k, rest) \<Longrightarrow> length rest \<le> length cs"
  using lex_decimal_rest dropWhile_shorter le_trans by blast

lemma lex_hex_shorter: "lex_hex ln cs = Inr (k, rest) \<Longrightarrow> length rest \<le> length cs"
  using dropWhile_shorter [of is_hex_char cs] by (auto simp: lex_hex_def split: option.splits)

lemma lex_unsigned_shorter: "lex_unsigned ln neg cs = Inr (k, rest) \<Longrightarrow> length rest \<le> length cs"
  by (fastforce simp: lex_unsigned_def split: if_splits dest!: lex_decimal_shorter lex_hex_shorter)

lemma lex_unsigned_digit:
  assumes "is_digit_char c" "lex_unsigned ln neg (c # cs) = Inr (k, rest)"
  shows "length rest \<le> length cs"
proof (cases "c = 48")
  case True
  with assms(2) show ?thesis
    by (fastforce simp: lex_unsigned_def split: if_splits dest!: lex_decimal_shorter lex_hex_shorter)
next
  case False
  with assms have "length rest \<le> length (dropWhile is_digit_char cs)"
    using lex_decimal_rest [of ln neg "[]" "c # cs"] by (simp add: lex_unsigned_def)
  then show ?thesis
    using dropWhile_shorter le_trans by blast
qed

lemma lex_number_shorter:
  assumes "lex_number ln (c # cs) = Inr (k, rest)" "is_digit_char c \<or> c = 45"
  shows "length rest \<le> length cs"
proof (cases "c = 45")
  case True
  with assms(1) show ?thesis
    by (auto simp: lex_number_def split: if_splits dest!: lex_unsigned_shorter)
next
  case False
  with assms show ?thesis
    using lex_unsigned_digit by (auto simp: lex_number_def)
qed

lemma lex_string_shorter: "lex_string cs s = Some (t, rest) \<Longrightarrow> length rest \<le> length cs"
  by (induction cs s rule: lex_string.induct) (auto split: if_splits)

lemma lex_step_shorter:
  assumes "lex_step u ln c cs = Inr (ts, ln', rest)"
  shows "length rest \<le> length cs"
proof -
  have "length (snd (skip_comment ln cs)) \<le> length cs"
    using dropWhile_shorter [of "\<lambda>c. c \<noteq> 10" cs] by (auto simp: skip_comment_def split: list.split)
  moreover have "ident_start u c \<Longrightarrow> ident_char u c"
    by (auto simp: ident_start_def ident_char_def is_alphanumeric_def)
  ultimately show ?thesis
    using assms dropWhile_shorter [of "ident_char u" cs]
    by (auto simp: lex_step_def split: if_splits list.splits option.splits sum.splits
        dest: lex_string_shorter lex_number_shorter)
qed

function lex_loop :: "char_class \<Rightarrow> nat \<Rightarrow> source_text \<Rightarrow> lex_error + token list" where
  "lex_loop u ln [] = Inr [token_new TkEof ln]"
| "lex_loop u ln (c # cs) = (case lex_step u ln c cs of
      Inl e \<Rightarrow> Inl e
    | Inr (ts, ln', rest) \<Rightarrow> (case lex_loop u ln' rest of
        Inl e \<Rightarrow> Inl e | Inr ts' \<Rightarrow> Inr (ts @ ts')))"
  by pat_completeness auto
termination
  by (relation "measure (\<lambda>(u, ln, cs). length cs)") (auto dest: lex_step_shorter)

definition tokenize :: "char_class \<Rightarrow> source_text \<Rightarrow> lex_error + token list" where
  "tokenize u source = lex_loop u 1 source"

end
