(* ===== verification/Fasm_Emitter.thy ===== *)
theory Fasm_Emitter
  imports Fasm_Lexer
begin

text \<open>
  The code generator, \<open>crates/fasm-compiler/src/emitter.rs\<close>.  Resolving a DEFINE follows its value,
  so a cycle of DEFINEs makes the source recurse without end: the functions that follow DEFINEs
  are partial, \<open>None\<close> is a call that does not return, and the emitter's results are
  \<open>(emit_error + 'a) option\<close>.  Hash maps are maps.
\<close>

subsection \<open>Results\<close>

type_synonym 'a em = "(emit_error + 'a) option"

definition em_return :: "'a \<Rightarrow> 'a em" where
  "em_return x = Some (Inr x)"

definition em_fail :: "emit_error \<Rightarrow> 'a em" where
  "em_fail e = Some (Inl e)"

definition em_bind :: "'a em \<Rightarrow> ('a \<Rightarrow> 'b em) \<Rightarrow> 'b em" where
  "em_bind m f = (case m of None \<Rightarrow> None | Some (Inl e) \<Rightarrow> Some (Inl e) | Some (Inr x) \<Rightarrow> f x)"

definition em_total :: "'a option \<Rightarrow> 'a em" where
  "em_total m = map_option Inr m"

primrec em_list :: "('a \<Rightarrow> 'b em) \<Rightarrow> 'a list \<Rightarrow> 'b list em" where
  "em_list f [] = em_return []"
| "em_list f (x # xs) = em_bind (f x) (\<lambda>y. em_bind (em_list f xs) (\<lambda>ys. em_return (y # ys)))"

lemma em_bind_Inr [simp]:
  "em_bind m f = Some (Inr y) \<longleftrightarrow> (\<exists>x. m = Some (Inr x) \<and> f x = Some (Inr y))"
  by (simp add: em_bind_def split: option.split sum.split)

lemma em_simps [simp]:
  "em_bind None f = None" "em_bind (Some (Inl e)) f = Some (Inl e)" "em_bind (Some (Inr x)) f = f x"
  "em_return x = Some (Inr x)" "em_fail e = Some (Inl e)" "em_total None = None"
  "em_total (Some y) = Some (Inr y)" "em_total m = Some (Inr y) \<longleftrightarrow> m = Some y"
  by (auto simp: em_bind_def em_return_def em_fail_def em_total_def)

lemma em_bind_assoc [simp]: "em_bind (em_bind m f) g = em_bind m (\<lambda>x. em_bind (f x) g)"
  by (simp add: em_bind_def split: option.split sum.split)

lemma em_bind_return [simp]: "em_bind m (\<lambda>x. Some (Inr x)) = m"
  by (simp add: em_bind_def split: option.split sum.split)

lemma em_list_Inr:
  "em_list f xs = Some (Inr ys) \<longleftrightarrow> list_all2 (\<lambda>x y. f x = Some (Inr y)) xs ys"
  by (induction xs arbitrary: ys) (auto simp: list_all2_Cons1)

subsection \<open>Names\<close>

type_synonym def_map = "bytes \<Rightarrow> ast_value option"
type_synonym local_map = "bytes \<Rightarrow> u8 option"
type_synonym label_map = "bytes \<Rightarrow> u32 option"

text \<open>\<open>str::parse\<close> for \<open>u8\<close> and for \<open>i64\<close>.\<close>

definition parse_u8_text :: "bytes \<Rightarrow> u8 option" where
  "parse_u8_text s =
     (let ds = (if s \<noteq> [] \<and> hd s = 43 then tl s else s); n = decimal (map unat ds)
      in if ds \<noteq> [] \<and> list_all is_ascii_digit ds \<and> n \<le> 255 then Some (of_nat n) else None)"

definition parse_i64_text :: "bytes \<Rightarrow> i64 option" where
  "parse_i64_text s =
     (let ds = (if s \<noteq> [] \<and> (hd s = 43 \<or> hd s = 45) then tl s else s)
      in if list_all is_ascii_digit ds then parse_i64 (s \<noteq> [] \<and> hd s = 45) (map unat ds) else None)"

definition starts_with_t :: "bytes \<Rightarrow> bool" where
  "starts_with_t name \<longleftrightarrow> name \<noteq> [] \<and> hd name = 116"

text \<open>The number of a TMP slot's name: \<open>t\<close> and a number up to 15.\<close>

definition tmp_number :: "bytes \<Rightarrow> u8 option" where
  "tmp_number name =
     (if starts_with_t name
      then (case parse_u8_text (tl name) of
          Some n \<Rightarrow> if n \<le> 15 then Some n else None
        | None \<Rightarrow> None)
      else None)"

definition built_in_slots :: "(bytes \<times> built_in) list" where
  "built_in_slots = map (map_prod ascii id)
    [(''$args'', BiArgs), (''$ret'', BiRet), (''$fault_code'', BiFaultCode),
     (''$fault_index'', BiFaultIndex)]"

definition built_in_slot :: "bytes \<Rightarrow> built_in option" where
  "built_in_slot name = map_of built_in_slots name"

definition type_operand_names :: "(bytes \<times> fasm_type) list" where
  "type_operand_names = map (map_prod ascii id)
    [(''BOOL'', TyBool), (''INT8'', TyInt8), (''INT16'', TyInt16), (''INT32'', TyInt32),
     (''INT64'', TyInt64), (''UINT8'', TyUint8), (''UINT16'', TyUint16), (''UINT32'', TyUint32),
     (''UINT64'', TyUint64), (''FLOAT32'', TyFloat32), (''FLOAT64'', TyFloat64),
     (''REF_MUT'', TyRefMut), (''REF_IMM'', TyRefImm), (''VEC'', TyVec), (''STRUCT'', TyStruct),
     (''STACK'', TyStack), (''QUEUE'', TyQueue), (''HEAP_MIN'', TyHeapMin),
     (''HEAP_MAX'', TyHeapMax), (''SPARSE'', TySparse), (''BTREE'', TyBTree),
     (''SLICE'', TySlice), (''DEQUE'', TyDeque), (''BITSET'', TyBitset), (''BITVEC'', TyBitvec),
     (''OPTION'', TyOption), (''RESULT'', TyResult), (''FUTURE'', TyFuture), (''NULL'', TyNull)]"

definition ast_val_type :: "ast_value \<Rightarrow> fasm_type em" where
  "ast_val_type val = (case val of
      AvIdent s \<Rightarrow> (case map_of type_operand_names s of
          Some t \<Rightarrow> em_return t | None \<Rightarrow> em_fail (EmUnknownType s))
    | _ \<Rightarrow> em_fail EmExpectedType)"

definition ast_ident :: "ast_value \<Rightarrow> bytes em" where
  "ast_ident val = (case val of AvIdent s \<Rightarrow> em_return s | _ \<Rightarrow> em_fail EmExpectedName)"

subsection \<open>The context of a function\<close>

record func_ctx =
  fc_defines :: def_map
  fc_func_index :: "bytes \<Rightarrow> u16 option"
  fc_locals :: local_map
  fc_params :: "bytes \<Rightarrow> u32 option"
  fc_labels :: label_map

definition func_ctx_new :: "def_map \<Rightarrow> (bytes \<Rightarrow> u16 option) \<Rightarrow> func_ctx" where
  "func_ctx_new defs idx =
     \<lparr>fc_defines = defs, fc_func_index = idx, fc_locals = Map.empty, fc_params = Map.empty,
      fc_labels = Map.empty\<rparr>"

text \<open>The first pass: local slots, label positions and the instruction counter (a \<open>u32\<close>).\<close>

fun collect_locals_and_labels ::
  "statement list \<Rightarrow> local_map \<times> label_map \<times> u32 \<Rightarrow> local_map \<times> label_map \<times> u32" where
  "collect_locals_and_labels [] st = st"
| "collect_locals_and_labels (StLocal decl # stmts) (locals, labels, ip) =
     collect_locals_and_labels stmts (locals(ld_name decl \<mapsto> ld_index decl), labels, ip + 1)"
| "collect_locals_and_labels (StLabel name ln # stmts) (locals, labels, ip) =
     collect_locals_and_labels stmts (locals, labels(name \<mapsto> ip), ip)"
| "collect_locals_and_labels (StInstr ins # stmts) (locals, labels, ip) =
     collect_locals_and_labels stmts (locals, labels, ip + 1)"
| "collect_locals_and_labels (StTry catch_label end_label body catch_body ln # stmts) (locals, labels, ip) =
     (case collect_locals_and_labels body (locals, labels, ip + 1) of (locals, labels, ip) \<Rightarrow>
      case collect_locals_and_labels catch_body (locals, labels(catch_label \<mapsto> ip), ip + 1) of
        (locals, labels, ip) \<Rightarrow>
      collect_locals_and_labels stmts (locals, labels(end_label \<mapsto> ip), ip + 1))"

subsection \<open>Operands\<close>

definition ast_val_to_slot :: "func_ctx \<Rightarrow> ast_value \<Rightarrow> slot_ref option" where
  "ast_val_to_slot ctx val = (case val of
      AvDeref name \<Rightarrow> (case tmp_number name of
          Some n \<Rightarrow> Some (SlDerefTmp n)
        | None \<Rightarrow> map_option SlDerefLocal (fc_locals ctx name))
    | AvIdent name \<Rightarrow> (case built_in_slot name of
          Some b \<Rightarrow> Some (SlBuiltIn b)
        | None \<Rightarrow>
            if starts_with_t name
            then (case tmp_number name of
                Some n \<Rightarrow> Some (SlTmp n)
              | None \<Rightarrow> map_option SlLocal (fc_locals ctx name))
            else (case fc_locals ctx name of
                Some idx \<Rightarrow> Some (SlLocal idx)
              | None \<Rightarrow> (case fc_defines ctx name of
                    Some (AvInteger n) \<Rightarrow> Some (SlLocal (ucast n)) | _ \<Rightarrow> None)))
    | AvInteger n \<Rightarrow> Some (SlLocal (ucast n))
    | AvHex n \<Rightarrow> Some (SlLocal (ucast n))
    | _ \<Rightarrow> None)"

partial_function (option) ast_value_to_operand ::
  "def_map \<Rightarrow> local_map \<Rightarrow> ast_value \<Rightarrow> operand option" where
  "ast_value_to_operand defs locals val = (case val of
      AvNull \<Rightarrow> Some (OpdImm ImNull)
    | AvTrue \<Rightarrow> Some (OpdImm (ImBool True))
    | AvFalse \<Rightarrow> Some (OpdImm (ImBool False))
    | AvInteger n \<Rightarrow> Some (OpdImm (ImInt32 (ucast n)))
    | AvHex n \<Rightarrow> Some (OpdImm (ImUint32 (ucast n)))
    | AvFloat f \<Rightarrow> Some (OpdImm (ImFloat64 f))
    | AvStr s \<Rightarrow> Some (OpdImm (ImStr s))
    | AvDeref name \<Rightarrow> Some (OpdSlot (case tmp_number name of
          Some n \<Rightarrow> SlDerefTmp n
        | None \<Rightarrow> (case locals name of Some idx \<Rightarrow> SlDerefLocal idx | None \<Rightarrow> SlDerefLocal 0)))
    | AvIdent name \<Rightarrow> (case built_in_slot name of
          Some b \<Rightarrow> Some (OpdSlot (SlBuiltIn b))
        | None \<Rightarrow>
            if starts_with_t name
            then Some (OpdSlot (case tmp_number name of
                Some n \<Rightarrow> SlTmp n
              | None \<Rightarrow> (case locals name of Some idx \<Rightarrow> SlLocal idx | None \<Rightarrow> SlLocal 0)))
            else (case locals name of
                Some idx \<Rightarrow> Some (OpdSlot (SlLocal idx))
              | None \<Rightarrow> (case defs name of
                    Some d \<Rightarrow> ast_value_to_operand defs locals d
                  | None \<Rightarrow> Some (case parse_i64_text name of
                        Some n \<Rightarrow> OpdImm (ImInt32 (ucast n))
                      | None \<Rightarrow> OpdSlot (SlLocal 0))))))"

partial_function (option) resolve_u32 :: "def_map \<Rightarrow> ast_value \<Rightarrow> u32 option" where
  "resolve_u32 defs val = (case val of
      AvInteger n \<Rightarrow> Some (ucast n)
    | AvHex n \<Rightarrow> Some (ucast n)
    | AvIdent name \<Rightarrow> (case defs name of Some d \<Rightarrow> resolve_u32 defs d | None \<Rightarrow> Some 0)
    | _ \<Rightarrow> Some 0)"

partial_function (option) resolve_syscall_id :: "def_map \<Rightarrow> nat \<Rightarrow> ast_value \<Rightarrow> i32 em" where
  "resolve_syscall_id defs ln val = (case val of
      AvInteger n \<Rightarrow> Some (Inr (ucast n))
    | AvHex n \<Rightarrow> Some (Inr (ucast n))
    | AvIdent name \<Rightarrow> (case defs name of
          Some d \<Rightarrow> resolve_syscall_id defs ln d
        | None \<Rightarrow> Some (Inl (EmUndefinedSyscall ln name)))
    | _ \<Rightarrow> Some (Inl (EmExpectedSyscall ln)))"

declare ast_value_to_operand.simps [code] resolve_u32.simps [code] resolve_syscall_id.simps [code]

definition label_op :: "label_map \<Rightarrow> nat \<Rightarrow> ast_value \<Rightarrow> operand em" where
  "label_op labels ln val = (case val of
      AvIdent name \<Rightarrow> (case labels name of
          Some pos \<Rightarrow> em_return (OpdLabelTarget pos)
        | None \<Rightarrow> em_fail (EmUndefinedLabel ln name))
    | _ \<Rightarrow> em_fail (EmExpectedLabel ln))"

definition key_op :: "def_map \<Rightarrow> ast_value \<Rightarrow> operand em" where
  "key_op defs val = em_total (map_option OpdKey (resolve_u32 defs val))"

definition func_op :: "(bytes \<Rightarrow> u16 option) \<Rightarrow> nat \<Rightarrow> ast_value \<Rightarrow> operand em" where
  "func_op idx ln val = em_bind (ast_ident val) (\<lambda>name. case idx name of
      Some i \<Rightarrow> em_return (OpdFuncRef i)
    | None \<Rightarrow> em_fail (EmUndefinedFunction ln name))"

definition filter_op :: "nat \<Rightarrow> ast_value \<Rightarrow> operand em" where
  "filter_op ln val = (case val of
      AvIdent s \<Rightarrow>
        (if s = ascii ''OP_LT'' then em_return (OpdImm (ImUint32 0))
         else if s = ascii ''OP_EQ'' then em_return (OpdImm (ImUint32 1))
         else if s = ascii ''OP_GT'' then em_return (OpdImm (ImUint32 2))
         else em_fail (EmFilterOp ln))
    | _ \<Rightarrow> em_fail (EmFilterOp ln))"

subsection \<open>Instructions\<close>

text \<open>
  Each arm of the match in \<open>emit_instr\<close> reads its operands in order, with the macro \<open>slot!\<close> or
  \<open>val_op!\<close> or one of the functions above, and pushes one instruction made of them.  An arm is
  given by its opcode and by how it reads its operands.
\<close>

datatype reading =
  RSlot nat | RVal nat | RType nat | RLabel nat | RKey nat | RFunc nat | RSyscall nat | RFilter nat

type_synonym arm = "opcode \<times> reading list"

definition op_at :: "instr \<Rightarrow> nat \<Rightarrow> ast_value em" where
  "op_at ins n = (case nth_opt (in_operands ins) n of
      Some v \<Rightarrow> em_return v
    | None \<Rightarrow> em_fail (EmMissingOperand (in_line ins) (in_mnemonic ins) n))"

definition slot_at :: "func_ctx \<Rightarrow> instr \<Rightarrow> nat \<Rightarrow> operand em" where
  "slot_at ctx ins n = em_bind (op_at ins n) (\<lambda>v. case ast_val_to_slot ctx v of
      Some sl \<Rightarrow> em_return (OpdSlot sl)
    | None \<Rightarrow> em_fail (EmUnresolvedSlot (in_line ins) n))"

definition val_at :: "func_ctx \<Rightarrow> instr \<Rightarrow> nat \<Rightarrow> operand em" where
  "val_at ctx ins n = em_bind (op_at ins n) (\<lambda>v.
     em_total (ast_value_to_operand (fc_defines ctx) (fc_locals ctx) v))"

primrec arm_operand :: "func_ctx \<Rightarrow> instr \<Rightarrow> reading \<Rightarrow> operand em" where
  "arm_operand ctx ins (RSlot n) = slot_at ctx ins n"
| "arm_operand ctx ins (RVal n) = val_at ctx ins n"
| "arm_operand ctx ins (RType n) = em_bind (op_at ins n) (\<lambda>v.
     em_bind (ast_val_type v) (\<lambda>t. em_return (OpdType t)))"
| "arm_operand ctx ins (RLabel n) = em_bind (op_at ins n) (label_op (fc_labels ctx) (in_line ins))"
| "arm_operand ctx ins (RKey n) = em_bind (op_at ins n) (key_op (fc_defines ctx))"
| "arm_operand ctx ins (RFunc n) = em_bind (op_at ins n) (func_op (fc_func_index ctx) (in_line ins))"
| "arm_operand ctx ins (RSyscall n) = em_bind (op_at ins n) (\<lambda>v.
     em_bind (resolve_syscall_id (fc_defines ctx) (in_line ins) v) (\<lambda>i. em_return (OpdSyscallId i)))"
| "arm_operand ctx ins (RFilter n) = em_bind (op_at ins n) (filter_op (in_line ins))"

subsection \<open>The arms\<close>

definition memory_arms :: "(string \<times> arm) list" where
  "memory_arms =
    [(''RESERVE'', OMem OpReserve, [RSlot 0, RType 1, RVal 2]),
     (''RELEASE'', OMem OpRelease, [RSlot 0]), (''MOV'', OMove OpMov, [RVal 0, RSlot 1]),
     (''STORE'', OMove OpStore, [RVal 0, RSlot 1]),
     (''ADDR'', OMove OpAddr, [RSlot 0, RSlot 1])]"

definition operator_arms :: "(string \<times> arm) list" where
  "operator_arms =
    [(''ADD'', OArith OpAdd, [RVal 0, RVal 1, RSlot 2]),
     (''SUB'', OArith OpSub, [RVal 0, RVal 1, RSlot 2]),
     (''MUL'', OArith OpMul, [RVal 0, RVal 1, RSlot 2]),
     (''DIV'', OArith OpDiv, [RVal 0, RVal 1, RSlot 2]),
     (''MOD'', OArith OpMod, [RVal 0, RVal 1, RSlot 2]),
     (''NEG'', OArith OpNeg, [RVal 0, RSlot 1]),
     (''EQ'', OCmp OpEq, [RVal 0, RVal 1, RSlot 2]),
     (''NEQ'', OCmp OpNeq, [RVal 0, RVal 1, RSlot 2]),
     (''LT'', OCmp OpLt, [RVal 0, RVal 1, RSlot 2]),
     (''LTE'', OCmp OpLte, [RVal 0, RVal 1, RSlot 2]),
     (''GT'', OCmp OpGt, [RVal 0, RVal 1, RSlot 2]),
     (''GTE'', OCmp OpGte, [RVal 0, RVal 1, RSlot 2]),
     (''AND'', OBitwise OpAnd, [RVal 0, RVal 1, RSlot 2]),
     (''OR'', OBitwise OpOr, [RVal 0, RVal 1, RSlot 2]),
     (''XOR'', OBitwise OpXor, [RVal 0, RVal 1, RSlot 2]),
     (''SHL'', OBitwise OpShl, [RVal 0, RVal 1, RSlot 2]),
     (''SHR'', OBitwise OpShr, [RVal 0, RVal 1, RSlot 2]),
     (''NOT'', OBitwise OpNot, [RVal 0, RSlot 1])]"

text \<open>RET reads its operand when it has one.\<close>

definition flow_arms :: "(string \<times> arm) list" where
  "flow_arms =
    [(''JMP'', OFlow OpJmp, [RLabel 0]), (''JZ'', OFlow OpJz, [RVal 0, RLabel 1]),
     (''JNZ'', OFlow OpJnz, [RVal 0, RLabel 1]), (''CALL'', OFlow OpCall, [RFunc 0, RVal 1]),
     (''ASYNC_CALL'', OFlow OpAsyncCall, [RFunc 0, RVal 1]),
     (''TAIL_CALL'', OFlow OpTailCall, [RFunc 0, RVal 1]), (''RET'', OFlow OpRet, [RVal 0]),
     (''HALT'', OFlow OpHalt, []), (''AWAIT'', OFlow OpAwait, [RVal 0, RSlot 1]),
     (''SYSCALL'', OSys OpSyscall, [RSyscall 0, RVal 1]),
     (''ASYNC_SYSCALL'', OSys OpAsyncSyscall, [RSyscall 0, RVal 1])]"

definition collection_arms :: "(string \<times> arm) list" where
  "collection_arms =
    [(''PUSH'', OColl OpPush, [RSlot 0, RVal 1]), (''POP'', OColl OpPop, [RSlot 0, RSlot 1]),
     (''ENQUEUE'', OColl OpEnqueue, [RSlot 0, RVal 1]),
     (''DEQUEUE'', OColl OpDequeue, [RSlot 0, RSlot 1]),
     (''PEEK'', OColl OpPeek, [RSlot 0, RSlot 1]),
     (''GET_IDX'', OColl OpGetIdx, [RVal 0, RVal 1, RSlot 2]),
     (''SET_IDX'', OColl OpSetIdx, [RSlot 0, RVal 1, RVal 2]),
     (''GET_FIELD'', OColl OpGetField, [RVal 0, RKey 1, RSlot 2]),
     (''SET_FIELD'', OColl OpSetField, [RSlot 0, RKey 1, RVal 2]),
     (''HAS_FIELD'', OColl OpHasField, [RVal 0, RKey 1, RSlot 2]),
     (''DEL_FIELD'', OColl OpDelField, [RSlot 0, RKey 1]),
     (''LEN'', OColl OpLen, [RVal 0, RSlot 1])]"

definition wrapper_arms :: "(string \<times> arm) list" where
  "wrapper_arms =
    [(''SOME'', OWrap OpSome, [RSlot 0, RVal 1]),
     (''IS_SOME'', OWrap OpIsSome, [RVal 0, RSlot 1]),
     (''UNWRAP'', OWrap OpUnwrap, [RVal 0, RSlot 1]), (''OK'', OWrap OpOk, [RSlot 0, RVal 1]),
     (''ERR'', OWrap OpErr, [RSlot 0, RVal 1]), (''IS_OK'', OWrap OpIsOk, [RVal 0, RSlot 1]),
     (''UNWRAP_OK'', OWrap OpUnwrapOk, [RVal 0, RSlot 1]),
     (''UNWRAP_ERR'', OWrap OpUnwrapErr, [RVal 0, RSlot 1]),
     (''CAST'', OCast, [RVal 0, RType 1, RSlot 2])]"

definition sequence_arms :: "(string \<times> arm) list" where
  "sequence_arms =
    [(''PREPEND'', ODeque OpPrepend, [RSlot 0, RVal 1]),
     (''POP_BACK'', ODeque OpPopBack, [RSlot 0, RSlot 1]),
     (''PEEK_BACK'', ODeque OpPeekBack, [RSlot 0, RSlot 1]),
     (''VEC_SORT'', OVec OpVecSort, [RSlot 0]),
     (''VEC_FILTER'', OVec OpVecFilter, [RVal 0, RFilter 1, RVal 2, RSlot 3]),
     (''VEC_MERGE'', OVec OpVecMerge, [RVal 0, RVal 1, RSlot 2]),
     (''VEC_SLICE'', OVec OpVecSlice, [RVal 0, RVal 1, RVal 2, RSlot 3])]"

definition map_arms :: "(string \<times> arm) list" where
  "map_arms =
    [(''SPARSE_GET'', OSparse OpSparseGet, [RVal 0, RVal 1, RSlot 2]),
     (''SPARSE_SET'', OSparse OpSparseSet, [RSlot 0, RVal 1, RVal 2]),
     (''SPARSE_DEL'', OSparse OpSparseDel, [RSlot 0, RVal 1]),
     (''SPARSE_HAS'', OSparse OpSparseHas, [RVal 0, RVal 1, RSlot 2]),
     (''BTREE_GET'', OBTree OpBTreeGet, [RVal 0, RVal 1, RSlot 2]),
     (''BTREE_SET'', OBTree OpBTreeSet, [RSlot 0, RVal 1, RVal 2]),
     (''BTREE_DEL'', OBTree OpBTreeDel, [RSlot 0, RVal 1]),
     (''BTREE_HAS'', OBTree OpBTreeHas, [RVal 0, RVal 1, RSlot 2]),
     (''BTREE_MIN'', OBTree OpBTreeMin, [RVal 0, RSlot 1]),
     (''BTREE_MAX'', OBTree OpBTreeMax, [RVal 0, RSlot 1])]"

definition bit_arms :: "(string \<times> arm) list" where
  "bit_arms =
    [(''BIT_SET'', OBitset OpBitSet, [RSlot 0, RVal 1]),
     (''BIT_CLR'', OBitset OpBitClr, [RSlot 0, RVal 1]),
     (''BIT_GET'', OBitset OpBitGet, [RVal 0, RVal 1, RSlot 2]),
     (''BIT_FLIP'', OBitset OpBitFlip, [RSlot 0, RVal 1]),
     (''BIT_COUNT'', OBitset OpBitCount, [RVal 0, RSlot 1]),
     (''BIT_AND'', OBitset OpBitAnd, [RSlot 0, RVal 1]),
     (''BIT_OR'', OBitset OpBitOr, [RSlot 0, RVal 1]),
     (''BIT_XOR'', OBitset OpBitXor, [RSlot 0, RVal 1]),
     (''BIT_GROW'', OBitset OpBitGrow, [RSlot 0, RVal 1]),
     (''BITVEC_READ'', OBitvec OpBitvecRead, [RVal 0, RVal 1, RVal 2, RSlot 3]),
     (''BITVEC_WRITE'', OBitvec OpBitvecWrite, [RSlot 0, RVal 1, RVal 2, RVal 3]),
     (''BITVEC_PUSH'', OBitvec OpBitvecPush, [RSlot 0, RVal 1, RVal 2])]"

definition arms :: "(string \<times> arm) list" where
  "arms = memory_arms @ operator_arms @ flow_arms @ collection_arms @ wrapper_arms @ sequence_arms
     @ map_arms @ bit_arms"

definition arm_of :: "bytes \<Rightarrow> arm option" where
  "arm_of m = map_of (map (map_prod ascii id) arms) m"

definition emit_instr :: "func_ctx \<Rightarrow> instr \<Rightarrow> instruction em" where
  "emit_instr ctx ins =
     (if in_mnemonic ins = ascii ''TMP_BLOCK'' then em_return (instr_no_args (OMem OpTmpBlock))
      else if in_mnemonic ins = ascii ''END_TMP'' then em_return (instr_no_args (OMem OpEndTmp))
      else if in_mnemonic ins = ascii ''RET'' \<and> in_operands ins = []
      then em_return (instr_no_args (OFlow OpRet))
      else case arm_of (in_mnemonic ins) of
        None \<Rightarrow> em_fail (EmUnknownInstruction (in_line ins) (in_mnemonic ins))
      | Some (op, readings) \<Rightarrow>
          em_bind (em_list (arm_operand ctx ins) readings) (\<lambda>os. em_return (instr_new op os)))"

subsection \<open>Statements\<close>

text \<open>The second pass: the instructions pushed for a list of statements.\<close>

definition label_or_zero :: "label_map \<Rightarrow> bytes \<Rightarrow> u32" where
  "label_or_zero labels name = (case labels name of Some pos \<Rightarrow> pos | None \<Rightarrow> 0)"

definition reserve_local :: "local_decl \<Rightarrow> instruction" where
  "reserve_local decl = instr_new (OMem OpReserve)
     [OpdSlot (SlLocal (ld_index decl)), OpdType (ld_type decl), OpdImm ImNull]"

fun emit_statements :: "func_ctx \<Rightarrow> statement list \<Rightarrow> instruction list em" where
  "emit_statements ctx [] = em_return []"
| "emit_statements ctx (StLocal decl # stmts) =
     em_bind (emit_statements ctx stmts) (\<lambda>out. em_return (reserve_local decl # out))"
| "emit_statements ctx (StLabel name ln # stmts) = emit_statements ctx stmts"
| "emit_statements ctx (StInstr ins # stmts) =
     em_bind (emit_instr ctx ins) (\<lambda>i.
     em_bind (emit_statements ctx stmts) (\<lambda>out. em_return (i # out)))"
| "emit_statements ctx (StTry catch_label end_label body catch_body ln # stmts) =
     (let catch_ip = label_or_zero (fc_labels ctx) catch_label;
          end_ip = label_or_zero (fc_labels ctx) end_label
      in em_bind (emit_statements ctx body) (\<lambda>out1.
         em_bind (emit_statements ctx catch_body) (\<lambda>out2.
         em_bind (emit_statements ctx stmts) (\<lambda>out3. em_return
           ([instr_new (OTry OpTry) [OpdLabelTarget catch_ip, OpdLabelTarget end_ip]] @ out1
            @ [instr_new (OTry OpCatch) [OpdLabelTarget end_ip]] @ out2
            @ [instr_no_args (OTry OpEndTry)] @ out3)))))"

subsection \<open>Functions and programs\<close>

definition define_map :: "program_ast \<Rightarrow> def_map" where
  "define_map prog = fold (\<lambda>d m. m(def_name d \<mapsto> def_value d)) (pa_defines prog) Map.empty"

definition func_index_map :: "func_ast list \<Rightarrow> bytes \<Rightarrow> u16 option" where
  "func_index_map fs =
     fold (\<lambda>(i, f) m. m(fa_name f \<mapsto> of_nat i)) (enumerate 0 fs) Map.empty"

definition emit_param :: "def_map \<Rightarrow> param_decl \<Rightarrow> param_descriptor em" where
  "emit_param defs p = em_bind (em_total (resolve_u32 defs (pd_key p))) (\<lambda>key. em_return
     \<lparr>par_key = key, par_type = pd_type p, par_name = pd_name p, par_required = pd_required p\<rparr>)"

definition emit_function :: "def_map \<Rightarrow> (bytes \<Rightarrow> u16 option) \<Rightarrow> func_ast \<Rightarrow> function_def em" where
  "emit_function defs idx func =
     em_bind (em_list (emit_param defs) (fa_params func)) (\<lambda>params.
       case collect_locals_and_labels (fa_body func) (Map.empty, Map.empty, 0) of
         (locals, labels, ip) \<Rightarrow>
       let ctx = (func_ctx_new defs idx)\<lparr>fc_locals := locals, fc_labels := labels,
             fc_params := fold (\<lambda>p m. m(par_name p \<mapsto> par_key p)) params Map.empty\<rparr>
       in em_bind (emit_statements ctx (fa_body func)) (\<lambda>instrs. em_return
            \<lparr>fun_name = fa_name func, fun_params = params, fun_instrs = instrs\<rparr>))"

definition emit_reserve :: "def_map \<Rightarrow> global_reserve \<Rightarrow> instruction em" where
  "emit_reserve defs gr =
     em_bind (em_total (ast_value_to_operand defs Map.empty (gr_init gr))) (\<lambda>init.
     em_return (instr_new (OMem OpReserve) [OpdKey (gr_index gr), OpdType (gr_type gr), init]))"

definition emit :: "program_ast \<Rightarrow> program em" where
  "emit prog =
     (let defs = define_map prog in
      em_bind (em_list (emit_reserve defs) (pa_reserves prog)) (\<lambda>inits.
      em_bind (em_list (emit_function defs (func_index_map (pa_functions prog))) (pa_functions prog))
        (\<lambda>functions. em_return
          (program_new\<lparr>prog_global_inits := inits, prog_functions := functions\<rparr>))))"

end
