(* ===== verification/Fasm_Layout.thy ===== *)
theory Fasm_Layout
  imports Fasm_Emitter
begin

text \<open>
  The layout of generated code.  The emitter makes two passes over a function: the first counts
  instructions to place the labels, the second writes them.  The lemmas show that the passes agree:
  the code of a statement starts where the first pass counted, so labels point at the code that
  follows them and a TRY points at its CATCH and ENDTRY.
\<close>

subsection \<open>Sizes\<close>

text \<open>The number of instructions a list of statements is compiled to.\<close>

fun code_size :: "statement list \<Rightarrow> nat" where
  "code_size [] = 0"
| "code_size (StLabel name ln # stmts) = code_size stmts"
| "code_size (StTry c e body catch_body ln # stmts) =
     code_size body + code_size catch_body + code_size stmts + 3"
| "code_size (StLocal decl # stmts) = Suc (code_size stmts)"
| "code_size (StInstr ins # stmts) = Suc (code_size stmts)"

lemma code_size_append [simp]: "code_size (ss @ ts) = code_size ss + code_size ts"
  by (induction ss rule: code_size.induct) simp_all

lemma emitted_length: "emit_statements ctx ss = Some (Inr out) \<Longrightarrow> length out = code_size ss"
  by (induction ctx ss arbitrary: out rule: emit_statements.induct) (auto simp: Let_def)

lemma emit_Cons:
  "emit_statements ctx (s # ss) = em_bind (emit_statements ctx [s]) (\<lambda>a.
     em_bind (emit_statements ctx ss) (\<lambda>b. em_return (a @ b)))"
  by (cases s) (simp_all add: Let_def)

subsection \<open>Labels\<close>

text \<open>All labels of a list of statements with their positions, in the order of the first pass.\<close>

fun label_positions :: "nat \<Rightarrow> statement list \<Rightarrow> (bytes \<times> nat) list" where
  "label_positions i [] = []"
| "label_positions i (StLabel name ln # stmts) = (name, i) # label_positions i stmts"
| "label_positions i (StTry c e body catch_body ln # stmts) =
     label_positions (i + 1) body @ (c, i + 1 + code_size body)
       # label_positions (i + 2 + code_size body) catch_body
       @ (e, i + 2 + code_size body + code_size catch_body)
       # label_positions (i + 3 + code_size body + code_size catch_body) stmts"
| "label_positions i (StLocal decl # stmts) = label_positions (i + 1) stmts"
| "label_positions i (StInstr ins # stmts) = label_positions (i + 1) stmts"

definition set_labels :: "(bytes \<times> nat) list \<Rightarrow> label_map \<Rightarrow> label_map" where
  "set_labels ps m = fold (\<lambda>(name, k) m. m(name \<mapsto> of_nat k)) ps m"

lemma set_labels_simps [simp]:
  "set_labels [] m = m" "set_labels ((n, k) # ps) m = set_labels ps (m(n \<mapsto> of_nat k))"
  "set_labels (ps @ qs) m = set_labels qs (set_labels ps m)"
  by (simp_all add: set_labels_def)

lemma first_pass:
  "\<exists>locals'. collect_locals_and_labels ss (locals, labels, of_nat i)
     = (locals', set_labels (label_positions i ss) labels, of_nat (i + code_size ss))"
proof (induction ss arbitrary: i locals labels rule: code_size.induct)
  case (3 c e body catch_body ln ss)
  define j k where "j = i + 1 + code_size body" and "k = j + 1 + code_size catch_body"
  let ?L1 = "set_labels (label_positions (i + 1) body) labels"
  let ?L2 = "set_labels (label_positions (j + 1) catch_body) (?L1(c \<mapsto> of_nat j))"
  have s: "of_nat n + 1 = (of_nat (n + 1) :: u32)" for n
    by simp
  obtain m1 where 1: "collect_locals_and_labels body (locals, labels, of_nat (i + 1)) = (m1, ?L1, of_nat j)"
    using "3.IH"(1) [of locals labels "i + 1"] unfolding j_def by blast
  obtain m2 where 2: "collect_locals_and_labels catch_body (m1, ?L1(c \<mapsto> of_nat j), of_nat (j + 1))
      = (m2, ?L2, of_nat k)"
    using "3.IH"(2) [of m1 "?L1(c \<mapsto> of_nat j)" "j + 1"] unfolding k_def by blast
  obtain m3 where 3: "collect_locals_and_labels ss (m2, ?L2(e \<mapsto> of_nat k), of_nat (k + 1))
      = (m3, set_labels (label_positions (k + 1) ss) (?L2(e \<mapsto> of_nat k)), of_nat (k + 1 + code_size ss))"
    using "3.IH"(3) [of m2 "?L2(e \<mapsto> of_nat k)" "k + 1"] by blast
  have lp: "label_positions i (StTry c e body catch_body ln # ss) =
      label_positions (i + 1) body @ (c, j) # label_positions (j + 1) catch_body
         @ (e, k) # label_positions (k + 1) ss"
    by (simp add: j_def k_def eval_nat_numeral)
  have size: "i + code_size (StTry c e body catch_body ln # ss) = k + 1 + code_size ss"
    by (simp add: j_def k_def)
  have "collect_locals_and_labels (StTry c e body catch_body ln # ss) (locals, labels, of_nat i)
      = (m3, set_labels (label_positions (k + 1) ss) (?L2(e \<mapsto> of_nat k)), of_nat (k + 1 + code_size ss))"
    by (simp only: collect_locals_and_labels.simps s 1 2 3 prod.case)
  then show ?case
    by (intro exI [of _ m3]) (simp only: lp size set_labels_simps)
next
  case (4 v ss)
  show ?case
    using "4.IH" [of "locals(ld_name v \<mapsto> ld_index v)" labels "Suc i"] by (simp add: add.commute fun_upd_def)
next
  case (5 v ss)
  show ?case
    using "5.IH" [of locals labels "Suc i"] by (simp add: add.commute)
qed simp_all

lemma set_labels_cases:
  "set_labels ps m name = m name \<or> (\<exists>k. (name, k) \<in> set ps \<and> set_labels ps m name = Some (of_nat k))"
proof (induction ps arbitrary: m)
  case (Cons p ps)
  obtain n k where p: "p = (n, k)"
    by (cases p)
  show ?case
    using Cons.IH [of "m(n \<mapsto> of_nat k)"] by (cases "n = name") (auto simp: p fun_upd_def)
qed simp

lemma set_labels_unique: "distinct (map fst ps) \<Longrightarrow> (name, k) \<in> set ps \<Longrightarrow> set_labels ps m name = Some (of_nat k)"
proof (induction ps arbitrary: m)
  case (Cons p ps)
  obtain n j where p: "p = (n, j)"
    by (cases p)
  show ?case
  proof (cases "(name, k) \<in> set ps")
    case True
    with Cons p show ?thesis
      by simp
  next
    case False
    with Cons.prems p have "n = name" "j = k" "name \<notin> fst ` set ps"
      by auto
    with p show ?thesis
      using set_labels_cases [of ps "m(n \<mapsto> of_nat j)" name] by (auto simp: rev_image_eqI)
  qed
qed simp

lemma label_positions_bound: "(name, k) \<in> set (label_positions i ss) \<Longrightarrow> i \<le> k \<and> k \<le> i + code_size ss"
proof (induction ss arbitrary: i rule: code_size.induct)
  case (3 c e body catch_body ln ss)
  then show ?case
    by (fastforce dest: "3.IH")
qed (fastforce)+

subsection \<open>Where statements are\<close>

text \<open>\<open>occurs ss k s\<close>: the statement \<open>s\<close>, at any depth of \<open>ss\<close>, has its code from position \<open>k\<close> on.\<close>

inductive occurs :: "statement list \<Rightarrow> nat \<Rightarrow> statement \<Rightarrow> bool" where
  occurs_here: "occurs (s # ss) 0 s"
| occurs_later: "occurs ss k s \<Longrightarrow> occurs (t # ss) (code_size [t] + k) s"
| occurs_body: "occurs body k s \<Longrightarrow> occurs (StTry c e body catch_body ln # ss) (1 + k) s"
| occurs_catch: "occurs catch_body k s
    \<Longrightarrow> occurs (StTry c e body catch_body ln # ss) (2 + code_size body + k) s"

inductive_cases occurs_NilE [elim!]: "occurs [] k s"

lemma code_size_Cons: "code_size (t # ss) = code_size [t] + code_size ss"
  using code_size_append [of "[t]" ss] by simp

lemma occurs_code:
  "occurs ss k s \<Longrightarrow> emit_statements ctx ss = Some (Inr out) \<Longrightarrow>
     \<exists>pre o1 post. out = pre @ o1 @ post \<and> length pre = k \<and> emit_statements ctx [s] = Some (Inr o1)"
proof (induction arbitrary: out rule: occurs.induct)
  case (occurs_here s ss)
  then show ?case
    by (subst (asm) emit_Cons) fastforce
next
  case (occurs_later ss k s t)
  from occurs_later.prems obtain a b
    where ab: "emit_statements ctx [t] = Some (Inr a)" "emit_statements ctx ss = Some (Inr b)" "out = a @ b"
    by (subst (asm) emit_Cons) auto
  from occurs_later.IH [OF ab(2)] obtain pre o1 post
    where "b = pre @ o1 @ post" "length pre = k" "emit_statements ctx [s] = Some (Inr o1)"
    by blast
  with ab emitted_length [OF ab(1)] show ?case
    by (intro exI [of _ "a @ pre"] exI [of _ o1] exI [of _ post]) simp
next
  case (occurs_body body k s c e catch_body ln ss)
  from occurs_body.prems obtain out1 mid
    where o: "emit_statements ctx body = Some (Inr out1)"
      "out = [instr_new (OTry OpTry) [OpdLabelTarget (label_or_zero (fc_labels ctx) c),
         OpdLabelTarget (label_or_zero (fc_labels ctx) e)]] @ out1 @ mid"
    by (auto simp: Let_def)
  from occurs_body.IH [OF o(1)] obtain pre o1 post
    where "out1 = pre @ o1 @ post" "length pre = k" "emit_statements ctx [s] = Some (Inr o1)"
    by blast
  with o show ?case
    by (intro exI [of _ "hd out # pre"] exI [of _ o1] exI [of _ "post @ mid"]) simp
next
  case (occurs_catch catch_body k s c e body ln ss)
  from occurs_catch.prems obtain out1 out2 mid t1 t2
    where o: "emit_statements ctx body = Some (Inr out1)" "emit_statements ctx catch_body = Some (Inr out2)"
      "out = t1 # out1 @ t2 # out2 @ mid"
    by (auto simp: Let_def)
  from occurs_catch.IH [OF o(2)] obtain pre o1 post
    where "out2 = pre @ o1 @ post" "length pre = k" "emit_statements ctx [s] = Some (Inr o1)"
    by blast
  with o emitted_length [OF o(1)] show ?case
    by (intro exI [of _ "t1 # out1 @ t2 # pre"] exI [of _ o1] exI [of _ "post @ mid"]) simp
qed

lemma occurs_label:
  "occurs ss k s \<Longrightarrow> set (label_positions (i + k) [s]) \<subseteq> set (label_positions i ss)"
proof (induction arbitrary: i rule: occurs.induct)
  case (occurs_here s ss)
  then show ?case
    by (cases s) auto
next
  case (occurs_later ss k s t)
  have "set (label_positions (i + code_size [t]) ss) \<subseteq> set (label_positions i (t # ss))"
    by (cases t) (auto simp: eval_nat_numeral add.assoc)
  with occurs_later.IH [of "i + code_size [t]"] show ?case
    by (auto simp: add.assoc)
next
  case (occurs_body body k s c e catch_body ln ss)
  from occurs_body.IH [of "i + 1"] show ?case
    by auto
next
  case (occurs_catch catch_body k s c e body ln ss)
  from occurs_catch.IH [of "i + 2 + code_size body"] show ?case
    by (auto simp: add.assoc add.left_commute)
qed

subsection \<open>Compiled functions\<close>

text \<open>The context in which a function's statements are emitted.\<close>

lemma emit_functionE:
  assumes "emit_function defs idx func = Some (Inr fd)"
  obtains ctx where "emit_statements ctx (fa_body func) = Some (Inr (fun_instrs fd))"
    "fun_name fd = fa_name func" "fc_defines ctx = defs" "fc_func_index ctx = idx"
    "fc_labels ctx = set_labels (label_positions 0 (fa_body func)) Map.empty"
    "length (fun_instrs fd) = code_size (fa_body func)"
    "em_list (emit_param defs) (fa_params func) = Some (Inr (fun_params fd))"
proof -
  obtain locals where c: "collect_locals_and_labels (fa_body func) (Map.empty, Map.empty, 0)
      = (locals, set_labels (label_positions 0 (fa_body func)) Map.empty, of_nat (code_size (fa_body func)))"
    using first_pass [of "fa_body func" Map.empty Map.empty 0] by auto
  from assms show ?thesis
    by (auto simp: emit_function_def c func_ctx_new_def intro!: that emitted_length)
qed

lemma emitE:
  assumes "emit prog = Some (Inr p)"
  obtains "em_list (emit_reserve (define_map prog)) (pa_reserves prog) = Some (Inr (prog_global_inits p))"
    "em_list (emit_function (define_map prog) (func_index_map (pa_functions prog))) (pa_functions prog)
       = Some (Inr (prog_functions p))"
    "prog_version p = 1"
  using assms by (auto simp: emit_def Let_def program_new_def)

text \<open>What holds of every emitted instruction, wherever it stands.\<close>

fun instrs_in :: "statement list \<Rightarrow> instr list" where
  "instrs_in [] = []"
| "instrs_in (StInstr ins # stmts) = ins # instrs_in stmts"
| "instrs_in (StTry c e body catch_body ln # stmts) =
     instrs_in body @ instrs_in catch_body @ instrs_in stmts"
| "instrs_in (_ # stmts) = instrs_in stmts"

lemma emitted_all:
  assumes "\<And>decl. P (reserve_local decl)"
    and "\<And>c e. P (instr_new (OTry OpTry) [OpdLabelTarget (label_or_zero (fc_labels ctx) c),
      OpdLabelTarget (label_or_zero (fc_labels ctx) e)])"
    and "\<And>e. P (instr_new (OTry OpCatch) [OpdLabelTarget (label_or_zero (fc_labels ctx) e)])"
    and "P (instr_no_args (OTry OpEndTry))"
  shows "emit_statements ctx ss = Some (Inr out)
    \<Longrightarrow> list_all (\<lambda>ins. \<forall>i. emit_instr ctx ins = Some (Inr i) \<longrightarrow> P i) (instrs_in ss) \<Longrightarrow> list_all P out"
  by (induction ss arbitrary: out rule: instrs_in.induct) (auto simp: assms Let_def)

lemma emit_instr_all:
  assumes "emit_instr ctx ins = Some (Inr i)"
    and "\<And>r o1. arm_operand ctx ins r = Some (Inr o1) \<Longrightarrow> Q o1"
  shows "list_all Q (operands i)"
proof -
  have "list_all Q os" if "em_list (arm_operand ctx ins) rs = Some (Inr os)" for rs os
    using that unfolding em_list_Inr
    by (induction rule: list_all2_induct) (auto intro: assms(2))
  then show ?thesis
    using assms(1)
    by (auto simp: emit_instr_def instr_no_args_def instr_new_def split: if_splits option.splits)
qed

end
