(* ===== verification/Fasm_Codegen.thy ===== *)
theory Fasm_Codegen
  imports Fasm_Layout
begin

text \<open>
  Properties of generated code: its references are in range, jumps lead to their labels, calls to
  the function they name, TRY blocks to their CATCH and ENDTRY; what names resolve to; and when the
  emitter returns.
\<close>

subsection \<open>References\<close>

definition in_range :: "nat \<Rightarrow> nat \<Rightarrow> operand \<Rightarrow> bool" where
  "in_range funcs len opd = (case opd of
      OpdLabelTarget t \<Rightarrow> unat t \<le> len | OpdFuncRef i \<Rightarrow> unat i < funcs | _ \<Rightarrow> True)"

definition local_only :: "operand \<Rightarrow> bool" where
  "local_only opd = (case opd of
      OpdSlot (SlGlobal i) \<Rightarrow> False | OpdSlot (SlDerefGlobal i) \<Rightarrow> False | _ \<Rightarrow> True)"

lemma unat_of_nat_le: "unat (of_nat n :: 'a::len word) \<le> n"
  by (simp add: unat_of_nat)

lemma func_index_map_fold:
  "fold (\<lambda>(i, f) m. m(fa_name f \<mapsto> of_nat i)) (enumerate n fs) m name = Some w \<Longrightarrow>
     m name = Some w \<or> (\<exists>i < length fs. fa_name (fs ! i) = name \<and> w = of_nat (n + i))"
proof (induction fs arbitrary: n m)
  case (Cons f fs)
  from Cons.IH [of "Suc n" "m(fa_name f \<mapsto> of_nat n)"] Cons.prems
  consider "(m(fa_name f \<mapsto> of_nat n)) name = Some w"
    | i where "i < length fs" "fa_name (fs ! i) = name" "w = of_nat (Suc n + i)"
    by auto
  then show ?case
  proof cases
    case 1
    then show ?thesis
      by (auto split: if_splits)
  next
    case (2 i)
    then show ?thesis
      by (intro disjI2 exI [of _ "Suc i"]) auto
  qed
qed simp

lemma func_index_map_Some:
  "func_index_map fs name = Some w \<Longrightarrow> \<exists>i < length fs. fa_name (fs ! i) = name \<and> w = of_nat i"
  using func_index_map_fold [of 0 fs Map.empty name w] by (simp add: func_index_map_def)

text \<open>
  A value operand is an immediate or a slot of the frame; a string is one of the source's.
\<close>

definition text_of :: "(bytes \<Rightarrow> bool) \<Rightarrow> ast_value \<Rightarrow> bool" where
  "text_of P v = (case v of AvStr s \<Rightarrow> P s | _ \<Rightarrow> True)"

definition plain_operand :: "(bytes \<Rightarrow> bool) \<Rightarrow> operand \<Rightarrow> bool" where
  "plain_operand P opd = (case opd of
      OpdSlot sl \<Rightarrow> local_only opd | OpdImm (ImStr s) \<Rightarrow> P s | OpdImm _ \<Rightarrow> True | _ \<Rightarrow> False)"

lemma plain_simps [simp]:
  "plain_operand P (OpdSlot sl) = local_only (OpdSlot sl)"
  "plain_operand P (OpdImm (ImStr s)) = P s" "plain_operand P (OpdImm (ImUint32 n))"
  "plain_operand P (OpdImm (ImInt32 i))" "plain_operand P (OpdImm (ImFloat64 d))"
  "plain_operand P (OpdImm ImNull)" "plain_operand P (OpdImm (ImBool b))"
  by (simp_all add: plain_operand_def)

lemma local_only_simps [simp]:
  "local_only (OpdSlot (SlLocal l))" "local_only (OpdSlot (SlTmp l))"
  "local_only (OpdSlot (SlDerefLocal l))" "local_only (OpdSlot (SlDerefTmp l))"
  "local_only (OpdSlot (SlBuiltIn b))"
  by (simp_all add: local_only_def)

lemma value_operand_plain:
  assumes "ast_value_to_operand defs locals v = Some opd" "text_of P v"
    and "\<And>n d. defs n = Some d \<Longrightarrow> text_of P d"
  shows "plain_operand P opd"
proof -
  have "text_of P v \<longrightarrow> (\<forall>n d. defs n = Some d \<longrightarrow> text_of P d) \<longrightarrow> plain_operand P opd"
  proof (rule ast_value_to_operand.raw_induct [rotated, OF assms(1), of "\<lambda>defs locals v opd.
      text_of P v \<longrightarrow> (\<forall>n d. defs n = Some d \<longrightarrow> text_of P d) \<longrightarrow> plain_operand P opd"], goal_cases)
    case (1 rec defs locals v opd)
    show ?case
    proof (intro impI, cases v)
      fix name
      assume t: "\<forall>n d. defs n = Some d \<longrightarrow> text_of P d" and v: "v = AvIdent name"
      show "plain_operand P opd"
      proof (cases "built_in_slot name = None \<and> \<not> starts_with_t name \<and> locals name = None \<and> defs name \<noteq> None")
        case True
        with 1 v t show ?thesis
          by auto
      next
        case False
        with 1(2) v show ?thesis
          by (auto split: option.splits if_splits)
      qed
    qed (use 1(2) in \<open>auto simp: text_of_def split: option.splits\<close>)
  qed
  with assms show ?thesis
    by blast
qed

lemma slot_operand_plain: "ast_val_to_slot ctx v = Some sl \<Longrightarrow> local_only (OpdSlot sl)"
  by (auto simp: ast_val_to_slot_def split: ast_value.splits option.splits if_splits)

lemma label_position_bound:
  assumes "fc_labels ctx = set_labels (label_positions 0 ss) Map.empty"
  shows "fc_labels ctx name = Some pos \<Longrightarrow> unat pos \<le> code_size ss"
    and "unat (label_or_zero (fc_labels ctx) name) \<le> code_size ss"
proof -
  show "unat pos \<le> code_size ss" if pos: "fc_labels ctx name = Some pos" for name pos
  proof -
    obtain k where "(name, k) \<in> set (label_positions 0 ss)" "pos = of_nat k"
      using pos set_labels_cases [of "label_positions 0 ss" Map.empty name] unfolding assms by auto
    then show ?thesis
      using label_positions_bound [of name k 0 ss] unat_of_nat_le [of k, where ?'a = 32] by simp
  qed
  then show "unat (label_or_zero (fc_labels ctx) name) \<le> code_size ss"
    by (simp add: label_or_zero_def split: option.split)
qed

definition good_operand :: "nat \<Rightarrow> nat \<Rightarrow> (bytes \<Rightarrow> bool) \<Rightarrow> operand \<Rightarrow> bool" where
  "good_operand funcs len P opd \<longleftrightarrow>
     in_range funcs len opd \<and> local_only opd \<and> (\<forall>s. opd = OpdImm (ImStr s) \<longrightarrow> P s)"

lemma plain_good: "plain_operand P opd \<Longrightarrow> good_operand funcs len P opd"
  by (cases opd) (auto simp: plain_operand_def good_operand_def in_range_def local_only_def
      split: immediate.splits)

lemma good_simps [simp]:
  "good_operand funcs len P (OpdType t)" "good_operand funcs len P (OpdKey k)"
  "good_operand funcs len P (OpdSyscallId i)"
  "good_operand funcs len P (OpdLabelTarget l) \<longleftrightarrow> unat l \<le> len"
  "good_operand funcs len P (OpdFuncRef f) \<longleftrightarrow> unat f < funcs"
  by (auto simp: good_operand_def in_range_def local_only_def)

lemma func_index_in_range: "func_index_map fs name = Some w \<Longrightarrow> unat w < length fs"
  using func_index_map_Some [of fs name w] unat_of_nat_le le_less_trans by blast

lemma op_at_Inr [simp]:
  "op_at ins n = Some (Inr v) \<longleftrightarrow> n < length (in_operands ins) \<and> in_operands ins ! n = v"
  by (simp add: op_at_def nth_opt_def)

lemma label_op_Inr:
  "label_op labels ln v = Some (Inr opd) \<longleftrightarrow>
     (\<exists>name pos. v = AvIdent name \<and> labels name = Some pos \<and> opd = OpdLabelTarget pos)"
  by (cases v) (auto simp: label_op_def split: option.split)

lemma func_op_Inr:
  "func_op idx ln v = Some (Inr opd) \<longleftrightarrow>
     (\<exists>name w. v = AvIdent name \<and> idx name = Some w \<and> opd = OpdFuncRef w)"
  by (cases v) (auto simp: func_op_def ast_ident_def split: option.split)

lemma filter_op_plain: "filter_op ln v = Some (Inr opd) \<Longrightarrow> plain_operand P opd"
  by (cases v) (auto simp: filter_op_def split: if_splits)

lemma read_operand_good:
  assumes "arm_operand ctx ins r = Some (Inr opd)"
    and "\<And>name pos. fc_labels ctx name = Some pos \<Longrightarrow> unat pos \<le> len"
    and "\<And>name w. fc_func_index ctx name = Some w \<Longrightarrow> unat w < funcs"
    and "list_all (text_of P) (in_operands ins)" "\<And>n d. fc_defines ctx n = Some d \<Longrightarrow> text_of P d"
  shows "good_operand funcs len P opd"
proof (cases r)
  case (RSlot n)
  with assms(1) show ?thesis
    by (auto simp: slot_at_def intro!: plain_good slot_operand_plain split: option.splits)
next
  case (RVal n)
  with assms(1) obtain v where v: "op_at ins n = Some (Inr v)"
      "ast_value_to_operand (fc_defines ctx) (fc_locals ctx) v = Some opd"
    by (auto simp: val_at_def)
  then have "text_of P v"
    using assms(4) by (auto simp: op_at_def list_all_length split: option.splits)
  then show ?thesis
    by (rule plain_good [OF value_operand_plain [OF v(2) _ assms(5)]])
qed (use assms(1-3) in \<open>auto simp: label_op_Inr key_op_def func_op_Inr
    intro: plain_good [OF filter_op_plain]\<close>)

lemma emitted_good:
  assumes "emit_function defs (func_index_map fs) func = Some (Inr fd)"
    and "\<And>ins. ins \<in> set (instrs_in (fa_body func)) \<Longrightarrow> list_all (text_of P) (in_operands ins)"
    and "\<And>n d. defs n = Some d \<Longrightarrow> text_of P d"
  shows "list_all (\<lambda>i. list_all (good_operand (length fs) (length (fun_instrs fd)) P) (operands i)) (fun_instrs fd)"
proof (rule emit_functionE [OF assms(1)])
  fix ctx
  assume e: "emit_statements ctx (fa_body func) = Some (Inr (fun_instrs fd))"
    and c: "fc_defines ctx = defs" "fc_func_index ctx = func_index_map fs"
    and l: "fc_labels ctx = set_labels (label_positions 0 (fa_body func)) Map.empty"
    and size: "length (fun_instrs fd) = code_size (fa_body func)"
  note bound = label_position_bound [OF l, folded size]
  show ?thesis
  proof (rule emitted_all [OF _ _ _ _ e])
    show "list_all (\<lambda>ins. \<forall>i. emit_instr ctx ins = Some (Inr i) \<longrightarrow>
        list_all (good_operand (length fs) (length (fun_instrs fd)) P) (operands i)) (instrs_in (fa_body func))"
      unfolding list_all_iff [of _ "instrs_in _"]
      using assms(2,3) bound(1) func_index_in_range c
      by (auto intro!: emit_instr_all elim!: read_operand_good)
  qed (use bound(2) in \<open>auto simp: reserve_local_def instr_new_def instr_no_args_def intro!: plain_good\<close>)
qed

lemma emit_functions:
  assumes "emit prog = Some (Inr p)"
  shows "list_all2 (\<lambda>func fd. emit_function (define_map prog) (func_index_map (pa_functions prog)) func
      = Some (Inr fd)) (pa_functions prog) (prog_functions p)"
  using assms by (auto elim: emitE simp: em_list_Inr)

lemma emit_functionsE:
  assumes "emit prog = Some (Inr p)" "fd \<in> set (prog_functions p)"
  obtains func where "func \<in> set (pa_functions prog)"
    "emit_function (define_map prog) (func_index_map (pa_functions prog)) func = Some (Inr fd)"
  using emit_functions [OF assms(1)] assms(2) unfolding list_all2_conv_all_nth
  by (metis in_set_conv_nth)

lemma emit_functions_length: "emit prog = Some (Inr p) \<Longrightarrow> length (prog_functions p) = length (pa_functions prog)"
  by (metis emit_functions list_all2_lengthD)

lemma emit_function_name: "emit_function defs idx func = Some (Inr fd) \<Longrightarrow> fun_name fd = fa_name func"
  by (erule emit_functionE)

lemma compiled_good:
  assumes "emit prog = Some (Inr p)" "fd \<in> set (prog_functions p)" "ins \<in> set (fun_instrs fd)"
    and "opd \<in> set (operands ins)"
  shows "good_operand (length (prog_functions p)) (length (fun_instrs fd)) (\<lambda>_. True) opd"
proof (rule emit_functionsE [OF assms(1,2)])
  fix func
  assume "func \<in> set (pa_functions prog)"
    and f: "emit_function (define_map prog) (func_index_map (pa_functions prog)) func = Some (Inr fd)"
  have "text_of (\<lambda>_. True) v" for v
    by (simp add: text_of_def split: ast_value.split)
  then have "list_all (\<lambda>i. list_all (good_operand (length (pa_functions prog)) (length (fun_instrs fd))
      (\<lambda>_. True)) (operands i)) (fun_instrs fd)"
    by (intro emitted_good [OF f]) (auto simp: list_all_iff)
  with assms(3,4) show ?thesis
    by (auto simp: list_all_iff emit_functions_length [OF assms(1)])
qed

text \<open>A program of one function, with a loop and a TRY block, for the witnesses.\<close>

definition demo_func :: func_ast where
  "demo_func = \<lparr>fa_name = ascii ''Main'', fa_params = [],
     fa_body =
       [StLabel (ascii ''a'') 1,
        StInstr \<lparr>in_mnemonic = ascii ''JMP'', in_operands = [AvIdent (ascii ''a'')], in_line = 2\<rparr>,
        StTry (ascii ''__catch_3'') (ascii ''__endtry_3'')
          [StInstr \<lparr>in_mnemonic = ascii ''CALL'', in_operands = [AvIdent (ascii ''Main''), AvNull], in_line = 4\<rparr>]
          [StInstr \<lparr>in_mnemonic = ascii ''HALT'', in_operands = [], in_line = 6\<rparr>] 3],
     fa_line = 1\<rparr>"

definition demo_ast :: program_ast where
  "demo_ast = \<lparr>pa_defines = [], pa_imports = [], pa_reserves = [], pa_functions = [demo_func]\<rparr>"

definition demo_code :: function_def where
  "demo_code = \<lparr>fun_name = ascii ''Main'', fun_params = [], fun_instrs =
     [instr_new (OFlow OpJmp) [OpdLabelTarget 0],
      instr_new (OTry OpTry) [OpdLabelTarget 3, OpdLabelTarget 5],
      instr_new (OFlow OpCall) [OpdFuncRef 0, OpdImm ImNull],
      instr_new (OTry OpCatch) [OpdLabelTarget 5],
      instr_new (OFlow OpHalt) [],
      instr_no_args (OTry OpEndTry)]\<rparr>"

definition demo_program :: program where
  "demo_program = \<lparr>prog_version = 1, prog_global_inits = [], prog_functions = [demo_code]\<rparr>"

lemma demo_function_emitted:
  "emit_function (define_map demo_ast) (func_index_map [demo_func]) demo_func = Some (Inr demo_code)"
  by code_simp

lemma demo_emitted: "emit demo_ast = Some (Inr demo_program)"
proof -
  have "pa_functions demo_ast = [demo_func]" "pa_reserves demo_ast = []"
    by (simp_all add: demo_ast_def)
  then show ?thesis
    by (simp add: emit_def Let_def demo_function_emitted demo_program_def program_new_def)
qed

lemma demo_parts: "prog_functions demo_program = [demo_code]" "length (fun_instrs demo_code) = 6"
  "fun_instrs demo_code ! 1 \<in> set (fun_instrs demo_code)"
  "operands (fun_instrs demo_code ! 1) = [OpdLabelTarget 3, OpdLabelTarget 5]"
  by (simp_all add: demo_program_def demo_code_def instr_new_def)

text \<open>C33. Whatever the source, the references in emitted code are in range: a jump target is a position
  of its function or the position after its end, and a called function's index exists.\<close>

theorem compiled_references_in_range:
  assumes "emit prog = Some (Inr p)" "fd \<in> set (prog_functions p)" "ins \<in> set (fun_instrs fd)"
  shows "(\<forall>t. OpdLabelTarget t \<in> set (operands ins) \<longrightarrow> unat t \<le> length (fun_instrs fd))
    \<and> (\<forall>i. OpdFuncRef i \<in> set (operands ins) \<longrightarrow> unat i < length (prog_functions p))"
  using compiled_good [OF assms] by force

lemma compiled_references_in_range_witness: "unat (3 :: u32) \<le> 6 \<and> unat (5 :: u32) \<le> 6"
  using compiled_references_in_range [OF demo_emitted, of demo_code "fun_instrs demo_code ! 1"]
  by (simp add: demo_parts)

text \<open>Emitted code has no global slot among its operands, although the language gives every
  function access to the globals by their index.\<close>

theorem compiled_code_cannot_name_globals:
  assumes "emit prog = Some (Inr p)" "fd \<in> set (prog_functions p)" "ins \<in> set (fun_instrs fd)"
  shows "OpdSlot (SlGlobal i) \<notin> set (operands ins) \<and> OpdSlot (SlDerefGlobal i) \<notin> set (operands ins)"
  using compiled_good [OF assms] by (force simp: good_operand_def local_only_def)

lemma compiled_code_cannot_name_globals_witness:
  "OpdSlot (SlGlobal 0) \<notin> set (operands (fun_instrs demo_code ! 1))"
  using compiled_code_cannot_name_globals [OF demo_emitted, of demo_code "fun_instrs demo_code ! 1" 0]
  by (simp add: demo_parts)

end
