(* ===== verification/Fasm_Validator.thy ===== *)
theory Fasm_Validator
  imports Fasm_Syntax
begin

text \<open>
  The validator, \<open>crates/fasm-compiler/src/validator.rs\<close>.  Hash sets are sets; the sets the source
  passes by mutable reference are returned.  The source's test of unknown identifiers against the
  type names and modifiers has an empty body and is left out.
\<close>

subsection \<open>Labels\<close>

fun collect_labels :: "statement list \<Rightarrow> bytes set \<Rightarrow> validate_error + bytes set" where
  "collect_labels [] labels = Inr labels"
| "collect_labels (StLabel name ln # stmts) labels =
     (if name \<in> labels then Inl (VaDuplicateLabel ln name)
      else collect_labels stmts (insert name labels))"
| "collect_labels (StTry c e body catch_body ln # stmts) labels =
     res_bind (collect_labels body labels) (\<lambda>labels.
     res_bind (collect_labels catch_body labels) (\<lambda>labels.
     collect_labels stmts labels))"
| "collect_labels (_ # stmts) labels = collect_labels stmts labels"

subsection \<open>Instructions\<close>

definition last_operand :: "'a list \<Rightarrow> 'a option" where
  "last_operand xs = (if xs = [] then None else Some (last xs))"

definition check_jump ::
  "bytes set \<Rightarrow> bytes \<Rightarrow> nat \<Rightarrow> instr \<Rightarrow> validate_error + unit" where
  "check_jump labels func_name tmp_depth ins =
     (if tmp_depth > 0 then Inl (VaJumpInTmp (in_line ins))
      else case last_operand (in_operands ins) of
        Some (AvIdent label) \<Rightarrow>
          if label \<in> labels then Inr () else Inl (VaUndefinedLabel (in_line ins) label func_name)
      | _ \<Rightarrow> Inr ())"

definition check_call :: "bytes set \<Rightarrow> instr \<Rightarrow> validate_error + unit" where
  "check_call all_funcs ins = (case in_operands ins of
      AvIdent name # _ \<Rightarrow>
        if name \<in> all_funcs then Inr () else Inl (VaUndefinedCall (in_line ins) name)
    | _ \<Rightarrow> Inr ())"

fun check_derefs ::
  "bytes set \<Rightarrow> bytes \<Rightarrow> nat \<Rightarrow> ast_value list \<Rightarrow> validate_error + unit" where
  "check_derefs declared func_name ln [] = Inr ()"
| "check_derefs declared func_name ln (AvDeref name # ops) =
     (if name \<in> declared then check_derefs declared func_name ln ops
      else Inl (VaUndeclaredDeref ln name func_name))"
| "check_derefs declared func_name ln (_ # ops) = check_derefs declared func_name ln ops"

definition is_jump :: "bytes \<Rightarrow> bool" where
  "is_jump m \<longleftrightarrow> m \<in> ascii ` {''JMP'', ''JZ'', ''JNZ''}"

definition is_call :: "bytes \<Rightarrow> bool" where
  "is_call m \<longleftrightarrow> m \<in> ascii ` {''CALL'', ''ASYNC_CALL''}"

definition validate_instr ::
  "bytes set \<Rightarrow> bytes set \<Rightarrow> bytes set \<Rightarrow> bytes \<Rightarrow> nat \<Rightarrow> instr \<Rightarrow> validate_error + unit" where
  "validate_instr declared all_funcs labels func_name tmp_depth ins =
     res_bind
       (if is_jump (in_mnemonic ins) then check_jump labels func_name tmp_depth ins
        else if is_call (in_mnemonic ins) then check_call all_funcs ins else Inr ())
       (\<lambda>_. check_derefs declared func_name (in_line ins) (in_operands ins))"

subsection \<open>Functions\<close>

fun validate_statements ::
  "bytes set \<Rightarrow> bytes set \<Rightarrow> bytes \<Rightarrow> statement list \<Rightarrow> bytes set \<times> nat
    \<Rightarrow> validate_error + (bytes set \<times> nat)" where
  "validate_statements all_funcs labels func_name [] st = Inr st"
| "validate_statements all_funcs labels func_name (StLocal decl # stmts) (declared, tmp_depth) =
     validate_statements all_funcs labels func_name stmts (insert (ld_name decl) declared, tmp_depth)"
| "validate_statements all_funcs labels func_name (StLabel name ln # stmts) st =
     validate_statements all_funcs labels func_name stmts st"
| "validate_statements all_funcs labels func_name (StInstr ins # stmts) (declared, tmp_depth) =
     (let depth = (if in_mnemonic ins = ascii ''TMP_BLOCK'' then tmp_depth + 1 else tmp_depth)
      in res_bind (validate_instr declared all_funcs labels func_name depth ins) (\<lambda>_.
        if in_mnemonic ins = ascii ''END_TMP''
        then (if depth = 0 then Inl (VaEndTmp (in_line ins))
              else validate_statements all_funcs labels func_name stmts (declared, depth - 1))
        else validate_statements all_funcs labels func_name stmts (declared, depth)))"
| "validate_statements all_funcs labels func_name (StTry c e body catch_body ln # stmts) st =
     res_bind (validate_statements all_funcs labels func_name body st) (\<lambda>st.
     res_bind (validate_statements all_funcs labels func_name catch_body st) (\<lambda>st.
     validate_statements all_funcs labels func_name stmts st))"

definition builtin_names :: "bytes set" where
  "builtin_names = ascii ` {''$args'', ''$ret'', ''$fault_code'', ''$fault_index'', ''NULL'',
     ''TRUE'', ''FALSE''}"

definition validate_function ::
  "bytes set \<Rightarrow> program_ast \<Rightarrow> func_ast \<Rightarrow> validate_error + unit" where
  "validate_function all_funcs prog func =
     (let declared = set (map def_name (pa_defines prog)) \<union> builtin_names
            \<union> set (map pd_name (fa_params func))
      in res_bind (collect_labels (fa_body func) {}) (\<lambda>labels.
         res_bind (validate_statements all_funcs labels (fa_name func) (fa_body func) (declared, 0))
           (\<lambda>(_, tmp_depth).
             if tmp_depth > 0 then Inl (VaUnclosedTmp (fa_name func)) else Inr ())))"

subsection \<open>Programs\<close>

fun collect_names :: "func_ast list \<Rightarrow> bytes set \<Rightarrow> validate_error + bytes set" where
  "collect_names [] names = Inr names"
| "collect_names (f # fs) names =
     (if fa_name f \<in> names then Inl (VaDuplicateFunc (fa_line f) (fa_name f))
      else collect_names fs (insert (fa_name f) names))"

fun validate_functions ::
  "bytes set \<Rightarrow> program_ast \<Rightarrow> func_ast list \<Rightarrow> validate_error + unit" where
  "validate_functions names prog [] = Inr ()"
| "validate_functions names prog (f # fs) =
     res_bind (validate_function names prog f) (\<lambda>_. validate_functions names prog fs)"

definition validate :: "program_ast \<Rightarrow> validate_error + unit" where
  "validate prog =
     res_bind (collect_names (pa_functions prog) {}) (\<lambda>func_names.
       if ascii ''Main'' \<notin> func_names then Inl VaNoMain
       else validate_functions func_names prog (pa_functions prog))"

subsection \<open>What a validated program satisfies\<close>

lemma collect_names_Inr:
  "collect_names fs names = Inr names' \<longleftrightarrow>
     distinct (map fa_name fs) \<and> set (map fa_name fs) \<inter> names = {}
     \<and> names' = names \<union> set (map fa_name fs)"
  by (induction fs arbitrary: names) auto

lemma validate_functions_Inr:
  "validate_functions names prog fs = Inr () \<longleftrightarrow>
     list_all (\<lambda>f. validate_function names prog f = Inr ()) fs"
  by (induction fs) auto

lemma validate_Inr:
  "validate prog = Inr () \<longleftrightarrow>
     distinct (map fa_name (pa_functions prog)) \<and> ascii ''Main'' \<in> set (map fa_name (pa_functions prog))
     \<and> list_all (\<lambda>f. validate_function (set (map fa_name (pa_functions prog))) prog f = Inr ())
         (pa_functions prog)"
  by (auto simp: validate_def collect_names_Inr validate_functions_Inr)

text \<open>The labels that a list of statements declares, in order.\<close>

fun declared_labels :: "statement list \<Rightarrow> bytes list" where
  "declared_labels [] = []"
| "declared_labels (StLabel name ln # stmts) = name # declared_labels stmts"
| "declared_labels (StTry c e body catch_body ln # stmts) =
     declared_labels body @ declared_labels catch_body @ declared_labels stmts"
| "declared_labels (_ # stmts) = declared_labels stmts"

lemma collect_labels_Inr:
  "collect_labels stmts labels = Inr labels' \<Longrightarrow>
     distinct (declared_labels stmts) \<and> set (declared_labels stmts) \<inter> labels = {}
     \<and> labels' = labels \<union> set (declared_labels stmts)"
proof (induction stmts labels arbitrary: labels' rule: collect_labels.induct)
  case (3 c e body catch_body ln stmts labels)
  from "3.prems" obtain L1 L2 where r: "collect_labels body labels = Inr L1"
      "collect_labels catch_body L1 = Inr L2" "collect_labels stmts L2 = Inr labels'"
    by auto
  from "3.IH"(1) [OF r(1)] "3.IH"(2) [OF r(1,2)] "3.IH"(3) [OF r] show ?case
    by auto
qed (auto split: if_splits)

end
