(* ===== verification/Fasm_Parser.thy ===== *)
theory Fasm_Parser
  imports Fasm_Syntax
begin

text \<open>
  The parser, \<open>crates/fasm-compiler/src/parser.rs\<close>.  The lexer ends every token list with one
  \<open>Eof\<close>; the parser's state is the tokens before it that are still unread, with the line of the
  \<open>Eof\<close> as a parameter.  \<open>advance\<close> at the \<open>Eof\<close> stays there, as in the source.  The loops take a
  bound on their rounds; \<open>parse_never_out_of_fuel\<close> shows that the bound of \<open>parse\<close> is never met.
\<close>

subsection \<open>The parser's methods\<close>

type_synonym 'a parser = "nat \<Rightarrow> token list \<Rightarrow> parse_error + ('a \<times> token list)"

definition ps_return :: "'a \<Rightarrow> 'a parser" where
  "ps_return x = (\<lambda>z ts. Inr (x, ts))"

definition ps_fail :: "parse_error \<Rightarrow> 'a parser" where
  "ps_fail e = (\<lambda>z ts. Inl e)"

definition ps_bind :: "'a parser \<Rightarrow> ('a \<Rightarrow> 'b parser) \<Rightarrow> 'b parser" where
  "ps_bind m k = (\<lambda>z ts. case m z ts of Inl e \<Rightarrow> Inl e | Inr (x, ts') \<Rightarrow> k x z ts')"

definition peek :: "token parser" where
  "peek = (\<lambda>z ts. Inr (case ts of [] \<Rightarrow> token_new TkEof z | t # _ \<Rightarrow> t, ts))"

definition advance_token :: "token parser" where
  "advance_token = (\<lambda>z ts. Inr (case ts of [] \<Rightarrow> token_new TkEof z | t # _ \<Rightarrow> t, tl ts))"

definition expect_ident :: "bytes parser" where
  "expect_ident = ps_bind advance_token (\<lambda>t. case tok_kind t of
      TkIdent s \<Rightarrow> ps_return s
    | k \<Rightarrow> ps_fail (PsExpectedIdent (tok_line t) k))"

definition expect_comma :: "unit parser" where
  "expect_comma = ps_bind advance_token (\<lambda>t.
     if tok_kind t = TkComma then ps_return () else ps_fail (PsExpectedComma (tok_line t) (tok_kind t)))"

definition expect_string :: "bytes parser" where
  "expect_string = ps_bind advance_token (\<lambda>t. case tok_kind t of
      TkString s \<Rightarrow> ps_return s
    | k \<Rightarrow> ps_fail (PsExpectedString (tok_line t) k))"

definition parse_value :: "ast_value parser" where
  "parse_value = ps_bind advance_token (\<lambda>t. case tok_kind t of
      TkInteger n \<Rightarrow> ps_return (AvInteger n)
    | TkHex n \<Rightarrow> ps_return (AvHex n)
    | TkFloat f \<Rightarrow> ps_return (AvFloat f)
    | TkString s \<Rightarrow> ps_return (AvStr s)
    | TkIdent s \<Rightarrow> ps_return
        (if s = ascii ''NULL'' then AvNull else if s = ascii ''TRUE'' then AvTrue
         else if s = ascii ''FALSE'' then AvFalse else AvIdent s)
    | TkAmpersand \<Rightarrow> ps_bind expect_ident (\<lambda>name. ps_return (AvDeref name))
    | k \<Rightarrow> ps_fail (PsExpectedValue (tok_line t) k))"

definition fasm_type_names :: "(bytes \<times> fasm_type) list" where
  "fasm_type_names = map (map_prod ascii id)
    [(''BOOL'', TyBool), (''INT8'', TyInt8), (''INT16'', TyInt16), (''INT32'', TyInt32),
     (''INT64'', TyInt64), (''UINT8'', TyUint8), (''UINT16'', TyUint16), (''UINT32'', TyUint32),
     (''UINT64'', TyUint64), (''FLOAT32'', TyFloat32), (''FLOAT64'', TyFloat64),
     (''REF_MUT'', TyRefMut), (''REF_IMM'', TyRefImm), (''VEC'', TyVec), (''STRUCT'', TyStruct),
     (''STACK'', TyStack), (''QUEUE'', TyQueue), (''HEAP_MIN'', TyHeapMin),
     (''HEAP_MAX'', TyHeapMax), (''SPARSE'', TySparse), (''BTREE'', TyBTree),
     (''SLICE'', TySlice), (''DEQUE'', TyDeque), (''BITSET'', TyBitset), (''BITVEC'', TyBitvec),
     (''OPTION'', TyOption), (''RESULT'', TyResult), (''FUTURE'', TyFuture)]"

definition parse_fasm_type :: "bytes \<Rightarrow> fasm_type option" where
  "parse_fasm_type s = map_of fasm_type_names s"

definition parse_type :: "fasm_type parser" where
  "parse_type = ps_bind advance_token (\<lambda>t. case tok_kind t of
      TkIdent s \<Rightarrow> (case parse_fasm_type s of
          Some ty \<Rightarrow> ps_return ty | None \<Rightarrow> ps_fail (PsUnknownType (tok_line t) s))
    | k \<Rightarrow> ps_fail (PsExpectedType (tok_line t) k))"

definition parse_u32 :: "u32 parser" where
  "parse_u32 = ps_bind advance_token (\<lambda>t. case tok_kind t of
      TkInteger n \<Rightarrow>
        (if 0 \<le> sint n then ps_return (ucast n) else ps_fail (PsExpectedU32 (tok_line t) (tok_kind t)))
    | TkHex n \<Rightarrow> ps_return (ucast n)
    | k \<Rightarrow> ps_fail (PsExpectedU32 (tok_line t) k))"

definition parse_u8 :: "u8 parser" where
  "parse_u8 = ps_bind parse_u32 (\<lambda>v.
     if v > 255 then ps_fail (PsSlotRange v) else ps_return (ucast v))"

subsection \<open>Keywords and operand lists\<close>

definition keyword_names :: "string list" where
  "keyword_names =
    [''FUNC'', ''ENDF'', ''PARAM'', ''LOCAL'', ''CALL'', ''ASYNC'', ''RET'', ''SYSCALL'', ''AWAIT'',
     ''RESERVE'', ''RELEASE'', ''MOV'', ''STORE'', ''ADDR'', ''ADD'', ''SUB'', ''MUL'', ''DIV'',
     ''MOD'', ''NEG'', ''EQ'', ''NEQ'', ''LT'', ''LTE'', ''GT'', ''GTE'', ''AND'', ''OR'', ''XOR'',
     ''NOT'', ''SHL'', ''SHR'', ''JMP'', ''JZ'', ''JNZ'', ''LABEL'', ''PUSH'', ''POP'', ''ENQUEUE'',
     ''DEQUEUE'', ''PEEK'', ''TMP_BLOCK'', ''END_TMP'', ''GET_IDX'', ''SET_IDX'', ''GET_FIELD'',
     ''SET_FIELD'', ''HAS_FIELD'', ''DEL_FIELD'', ''LEN'', ''CAST'', ''TRY'', ''CATCH'',
     ''ENDTRY'', ''IMPORT'', ''INCLUDE'', ''DEFINE'', ''IFDEF'', ''IFNDEF'', ''ELSE'', ''ENDIF'',
     ''MACRO'', ''ENDM'', ''ASSERT'', ''SOME'', ''IS_SOME'', ''UNWRAP'', ''OK'', ''ERR'',
     ''IS_OK'', ''UNWRAP_OK'', ''UNWRAP_ERR'', ''HALT'', ''TAIL_CALL'', ''PREPEND'',
     ''POP_BACK'', ''PEEK_BACK'', ''VEC_SORT'', ''VEC_FILTER'', ''VEC_MERGE'', ''VEC_SLICE'',
     ''SPARSE_GET'', ''SPARSE_SET'', ''SPARSE_DEL'', ''SPARSE_HAS'', ''BTREE_GET'',
     ''BTREE_SET'', ''BTREE_DEL'', ''BTREE_HAS'', ''BTREE_MIN'', ''BTREE_MAX'', ''BIT_SET'',
     ''BIT_CLR'', ''BIT_GET'', ''BIT_FLIP'', ''BIT_COUNT'', ''BIT_AND'', ''BIT_OR'', ''BIT_XOR'',
     ''BIT_GROW'', ''BITVEC_READ'', ''BITVEC_WRITE'', ''BITVEC_PUSH'']"

definition is_keyword :: "bytes \<Rightarrow> bool" where
  "is_keyword s \<longleftrightarrow> s \<in> ascii ` set keyword_names"

text \<open>
  The parsers so far never put tokens back, and never run out of rounds: \<open>leaves k r\<close> says that a
  result leaves at most \<open>k\<close> tokens.
\<close>

definition leaves :: "nat \<Rightarrow> parse_error + ('a \<times> token list) \<Rightarrow> bool" where
  "leaves k r \<longleftrightarrow> (case r of Inl e \<Rightarrow> e \<notin> {PsOutOfFuel, PsNoEof} | Inr (_, ts') \<Rightarrow> length ts' \<le> k)"

definition consumes :: "'a parser \<Rightarrow> bool" where
  "consumes m \<longleftrightarrow> (\<forall>z ts. leaves (length ts) (m z ts))"

lemma leaves_simps [simp]:
  "leaves k (Inl e) \<longleftrightarrow> e \<noteq> PsOutOfFuel \<and> e \<noteq> PsNoEof" "leaves k (Inr (x, ts')) \<longleftrightarrow> length ts' \<le> k"
  by (simp_all add: leaves_def)

lemma leaves_mono: "leaves j r \<Longrightarrow> j \<le> k \<Longrightarrow> leaves k r"
  by (auto simp: leaves_def split: sum.splits)

lemma consumesI [intro?]: "(\<And>z ts. leaves (length ts) (m z ts)) \<Longrightarrow> consumes m"
  by (simp add: consumes_def)

lemma consumesD: "consumes m \<Longrightarrow> leaves (length ts) (m z ts)"
  by (simp add: consumes_def)

lemma leaves_bind:
  "\<lbrakk>leaves k (m z ts); \<And>x ts'. \<lbrakk>m z ts = Inr (x, ts'); length ts' \<le> k\<rbrakk> \<Longrightarrow> leaves j (f x z ts')\<rbrakk>
    \<Longrightarrow> leaves j (ps_bind m f z ts)"
  by (auto simp: leaves_def [of k] ps_bind_def split: sum.splits)

lemma consumes_intros:
  "consumes (ps_return x)" "e \<noteq> PsOutOfFuel \<Longrightarrow> e \<noteq> PsNoEof \<Longrightarrow> consumes (ps_fail e)" "consumes peek"
  "consumes advance_token"
  by (auto simp: consumes_def ps_return_def ps_fail_def peek_def advance_token_def)

lemma consumes_bind: "consumes m \<Longrightarrow> (\<And>x. consumes (f x)) \<Longrightarrow> consumes (ps_bind m f)"
  by (blast intro: consumesI leaves_bind consumesD leaves_mono)

lemma consumes_items:
  "consumes expect_ident" "consumes expect_comma" "consumes expect_string" "consumes parse_value"
  "consumes parse_type" "consumes parse_u32" "consumes parse_u8"
proof -
  show i: "consumes expect_ident" "consumes expect_comma" "consumes expect_string"
    by (auto simp: expect_ident_def expect_comma_def expect_string_def intro!: consumes_bind consumes_intros
        split: token_kind.split)
  show "consumes parse_value"
    by (auto simp: parse_value_def intro!: consumes_bind consumes_intros i split: token_kind.split)
  show "consumes parse_type" and u: "consumes parse_u32"
    by (auto simp: parse_type_def parse_u32_def intro!: consumes_bind consumes_intros
        split: token_kind.split option.split)
  show "consumes parse_u8"
    by (auto simp: parse_u8_def intro!: consumes_bind consumes_intros u)
qed

definition parse_operand :: "ast_value parser" where
  "parse_operand = ps_bind peek (\<lambda>t.
     if tok_kind t = TkAmpersand
     then ps_bind advance_token (\<lambda>_. ps_bind expect_ident (\<lambda>name. ps_return (AvDeref name)))
     else parse_value)"

lemma consumes_operand: "consumes parse_operand"
  by (auto simp: parse_operand_def intro!: consumes_bind consumes_intros consumes_items)

definition ends_operands :: "token \<Rightarrow> bool" where
  "ends_operands t \<longleftrightarrow> (case tok_kind t of TkEof \<Rightarrow> True | TkIdent s \<Rightarrow> is_keyword s | _ \<Rightarrow> False)"

function parse_operand_list :: "ast_value list parser" where
  "parse_operand_list z ts =
     (if ts = [] \<or> ends_operands (hd ts) then Inr ([], ts)
      else case parse_operand z ts of
        Inl e \<Rightarrow> Inl e
      | Inr (v, ts') \<Rightarrow>
          (if ts' \<noteq> [] \<and> tok_kind (hd ts') = TkComma
           then (case parse_operand_list z (tl ts') of
               Inl e \<Rightarrow> Inl e | Inr (vs, ts'') \<Rightarrow> Inr (v # vs, ts''))
           else Inr ([v], ts')))"
  by pat_completeness auto
termination
proof (relation "measure (\<lambda>(z, ts). length ts)")
  fix z :: nat and ts r x v ts'
  assume "parse_operand z ts = Inr r" "(v, ts') = r" "ts' \<noteq> [] \<and> tok_kind (hd ts') = TkComma"
  then show "((z, tl ts'), z, ts) \<in> measure (\<lambda>(z, ts). length ts)"
    using consumesD [OF consumes_operand, of ts z] by (cases ts') auto
qed simp

declare parse_operand_list.simps [simp del]

lemma consumes_operand_list: "consumes parse_operand_list"
proof
  fix z ts
  show "leaves (length ts) (parse_operand_list z ts)"
  proof (induction z ts rule: parse_operand_list.induct)
    case (1 z ts)
    show ?case
    proof (cases "ts = [] \<or> ends_operands (hd ts)")
      case True
      then show ?thesis
        by (subst parse_operand_list.simps) auto
    next
      case False
      have "leaves (length ts) (parse_operand z ts)"
        by (rule consumesD [OF consumes_operand])
      moreover have "leaves (length ts) (parse_operand_list z (tl us))"
        if "parse_operand z ts = Inr (v, us)" "length us \<le> length ts" "us \<noteq> []"
          "tok_kind (hd us) = TkComma" for v us
        using "1.IH" [OF False that(1) refl] that by (auto elim!: leaves_mono)
      ultimately show ?thesis
        using False
        by (subst parse_operand_list.simps) (auto simp: leaves_def split: sum.splits)
    qed
  qed
qed

subsection \<open>Statements\<close>

definition parse_local :: "nat \<Rightarrow> statement parser" where
  "parse_local ln = ps_bind advance_token (\<lambda>_. ps_bind parse_u8 (\<lambda>idx. ps_bind expect_comma (\<lambda>_.
     ps_bind parse_type (\<lambda>t. ps_bind expect_comma (\<lambda>_. ps_bind expect_ident (\<lambda>name.
       ps_return (StLocal \<lparr>ld_index = idx, ld_type = t, ld_name = name, ld_line = ln\<rparr>)))))))"

definition parse_label :: "nat \<Rightarrow> statement parser" where
  "parse_label ln = ps_bind advance_token (\<lambda>_. ps_bind expect_ident (\<lambda>name.
     ps_return (StLabel name ln)))"

definition parse_instr :: "bytes \<Rightarrow> nat \<Rightarrow> statement parser" where
  "parse_instr kw ln = ps_bind advance_token (\<lambda>_.
     if kw = ascii ''ASYNC''
     then ps_bind expect_ident (\<lambda>next_kw. ps_bind parse_operand_list (\<lambda>ops.
       ps_return (StInstr \<lparr>in_mnemonic = ascii ''ASYNC_'' @ next_kw, in_operands = ops, in_line = ln\<rparr>)))
     else ps_bind parse_operand_list (\<lambda>ops.
       ps_return (StInstr \<lparr>in_mnemonic = kw, in_operands = ops, in_line = ln\<rparr>)))"

definition try_block :: "nat \<Rightarrow> statement list \<Rightarrow> statement list \<Rightarrow> statement" where
  "try_block ln body catch_body =
     StTry (ascii ''__catch_'' @ show_nat ln) (ascii ''__endtry_'' @ show_nat ln) body catch_body ln"

text \<open>
  \<open>parse_statement\<close> and the loop of \<open>parse_try_block\<close>, which has the block's line, \<open>in_catch\<close> and
  the two bodies read so far as its variables.
\<close>

fun parse_statement :: "nat \<Rightarrow> statement parser"
  and parse_try_block :: "nat \<Rightarrow> nat \<Rightarrow> bool \<Rightarrow> statement list \<Rightarrow> statement list \<Rightarrow> statement parser" where
  "parse_statement 0 = ps_fail PsOutOfFuel"
| "parse_statement (Suc n) = ps_bind peek (\<lambda>t. case tok_kind t of
      TkIdent kw \<Rightarrow>
        (if kw = ascii ''TRY''
         then ps_bind advance_token (\<lambda>_. parse_try_block n (tok_line t) False [] [])
         else if kw = ascii ''LOCAL'' then parse_local (tok_line t)
         else if kw = ascii ''LABEL'' then parse_label (tok_line t)
         else parse_instr kw (tok_line t))
    | k \<Rightarrow> ps_fail (PsExpectedStatement (tok_line t) k))"
| "parse_try_block 0 ln in_catch body catch_body = ps_fail PsOutOfFuel"
| "parse_try_block (Suc n) ln in_catch body catch_body = ps_bind peek (\<lambda>t.
     if tok_kind t = TkEof then ps_fail (PsUnterminatedTry ln)
     else if tok_kind t = TkIdent (ascii ''CATCH'')
     then ps_bind advance_token (\<lambda>_. parse_try_block n ln True body catch_body)
     else if tok_kind t = TkIdent (ascii ''ENDTRY'')
     then ps_bind advance_token (\<lambda>_. ps_return (try_block ln body catch_body))
     else ps_bind (parse_statement n) (\<lambda>stmt.
       if in_catch then parse_try_block n ln in_catch body (catch_body @ [stmt])
       else parse_try_block n ln in_catch (body @ [stmt]) catch_body))"

subsection \<open>Functions and programs\<close>

definition parse_param :: "param_decl parser" where
  "parse_param = ps_bind peek (\<lambda>t0. ps_bind advance_token (\<lambda>_. ps_bind parse_value (\<lambda>key.
     ps_bind expect_comma (\<lambda>_. ps_bind parse_type (\<lambda>t. ps_bind expect_comma (\<lambda>_.
     ps_bind expect_ident (\<lambda>name. ps_bind expect_comma (\<lambda>_. ps_bind expect_ident (\<lambda>req.
       if req \<noteq> ascii ''REQUIRED'' \<and> req \<noteq> ascii ''OPTIONAL''
       then ps_fail (PsRequiredOrOptional (tok_line t0) req)
       else ps_return \<lparr>pd_key = key, pd_type = t, pd_name = name,
              pd_required = (req = ascii ''REQUIRED''), pd_line = tok_line t0\<rparr>)))))))))"

fun parse_func_body ::
  "nat \<Rightarrow> nat \<Rightarrow> bytes \<Rightarrow> param_decl list \<Rightarrow> statement list \<Rightarrow> func_ast parser" where
  "parse_func_body 0 ln name params body = ps_fail PsOutOfFuel"
| "parse_func_body (Suc n) ln name params body = ps_bind peek (\<lambda>t.
     if tok_kind t = TkEof then ps_fail (PsUnterminatedFunc ln name)
     else if tok_kind t = TkIdent (ascii ''ENDF'')
     then ps_bind advance_token (\<lambda>_. ps_return
       \<lparr>fa_name = name, fa_params = params, fa_body = body, fa_line = ln\<rparr>)
     else if tok_kind t = TkIdent (ascii ''PARAM'')
     then ps_bind parse_param (\<lambda>p. parse_func_body n ln name (params @ [p]) body)
     else ps_bind (parse_statement n) (\<lambda>stmt. parse_func_body n ln name params (body @ [stmt])))"

definition parse_function :: "nat \<Rightarrow> func_ast parser" where
  "parse_function n = ps_bind peek (\<lambda>t. ps_bind advance_token (\<lambda>_. ps_bind expect_ident (\<lambda>name.
     parse_func_body n (tok_line t) name [] [])))"

definition parse_define :: "define_decl parser" where
  "parse_define = ps_bind peek (\<lambda>t. ps_bind advance_token (\<lambda>_. ps_bind expect_ident (\<lambda>name.
     ps_bind expect_comma (\<lambda>_. ps_bind parse_value (\<lambda>v.
       ps_return \<lparr>def_name = name, def_value = v, def_line = tok_line t\<rparr>)))))"

definition parse_import :: "import_decl parser" where
  "parse_import = ps_bind peek (\<lambda>t. ps_bind advance_token (\<lambda>_. ps_bind expect_string (\<lambda>path.
     ps_bind expect_ident (\<lambda>_. ps_bind expect_ident (\<lambda>alias.
       ps_return \<lparr>imp_path = path, imp_alias = alias, imp_line = tok_line t\<rparr>)))))"

definition parse_reserve :: "global_reserve parser" where
  "parse_reserve = ps_bind peek (\<lambda>t. ps_bind advance_token (\<lambda>_. ps_bind parse_u32 (\<lambda>idx.
     ps_bind expect_comma (\<lambda>_. ps_bind parse_type (\<lambda>ty. ps_bind expect_comma (\<lambda>_.
     ps_bind parse_value (\<lambda>init. ps_return
       \<lparr>gr_index = idx, gr_type = ty, gr_init = init, gr_line = tok_line t\<rparr>)))))))"

fun parse_program :: "nat \<Rightarrow> program_ast \<Rightarrow> program_ast parser" where
  "parse_program 0 prog = ps_fail PsOutOfFuel"
| "parse_program (Suc n) prog = ps_bind peek (\<lambda>t. case tok_kind t of
      TkEof \<Rightarrow> ps_return prog
    | TkIdent kw \<Rightarrow>
        (if kw = ascii ''DEFINE''
         then ps_bind parse_define (\<lambda>d.
           parse_program n (prog\<lparr>pa_defines := pa_defines prog @ [d]\<rparr>))
         else if kw = ascii ''IMPORT''
         then ps_bind parse_import (\<lambda>i.
           parse_program n (prog\<lparr>pa_imports := pa_imports prog @ [i]\<rparr>))
         else if kw = ascii ''RESERVE''
         then ps_bind parse_reserve (\<lambda>r.
           parse_program n (prog\<lparr>pa_reserves := pa_reserves prog @ [r]\<rparr>))
         else if kw = ascii ''FUNC''
         then ps_bind (parse_function n) (\<lambda>f.
           parse_program n (prog\<lparr>pa_functions := pa_functions prog @ [f]\<rparr>))
         else ps_fail (PsUnexpectedKeyword (tok_line t) kw))
    | k \<Rightarrow> ps_fail (PsUnexpectedToken (tok_line t) k))"

text \<open>
  \<open>parse\<close>: the tokens up to the first \<open>Eof\<close> are the parser's state.  A token list without an \<open>Eof\<close>,
  which the lexer never makes, is refused (the source's \<open>advance\<close> would stay at its last token).
\<close>

definition parse_fuel :: "token list \<Rightarrow> nat" where
  "parse_fuel ts = 2 * length ts + 2"

definition parse :: "token list \<Rightarrow> parse_error + program_ast" where
  "parse tokens =
     (let ts = takeWhile (\<lambda>t. tok_kind t \<noteq> TkEof) tokens
      in case drop (length ts) tokens of
        [] \<Rightarrow> Inl PsNoEof
      | eof # _ \<Rightarrow> map_sum id fst (parse_program (parse_fuel ts) program_ast_default (tok_line eof) ts))"

subsection \<open>The rounds are enough\<close>

lemma peek_simps [simp]:
  "ps_bind peek f z [] = f (token_new TkEof z) z []" "ps_bind peek f z (t # ts) = f t z (t # ts)"
  "ps_bind advance_token f z (t # ts) = f t z ts"
  by (simp_all add: ps_bind_def peek_def advance_token_def)

lemma token_new_kind [simp]: "tok_kind (token_new k ln) = k"
  by (simp add: token_new_def)

lemma leaves_fail [simp]: "leaves k (ps_fail e z ts) \<longleftrightarrow> e \<noteq> PsOutOfFuel \<and> e \<noteq> PsNoEof"
  by (simp add: ps_fail_def)

lemma leaves_return [simp]: "leaves k (ps_return x z ts) \<longleftrightarrow> length ts \<le> k"
  by (simp add: ps_return_def)

text \<open>An instruction, a local and a label use up the token they begin with.\<close>

lemma leaves_after_advance:
  "(\<And>t. consumes (f t)) \<Longrightarrow> leaves (length ts) (ps_bind advance_token f z (t # ts))"
  by (simp add: consumesD)

lemma consumes_local: "leaves (length ts) (parse_local ln z (t # ts))"
  unfolding parse_local_def
  by (intro leaves_after_advance consumes_bind consumes_items consumes_intros)

lemma consumes_label: "leaves (length ts) (parse_label ln z (t # ts))"
  unfolding parse_label_def
  by (intro leaves_after_advance consumes_bind consumes_items consumes_intros)

lemma consumes_instr: "leaves (length ts) (parse_instr kw ln z (t # ts))"
  unfolding parse_instr_def
  by (intro leaves_after_advance)
     (auto intro!: consumes_bind consumes_items consumes_intros consumes_operand_list)

lemma statement_rounds:
  "2 * length ts < n \<Longrightarrow> leaves (length ts - 1) (parse_statement n z ts)"
  "2 * length ts + 1 < n \<Longrightarrow> leaves (length ts - 1) (parse_try_block n ln c body catch_body z ts)"
proof (induction n arbitrary: z ts ln c body catch_body)
  case (Suc n)
  {
    case 1
    show ?case
    proof (cases ts)
      case (Cons t us)
      with 1 have "leaves (length us - 1) (parse_try_block n (tok_line t) False [] [] z us)"
        by (intro Suc.IH) simp
      then show ?thesis
        using Cons consumes_local consumes_label consumes_instr
        by (auto split: token_kind.split elim: leaves_mono)
    qed simp
  next
    case 2
    show ?case
    proof (cases ts)
      case (Cons t us)
      have loop: "leaves (length us) (parse_try_block n ln c b cb z vs)"
        if "length vs \<le> length us" for c b cb vs
        using Suc.IH(2) [of vs ln c b cb z] 2 Cons that by (auto elim!: leaves_mono)
      have "leaves (length us) (parse_statement n z ts)"
        using Suc.IH(1) [of ts z] 2 Cons by simp
      then show ?thesis
        using Cons loop
        by (auto intro!: leaves_bind [of "length us" "parse_statement n"])
    qed simp
  }
qed simp_all

lemma consumes_headed:
  "(\<And>t. consumes (f t)) \<Longrightarrow> leaves (length ts)
    (ps_bind peek (\<lambda>t. ps_bind advance_token (\<lambda>_. f t)) z (t # ts))"
  by (simp add: consumesD)

lemma consumes_directives:
  "leaves (length ts) (parse_param z (t # ts))" "leaves (length ts) (parse_define z (t # ts))"
  "leaves (length ts) (parse_import z (t # ts))" "leaves (length ts) (parse_reserve z (t # ts))"
  unfolding parse_param_def parse_define_def parse_import_def parse_reserve_def
  by (intro consumes_headed; auto intro!: consumes_bind consumes_items consumes_intros)+

lemma func_body_rounds:
  "2 * length ts + 1 < n \<Longrightarrow> leaves (length ts - 1) (parse_func_body n ln name params body z ts)"
proof (induction n arbitrary: ts params body)
  case (Suc n)
  show ?case
  proof (cases ts)
    case (Cons t us)
    have loop: "leaves (length us) (parse_func_body n ln name ps b z vs)"
      if "length vs \<le> length us" for ps b vs
      using Suc.IH [of vs ps b] Suc.prems Cons that by (auto elim!: leaves_mono)
    have "leaves (length us) (parse_statement n z ts)"
      using statement_rounds(1) [of ts n z] Suc.prems Cons by simp
    then show ?thesis
      using Cons loop
      by (auto intro!: leaves_bind [of "length us" "parse_statement n"]
          leaves_bind [of "length us" parse_param] consumes_directives)
  qed simp
qed simp

lemma function_rounds:
  assumes "2 * length ts + 1 < n"
  shows "leaves (length ts) (parse_function n z (t # ts))"
proof -
  have "leaves (length ts) (ps_bind expect_ident (\<lambda>name. parse_func_body n (tok_line t) name [] []) z ts)"
    by (rule leaves_bind [OF consumesD [OF consumes_items(1)]])
       (rule leaves_mono [OF func_body_rounds], use assms in auto)
  then show ?thesis
    by (simp add: parse_function_def)
qed

lemma program_rounds:
  "2 * length ts + 1 < n \<Longrightarrow> leaves (length ts) (parse_program n prog z ts)"
proof (induction n arbitrary: ts prog)
  case (Suc n)
  show ?case
  proof (cases ts)
    case (Cons t us)
    have loop: "leaves (Suc (length us)) (parse_program n pr z vs)" if "length vs \<le> length us" for pr vs
      using Suc.IH [of vs pr] Suc.prems Cons that by (auto elim!: leaves_mono)
    have "leaves (length us) (parse_function n z ts)"
      using function_rounds [of us n z t] Suc.prems Cons by simp
    then show ?thesis
      using Cons loop
      by (auto intro!: leaves_bind [of "length us" "parse_function n"]
          leaves_bind [of "length us" parse_define] leaves_bind [of "length us" parse_import]
          leaves_bind [of "length us" parse_reserve] consumes_directives split: token_kind.split)
  qed simp
qed simp

text \<open>The parser always ends with a tree or with one of the source's errors.\<close>

lemma program_never_out_of_fuel:
  "parse_program (parse_fuel ts) program_ast_default z ts \<noteq> Inl PsOutOfFuel"
  "parse_program (parse_fuel ts) program_ast_default z ts \<noteq> Inl PsNoEof"
  using program_rounds [of ts "parse_fuel ts" program_ast_default z] by (auto simp: parse_fuel_def)

lemma parse_never_out_of_fuel: "parse tokens \<noteq> Inl PsOutOfFuel"
  using program_never_out_of_fuel
  by (auto simp: parse_def Let_def map_sum_def split: list.split sum.splits)

end
