(* ===== verification/Fasm_Targets.thy ===== *)
theory Fasm_Targets
  imports Fasm_Codegen Fasm_Validator Fasm_Parser
begin

text \<open>
  Where control goes in compiled code: a jump to the code after its label, a call to the function
  it names, a TRY to its CATCH and ENDTRY.  Positions of statements are given by \<open>occurs\<close>.
\<close>

subsection \<open>Jumps\<close>

lemma arm_of_ascii: "arm_of (ascii s) = map_of arms s"
proof -
  have "map_of (map (map_prod ascii id) as) (ascii s) = map_of as s" for as :: "(string \<times> arm) list"
    by (induction as) auto
  then show ?thesis
    by (simp add: arm_of_def)
qed

lemma jump_arms:
  "arm_of (ascii ''JMP'') = Some (OFlow OpJmp, [RLabel 0])"
  "arm_of (ascii ''JZ'') = Some (OFlow OpJz, [RVal 0, RLabel 1])"
  "arm_of (ascii ''JNZ'') = Some (OFlow OpJnz, [RVal 0, RLabel 1])"
  unfolding arm_of_ascii by code_simp+

lemma call_arms:
  "arm_of (ascii ''CALL'') = Some (OFlow OpCall, [RFunc 0, RVal 1])"
  "arm_of (ascii ''ASYNC_CALL'') = Some (OFlow OpAsyncCall, [RFunc 0, RVal 1])"
  "arm_of (ascii ''TAIL_CALL'') = Some (OFlow OpTailCall, [RFunc 0, RVal 1])"
  unfolding arm_of_ascii by code_simp+

lemma emit_instr_arm:
  assumes "emit_instr ctx ins = Some (Inr i)" "arm_of (in_mnemonic ins) = Some (op, rs)"
    and "in_mnemonic ins \<notin> ascii ` {''TMP_BLOCK'', ''END_TMP'', ''RET''}"
  shows "opcode i = op \<and> em_list (arm_operand ctx ins) rs = Some (Inr (operands i))"
  using assms by (auto simp: emit_instr_def instr_new_def)

lemma occurs_instr:
  assumes "emit_statements ctx ss = Some (Inr out)" "occurs ss j (StInstr ins)"
  shows "j < length out \<and> emit_instr ctx ins = Some (Inr (out ! j))"
  using occurs_code [OF assms(2,1)] by (auto simp: nth_append)

text \<open>C9. In a function whose labels are distinct, a jump to a label goes to the position of the code
  that follows the label, before or after the jump, in whatever block the two stand.\<close>

theorem jumps_reach_their_label:
  assumes "emit_function defs idx func = Some (Inr fd)"
    and "distinct (map fst (label_positions 0 (fa_body func)))"
    and "occurs (fa_body func) k (StLabel name ln)" "occurs (fa_body func) j (StInstr ins)"
    and "is_jump (in_mnemonic ins)"
    and "nth_opt (in_operands ins) (if in_mnemonic ins = ascii ''JMP'' then 0 else 1) = Some (AvIdent name)"
  shows "j < length (fun_instrs fd) \<and> opcode (fun_instrs fd ! j) \<in> OFlow ` {OpJmp, OpJz, OpJnz}
    \<and> last (operands (fun_instrs fd ! j)) = OpdLabelTarget (of_nat k)"
proof (rule emit_functionE [OF assms(1)])
  fix ctx
  assume e: "emit_statements ctx (fa_body func) = Some (Inr (fun_instrs fd))"
    and l: "fc_labels ctx = set_labels (label_positions 0 (fa_body func)) Map.empty"
  have "(name, k) \<in> set (label_positions 0 (fa_body func))"
    using occurs_label [OF assms(3), of 0] by simp
  then have pos: "fc_labels ctx name = Some (of_nat k)"
    using set_labels_unique [OF assms(2)] l by simp
  from occurs_instr [OF e assms(4)] have j: "j < length (fun_instrs fd)"
    and i: "emit_instr ctx ins = Some (Inr (fun_instrs fd ! j))"
    by simp_all
  from assms(5) have "in_mnemonic ins \<in> ascii ` {''JMP'', ''JZ'', ''JNZ''}"
    by (simp add: is_jump_def)
  with emit_instr_arm [OF i] assms(6) pos j show ?thesis
    by (auto simp: jump_arms label_op_Inr dest!: sym [of "_ # _"])
qed

lemma demo_labels: "label_positions 0 (fa_body demo_func)
    = [(ascii ''a'', 0), (ascii ''__catch_3'', 3), (ascii ''__endtry_3'', 5)]"
  by (simp add: demo_func_def)

lemma jumps_reach_their_label_witness:
  "last (operands (fun_instrs demo_code ! 0)) = OpdLabelTarget (of_nat 0)"
proof -
  define jmp where
    "jmp = \<lparr>in_mnemonic = ascii ''JMP'', in_operands = [AvIdent (ascii ''a'')], in_line = 2\<rparr>"
  have "occurs (fa_body demo_func) 0 (StLabel (ascii ''a'') 1)"
    unfolding demo_func_def by (simp add: occurs_here)
  moreover have "occurs (fa_body demo_func) 0 (StInstr jmp)"
    using occurs_later [OF occurs_here, of "StLabel (ascii ''a'') 1" "StInstr jmp"]
    by (simp add: demo_func_def jmp_def)
  ultimately show ?thesis
    using jumps_reach_their_label [OF demo_function_emitted, of 0 "ascii ''a''" 1 0 jmp]
    by (simp add: demo_labels jmp_def is_jump_def)
qed

subsection \<open>TRY blocks\<close>

text \<open>In a function whose labels are distinct, a TRY block is compiled to a TRY that holds the
  positions of its CATCH and of its ENDTRY, the body, the CATCH, the catch body and the ENDTRY.\<close>

lemma try_block_layout:
  assumes "emit_function defs idx func = Some (Inr fd)"
    and "distinct (map fst (label_positions 0 (fa_body func)))"
    and "occurs (fa_body func) k (StTry c e body catch_body ln)"
    and "j = k + 1 + code_size body" "n = j + 1 + code_size catch_body"
  shows "n < length (fun_instrs fd)
    \<and> fun_instrs fd ! k = instr_new (OTry OpTry) [OpdLabelTarget (of_nat j), OpdLabelTarget (of_nat n)]
    \<and> fun_instrs fd ! j = instr_new (OTry OpCatch) [OpdLabelTarget (of_nat n)]
    \<and> fun_instrs fd ! n = instr_no_args (OTry OpEndTry)"
proof (rule emit_functionE [OF assms(1)])
  fix ctx
  assume out: "emit_statements ctx (fa_body func) = Some (Inr (fun_instrs fd))"
    and l: "fc_labels ctx = set_labels (label_positions 0 (fa_body func)) Map.empty"
  have "(c, j) \<in> set (label_positions 0 (fa_body func))" "(e, n) \<in> set (label_positions 0 (fa_body func))"
    using occurs_label [OF assms(3), of 0] assms(4,5) by auto
  then have pos: "label_or_zero (fc_labels ctx) c = of_nat j" "label_or_zero (fc_labels ctx) e = of_nat n"
    using set_labels_unique [OF assms(2)] l by (simp_all add: label_or_zero_def)
  from occurs_code [OF assms(3) out] obtain pre o1 post where
    o: "fun_instrs fd = pre @ o1 @ post" "length pre = k"
      "emit_statements ctx [StTry c e body catch_body ln] = Some (Inr o1)"
    by blast
  then obtain out1 out2 where
    s: "emit_statements ctx body = Some (Inr out1)" "emit_statements ctx catch_body = Some (Inr out2)"
      "o1 = [instr_new (OTry OpTry) [OpdLabelTarget (of_nat j), OpdLabelTarget (of_nat n)]] @ out1
        @ [instr_new (OTry OpCatch) [OpdLabelTarget (of_nat n)]] @ out2 @ [instr_no_args (OTry OpEndTry)]"
    by (auto simp: Let_def pos)
  from emitted_length [OF s(1)] emitted_length [OF s(2)]
  have "length out1 = code_size body" "length out2 = code_size catch_body" .
  with o(1,2) s(3) assms(4,5) show ?thesis
    by (simp add: nth_append nth_Cons')
qed

lemma demo_try_occurs:
  "occurs (fa_body demo_func) 1 (StTry (ascii ''__catch_3'') (ascii ''__endtry_3'')
     [StInstr \<lparr>in_mnemonic = ascii ''CALL'', in_operands = [AvIdent (ascii ''Main''), AvNull], in_line = 4\<rparr>]
     [StInstr \<lparr>in_mnemonic = ascii ''HALT'', in_operands = [], in_line = 6\<rparr>] 3)"
  using occurs_later [OF occurs_later [OF occurs_here, of "StInstr \<lparr>in_mnemonic = ascii ''JMP'',
      in_operands = [AvIdent (ascii ''a'')], in_line = 2\<rparr>"], of "StLabel (ascii ''a'') 1"]
  by (simp add: demo_func_def)

text \<open>The labels of a TRY block are made from its line, so two blocks on one line share them: here the
  first TRY and CATCH lead to the CATCH and ENDTRY of the second block.\<close>

theorem same_line_try_blocks_collide:
  "emit_function Map.empty Map.empty
     \<lparr>fa_name = name, fa_params = [], fa_body = [try_block ln [] [], try_block ln [] []], fa_line = ln\<rparr>
   = Some (Inr \<lparr>fun_name = name, fun_params = [], fun_instrs =
       [instr_new (OTry OpTry) [OpdLabelTarget 4, OpdLabelTarget 5],
        instr_new (OTry OpCatch) [OpdLabelTarget 5], instr_no_args (OTry OpEndTry),
        instr_new (OTry OpTry) [OpdLabelTarget 4, OpdLabelTarget 5],
        instr_new (OTry OpCatch) [OpdLabelTarget 5], instr_no_args (OTry OpEndTry)]\<rparr>)"
  by (simp add: emit_function_def try_block_def func_ctx_new_def label_or_zero_def Let_def)

subsection \<open>Calls\<close>

lemma position_unique:
  assumes "distinct (map f xs)" "i < length xs"
  shows "position (\<lambda>x. f x = f (xs ! i)) xs = Some i"
  using assms by (auto simp: position_Some distinct_conv_nth)

text \<open>C10. In a program of at most 65536 functions with distinct names, a call of any of the three kinds
  is compiled to a reference to the function it names.\<close>

theorem calls_reach_their_function:
  assumes "emit prog = Some (Inr p)" "distinct (map fa_name (pa_functions prog))"
    and "length (pa_functions prog) \<le> 65536" "m < length (pa_functions prog)"
    and "occurs (fa_body (pa_functions prog ! m)) j (StInstr ins)"
    and "in_mnemonic ins \<in> ascii ` {''CALL'', ''ASYNC_CALL'', ''TAIL_CALL''}"
    and "nth_opt (in_operands ins) 0 = Some (AvIdent name)"
  shows "\<exists>i. hd (operands (fun_instrs (prog_functions p ! m) ! j)) = OpdFuncRef i
    \<and> get_function_index p name = Some (unat i)"
proof -
  have all: "list_all2 (\<lambda>func fd. emit_function (define_map prog) (func_index_map (pa_functions prog)) func
      = Some (Inr fd)) (pa_functions prog) (prog_functions p)"
    by (rule emit_functions [OF assms(1)])
  then have "emit_function (define_map prog) (func_index_map (pa_functions prog)) (pa_functions prog ! m)
      = Some (Inr (prog_functions p ! m))"
    by (rule list_all2_nthD) (rule assms(4))
  then show ?thesis
  proof (rule emit_functionE)
    fix ctx
    assume e: "emit_statements ctx (fa_body (pa_functions prog ! m)) = Some (Inr (fun_instrs (prog_functions p ! m)))"
      and c: "fc_func_index ctx = func_index_map (pa_functions prog)"
    from occurs_instr [OF e assms(5)]
    have i: "emit_instr ctx ins = Some (Inr (fun_instrs (prog_functions p ! m) ! j))" ..
    from emit_instr_arm [OF i] assms(6,7) c
    obtain w where w: "func_index_map (pa_functions prog) name = Some w"
      "hd (operands (fun_instrs (prog_functions p ! m) ! j)) = OpdFuncRef w"
      by (auto simp: call_arms func_op_Inr dest!: sym [of "_ # _"])
    from func_index_map_Some [OF w(1)] obtain i where
      i: "i < length (pa_functions prog)" "fa_name (pa_functions prog ! i) = name" "w = of_nat i"
      by blast
    have "unat w = i"
      using i(1,3) assms(3) by (simp add: unat_of_nat)
    have names: "map fun_name (prog_functions p) = map fa_name (pa_functions prog)"
      using all by (induction rule: list_all2_induct) (auto simp: emit_function_name)
    with assms(2) have "distinct (map fun_name (prog_functions p))"
      by simp
    moreover have "i < length (prog_functions p)" "fun_name (prog_functions p ! i) = name"
      using i(1,2) names by (metis length_map, metis length_map nth_map)
    ultimately have "get_function_index p name = Some i"
      using position_unique [of fun_name "prog_functions p" i] by (simp add: get_function_index_def)
    with w(2) \<open>unat w = i\<close> show ?thesis
      by simp
  qed
qed

lemma calls_reach_their_function_witness:
  "\<exists>i. hd (operands (fun_instrs (prog_functions demo_program ! 0) ! 2)) = OpdFuncRef i
    \<and> get_function_index demo_program (ascii ''Main'') = Some (unat i)"
proof -
  define jmp where
    "jmp = \<lparr>in_mnemonic = ascii ''JMP'', in_operands = [AvIdent (ascii ''a'')], in_line = 2\<rparr>"
  define call where "call = \<lparr>in_mnemonic = ascii ''CALL'', in_operands = [AvIdent (ascii ''Main''), AvNull],
    in_line = 4\<rparr>"
  have "occurs (fa_body demo_func) 2 (StInstr call)"
    using occurs_later [OF occurs_later [OF occurs_body [OF occurs_here], of "StInstr jmp"],
        of "StLabel (ascii ''a'') 1"]
    by (simp add: demo_func_def call_def jmp_def numeral_2_eq_2)
  with calls_reach_their_function [OF demo_emitted, of 0 2 call "ascii ''Main''"] show ?thesis
    by (simp add: demo_ast_def call_def)
qed

end
