(* ===== verification/Fasm_Defines.thy ===== *)
theory Fasm_Defines
  imports Fasm_Targets
begin

text \<open>
  What names resolve to, and when following DEFINEs ends.  \<open>chain defs k v\<close> is the value reached
  from \<open>v\<close> by \<open>k\<close> DEFINEs.
\<close>

subsection \<open>Chains of DEFINEs\<close>

fun chain :: "def_map \<Rightarrow> nat \<Rightarrow> ast_value \<Rightarrow> ast_value option" where
  "chain defs 0 v = Some v"
| "chain defs (Suc k) v = (case v of
      AvIdent name \<Rightarrow> (case defs name of Some d \<Rightarrow> chain defs k d | None \<Rightarrow> None)
    | _ \<Rightarrow> None)"

definition ends :: "def_map \<Rightarrow> ast_value \<Rightarrow> bool" where
  "ends defs v \<longleftrightarrow> (\<exists>k. chain defs k v = None)"

lemma ends_induct [consumes 1, case_names step]:
  assumes "ends defs v"
    and step: "\<And>v. (\<And>name d. v = AvIdent name \<Longrightarrow> defs name = Some d \<Longrightarrow> P d) \<Longrightarrow> P v"
  shows "P v"
proof -
  obtain k where "chain defs k v = None"
    using assms(1) by (auto simp: ends_def)
  then show ?thesis
  proof (induction k arbitrary: v)
    case (Suc k)
    show ?case
    proof (rule step)
      fix name d
      assume "v = AvIdent name" "defs name = Some d"
      with Suc.prems have "chain defs k d = None"
        by simp
      then show "P d"
        by (rule Suc.IH)
    qed
  qed simp
qed

lemma resolve_u32_ends: "ends defs v \<Longrightarrow> resolve_u32 defs v \<noteq> None"
  by (induction rule: ends_induct) (subst resolve_u32.simps, auto split: ast_value.split option.split)

lemma resolve_syscall_ends: "ends defs v \<Longrightarrow> resolve_syscall_id defs ln v \<noteq> None"
  by (induction rule: ends_induct) (subst resolve_syscall_id.simps, auto split: ast_value.split option.split)

lemma value_operand_ends: "ends defs v \<Longrightarrow> ast_value_to_operand defs locals v \<noteq> None"
  by (induction rule: ends_induct)
     (subst ast_value_to_operand.simps, auto split: ast_value.split option.split)

lemma ends_step: "v = AvIdent name \<Longrightarrow> defs name = Some d \<Longrightarrow> ends defs d \<Longrightarrow> ends defs v"
proof -
  assume "v = AvIdent name" "defs name = Some d" "ends defs d"
  moreover then obtain k where "chain defs k d = None"
    by (auto simp: ends_def)
  ultimately have "chain defs (Suc k) v = None"
    by simp
  then show "ends defs v"
    unfolding ends_def by blast
qed

lemma ends_here: "(\<And>name d. v = AvIdent name \<Longrightarrow> defs name \<noteq> Some d) \<Longrightarrow> ends defs v"
  unfolding ends_def by (rule exI [of _ "Suc 0"]) (auto split: ast_value.split option.split)

lemma resolve_u32_chain:
  assumes "resolve_u32 defs v = Some n"
  shows "ends defs v"
proof (rule resolve_u32.raw_induct [rotated, OF assms, of "\<lambda>defs v n. ends defs v"], goal_cases)
  case (1 rec defs v n)
  show ?case
  proof (cases "\<exists>name d. v = AvIdent name \<and> defs name = Some d")
    case True
    then obtain name d where v: "v = AvIdent name" "defs name = Some d"
      by blast
    with 1 have "ends defs d"
      by auto
    with v show ?thesis
      by (rule ends_step)
  qed (auto intro: ends_here)
qed

text \<open>Resolving the key of a PARAM or of a field access returns exactly when the chain of DEFINEs that
  starts with it ends.\<close>

theorem resolve_u32_returns_iff: "resolve_u32 defs v \<noteq> None \<longleftrightarrow> (\<exists>k. chain defs k v = None)"
  using resolve_u32_ends resolve_u32_chain by (auto simp: ends_def)

subsection \<open>The emitter returns\<close>

definition answers :: "'a option \<Rightarrow> bool" where
  "answers m \<longleftrightarrow> m \<noteq> None"

lemma answers_intros [intro!]:
  "answers (Some x)" "answers m \<Longrightarrow> (\<And>x. answers (f x)) \<Longrightarrow> answers (em_bind m f)"
  "answers m' \<Longrightarrow> answers (map_option g m')" "answers m' \<Longrightarrow> answers (em_total m')"
  by (auto simp: answers_def em_bind_def em_total_def split: option.split sum.split)

lemma answers_em_list [intro!]: "(\<And>x. answers (f x)) \<Longrightarrow> answers (em_list f xs)"
  by (induction xs) auto

lemma resolvers_answer:
  assumes "\<And>v. ends defs v"
  shows "answers (resolve_u32 defs v)" "answers (resolve_syscall_id defs ln v)"
    "answers (ast_value_to_operand defs locals v)"
  by (simp_all add: answers_def resolve_u32_ends resolve_syscall_ends value_operand_ends assms
      del: not_None_eq)

lemma read_operand_answers:
  "(\<And>v. ends (fc_defines ctx) v) \<Longrightarrow> answers (arm_operand ctx ins r)"
  by (cases r) (auto simp: op_at_def slot_at_def val_at_def ast_val_type_def label_op_def key_op_def
      func_op_def ast_ident_def filter_op_def resolvers_answer split: option.split ast_value.split)

lemma emit_instr_answers: "(\<And>v. ends (fc_defines ctx) v) \<Longrightarrow> answers (emit_instr ctx ins)"
  by (auto simp: emit_instr_def intro!: read_operand_answers split: option.split)

lemma emit_statements_answers:
  "(\<And>v. ends (fc_defines ctx) v) \<Longrightarrow> answers (emit_statements ctx ss)"
  by (induction ss rule: code_size.induct) (auto intro!: emit_instr_answers simp: Let_def)

lemma emit_function_answers:
  assumes "\<And>v. ends defs v"
  shows "answers (emit_function defs idx func)"
proof -
  have "answers (emit_param defs p)" for p
    by (auto simp: emit_param_def resolvers_answer assms)
  then show ?thesis
    by (auto simp: emit_function_def func_ctx_new_def assms intro!: emit_statements_answers
        split: prod.split)
qed

text \<open>C32. The emitter returns on every program in which every chain of DEFINEs ends.\<close>

theorem emit_returns:
  assumes "\<And>v. \<exists>k. chain (define_map prog) k v = None"
  shows "emit prog \<noteq> None"
proof -
  have e: "ends (define_map prog) v" for v
    unfolding ends_def by (rule assms)
  have "answers (emit_reserve (define_map prog) gr)" for gr
    by (auto simp: emit_reserve_def resolvers_answer e)
  then have "answers (emit prog)"
    unfolding emit_def Let_def by (auto intro!: emit_function_answers e)
  then show ?thesis
    by (simp add: answers_def)
qed

lemma emit_returns_witness: "emit demo_ast \<noteq> None"
proof (rule emit_returns)
  show "\<exists>k. chain (define_map demo_ast) k v = None" for v
    by (rule exI [of _ "Suc 0"]) (simp add: demo_ast_def define_map_def split: ast_value.split)
qed

text \<open>A DEFINE that names itself passes the validator and makes the emitter run forever (in the source,
  until the stack overflows), when a RESERVE at the top level uses it.\<close>

definition cycle_demo :: program_ast where
  "cycle_demo = \<lparr>pa_defines = [\<lparr>def_name = ascii ''N'', def_value = AvIdent (ascii ''N''), def_line = 1\<rparr>],
     pa_imports = [],
     pa_reserves = [\<lparr>gr_index = 0, gr_type = TyInt32, gr_init = AvIdent (ascii ''N''), gr_line = 2\<rparr>],
     pa_functions = [\<lparr>fa_name = ascii ''Main'', fa_params = [], fa_body = [], fa_line = 3\<rparr>]\<rparr>"

lemma self_define_loops:
  assumes "defs name = Some (AvIdent name)" "built_in_slot name = None" "\<not> starts_with_t name"
    and "locals name = None"
  shows "ast_value_to_operand defs locals (AvIdent name) = None"
proof (rule ccontr)
  assume "ast_value_to_operand defs locals (AvIdent name) \<noteq> None"
  then obtain y where y: "ast_value_to_operand defs locals (AvIdent name) = Some y"
    by blast
  have "\<not> (v = AvIdent name \<and> d = defs \<and> l = locals)"
    if "ast_value_to_operand d l v = Some y" for d l v y
  proof (rule ast_value_to_operand.raw_induct [rotated, OF that, of "\<lambda>d l v y.
      \<not> (v = AvIdent name \<and> d = defs \<and> l = locals)"], goal_cases)
    case (1 rec d l v y)
    show ?case
    proof
      assume "v = AvIdent name \<and> d = defs \<and> l = locals"
      with 1(2) assms have "rec defs locals (AvIdent name) = Some y"
        by simp
      from 1(1) [OF this] show False
        by simp
    qed
  qed
  with y show False
    by blast
qed


subsection \<open>What names resolve to\<close>

text \<open>A name that is no local, no DEFINE and no built-in, for example the name of a PARAM, is refused
  as a target, but as an operand that is read it is local slot 0, without any error.\<close>

theorem unresolved_name_reads_slot_zero:
  assumes "built_in_slot name = None" "\<not> starts_with_t name" "fc_locals ctx name = None"
    and "fc_defines ctx name = None" "parse_i64_text name = None"
  shows "ast_value_to_operand (fc_defines ctx) (fc_locals ctx) (AvIdent name) = Some (OpdSlot (SlLocal 0))
    \<and> ast_val_to_slot ctx (AvIdent name) = None"
  using assms by (subst ast_value_to_operand.simps) (simp add: ast_val_to_slot_def)

lemma unresolved_name_reads_slot_zero_witness:
  "ast_value_to_operand Map.empty Map.empty (AvIdent (ascii ''limit'')) = Some (OpdSlot (SlLocal 0))"
  using unresolved_name_reads_slot_zero [of "ascii ''limit''" "func_ctx_new Map.empty Map.empty"]
  by (simp add: func_ctx_new_def built_in_slot_def built_in_slots_def starts_with_t_def
      parse_i64_text_def ascii_def is_ascii_digit_def)

text \<open>A DEFINE whose name starts with a lower-case t is never looked up: an operand that names it is
  local slot 0 whatever its value, or a TMP slot when the rest of the name is a number up to 15;
  such a number also hides a local of that name.\<close>

theorem t_names_are_not_looked_up:
  assumes "starts_with_t name"
  shows "ast_value_to_operand defs locals (AvIdent name) = Some (OpdSlot (case tmp_number name of
      Some n \<Rightarrow> SlTmp n
    | None \<Rightarrow> (case locals name of Some idx \<Rightarrow> SlLocal idx | None \<Rightarrow> SlLocal 0)))"
proof -
  have "built_in_slot name = None"
    using assms by (auto simp: built_in_slot_def built_in_slots_def starts_with_t_def ascii_def)
  with assms show ?thesis
    by (subst ast_value_to_operand.simps) (simp split: option.split)
qed

lemma t_names_are_not_looked_up_witness:
  "ast_value_to_operand [ascii ''timeout'' \<mapsto> AvInteger 30] Map.empty (AvIdent (ascii ''timeout''))
     = Some (OpdSlot (SlLocal 0))"
proof -
  have "tmp_number (ascii ''timeout'') = None"
    by (simp add: tmp_number_def parse_u8_text_def ascii_def is_ascii_digit_def)
  then show ?thesis
    using t_names_are_not_looked_up [of "ascii ''timeout''"] by (simp add: starts_with_t_def ascii_def)
qed

text \<open>Integer literals are cut to 32 bits: an INT32 holds the low half of the 64 bits that were read.\<close>

theorem integer_literals_wrap:
  "ast_value_to_operand defs locals (AvInteger n) = Some (OpdImm (ImInt32 (ucast n)))
   \<and> ast_value_to_operand defs locals (AvHex m) = Some (OpdImm (ImUint32 (ucast m)))"
  by (simp add: ast_value_to_operand.simps)

end
