(* ===== verification/Fasm_Texts.thy ===== *)
theory Fasm_Texts
  imports Fasm_Parser Fasm_Codegen
begin

text \<open>
  The texts of a compiled program.  Every name and string in a syntax tree is a text of the source:
  the UTF-8 encoding of at most as many scalar values as the source has.  The parser keeps this,
  whatever the property of texts is.
\<close>

subsection \<open>Encoded text is well-formed\<close>

definition is_scalar :: "nat \<Rightarrow> bool" where
  "is_scalar c \<longleftrightarrow> c < 0xD800 \<or> 0xE000 \<le> c \<and> c < 0x110000"

lemma unat_byte: "n < 256 \<Longrightarrow> unat (of_nat n :: u8) = n"
  by (simp add: unat_of_nat)

lemma byte_cmp:
  assumes "n < 256"
  shows "(of_nat n :: u8) < b \<longleftrightarrow> n < unat b" "(of_nat n :: u8) \<le> b \<longleftrightarrow> n \<le> unat b"
    "b \<le> (of_nat n :: u8) \<longleftrightarrow> unat b \<le> n" "(of_nat n :: u8) = b \<longleftrightarrow> n = unat b"
  using unat_byte [OF assms] by (simp_all add: word_le_nat_alt word_less_nat_alt word_unat_eq_iff)

lemma utf8_cont_of_nat: "n < 64 \<Longrightarrow> utf8_cont (of_nat (0x80 + n))"
  by (simp add: utf8_cont_def byte_cmp del: of_nat_add)

lemma utf8_valid_encode:
  assumes "is_scalar c"
  shows "utf8_valid (utf8_encode c @ bs) = utf8_valid bs"
proof -
  consider "c < 0x80" | "0x80 \<le> c" "c < 0x800" | "0x800 \<le> c" "c < 0x10000" | "0x10000 \<le> c" "c < 0x110000"
    using assms by (fastforce simp: is_scalar_def)
  then show ?thesis
  proof cases
    case 1
    then show ?thesis
      by (simp add: utf8_encode_def byte_cmp)
  next
    case 2
    define n m where "n = 0xC0 + c div 64" and "m = 0x80 + c mod 64"
    have "0xC2 \<le> n" "n \<le> 0xDF" "n < 256" "m < 256" "utf8_cont (of_nat m)"
      using 2 utf8_cont_of_nat [of "c mod 64"] by (simp_all add: n_def m_def)
    then show ?thesis
      using 2 by (simp add: utf8_encode_def utf8_next_def utf8_tail2_def byte_cmp
          flip: n_def m_def del: of_nat_add)
  next
    case 3
    define n m k where "n = 0xE0 + c div 4096" and "m = 0x80 + c div 64 mod 64" and "k = 0x80 + c mod 64"
    have e: "utf8_encode c = [of_nat n, of_nat m, of_nat k]"
      using 3 by (simp add: utf8_encode_def n_def m_def k_def del: of_nat_add)
    have n: "0xE0 \<le> n" "n \<le> 0xEF" "n < 256" "m < 256" "0x80 \<le> m" "m \<le> 0xBF"
      using 3 by (simp add: n_def m_def; presburger?)+
    have m: "utf8_cont (of_nat m)" "utf8_cont (of_nat k)"
      using utf8_cont_of_nat [of "c div 64 mod 64"] utf8_cont_of_nat [of "c mod 64"] by (simp_all add: m_def k_def)
    define q where "q = c div 64"
    have q: "c div 4096 = q div 64" "q = 64 * (q div 64) + q mod 64" "32 \<le> q" "q < 0x360 \<or> 0x380 \<le> q"
    proof -
      show "c div 4096 = q div 64"
        by (simp add: q_def div_mult2_eq [symmetric])
      show "q = 64 * (q div 64) + q mod 64"
        by simp
    qed (use 3 assms in \<open>auto simp: q_def is_scalar_def\<close>)
    have "n = 0xE0 \<Longrightarrow> 0xA0 \<le> m" "n = 0xED \<Longrightarrow> m \<le> 0x9F"
      using q by (auto simp: n_def m_def simp flip: q_def)
    then have "utf8_next (of_nat n) (of_nat m # of_nat k # bs) = (True, 3)"
      using n m by (cases "n = 0xE0"; cases "n = 0xED") (simp_all add: utf8_next_def utf8_tail3_def byte_cmp)
    then show ?thesis
      by (simp add: e)
  next
    case 4
    define n m k l where "n = 0xF0 + c div 262144" and "m = 0x80 + c div 4096 mod 64"
      and "k = 0x80 + c div 64 mod 64" and "l = 0x80 + c mod 64"
    have e: "utf8_encode c = [of_nat n, of_nat m, of_nat k, of_nat l]"
      using 4 by (simp add: utf8_encode_def n_def m_def k_def l_def del: of_nat_add)
    have n: "0xF0 \<le> n" "n \<le> 0xF4" "n < 256" "m < 256" "0x80 \<le> m" "m \<le> 0xBF"
      using 4 by (simp add: n_def m_def; presburger?)+
    have m: "utf8_cont (of_nat m)" "utf8_cont (of_nat k)" "utf8_cont (of_nat l)"
      using utf8_cont_of_nat [of "c div 4096 mod 64"] utf8_cont_of_nat [of "c div 64 mod 64"]
        utf8_cont_of_nat [of "c mod 64"] by (simp_all add: m_def k_def l_def)
    define q where "q = c div 4096"
    have q: "c div 262144 = q div 64" "q = 64 * (q div 64) + q mod 64" "16 \<le> q" "q < 0x110"
    proof -
      show "c div 262144 = q div 64"
        by (simp add: q_def div_mult2_eq [symmetric])
      show "q = 64 * (q div 64) + q mod 64"
        by simp
    qed (use 4 in \<open>auto simp: q_def\<close>)
    have "n = 0xF0 \<Longrightarrow> 0x90 \<le> m" "n = 0xF4 \<Longrightarrow> m \<le> 0x8F"
      using q by (auto simp: n_def m_def simp flip: q_def)
    then have "utf8_next (of_nat n) (of_nat m # of_nat k # of_nat l # bs) = (True, 4)"
      using n m by (cases "n = 0xF0"; cases "n = 0xF4") (simp_all add: utf8_next_def utf8_tail4_def byte_cmp)
    then show ?thesis
      by (simp add: e)
  qed
qed

text \<open>The encoding of at most \<open>n\<close> scalar values.\<close>

definition text_upto :: "nat \<Rightarrow> bytes \<Rightarrow> bool" where
  "text_upto n s \<longleftrightarrow> (\<exists>cs. s = utf8 cs \<and> list_all is_scalar cs \<and> length cs \<le> n)"

lemma text_upto_append: "text_upto m s \<Longrightarrow> text_upto n t \<Longrightarrow> text_upto (m + n) (s @ t)"
proof -
  assume "text_upto m s" "text_upto n t"
  then obtain cs ds where "s = utf8 cs" "list_all is_scalar cs" "length cs \<le> m"
    "t = utf8 ds" "list_all is_scalar ds" "length ds \<le> n"
    by (auto simp: text_upto_def)
  then show ?thesis
    unfolding text_upto_def by (intro exI [of _ "cs @ ds"]) (simp add: utf8_def)
qed

lemma text_upto_mono: "text_upto m s \<Longrightarrow> m \<le> n \<Longrightarrow> text_upto n s"
  by (auto simp: text_upto_def)

lemma text_upto_utf8: "list_all is_scalar cs \<Longrightarrow> text_upto (length cs) (utf8 cs)"
  by (auto simp: text_upto_def)

lemma text_upto_encode: "is_scalar c \<Longrightarrow> text_upto 1 (utf8_encode c)"
  using text_upto_utf8 [of "[c]"] by (simp add: utf8_def)

lemma text_upto_escape: "text_upto 1 (escape c)"
proof -
  have "text_upto 1 [of_nat d]" if "d < 128" for d
    using text_upto_encode [of d] that by (simp add: utf8_encode_def is_scalar_def)
  from this [of 10] this [of 9] this [of 34] this [of 92] have
    "text_upto 1 [10]" "text_upto 1 [9]" "text_upto 1 [34]" "text_upto 1 [92]"
    by simp_all
  moreover have "text_upto 1 []"
    using text_upto_utf8 [of "[]"] by (auto simp: utf8_def elim: text_upto_mono)
  ultimately show ?thesis
    by (simp add: escape_def)
qed

lemma text_upto_valid: "text_upto n s \<Longrightarrow> utf8_valid s \<and> length s \<le> 4 * n"
proof -
  assume "text_upto n s"
  then obtain cs where cs: "s = utf8 cs" "list_all is_scalar cs" "length cs \<le> n"
    by (auto simp: text_upto_def)
  have "utf8_valid (utf8 cs)"
    using cs(2) by (induction cs) (simp_all add: utf8_def utf8_valid_encode)
  moreover have "length (utf8 cs) \<le> 4 * length cs"
    by (induction cs) (auto simp: utf8_def utf8_encode_def)
  ultimately show ?thesis
    using cs by simp
qed

subsection \<open>The lexer\<close>

definition tok_text :: "(bytes \<Rightarrow> bool) \<Rightarrow> token \<Rightarrow> bool" where
  "tok_text P t = (case tok_kind t of TkString s \<Rightarrow> P s | TkIdent s \<Rightarrow> P s | _ \<Rightarrow> True)"

lemma tok_text_new [simp]:
  "tok_text P (token_new (TkString s) ln) = P s" "tok_text P (token_new (TkIdent s) ln) = P s"
  "tok_text P (token_new (TkInteger i) ln)" "tok_text P (token_new (TkHex h) ln)"
  "tok_text P (token_new (TkFloat f) ln)" "tok_text P (token_new TkComma ln)"
  "tok_text P (token_new TkAmpersand ln)" "tok_text P (token_new TkDot ln)"
  "tok_text P (token_new TkEof ln)"
  by (simp_all add: tok_text_def token_new_def)

lemma lex_string_text:
  "lex_string cs s = Some (t, rest) \<Longrightarrow> list_all is_scalar cs \<Longrightarrow> text_upto n s
     \<Longrightarrow> text_upto (n + length cs) t \<and> set rest \<subseteq> set cs"
proof (induction cs s arbitrary: n rule: lex_string.induct)
  case (3 c e cs s)
  consider "c = 34" | "c = 92" | "c \<noteq> 34" "c \<noteq> 92"
    by blast
  then show ?case
  proof cases
    case 1
    with 3 show ?thesis
      by (auto elim: text_upto_mono)
  next
    case 2
    with "3.IH"(1) [of "n + 1"] "3.prems" text_upto_append [OF _ text_upto_escape [of e]] show ?thesis
      by (auto elim!: text_upto_mono)
  next
    case 3
    with "3.IH"(2) [of "n + 1"] "3.prems" text_upto_append [OF _ text_upto_encode [of c]] show ?thesis
      by (auto elim!: text_upto_mono)
  qed
qed (auto split: if_splits elim: text_upto_mono)

lemma lex_number_rest:
  "lex_number ln cs = Inr (k, rest) \<Longrightarrow> tok_text P (token_new k ln) \<and> set rest \<subseteq> set cs"
proof -
  have d: "set (dropWhile Q xs) \<subseteq> set xs" "set (tl xs) \<subseteq> set xs" for Q and xs :: source_text
    by (auto dest: set_dropWhileD) (cases xs; simp)
  have dec: "lex_decimal ln neg z xs = Inr (k, rest) \<Longrightarrow> tok_text P (token_new k ln) \<and> set rest \<subseteq> set xs"
    for neg z xs
    using d(1) [of is_digit_char xs] d(1) [of is_digit_char "tl (dropWhile is_digit_char xs)"]
      d(2) [of "dropWhile is_digit_char xs"]
    by (auto simp: lex_decimal_def Let_def split: if_splits option.splits)
  have hex: "lex_hex ln xs = Inr (k, rest) \<Longrightarrow> tok_text P (token_new k ln) \<and> set rest \<subseteq> set xs" for xs
    using d(1) [of is_hex_char xs] by (auto simp: lex_hex_def split: option.splits)
  have uns: "lex_unsigned ln neg xs = Inr (k, rest) \<Longrightarrow> tok_text P (token_new k ln) \<and> set rest \<subseteq> set xs"
    for neg xs
    using dec hex d(2) [of xs] d(2) [of "tl xs"] unfolding lex_unsigned_def
    by (fastforce split: if_splits)
  show "lex_number ln cs = Inr (k, rest) \<Longrightarrow> tok_text P (token_new k ln) \<and> set rest \<subseteq> set cs"
    using uns d(2) [of cs] unfolding lex_number_def by (fastforce split: if_splits)
qed

lemma lex_step_text:
  assumes "lex_step u ln c cs = Inr (ts, ln', rest)" "list_all is_scalar (c # cs)"
  shows "list_all (tok_text (text_upto (Suc (length cs)))) ts \<and> list_all is_scalar rest"
proof -
  have sub: "list_all is_scalar r" if "set r \<subseteq> set (c # cs)" for r
    using that assms(2) unfolding list_all_iff by blast
  have ident: "text_upto (Suc (length cs)) (utf8 (takeWhile Q (c # cs)))"
    "list_all is_scalar (dropWhile Q (c # cs))" for Q
  proof -
    have "list_all is_scalar (takeWhile Q (c # cs))"
      using assms(2) by (auto simp: list_all_iff dest: set_takeWhileD)
    then show "text_upto (Suc (length cs)) (utf8 (takeWhile Q (c # cs)))"
      by (rule text_upto_mono [OF text_upto_utf8]) (use length_takeWhile_le [of Q "c # cs"] in simp)
    show "list_all is_scalar (dropWhile Q (c # cs))"
      by (rule sub) (auto dest: set_dropWhileD)
  qed
  have str: "text_upto (Suc (length cs)) s \<and> list_all is_scalar r" if "lex_string cs [] = Some (s, r)" for s r
    using sub [of r] lex_string_text [OF that, of 1] assms(2) text_upto_mono [OF text_upto_utf8 [of "[]"], of 1]
    by (auto simp: utf8_def)
  have num: "tok_text P (token_new k ln) \<and> list_all is_scalar r" if "lex_number ln (c # cs) = Inr (k, r)" for P k r
    using lex_number_rest [OF that] sub by blast
  have "list_all is_scalar (snd (skip_comment ln cs))"
    by (rule sub) (auto simp: skip_comment_def split: list.split dest!: arg_cong [of _ _ set] dest: set_dropWhileD)
  with ident str num assms show ?thesis
    unfolding lex_step_def
    by (auto split: if_splits list.splits option.splits sum.splits simp del: takeWhile.simps dropWhile.simps)
qed

lemma tok_text_mono: "tok_text P t \<Longrightarrow> (\<And>s. P s \<Longrightarrow> Q s) \<Longrightarrow> tok_text Q t"
  by (auto simp: tok_text_def split: token_kind.splits)

lemma lex_loop_text:
  "lex_loop u ln cs = Inr ts \<Longrightarrow> list_all is_scalar cs \<Longrightarrow> length cs \<le> n
     \<Longrightarrow> list_all (tok_text (text_upto n)) ts"
proof (induction u ln cs arbitrary: ts rule: lex_loop.induct)
  case (2 u ln c cs)
  then obtain ts1 ln' rest ts2 where s: "lex_step u ln c cs = Inr (ts1, ln', rest)"
    "lex_loop u ln' rest = Inr ts2" "ts = ts1 @ ts2"
    by (auto split: sum.splits)
  have "list_all (tok_text (text_upto n)) ts1"
    using lex_step_text [OF s(1) "2.prems"(2)] "2.prems"(3)
    by (auto simp: list_all_iff elim!: tok_text_mono text_upto_mono)
  moreover have "list_all (tok_text (text_upto n)) ts2"
    using "2.IH" [OF s(1) refl refl s(2)] lex_step_text [OF s(1) "2.prems"(2)]
      lex_step_shorter [OF s(1)] "2.prems"(3) by simp
  ultimately show ?case
    by (simp add: s(3))
qed simp

subsection \<open>The parser\<close>

text \<open>\<open>gives P Q m\<close>: on tokens with texts in \<open>P\<close>, what \<open>m\<close> gives is in \<open>Q\<close>.\<close>

definition gives :: "(bytes \<Rightarrow> bool) \<Rightarrow> ('a \<Rightarrow> bool) \<Rightarrow> 'a parser \<Rightarrow> bool" where
  "gives P Q m \<longleftrightarrow> (\<forall>z ts x ts'. list_all (tok_text P) ts \<longrightarrow> m z ts = Inr (x, ts')
     \<longrightarrow> Q x \<and> list_all (tok_text P) ts')"

lemma givesD:
  "gives P Q m \<Longrightarrow> list_all (tok_text P) ts \<Longrightarrow> m z ts = Inr (x, ts') \<Longrightarrow> Q x \<and> list_all (tok_text P) ts'"
  unfolding gives_def by blast

lemma gives_bind:
  assumes "gives P R m" "\<And>x. R x \<Longrightarrow> gives P Q (f x)"
  shows "gives P Q (ps_bind m f)"
  unfolding gives_def
proof (intro allI impI)
  fix z ts y ts'
  assume ts: "list_all (tok_text P) ts" and "ps_bind m f z ts = Inr (y, ts')"
  then obtain x us where x: "m z ts = Inr (x, us)" "f x z us = Inr (y, ts')"
    by (auto simp: ps_bind_def split: sum.splits)
  from givesD [OF assms(1) ts x(1)] have "R x" "list_all (tok_text P) us"
    by simp_all
  from givesD [OF assms(2) [OF this(1)] this(2) x(2)] show "Q y \<and> list_all (tok_text P) ts'" .
qed

lemma gives_basic:
  "Q x \<Longrightarrow> gives P Q (ps_return x)" "gives P Q (ps_fail e)"
  "gives P (tok_text P) peek" "gives P (tok_text P) advance_token"
  by (auto simp: gives_def ps_return_def ps_fail_def peek_def advance_token_def split: list.splits)

lemma gives_weaken: "gives P Q m \<Longrightarrow> (\<And>x. Q x \<Longrightarrow> R x) \<Longrightarrow> gives P R m"
  unfolding gives_def by blast

lemmas gives_steps = gives_bind [OF gives_basic(3)] gives_bind [OF gives_basic(4)]

lemma gives_items:
  "gives P P expect_ident" "gives P (\<lambda>_. True) expect_comma" "gives P P expect_string"
  "gives P (text_of P) parse_value" "gives P (\<lambda>_. True) parse_type" "gives P (\<lambda>_. True) parse_u32"
  "gives P (\<lambda>_. True) parse_u8"
proof -
  show i: "gives P P expect_ident" and "gives P (\<lambda>_. True) expect_comma" "gives P P expect_string"
    by (auto simp: expect_ident_def expect_comma_def expect_string_def tok_text_def
        intro!: gives_steps gives_basic split: token_kind.splits)
  show "gives P (text_of P) parse_value"
    unfolding parse_value_def
    by (rule gives_steps)
       (auto simp: tok_text_def text_of_def intro!: gives_bind [OF i] gives_basic split: token_kind.splits)
  show "gives P (\<lambda>_. True) parse_type" and u: "gives P (\<lambda>_. True) parse_u32"
    by (auto simp: parse_type_def parse_u32_def intro!: gives_steps gives_basic
        split: token_kind.splits option.splits)
  show "gives P (\<lambda>_. True) parse_u8"
    by (auto simp: parse_u8_def intro!: gives_bind [OF u] gives_basic)
qed

lemma gives_operand: "gives P (text_of P) parse_operand"
  unfolding parse_operand_def
  by (rule gives_steps)
     (auto simp: text_of_def intro!: gives_steps gives_bind [OF gives_items(1)] gives_basic gives_items)

lemma gives_operand_list: "gives P (list_all (text_of P)) parse_operand_list"
proof -
  have "list_all (text_of P) vs \<and> list_all (tok_text P) ts'"
    if "parse_operand_list z ts = Inr (vs, ts')" "list_all (tok_text P) ts" for z ts vs ts'
    using that
  proof (induction z ts arbitrary: vs ts' rule: parse_operand_list.induct)
    case (1 z ts)
    show ?case
    proof (cases "ts = [] \<or> ends_operands (hd ts)")
      case True
      with "1.prems" show ?thesis
        by (subst (asm) parse_operand_list.simps) auto
    next
      case False
      with "1.prems"(1) obtain v us where v: "parse_operand z ts = Inr (v, us)"
        by (subst (asm) parse_operand_list.simps) (auto split: sum.splits)
      from givesD [OF gives_operand "1.prems"(2) v]
      have us: "text_of P v" "list_all (tok_text P) us"
        by simp_all
      show ?thesis
      proof (cases "us \<noteq> [] \<and> tok_kind (hd us) = TkComma")
        case True
        with False v "1.prems"(1) obtain ws
          where ws: "parse_operand_list z (tl us) = Inr (ws, ts')" "vs = v # ws"
          by (subst (asm) parse_operand_list.simps) (auto split: sum.splits)
        from "1.IH" [OF False v refl True ws(1)] us ws(2) show ?thesis
          by (auto intro: list_all_tl)
      next
        case no_comma: False
        with False v "1.prems"(1) us show ?thesis
          by (subst (asm) parse_operand_list.simps) auto
      qed
    qed
  qed
  then show ?thesis
    by (simp add: gives_def)
qed

subsection \<open>Statements, functions and programs\<close>

definition stmts_text :: "(bytes \<Rightarrow> bool) \<Rightarrow> statement list \<Rightarrow> bool" where
  "stmts_text P ss \<longleftrightarrow> list_all (\<lambda>ins. list_all (text_of P) (in_operands ins)) (instrs_in ss)"

definition func_text :: "(bytes \<Rightarrow> bool) \<Rightarrow> func_ast \<Rightarrow> bool" where
  "func_text P f \<longleftrightarrow>
     P (fa_name f) \<and> list_all (\<lambda>p. P (pd_name p)) (fa_params f) \<and> stmts_text P (fa_body f)"

definition ast_text :: "(bytes \<Rightarrow> bool) \<Rightarrow> program_ast \<Rightarrow> bool" where
  "ast_text P prog \<longleftrightarrow> list_all (\<lambda>d. text_of P (def_value d)) (pa_defines prog)
     \<and> list_all (\<lambda>g. text_of P (gr_init g)) (pa_reserves prog) \<and> list_all (func_text P) (pa_functions prog)"

lemma instrs_in_append [simp]: "instrs_in (ss @ ts) = instrs_in ss @ instrs_in ts"
  by (induction ss rule: instrs_in.induct) simp_all

lemma stmts_text_simps [simp]:
  "stmts_text P []" "stmts_text P (ss @ ts) \<longleftrightarrow> stmts_text P ss \<and> stmts_text P ts"
  "stmts_text P [StTry c e body catch_body ln] \<longleftrightarrow> stmts_text P body \<and> stmts_text P catch_body"
  "stmts_text P [StInstr ins] \<longleftrightarrow> list_all (text_of P) (in_operands ins)"
  "stmts_text P [StLocal d]" "stmts_text P [StLabel name ln]"
  by (simp_all add: stmts_text_def)

abbreviation gives_statement :: "(bytes \<Rightarrow> bool) \<Rightarrow> statement parser \<Rightarrow> bool" where
  "gives_statement P m \<equiv> gives P (\<lambda>s. stmts_text P [s]) m"

lemmas gives_ident = gives_bind [OF gives_items(1)]
  and gives_comma = gives_bind [OF gives_items(2)]
  and gives_string = gives_bind [OF gives_items(3)]
  and gives_value = gives_bind [OF gives_items(4)]
  and gives_type = gives_bind [OF gives_items(5)]
  and gives_u32 = gives_bind [OF gives_items(6)]
  and gives_u8 = gives_bind [OF gives_items(7)]
  and gives_operands = gives_bind [OF gives_operand_list]

lemma gives_local: "gives_statement P (parse_local ln)"
  unfolding parse_local_def
  by (intro gives_steps gives_u8 gives_comma gives_type gives_ident gives_basic) simp

lemma gives_label: "gives_statement P (parse_label ln)"
  unfolding parse_label_def by (intro gives_steps gives_ident gives_basic) simp

lemma gives_instr: "gives_statement P (parse_instr kw ln)"
  unfolding parse_instr_def
  by (rule gives_steps) (auto intro!: gives_ident gives_operands gives_basic)

lemma gives_statements:
  "gives_statement P (parse_statement n)"
  "stmts_text P body \<Longrightarrow> stmts_text P catch_body \<Longrightarrow> gives_statement P (parse_try_block n ln c body catch_body)"
proof (induction n arbitrary: ln c body catch_body)
  case (Suc n)
  {
    case 1
    show ?case
      unfolding parse_statement.simps
      by (rule gives_steps)
         (auto split: token_kind.split intro!: gives_steps(2) Suc.IH(2) gives_local gives_label
           gives_instr gives_basic)
  next
    case 2
    then show ?case
      unfolding parse_try_block.simps
      by (intro gives_steps(1))
         (auto simp: try_block_def intro!: gives_steps(2) Suc.IH(2) gives_bind [OF Suc.IH(1)] gives_basic)
  }
qed (simp_all add: gives_basic)

lemma gives_param: "gives P (\<lambda>p. P (pd_name p)) parse_param"
  unfolding parse_param_def
  by (intro gives_steps gives_value gives_comma gives_type gives_ident)
     (auto intro: gives_basic)

lemma gives_func_body:
  "P name \<Longrightarrow> list_all (\<lambda>p. P (pd_name p)) params \<Longrightarrow> stmts_text P body
     \<Longrightarrow> gives P (func_text P) (parse_func_body n ln name params body)"
proof (induction n arbitrary: params body)
  case (Suc n)
  then show ?case
    unfolding parse_func_body.simps
    by (intro gives_steps(1))
       (auto simp: func_text_def intro!: gives_steps(2) Suc.IH gives_bind [OF gives_param]
         gives_bind [OF gives_statements(1)] gives_basic)
qed (simp add: gives_basic)

lemma gives_directives:
  "gives P (func_text P) (parse_function n)" "gives P (\<lambda>d. text_of P (def_value d)) parse_define"
  "gives P (\<lambda>_. True) parse_import" "gives P (\<lambda>g. text_of P (gr_init g)) parse_reserve"
  unfolding parse_function_def parse_define_def parse_import_def parse_reserve_def
  by (intro gives_steps gives_ident gives_comma gives_value gives_string gives_u32 gives_type;
      simp add: gives_basic gives_func_body)+

lemma gives_program: "ast_text P prog \<Longrightarrow> gives P (ast_text P) (parse_program n prog)"
proof (induction n arbitrary: prog)
  case (Suc n)
  then show ?case
    unfolding parse_program.simps
    by (intro gives_steps(1))
       (auto simp: ast_text_def split: token_kind.split intro!: Suc.IH gives_bind [OF gives_directives(1)]
         gives_bind [OF gives_directives(2)] gives_bind [OF gives_directives(3)]
         gives_bind [OF gives_directives(4)] gives_basic)
qed (simp add: gives_basic)

lemma parse_text:
  assumes "parse tokens = Inr prog" "list_all (tok_text P) tokens"
  shows "ast_text P prog"
proof -
  let ?ts = "takeWhile (\<lambda>t. tok_kind t \<noteq> TkEof) tokens"
  obtain z us where p: "parse_program (parse_fuel ?ts) program_ast_default z ?ts = Inr (prog, us)"
    using assms(1) by (auto simp: parse_def Let_def map_sum_def split: list.splits sum.splits)
  have "list_all (tok_text P) ?ts"
    using assms(2) by (auto simp: list_all_iff dest: set_takeWhileD)
  moreover have "ast_text P program_ast_default"
    by (simp add: ast_text_def program_ast_default_def)
  ultimately show ?thesis
    using givesD [OF gives_program _ p] by blast
qed

end
