(* ===== verification/Fasm_Compiler.thy ===== *)
theory Fasm_Compiler
  imports Fasm_Defines Fasm_Texts Fasm_Format Fasm_Behaviour Fasm_Transactions
begin

text \<open>
  The pipeline of \<open>crates/fasm-compiler/src/lib.rs\<close>, and the compiler together with the format and
  the machine: what is compiled can be written to a file and read back, and runs.
\<close>

subsection \<open>The pipeline\<close>

definition compile_tokens :: "token list \<Rightarrow> (compile_error + program) option" where
  "compile_tokens tokens = (case parse tokens of
      Inl e \<Rightarrow> Some (Inl (CeParse e))
    | Inr prog \<Rightarrow> (case validate prog of
        Inl e \<Rightarrow> Some (Inl (CeValidate e))
      | Inr _ \<Rightarrow> map_option (map_sum CeEmit id) (emit prog)))"

definition compile_source :: "char_class \<Rightarrow> source_text \<Rightarrow> (compile_error + program) option" where
  "compile_source u source = (case tokenize u source of
      Inl e \<Rightarrow> Some (Inl (CeLex e))
    | Inr tokens \<Rightarrow> compile_tokens tokens)"

lemma compile_sourceE:
  assumes "compile_source u source = Some (Inr p)"
  obtains tokens prog where "tokenize u source = Inr tokens" "parse tokens = Inr prog"
    "validate prog = Inr ()" "emit prog = Some (Inr p)"
proof -
  from assms obtain tokens prog where t: "tokenize u source = Inr tokens" "parse tokens = Inr prog"
    "validate prog = Inr ()" "map_option (map_sum CeEmit id) (emit prog) = Some (Inr p)"
    by (auto simp: compile_source_def compile_tokens_def split: sum.splits)
  moreover from t(4) obtain r where "emit prog = Some r" "map_sum CeEmit id r = Inr p"
    by auto
  then have "emit prog = Some (Inr p)"
    by (cases r) simp_all
  ultimately show ?thesis
    using that by blast
qed

subsection \<open>Tokens\<close>

lemma lex_number_kind: "lex_number ln cs = Inr (k, rest) \<Longrightarrow> k \<noteq> TkEof"
proof -
  have "lex_unsigned ln neg xs = Inr (k, rest) \<Longrightarrow> k \<noteq> TkEof" for neg xs
    by (auto simp: lex_unsigned_def lex_hex_def lex_decimal_def Let_def split: if_splits option.splits)
  then show "lex_number ln cs = Inr (k, rest) \<Longrightarrow> k \<noteq> TkEof"
    by (auto simp: lex_number_def split: if_splits)
qed

lemma lex_step_no_eof: "lex_step u ln c cs = Inr (ts, ln', rest) \<Longrightarrow> list_all (\<lambda>t. tok_kind t \<noteq> TkEof) ts"
  by (auto simp: lex_step_def split: if_splits list.splits option.splits sum.splits dest: lex_number_kind)

text \<open>The lexer ends the tokens with an \<open>Eof\<close> and writes no other.\<close>

lemma lex_loop_eof:
  "lex_loop u ln cs = Inr tokens \<Longrightarrow>
     \<exists>ts z. tokens = ts @ [token_new TkEof z] \<and> list_all (\<lambda>t. tok_kind t \<noteq> TkEof) ts"
proof (induction u ln cs arbitrary: tokens rule: lex_loop.induct)
  case (1 u ln)
  then show ?case
    by (intro exI [of _ "[]"]) auto
next
  case (2 u ln c cs)
  then obtain ts1 ln' rest ts2 where s: "lex_step u ln c cs = Inr (ts1, ln', rest)"
    "lex_loop u ln' rest = Inr ts2" "tokens = ts1 @ ts2"
    by (auto split: sum.splits)
  from "2.IH" [OF s(1) refl refl s(2)] obtain ts z
    where "ts2 = ts @ [token_new TkEof z]" "list_all (\<lambda>t. tok_kind t \<noteq> TkEof) ts"
    by blast
  with s lex_step_no_eof [OF s(1)] show ?case
    by (intro exI [of _ "ts1 @ ts"]) auto
qed

text \<open>C31. The compiler always answers with one of the source's results: the parser's bound on its rounds and
  its refusal of a token list without \<open>Eof\<close> are never met.\<close>

theorem compile_source_errors:
  "compile_source u source \<noteq> Some (Inl (CeParse PsOutOfFuel))
   \<and> compile_source u source \<noteq> Some (Inl (CeParse PsNoEof))"
proof (cases "tokenize u source")
  case (Inr tokens)
  then have "lex_loop u 1 source = Inr tokens"
    by (simp add: tokenize_def)
  then obtain ts z where ts: "tokens = ts @ [token_new TkEof z]" "list_all (\<lambda>t. tok_kind t \<noteq> TkEof) ts"
    using lex_loop_eof by blast
  then have "takeWhile (\<lambda>t. tok_kind t \<noteq> TkEof) tokens = ts"
    by (simp add: list_all_iff)
  with ts have "parse tokens = map_sum id fst (parse_program (parse_fuel ts) program_ast_default z ts)"
    by (simp add: parse_def token_new_def)
  moreover have "map_sum id fst (parse_program (parse_fuel ts) program_ast_default z ts) \<noteq> Inl e"
    if "parse_program (parse_fuel ts) program_ast_default z ts \<noteq> Inl e" for e
    using that by (auto simp: map_sum_def split: sum.splits)
  ultimately have "parse tokens \<noteq> Inl PsOutOfFuel" "parse tokens \<noteq> Inl PsNoEof"
    using program_never_out_of_fuel by metis+
  then show ?thesis
    using Inr by (auto simp: compile_source_def compile_tokens_def map_sum_def split: sum.splits)
qed (simp add: compile_source_def)

subsection \<open>A source text\<close>

definition ascii_only :: char_class where
  "ascii_only = \<lparr>cc_alphabetic = (\<lambda>_. False), cc_numeric = (\<lambda>_. False)\<rparr>"

definition small_source :: source_text where
  "small_source = map of_char ''FUNC Main HALT ENDF''"

definition small_program :: program where
  "small_program = \<lparr>prog_version = 1, prog_global_inits = [], prog_functions =
     [\<lparr>fun_name = ascii ''Main'', fun_params = [], fun_instrs = [instr_no_args (OFlow OpHalt)]\<rparr>]\<rparr>"

lemma small_compiles: "compile_source ascii_only small_source = Some (Inr small_program)"
proof -
  define ts where "ts = [token_new (TkIdent (ascii ''FUNC'')) 1, token_new (TkIdent (ascii ''Main'')) 1,
    token_new (TkIdent (ascii ''HALT'')) 1, token_new (TkIdent (ascii ''ENDF'')) 1, token_new TkEof 1]"
  define ast where "ast = \<lparr>pa_defines = [], pa_imports = [], pa_reserves = [], pa_functions =
    [\<lparr>fa_name = ascii ''Main'', fa_params = [], fa_body =
        [StInstr \<lparr>in_mnemonic = ascii ''HALT'', in_operands = [], in_line = 1\<rparr>], fa_line = 1\<rparr>]\<rparr>"
  have "tokenize ascii_only small_source = Inr ts"
    unfolding ts_def by code_simp
  moreover have "parse ts = Inr ast"
    unfolding ts_def ast_def by code_simp
  moreover have "validate ast = Inr ()"
    unfolding ast_def by code_simp
  moreover have "emit ast = Some (Inr small_program)"
    unfolding ast_def by code_simp
  ultimately show ?thesis
    by (simp add: compile_source_def compile_tokens_def)
qed

subsection \<open>Compiled programs and the format\<close>

lemma arms_small: "list_all (\<lambda>(m, op, rs). length rs \<le> 4) arms"
  by code_simp

lemma arm_small: "arm_of m = Some (op, rs) \<Longrightarrow> length rs \<le> 4"
  using arms_small by (fastforce simp: arm_of_def list_all_iff dest!: map_of_SomeD)

lemma emit_instr_small: "emit_instr ctx ins = Some (Inr i) \<Longrightarrow> length (operands i) \<le> 4"
  by (auto simp: emit_instr_def instr_no_args_def instr_new_def em_list_Inr
      dest!: arm_small list_all2_lengthD split: if_splits option.splits)

lemma emitted_small:
  assumes "emit_function defs idx func = Some (Inr fd)"
  shows "list_all (\<lambda>i. length (operands i) \<le> 4) (fun_instrs fd)"
proof (rule emit_functionE [OF assms])
  fix ctx
  assume "emit_statements ctx (fa_body func) = Some (Inr (fun_instrs fd))"
  then show ?thesis
    by (rule emitted_all [rotated 4])
       (auto simp: reserve_local_def instr_new_def instr_no_args_def list_all_iff dest: emit_instr_small)
qed

lemma define_map_text:
  assumes "ast_text P prog" "define_map prog n = Some d"
  shows "text_of P d"
proof -
  have "fold (\<lambda>d m. m(def_name d \<mapsto> def_value d)) ds m n = Some v \<Longrightarrow> list_all (\<lambda>d. text_of P (def_value d)) ds
      \<Longrightarrow> (m n = Some v \<longrightarrow> text_of P v) \<Longrightarrow> text_of P v" for ds :: "define_decl list" and m v
  proof (induction ds arbitrary: m)
    case (Cons d ds)
    from Cons.IH [of "m(def_name d \<mapsto> def_value d)"] Cons.prems show ?case
      by (cases "n = def_name d") (auto simp: fun_upd_def)
  qed simp
  from this [of "pa_defines prog" Map.empty d] assms show ?thesis
    by (simp add: ast_text_def define_map_def)
qed

lemma good_operand_ok: "good_operand funcs len string_ok opd \<Longrightarrow> operand_ok opd"
proof (cases opd)
  case (OpdImm imm)
  then show "good_operand funcs len string_ok opd \<Longrightarrow> operand_ok opd"
    by (cases imm) (simp_all add: good_operand_def)
qed simp_all

lemma compiled_texts:
  assumes "emit prog = Some (Inr p)" "ast_text string_ok prog"
  shows "list_all instruction_ok (prog_global_inits p)"
    "list_all (\<lambda>f. string_ok (fun_name f) \<and> list_all param_ok (fun_params f)
       \<and> list_all instruction_ok (fun_instrs f)) (prog_functions p)"
proof -
  note defs = define_map_text [OF assms(2)]
  have "instruction_ok i" if "emit_reserve (define_map prog) gr = Some (Inr i)" "gr \<in> set (pa_reserves prog)" for gr i
  proof -
    from that obtain init where i: "ast_value_to_operand (define_map prog) Map.empty (gr_init gr) = Some init"
      "operands i = [OpdKey (gr_index gr), OpdType (gr_type gr), init]"
      by (auto simp: emit_reserve_def instr_new_def)
    have "text_of string_ok (gr_init gr)"
      using assms(2) that(2) by (auto simp: ast_text_def list_all_iff)
    from good_operand_ok [OF plain_good [OF value_operand_plain [OF i(1) this defs]]] show ?thesis
      by (simp add: i(2) instruction_ok_def)
  qed
  then show "list_all instruction_ok (prog_global_inits p)"
    using assms(1) by (elim emitE) (fastforce simp: em_list_Inr list_all2_conv_all_nth list_all_length)
  have "string_ok (fun_name f) \<and> list_all param_ok (fun_params f) \<and> list_all instruction_ok (fun_instrs f)"
    if "f \<in> set (prog_functions p)" for f
  proof (rule emit_functionsE [OF assms(1) that])
    fix func
    assume func: "func \<in> set (pa_functions prog)"
      and e: "emit_function (define_map prog) (func_index_map (pa_functions prog)) func = Some (Inr f)"
    have t: "func_text string_ok func"
      using func assms(2) by (auto simp: ast_text_def list_all_iff)
    have "list_all (\<lambda>i. list_all (good_operand (length (pa_functions prog)) (length (fun_instrs f)) string_ok)
        (operands i)) (fun_instrs f)"
      using t by (intro emitted_good [OF e] defs) (auto simp: func_text_def stmts_text_def list_all_iff)
    with emitted_small [OF e] have "list_all instruction_ok (fun_instrs f)"
      by (fastforce simp: list_all_iff instruction_ok_def intro: good_operand_ok)
    moreover have "list_all param_ok (fun_params f)"
    proof -
      from e have "em_list (emit_param (define_map prog)) (fa_params func) = Some (Inr (fun_params f))"
        by (elim emit_functionE)
      then have "list_all2 (\<lambda>pd pr. par_name pr = pd_name pd) (fa_params func) (fun_params f)"
        unfolding em_list_Inr by (rule list_all2_mono) (auto simp: emit_param_def)
      then show ?thesis
        using t by (auto simp: func_text_def list_all2_conv_all_nth list_all_length param_ok_def)
    qed
    ultimately show ?thesis
      using t emit_function_name [OF e] by (simp add: func_text_def)
  qed
  then show "list_all (\<lambda>f. string_ok (fun_name f) \<and> list_all param_ok (fun_params f)
       \<and> list_all instruction_ok (fun_instrs f)) (prog_functions p)"
    by (simp add: list_all_iff)
qed

text \<open>The counts of a program fit the format's 32-bit fields.\<close>

definition counts_fit :: "program \<Rightarrow> bool" where
  "counts_fit p \<longleftrightarrow> length (prog_global_inits p) < 2 ^ 32 \<and> length (prog_functions p) < 2 ^ 32
     \<and> list_all (\<lambda>f. length (fun_params f) < 2 ^ 32 \<and> length (fun_instrs f) < 2 ^ 32) (prog_functions p)"

lemma compiled_fits_format:
  assumes "compile_source u source = Some (Inr p)" "list_all is_scalar source" "length source < 2 ^ 14"
    and "counts_fit p"
  shows "program_ok p \<and> decode_program (encode_program p) = Inr p"
proof (rule compile_sourceE [OF assms(1)])
  fix tokens prog
  assume tokens: "tokenize u source = Inr tokens" and prog: "parse tokens = Inr prog"
    and p: "emit prog = Some (Inr p)"
  have "list_all (tok_text (text_upto (length source))) tokens"
    using lex_loop_text [of u 1 source tokens "length source"] tokens assms(2) by (simp add: tokenize_def)
  then have "list_all (tok_text string_ok) tokens"
    using assms(3) text_upto_valid
    by (fastforce simp: list_all_iff string_ok_def elim!: tok_text_mono)
  from compiled_texts [OF p parse_text [OF prog this]] assms(4) have "program_ok p"
    by (auto simp: program_ok_def counts_fit_def function_ok_def list_all_iff)
  then show ?thesis
    using parses_full [OF parses_read_program, of p "[]" "[]"] by (simp add: decode_program_def at_Nil)
qed



subsection \<open>Compiled programs and the machine\<close>

lemma compiled_function_names:
  assumes "emit prog = Some (Inr p)"
  shows "map fun_name (prog_functions p) = map fa_name (pa_functions prog)"
  using emit_functions [OF assms] by (induction rule: list_all2_induct) (auto simp: emit_function_name)

lemma compiled_main:
  assumes "compile_source u source = Some (Inr p)"
  shows "\<exists>i. get_function_index p (ascii ''Main'') = Some i \<and> get_function p (ascii ''Main'') \<noteq> None"
proof (rule compile_sourceE [OF assms])
  fix tokens prog
  assume "validate prog = Inr ()" and p: "emit prog = Some (Inr p)"
  then have "ascii ''Main'' \<in> set (map fun_name (prog_functions p))"
    by (simp add: validate_Inr compiled_function_names)
  then have "get_function_index p (ascii ''Main'') \<noteq> None"
    by (auto simp: get_function_index_def position_None list_all_iff)
  then show ?thesis
    by (auto simp: get_function_def get_function_index_def find_position)
qed

lemma run_step_known: "run_step e s \<noteq> SStop (Inl (ENoFunction f)) s'"
  by (auto simp: run_step_def perform_def return_to_caller_def on_top_def handle_fault_def Let_def
      split: list.splits option.splits res.splits action.splits if_splits)

lemma run_loop_known: "run_loop e s \<noteq> Some (SStop (Inl (ENoFunction f)) s')"
proof
  assume "run_loop e s = Some (SStop (Inl (ENoFunction f)) s')"
  then obtain n where "run_rounds e n s = Some (SStop (Inl (ENoFunction f)) s')"
    using run_loop_rounds by blast
  with run_rounds_ends [OF this] run_step_known show False
    by blast
qed



text \<open>A CATCH reached after a fault, with the guard closed, lets the catch body run; reached from the
  body, with the guard open, it closes the guard and goes to the end of the block.\<close>

lemma catch_round:
  assumes "vm_call_stack s = cf # base" "current_instr (env_program e) s = Some ins" "opcode ins = OTry OpCatch"
  shows "run_step e s = SNext (s\<lparr>vm_call_stack := cf\<lparr>cf_try_guard := None, cf_ip :=
      (case cf_try_guard cf of Some g \<Rightarrow> tg_end_ip g | None \<Rightarrow> cf_ip cf + 1)\<rparr> # base\<rparr>)"
  using run_step_current [OF assms(2,1)] assms(1,3)
  by (simp add: execute_instruction_def advance_def modify_top_def vm_bind_def vm_simps perform_def
      Fasm_Machine.top_def vm_return_def on_top_def Let_def split: option.split)

lemma endtry_round:
  assumes "vm_call_stack s = cf # base" "current_instr (env_program e) s = Some ins" "opcode ins = OTry OpEndTry"
  shows "run_step e s = SNext (s\<lparr>vm_call_stack := cf\<lparr>cf_ip := cf_ip cf + 1, cf_try_guard := None\<rparr> # base\<rparr>)"
  using run_step_current [OF assms(2,1)] assms(1,3)
  by (simp add: execute_instruction_def advance_def modify_top_def then_continue_def vm_bind_def vm_simps perform_def)

lemma current_instr_at:
  "vm_call_stack s = cf # base \<Longrightarrow> nth_opt (prog_functions prog) (cf_func_idx cf) = Some fd
    \<Longrightarrow> cf_ip cf < length (fun_instrs fd) \<Longrightarrow> current_instr prog s = Some (fun_instrs fd ! cf_ip cf)"
  by (simp add: current_instr_def del: nth_opt_Some) (simp add: nth_opt_def)



end
