(* ===== verification/Fasm_Router.thy ===== *)
theory Fasm_Router
  imports Fasm_Collections Fasm_Bytecode
begin

text \<open>
  The route table of \<open>crates/fasm-engine/src/router.rs\<close>: path patterns, registration at start-up and
  at run time, removal, and the match of a request.  Programs and their JIT caches are type
  parameters (\<open>FasmJit::compile\<close> is an argument); fresh identifiers of \<open>Uuid::new_v4\<close> are arguments.
  Strings are UTF-8 bytes: the separators are ASCII characters, whose bytes occur in no other
  character.  \<open>str::to_uppercase\<close> is exact on ASCII; on other strings it is an argument.
\<close>

subsection \<open>Strings\<close>

fun split_on :: "'a \<Rightarrow> 'a list \<Rightarrow> 'a list list" where
  "split_on c [] = [[]]"
| "split_on c (b # bs) =
     (if b = c then [] # split_on c bs
      else case split_on c bs of w # ws \<Rightarrow> (b # w) # ws | [] \<Rightarrow> [[b]])"

definition trim_matches :: "u8 \<Rightarrow> bytes \<Rightarrow> bytes" where
  "trim_matches c s = rev (dropWhile (\<lambda>b. b = c) (rev (dropWhile (\<lambda>b. b = c) s)))"

fun join_with :: "u8 \<Rightarrow> bytes list \<Rightarrow> bytes" where
  "join_with c [] = []"
| "join_with c [w] = w"
| "join_with c (w # ws) = w @ c # join_with c ws"

definition to_uppercase :: "(bytes \<Rightarrow> bytes) \<Rightarrow> bytes \<Rightarrow> bytes" where
  "to_uppercase unicode s =
     (if list_all (\<lambda>b. b < 128) s then map (\<lambda>b. if 97 \<le> b \<and> b \<le> 122 then b - 32 else b) s else unicode s)"

abbreviation slash :: u8 where "slash \<equiv> 47"
abbreviation colon :: u8 where "colon \<equiv> 58"

subsection \<open>Patterns\<close>

datatype segment = Literal bytes | Param bytes

definition parse_segment :: "bytes \<Rightarrow> segment" where
  "parse_segment s = (case s of [] \<Rightarrow> Literal s | b # rest \<Rightarrow> if b = colon then Param rest else Literal s)"

definition request_segments :: "bytes \<Rightarrow> bytes list" where
  "request_segments path = split_on slash (trim_matches slash path)"

definition parse_path :: "bytes \<Rightarrow> segment list" where
  "parse_path path = map parse_segment (split_on slash (trim_matches slash path))"

fun same_segment :: "segment \<Rightarrow> segment \<Rightarrow> bool" where
  "same_segment (Literal a) (Literal b) = (a = b)"
| "same_segment (Param _) (Param _) = True"
| "same_segment _ _ = False"

definition segments_equal :: "segment list \<Rightarrow> segment list \<Rightarrow> bool" where
  "segments_equal a b = (if length a \<noteq> length b then False else list_all (\<lambda>(x, y). same_segment x y) (zip a b))"

fun segment_text :: "segment \<Rightarrow> bytes" where
  "segment_text (Literal l) = l"
| "segment_text (Param p) = colon # p"

definition segments_to_path :: "segment list \<Rightarrow> bytes" where
  "segments_to_path segs = slash # join_with slash (map segment_text segs)"

subsection \<open>The table\<close>

record ('p, 'j) route_entry =
  re_id :: bytes
  re_method :: bytes
  re_segments :: "segment list"
  re_func :: bytes
  re_program :: 'p
  re_jit :: "'j option"
  re_managed :: bool

type_synonym ('p, 'j) route_table = "('p, 'j) route_entry list"

record ('p, 'j) matched_route =
  mr_func :: bytes
  mr_program :: 'p
  mr_jit :: "'j option"
  mr_params :: "(bytes \<times> bytes) list"

definition new_entry :: "('p \<Rightarrow> 'j option) \<Rightarrow> bytes \<Rightarrow> bytes \<Rightarrow> segment list \<Rightarrow> bytes \<Rightarrow> 'p \<Rightarrow> bool
    \<Rightarrow> ('p, 'j) route_entry" where
  "new_entry jit i m segs func program managed = \<lparr>re_id = i, re_method = m, re_segments = segs, re_func = func,
     re_program = program, re_jit = jit program, re_managed = managed\<rparr>"

text \<open>\<open>RouteTable::add\<close>: no collision check; the method is stored as given.\<close>

definition add_route :: "('p \<Rightarrow> 'j option) \<Rightarrow> bytes \<Rightarrow> bytes \<Rightarrow> bytes \<Rightarrow> bytes \<Rightarrow> 'p \<Rightarrow> bool
    \<Rightarrow> ('p, 'j) route_table \<Rightarrow> ('p, 'j) route_table" where
  "add_route jit uuid m path func program managed table =
     table @ [new_entry jit uuid m (parse_path path) func program managed]"

definition conflicts :: "bytes \<Rightarrow> segment list \<Rightarrow> ('p, 'j) route_entry \<Rightarrow> bool" where
  "conflicts m segs r \<longleftrightarrow> re_method r = m \<and> segments_equal (re_segments r) segs"

text \<open>\<open>Inl\<close> carries the identifier of the route that is in the way.\<close>

definition add_route_dyn :: "('p \<Rightarrow> 'j option) \<Rightarrow> (bytes \<Rightarrow> bytes) \<Rightarrow> bytes \<Rightarrow> bytes \<Rightarrow> bytes \<Rightarrow> bytes \<Rightarrow> 'p
    \<Rightarrow> ('p, 'j) route_table \<Rightarrow> bytes + bytes \<times> ('p, 'j) route_table" where
  "add_route_dyn jit unicode uuid m path func program table =
     (let method_up = to_uppercase unicode m; segs = parse_path path
      in case List.find (conflicts method_up segs) table of
        Some existing \<Rightarrow> Inl (re_id existing)
      | None \<Rightarrow> Inr (uuid, table @ [new_entry jit uuid method_up segs func program True]))"

fun remove_route :: "bytes \<Rightarrow> ('p, 'j) route_table \<Rightarrow> bool \<times> ('p, 'j) route_table" where
  "remove_route i [] = (False, [])"
| "remove_route i (r # rs) =
     (if re_id r = i \<and> re_managed r then (True, rs)
      else case remove_route i rs of (b, rs') \<Rightarrow> (b, r # rs'))"

subsection \<open>Matching\<close>

text \<open>The loop over a route's segments and the request's; \<open>None\<close> is a mismatch.\<close>

fun match_segments :: "segment list \<Rightarrow> bytes list \<Rightarrow> (bytes \<times> bytes) list \<Rightarrow> (bytes \<times> bytes) list option" where
  "match_segments (Literal lit # segs) (req # reqs) params =
     (if lit = req then match_segments segs reqs params else None)"
| "match_segments (Param name # segs) (req # reqs) params =
     match_segments segs reqs (sparse_insert name req params)"
| "match_segments _ _ params = Some params"

definition match_entry :: "bytes \<Rightarrow> bytes list \<Rightarrow> ('p, 'j) route_entry \<Rightarrow> (bytes \<times> bytes) list option" where
  "match_entry m reqs r =
     (if re_method r \<noteq> m then None
      else if length (re_segments r) \<noteq> length reqs then None
      else match_segments (re_segments r) reqs [])"

fun match_loop :: "bytes \<Rightarrow> bytes list \<Rightarrow> ('p, 'j) route_table \<Rightarrow> ('p, 'j) matched_route option" where
  "match_loop m reqs [] = None"
| "match_loop m reqs (r # rs) = (case match_entry m reqs r of
      Some params \<Rightarrow> Some \<lparr>mr_func = re_func r, mr_program = re_program r, mr_jit = re_jit r, mr_params = params\<rparr>
    | None \<Rightarrow> match_loop m reqs rs)"

definition match_route :: "(bytes \<Rightarrow> bytes) \<Rightarrow> bytes \<Rightarrow> bytes \<Rightarrow> ('p, 'j) route_table
    \<Rightarrow> ('p, 'j) matched_route option" where
  "match_route unicode m path table = match_loop (to_uppercase unicode m) (request_segments path) table"

record route_snapshot =
  rs_id :: bytes
  rs_method :: bytes
  rs_path :: bytes
  rs_func :: bytes
  rs_managed :: bool

definition list_routes :: "('p, 'j) route_table \<Rightarrow> route_snapshot list" where
  "list_routes table = map (\<lambda>r. \<lparr>rs_id = re_id r, rs_method = re_method r,
     rs_path = segments_to_path (re_segments r), rs_func = re_func r, rs_managed = re_managed r\<rparr>) table"

subsection \<open>Start-up\<close>

record route_config =
  rc_method :: bytes
  rc_path :: bytes
  rc_source :: bytes
  rc_function :: bytes

text \<open>\<open>compile_file\<close> stands for \<open>compile_source_file\<close> on the joined path, \<open>uuids\<close> for the identifiers
  the routes get.\<close>

fun from_configs :: "('p \<Rightarrow> 'j option) \<Rightarrow> (bytes \<Rightarrow> bytes) \<Rightarrow> (bytes \<Rightarrow> 'e + 'p) \<Rightarrow> (route_config \<times> bytes) list
    \<Rightarrow> ('p, 'j) route_table \<Rightarrow> 'e + ('p, 'j) route_table" where
  "from_configs jit unicode compile_file [] table = Inr table"
| "from_configs jit unicode compile_file ((cfg, uuid) # cfgs) table = (case compile_file (rc_source cfg) of
      Inl e \<Rightarrow> Inl e
    | Inr program \<Rightarrow> from_configs jit unicode compile_file cfgs
        (add_route jit uuid (to_uppercase unicode (rc_method cfg)) (rc_path cfg) (rc_function cfg) program False table))"

end
