(* ===== verification/Fasm_Metrics.thy ===== *)
theory Fasm_Metrics
  imports Fasm_Value
begin

text \<open>
  The metrics registry of \<open>crates/fasm-engine/src/metrics.rs\<close> and the three system calls of
  \<open>dispatcher.rs\<close> through which programs use it.  The registry is behind a mutex whose critical
  sections cannot panic in the release profile (additions wrap), so an operation is a function on
  the state.  A hash map is its list of pairs; the text rendering shows them in that order.
\<close>

record metrics =
  me_invocations :: "(bytes \<times> u64) list"
  me_errors :: "(bytes \<times> u64) list"
  me_durations_ms :: "(bytes \<times> u64 list) list"
  me_queue_depth :: "(bytes \<times> u64) list"
  me_active_sandboxes :: u64
  me_dropped_total :: "(bytes \<times> u64) list"
  me_custom_counters :: "(bytes \<times> i64) list"

definition metrics_new :: metrics where
  "metrics_new = \<lparr>me_invocations = [], me_errors = [], me_durations_ms = [], me_queue_depth = [],
     me_active_sandboxes = 0, me_dropped_total = [], me_custom_counters = []\<rparr>"

text \<open>\<open>*map.entry(key).or_default() += delta\<close>.\<close>

definition bump :: "bytes \<Rightarrow> u64 \<Rightarrow> (bytes \<times> u64) list \<Rightarrow> (bytes \<times> u64) list" where
  "bump key delta m = sparse_insert key ((case sparse_get m key of Some n \<Rightarrow> n | None \<Rightarrow> 0) + delta) m"

definition record_invocation :: "bytes \<Rightarrow> metrics \<Rightarrow> metrics" where
  "record_invocation func m = m\<lparr>me_invocations := bump func 1 (me_invocations m)\<rparr>"

definition record_error :: "bytes \<Rightarrow> metrics \<Rightarrow> metrics" where
  "record_error func m = m\<lparr>me_errors := bump func 1 (me_errors m)\<rparr>"

definition record_duration_ms :: "bytes \<Rightarrow> u64 \<Rightarrow> metrics \<Rightarrow> metrics" where
  "record_duration_ms func ms m = m\<lparr>me_durations_ms := sparse_insert func
     ((case sparse_get (me_durations_ms m) func of Some xs \<Rightarrow> xs | None \<Rightarrow> []) @ [ms]) (me_durations_ms m)\<rparr>"

definition set_queue_depth :: "bytes \<Rightarrow> u64 \<Rightarrow> metrics \<Rightarrow> metrics" where
  "set_queue_depth q depth m = m\<lparr>me_queue_depth := sparse_insert q depth (me_queue_depth m)\<rparr>"

definition inc_active :: "metrics \<Rightarrow> metrics" where
  "inc_active m = m\<lparr>me_active_sandboxes := me_active_sandboxes m + 1\<rparr>"

text \<open>\<open>saturating_sub\<close>.\<close>

definition dec_active :: "metrics \<Rightarrow> metrics" where
  "dec_active m = m\<lparr>me_active_sandboxes :=
     (if me_active_sandboxes m = 0 then 0 else me_active_sandboxes m - 1)\<rparr>"

definition record_dropped :: "bytes \<Rightarrow> metrics \<Rightarrow> metrics" where
  "record_dropped trigger m = m\<lparr>me_dropped_total := bump trigger 1 (me_dropped_total m)\<rparr>"

definition custom_inc :: "bytes \<Rightarrow> i64 \<Rightarrow> metrics \<Rightarrow> metrics" where
  "custom_inc key delta m = m\<lparr>me_custom_counters := bump key delta (me_custom_counters m)\<rparr>"

definition custom_set :: "bytes \<Rightarrow> i64 \<Rightarrow> metrics \<Rightarrow> metrics" where
  "custom_set key val m = m\<lparr>me_custom_counters := sparse_insert key val (me_custom_counters m)\<rparr>"

definition custom_get :: "bytes \<Rightarrow> metrics \<Rightarrow> i64 option" where
  "custom_get key m = sparse_get (me_custom_counters m) key"

subsection \<open>The text exposition\<close>

text \<open>The summary of a function's samples: median, 99th percentile, count and sum.\<close>

definition quantiles :: "u64 list \<Rightarrow> (u64 \<times> u64 \<times> nat \<times> u64) option" where
  "quantiles samples =
     (if samples = [] then None
      else let sorted = sort samples; count = length sorted
           in Some (sorted ! (count div 2), sorted ! (min (count * 99 div 100) (count - 1)), count,
                sum_list sorted))"

definition quoted :: "bytes \<Rightarrow> bytes" where
  "quoted s = [34] @ s @ [34]"

definition heading :: "string \<Rightarrow> string \<Rightarrow> string \<Rightarrow> bytes" where
  "heading name help kind = ascii ''# HELP '' @ ascii name @ [32] @ ascii help @ [10]
     @ ascii ''# TYPE '' @ ascii name @ [32] @ ascii kind @ [10]"

definition labelled :: "string \<Rightarrow> string \<Rightarrow> bytes \<Rightarrow> bytes \<Rightarrow> bytes" where
  "labelled name lab key shown = ascii name @ ascii ''{'' @ ascii lab @ ascii ''='' @ quoted key @ ascii ''} '' @ shown @ [10]"

definition counters :: "string \<Rightarrow> string \<Rightarrow> (bytes \<times> u64) list \<Rightarrow> bytes" where
  "counters name lab m = concat (map (\<lambda>(k, n). labelled name lab k (show_nat (unat n))) m)"

definition summary_lines :: "bytes \<times> u64 list \<Rightarrow> bytes" where
  "summary_lines = (\<lambda>(func, samples). case quantiles samples of
      None \<Rightarrow> []
    | Some (p50, p99, count, sum_ms) \<Rightarrow>
        ascii ''fasm_invocation_duration_ms{function='' @ quoted func @ ascii '',quantile='' @ quoted (ascii ''0.5'')
          @ ascii ''} '' @ show_nat (unat p50) @ [10]
        @ ascii ''fasm_invocation_duration_ms{function='' @ quoted func @ ascii '',quantile='' @ quoted (ascii ''0.99'')
          @ ascii ''} '' @ show_nat (unat p99) @ [10]
        @ labelled ''fasm_invocation_duration_ms_count'' ''function'' func (show_nat count)
        @ labelled ''fasm_invocation_duration_ms_sum'' ''function'' func (show_nat (unat sum_ms)))"

definition render_text :: "metrics \<Rightarrow> bytes" where
  "render_text m =
     heading ''fasm_invocations_total'' ''Total function invocations'' ''counter''
     @ counters ''fasm_invocations_total'' ''function'' (me_invocations m)
     @ heading ''fasm_errors_total'' ''Total function errors'' ''counter''
     @ counters ''fasm_errors_total'' ''function'' (me_errors m)
     @ heading ''fasm_invocation_duration_ms'' ''Execution time histogram (ms)'' ''summary''
     @ concat (map summary_lines (me_durations_ms m))
     @ heading ''fasm_queue_depth'' ''Messages waiting per named queue'' ''gauge''
     @ counters ''fasm_queue_depth'' ''queue'' (me_queue_depth m)
     @ heading ''fasm_active_sandboxes'' ''Currently executing sandboxes'' ''gauge''
     @ ascii ''fasm_active_sandboxes '' @ show_nat (unat (me_active_sandboxes m)) @ [10]
     @ heading ''fasm_dropped_executions_total'' ''Dropped executions by trigger'' ''counter''
     @ counters ''fasm_dropped_executions_total'' ''trigger'' (me_dropped_total m)
     @ concat (map (\<lambda>(k, v). labelled ''fasm_custom'' ''key'' k (show_int (sint v))) (me_custom_counters m))"

subsection \<open>The system calls of the engine\<close>

text \<open>The bytes of a vector; other elements are skipped.\<close>

definition key_bytes :: "fasm_value \<Rightarrow> bytes" where
  "key_bytes v = (case v of
      VVec vs \<Rightarrow> utf8_lossy (List.map_filter (\<lambda>b. case b of VUint8 u \<Rightarrow> Some u | _ \<Rightarrow> None) vs)
    | _ \<Rightarrow> [])"

definition field_bytes :: "(u32 \<times> fasm_value) list \<Rightarrow> bytes" where
  "field_bytes s = (case struct_get s 0 of Some v \<Rightarrow> key_bytes v | None \<Rightarrow> [])"

definition field_i32 :: "i64 \<Rightarrow> (u32 \<times> fasm_value) list \<Rightarrow> i64" where
  "field_i32 d s = (case struct_get s 1 of Some (VInt32 n) \<Rightarrow> scast n | _ \<Rightarrow> d)"

definition metrics_inc :: "fasm_value \<Rightarrow> metrics \<Rightarrow> fasm_value \<times> metrics" where
  "metrics_inc args m = (VNull, case args of
      VStruct s \<Rightarrow> custom_inc (field_bytes s) (field_i32 1 s) m | _ \<Rightarrow> m)"

definition metrics_set :: "fasm_value \<Rightarrow> metrics \<Rightarrow> fasm_value \<times> metrics" where
  "metrics_set args m = (VNull, case args of
      VStruct s \<Rightarrow> custom_set (field_bytes s) (field_i32 0 s) m | _ \<Rightarrow> m)"

definition metrics_get :: "fasm_value \<Rightarrow> metrics \<Rightarrow> fasm_value \<times> metrics" where
  "metrics_get args m = (case custom_get (key_bytes args) m of
      Some v \<Rightarrow> VOption (OptSome (VInt32 (ucast v)))
    | None \<Rightarrow> VOption OptNone, m)"

end
