(* ===== verification/Fasm_Dispatcher.thy ===== *)
theory Fasm_Dispatcher
  imports Fasm_Run Fasm_Metrics
begin

text \<open>
  Sandboxes (\<open>crates/fasm-sandbox/src/sandbox.rs\<close>, \<open>clock.rs\<close>) and the task dispatcher that runs
  requests in them (\<open>crates/fasm-engine/src/dispatcher.rs\<close>): permits, metrics and the sandbox that
  every thread of the blocking pool keeps.  What lies outside of the sources is an argument: the
  plugins found in a directory and the handlers that talk to their processes, and the engine's
  system calls.  The run of a request is one step; the output of runs on different threads is
  therefore not interleaved.
\<close>

subsection \<open>The clock\<close>

record clock =
  ck_instructions_per_tick :: u64
  ck_ticks_executed :: u64
  ck_instructions_executed :: u64

definition clock_new :: clock where
  "clock_new = \<lparr>ck_instructions_per_tick = 0, ck_ticks_executed = 0, ck_instructions_executed = 0\<rparr>"

definition can_execute :: "clock \<Rightarrow> bool" where
  "can_execute c = (if ck_instructions_per_tick c = 0 then True
     else ck_instructions_executed c < ck_instructions_per_tick c)"

definition tick_instruction :: "clock \<Rightarrow> clock" where
  "tick_instruction c = c\<lparr>ck_instructions_executed := ck_instructions_executed c + 1\<rparr>"

definition end_tick :: "clock \<Rightarrow> clock" where
  "end_tick c = c\<lparr>ck_ticks_executed := ck_ticks_executed c + 1, ck_instructions_executed := 0\<rparr>"

subsection \<open>Sandboxes\<close>

record sandbox_config =
  sc_clock_hz :: u64
  sc_plugin_dir :: "bytes option"
  sc_seccomp :: bool
  sc_landlock :: bool
  sc_read_paths :: "bytes list"

type_synonym jit_dispatcher = "nat \<Rightarrow> fasm_value \<Rightarrow> fasm_value option"

text \<open>The executor of a sandbox is its system calls, its JIT dispatcher and its machine.\<close>

record sandbox =
  sb_id :: u64
  sb_syscalls :: "i32 \<Rightarrow> syscall option"
  sb_jit :: "jit_dispatcher option"
  sb_vm :: vm
  sb_clock :: clock
  sb_seccomp :: bool
  sb_landlock :: bool
  sb_read_paths :: "bytes list"

definition sandbox_new :: "u64 \<Rightarrow> sandbox" where
  "sandbox_new i = \<lparr>sb_id = i, sb_syscalls = builtin_syscalls, sb_jit = None, sb_vm = vm_new [],
     sb_clock = clock_new, sb_seccomp = False, sb_landlock = False, sb_read_paths = []\<rparr>"

definition set_clock_hz :: "u64 \<Rightarrow> sandbox \<Rightarrow> sandbox" where
  "set_clock_hz hz sb = sb\<lparr>sb_clock := (sb_clock sb)\<lparr>ck_instructions_per_tick := hz\<rparr>\<rparr>"

definition sandbox_reset :: "sandbox \<Rightarrow> sandbox" where
  "sandbox_reset sb = sb\<lparr>sb_vm := reset_call_stack (sb_vm sb)\<rparr>"

definition sandbox_set_jit :: "jit_dispatcher \<Rightarrow> sandbox \<Rightarrow> sandbox" where
  "sandbox_set_jit d sb = sb\<lparr>sb_jit := Some d\<rparr>"

definition sandbox_mount_syscall :: "i32 \<Rightarrow> syscall \<Rightarrow> sandbox \<Rightarrow> sandbox" where
  "sandbox_mount_syscall i h sb = sb\<lparr>sb_syscalls := (sb_syscalls sb)(i \<mapsto> h)\<rparr>"

text \<open>A sidecar process serves several identifiers: \<open>call i\<close> is the handler of \<open>i\<close>.\<close>

definition mount_shared_sidecar :: "i32 list \<Rightarrow> (i32 \<Rightarrow> syscall) \<Rightarrow> sandbox \<Rightarrow> sandbox" where
  "mount_shared_sidecar ids call sb = fold (\<lambda>i. sandbox_mount_syscall i (call i)) ids sb"

definition mount_sidecar :: "i32 \<Rightarrow> (i32 \<Rightarrow> syscall) \<Rightarrow> sandbox \<Rightarrow> sandbox" where
  "mount_sidecar i call sb = mount_shared_sidecar [i] call sb"

definition mount_sidecar_from_discovery ::
  "(bytes \<Rightarrow> (i32 list \<times> (i32 \<Rightarrow> syscall)) list) \<Rightarrow> bytes \<Rightarrow> sandbox \<Rightarrow> sandbox" where
  "mount_sidecar_from_discovery discover dir sb =
     fold (\<lambda>(ids, call). mount_shared_sidecar ids call) (discover dir) sb"

definition from_config ::
  "(bytes \<Rightarrow> (i32 list \<times> (i32 \<Rightarrow> syscall)) list) \<Rightarrow> u64 \<Rightarrow> sandbox_config \<Rightarrow> sandbox" where
  "from_config discover i cfg =
     (let sb = sandbox_new i;
          sb = (if sc_clock_hz cfg > 0 then set_clock_hz (sc_clock_hz cfg) sb else sb);
          sb = (case sc_plugin_dir cfg of Some dir \<Rightarrow> mount_sidecar_from_discovery discover dir sb | None \<Rightarrow> sb)
      in sb\<lparr>sb_seccomp := sc_seccomp cfg, sb_landlock := sc_landlock cfg, sb_read_paths := sc_read_paths cfg\<rparr>)"

text \<open>The protections a run asks of its thread (errors are logged, not returned).\<close>

datatype protection = Seccomp | Landlock "bytes list"

definition thread_protections :: "sandbox \<Rightarrow> protection list" where
  "thread_protections sb = (if sb_seccomp sb then [Seccomp] else [])
     @ (if sb_landlock sb then [Landlock (sb_read_paths sb)] else [])"

definition sandbox_env :: "sandbox \<Rightarrow> program \<Rightarrow> env" where
  "sandbox_env sb prog = \<lparr>env_program = prog, env_syscalls = sb_syscalls sb, env_jit = sb_jit sb\<rparr>"

text \<open>Each way to run: the protections applied, and the run.\<close>

definition sandbox_run :: "sandbox \<Rightarrow> program \<Rightarrow> protection list \<times> step_result option" where
  "sandbox_run sb prog = (thread_protections sb, run_main (sandbox_env sb prog) (sb_vm sb))"

definition sandbox_run_named ::
  "sandbox \<Rightarrow> program \<Rightarrow> bytes \<Rightarrow> fasm_value \<Rightarrow> protection list \<times> step_result option" where
  "sandbox_run_named sb prog func args =
     (thread_protections sb, run_named (sandbox_env sb prog) func args (sb_vm sb))"

definition sandbox_run_func :: "sandbox \<Rightarrow> program \<Rightarrow> bytes \<Rightarrow> protection list \<times> step_result option" where
  "sandbox_run_func sb prog func = ([], run_named (sandbox_env sb prog) func (VStruct []) (sb_vm sb))"

subsection \<open>The dispatcher\<close>

record exec_request =
  rq_func :: bytes
  rq_program :: program
  rq_args :: fasm_value
  rq_trigger :: bytes
  rq_jit :: "jit_dispatcher option"

datatype engine_error = Overloaded | FasmFault run_error | JoinError

text \<open>\<open>en_pool\<close> is the thread-local sandbox of each blocking thread, \<open>en_permits\<close> the permits the
  semaphore has left, \<open>en_running\<close> the requests that hold one, \<open>en_next_id\<close> the counter of \<open>new_id\<close>.\<close>

record engine =
  en_config :: sandbox_config
  en_pool :: "nat \<Rightarrow> sandbox option"
  en_next_id :: u64
  en_permits :: nat
  en_metrics :: metrics
  en_running :: "exec_request list"

definition dispatcher_new :: "nat \<Rightarrow> metrics \<Rightarrow> sandbox_config \<Rightarrow> engine" where
  "dispatcher_new max_concurrent m cfg = \<lparr>en_config = cfg, en_pool = (\<lambda>t. None), en_next_id = 1,
     en_permits = max_concurrent, en_metrics = m, en_running = []\<rparr>"

text \<open>The synchronous part of \<open>spawn_async\<close> and \<open>spawn_fire_and_forget\<close>.\<close>

definition spawn :: "exec_request \<Rightarrow> engine \<Rightarrow> (engine_error + unit) \<times> engine" where
  "spawn req en =
     (if en_permits en = 0
      then (Inl Overloaded, en\<lparr>en_metrics := record_dropped (rq_trigger req) (en_metrics en)\<rparr>)
      else (Inr (), en\<lparr>en_permits := en_permits en - 1, en_running := en_running en @ [req],
        en_metrics := inc_active (record_invocation (rq_func req) (en_metrics en))\<rparr>))"

text \<open>What the dispatcher takes from outside: plugin discovery and the engine's system calls.\<close>

record host =
  ho_discover :: "bytes \<Rightarrow> (i32 list \<times> (i32 \<Rightarrow> syscall)) list"
  ho_syscalls :: "(i32 \<times> syscall) list"

definition mount_engine_syscalls :: "host \<Rightarrow> sandbox \<Rightarrow> sandbox" where
  "mount_engine_syscalls ho sb = fold (\<lambda>(i, h). sandbox_mount_syscall i h) (ho_syscalls ho) sb"

definition acquire_sandbox :: "host \<Rightarrow> nat \<Rightarrow> engine \<Rightarrow> sandbox \<times> engine" where
  "acquire_sandbox ho t en = (case en_pool en t of
      Some sb \<Rightarrow> (sandbox_reset sb, en\<lparr>en_pool := (en_pool en)(t := None)\<rparr>)
    | None \<Rightarrow> (mount_engine_syscalls ho (from_config (ho_discover ho) (en_next_id en) (en_config en)),
        en\<lparr>en_next_id := en_next_id en + 1\<rparr>))"

definition release_sandbox :: "nat \<Rightarrow> sandbox \<Rightarrow> engine \<Rightarrow> engine" where
  "release_sandbox t sb en = en\<lparr>en_pool := (en_pool en)(t := Some sb)\<rparr>"

definition prepare :: "host \<Rightarrow> nat \<Rightarrow> exec_request \<Rightarrow> engine \<Rightarrow> sandbox \<times> engine" where
  "prepare ho t req en = (case acquire_sandbox ho t en of
      (sb, en) \<Rightarrow> (case rq_jit req of Some d \<Rightarrow> sandbox_set_jit d sb | None \<Rightarrow> sb, en))"

definition drop_at :: "nat \<Rightarrow> 'a list \<Rightarrow> 'a list" where
  "drop_at k xs = take k xs @ drop (Suc k) xs"

text \<open>The closure of \<open>spawn_blocking\<close> for the request at \<open>k\<close>, run on thread \<open>t\<close> in \<open>ms\<close> milliseconds.
  A panic unwinds past the metrics and the release of the sandbox; the permit is dropped in every
  case.  The exit system call ends the process.\<close>

datatype job_end =
  Finished "engine_error + fasm_value" engine | ProcessExit i32 | NotReturning

definition finish_job :: "host \<Rightarrow> nat \<Rightarrow> nat \<Rightarrow> u64 \<Rightarrow> engine \<Rightarrow> job_end" where
  "finish_job ho k t ms en =
     (let req = en_running en ! k in
      (case prepare ho t req en of (sb, en) \<Rightarrow>
      (let en = en\<lparr>en_permits := en_permits en + 1, en_running := drop_at k (en_running en)\<rparr>;
          timed = record_duration_ms (rq_func req) ms (en_metrics en)
      in (case snd (sandbox_run_named sb (rq_program req) (rq_func req) (rq_args req)) of
        None \<Rightarrow> NotReturning
      | Some (SStop (Inr v) s) \<Rightarrow> Finished (Inr v)
          (release_sandbox t (sb\<lparr>sb_vm := s\<rparr>) (en\<lparr>en_metrics := dec_active timed\<rparr>))
      | Some (SStop (Inl e) s) \<Rightarrow> Finished (Inl (FasmFault e))
          (release_sandbox t (sb\<lparr>sb_vm := s\<rparr>)
            (en\<lparr>en_metrics := dec_active (record_error (rq_func req) timed)\<rparr>))
      | Some (SExit n s) \<Rightarrow> ProcessExit n
      | Some SPanic \<Rightarrow> Finished (Inl JoinError) en
      | Some (SNext s) \<Rightarrow> NotReturning \<comment> \<open>not a result of the loop\<close>))))"

text \<open>The dispatcher's life: requests arrive, and running requests end, in any order and on any thread.
  The number counts the requests that ended in a panic; \<open>Q\<close> is what is known of the requests.\<close>

inductive engine_step :: "host \<Rightarrow> (exec_request \<Rightarrow> bool) \<Rightarrow> engine \<times> nat \<Rightarrow> engine \<times> nat \<Rightarrow> bool"
  for ho Q where
  step_spawn: "Q req \<Longrightarrow> spawn req en = (r, en') \<Longrightarrow> engine_step ho Q (en, p) (en', p)"
| step_finish: "k < length (en_running en) \<Longrightarrow> finish_job ho k t ms en = Finished r en' \<Longrightarrow>
    engine_step ho Q (en, p) (en', if r = Inl JoinError then Suc p else p)"

end
