(* ===== verification/Fasm_Http.thy ===== *)
theory Fasm_Http
  imports Fasm_Router Fasm_Dispatcher Fasm_Lexer "HOL-Library.List_Lexorder"
begin

text \<open>
  The HTTP handler of \<open>crates/fasm-engine/src/http_handler.rs\<close>: from a request to the arguments of a
  FASM function, and from its result to a response.  \<open>serde_json\<close>'s values are a datatype whose
  objects are ordered maps (the crate is built without \<open>preserve_order\<close>); its parser, base64 and the
  derived \<open>Debug\<close> text of values are arguments, and so is the order in which the hash map of path
  parameters is walked.
\<close>

subsection \<open>JSON\<close>

datatype json_number = JPos u64 | JNeg i64 | JFloat u64

datatype json =
  JNull
| JBool bool
| JNumber json_number
| JString bytes
| JArray "json list"
| JObject "(bytes \<times> json) list"

definition as_i64 :: "json_number \<Rightarrow> i64 option" where
  "as_i64 n = (case n of
      JPos w \<Rightarrow> if unat w < 2 ^ 63 then Some w else None
    | JNeg w \<Rightarrow> Some w
    | JFloat f \<Rightarrow> None)"

definition as_f64 :: "json_number \<Rightarrow> u64 option" where
  "as_f64 n = (case n of
      JPos w \<Rightarrow> Some (f64_ratio False (uint w) 1)
    | JNeg w \<Rightarrow> Some (f64_of_i64 w)
    | JFloat f \<Rightarrow> Some f)"

definition number_of_i64 :: "i64 \<Rightarrow> json_number" where
  "number_of_i64 w = (if sint w < 0 then JNeg w else JPos w)"

text \<open>\<open>json!\<close> of a float that is not finite is null.\<close>

definition json_of_f64 :: "u64 \<Rightarrow> json" where
  "json_of_f64 f = (case f64_decode f of FNum _ _ _ \<Rightarrow> JNumber (JFloat f) | _ \<Rightarrow> JNull)"

definition byte_vec :: "bytes \<Rightarrow> fasm_value" where
  "byte_vec bs = VVec (map VUint8 bs)"

definition json_number_to_value :: "json_number \<Rightarrow> fasm_value" where
  "json_number_to_value n = (case as_i64 n of
      Some i \<Rightarrow> if - (2 ^ 31) \<le> sint i \<and> sint i \<le> 2 ^ 31 - 1 then VInt32 (ucast i) else VInt64 i
    | None \<Rightarrow> (case as_f64 n of Some f \<Rightarrow> VFloat64 f | None \<Rightarrow> VNull))"

text \<open>The sentinel object of binary data.\<close>

definition sentinel :: "(bytes \<Rightarrow> bytes option) \<Rightarrow> (bytes \<times> json) list \<Rightarrow> bytes option" where
  "sentinel b64_decode obj = (if length obj = 1
     then (case btree_get obj (ascii ''$b64'') of Some (JString enc) \<Rightarrow> b64_decode enc | _ \<Rightarrow> None) else None)"

text \<open>Keys are dropped: the fields of an object are numbered in its order.\<close>

definition positional :: "(bytes \<times> fasm_value) list \<Rightarrow> (u32 \<times> fasm_value) list" where
  "positional obj = fold (\<lambda>(i, (_, v)). struct_insert (of_nat i) v) (enumerate 0 obj) []"

primrec json_to_value :: "(bytes \<Rightarrow> bytes option) \<Rightarrow> json \<Rightarrow> fasm_value" where
  "json_to_value b64_decode JNull = VNull"
| "json_to_value b64_decode (JBool b) = VBool b"
| "json_to_value b64_decode (JString s) = byte_vec s"
| "json_to_value b64_decode (JNumber n) = json_number_to_value n"
| "json_to_value b64_decode (JArray arr) = VVec (map (json_to_value b64_decode) arr)"
| "json_to_value b64_decode (JObject obj) = (case sentinel b64_decode obj of
      Some bs \<Rightarrow> byte_vec bs
    | None \<Rightarrow> VStruct (positional (map (map_prod id (json_to_value b64_decode)) obj)))"

text \<open>The external functions of the other direction.\<close>

record printers =
  pr_b64 :: "bytes \<Rightarrow> bytes"
  pr_debug :: "fasm_value \<Rightarrow> bytes"

definition json_map :: "(bytes \<times> json) list \<Rightarrow> json" where
  "json_map kvs = JObject (fold (\<lambda>(k, v). btree_insert k v) kvs [])"

primrec value_to_json :: "printers \<Rightarrow> fasm_value \<Rightarrow> json" where
  "value_to_json pr VNull = JNull"
| "value_to_json pr (VBool b) = JBool b"
| "value_to_json pr (VInt32 n) = JNumber (number_of_i64 (scast n))"
| "value_to_json pr (VInt64 n) = JNumber (number_of_i64 n)"
| "value_to_json pr (VUint8 n) = JNumber (JPos (ucast n))"
| "value_to_json pr (VUint16 n) = JNumber (JPos (ucast n))"
| "value_to_json pr (VUint32 n) = JNumber (JPos (ucast n))"
| "value_to_json pr (VUint64 n) = JNumber (JPos n)"
| "value_to_json pr (VFloat32 f) = json_of_f64 (f64_of_f32 f)"
| "value_to_json pr (VFloat64 f) = json_of_f64 f"
| "value_to_json pr (VVec vs) =
     (let bs = List.map_filter as_uint8 vs
      in if length bs = length vs
         then (if utf8_valid bs then JString bs else json_map [(ascii ''$b64'', JString (pr_b64 pr bs))])
         else JArray (map (value_to_json pr) vs))"
| "value_to_json pr (VStruct s) =
     json_map (map (\<lambda>(k, j). (show_nat (unat k), j)) (map (map_prod id (value_to_json pr)) s))"
| "value_to_json pr (VOption opt) = (case map_fasm_option (value_to_json pr) opt of OptSome j \<Rightarrow> j | OptNone \<Rightarrow> JNull)"
| "value_to_json pr (VResult r) = (case map_fasm_result (value_to_json pr) r of
      ResOk j \<Rightarrow> json_map [(ascii ''ok'', j)]
    | ResErr c \<Rightarrow> json_map [(ascii ''err'', JNumber (JPos (ucast c)))])"
| "value_to_json pr (VInt8 n) = JString (pr_debug pr (VInt8 n))"
| "value_to_json pr (VInt16 n) = JString (pr_debug pr (VInt16 n))"
| "value_to_json pr (VRefMut a b) = JString (pr_debug pr (VRefMut a b))"
| "value_to_json pr (VRefImm a b) = JString (pr_debug pr (VRefImm a b))"
| "value_to_json pr (VStack xs) = JString (pr_debug pr (VStack xs))"
| "value_to_json pr (VQueue xs) = JString (pr_debug pr (VQueue xs))"
| "value_to_json pr (VHeapMin xs) = JString (pr_debug pr (VHeapMin xs))"
| "value_to_json pr (VHeapMax xs) = JString (pr_debug pr (VHeapMax xs))"
| "value_to_json pr (VSparse m) = JString (pr_debug pr (VSparse m))"
| "value_to_json pr (VBTree m) = JString (pr_debug pr (VBTree m))"
| "value_to_json pr (VSlice xs) = JString (pr_debug pr (VSlice xs))"
| "value_to_json pr (VDeque xs) = JString (pr_debug pr (VDeque xs))"
| "value_to_json pr (VBitset b) = JString (pr_debug pr (VBitset b))"
| "value_to_json pr (VBitvec b) = JString (pr_debug pr (VBitvec b))"
| "value_to_json pr (VFuture f) = JString (pr_debug pr (VFuture f))"

subsection \<open>Arguments\<close>

text \<open>\<open>char::to_digit(16)\<close>.\<close>

definition to_digit16 :: "nat \<Rightarrow> nat option" where
  "to_digit16 c = (if 48 \<le> c \<and> c \<le> 57 then Some (c - 48)
     else if 97 \<le> c \<and> c \<le> 102 then Some (c - 87)
     else if 65 \<le> c \<and> c \<le> 70 then Some (c - 55) else None)"

fun percent_loop :: "source_text \<Rightarrow> source_text" where
  "percent_loop [] = []"
| "percent_loop (c # cs) = (if c = 37
     then (case cs of
         h # l # rest \<Rightarrow> (case (to_digit16 h, to_digit16 l) of
             (Some h, Some l) \<Rightarrow> (16 * h + l) # percent_loop rest | _ \<Rightarrow> percent_loop rest)
       | _ \<Rightarrow> [])
     else c # percent_loop cs)"

definition percent_decode :: "source_text \<Rightarrow> source_text" where
  "percent_decode s = (if 37 \<notin> set s then s else percent_loop s)"

text \<open>\<open>pair.split_once('=')\<close>, the part after.\<close>

definition after_equals :: "source_text \<Rightarrow> source_text option" where
  "after_equals pair = (case dropWhile (\<lambda>c. c \<noteq> 61) pair of [] \<Rightarrow> None | _ # v \<Rightarrow> Some v)"

definition query_values :: "source_text option \<Rightarrow> bytes list" where
  "query_values q = (case q of
      None \<Rightarrow> []
    | Some s \<Rightarrow> map (\<lambda>v. utf8 (percent_decode v)) (List.map_filter after_equals (split_on 38 s)))"

text \<open>Fields are numbered in the order they are added, in \<open>u32\<close>.\<close>

definition add_field :: "fasm_value \<Rightarrow> u32 \<times> (u32 \<times> fasm_value) list \<Rightarrow> u32 \<times> (u32 \<times> fasm_value) list" where
  "add_field v = (\<lambda>(field_idx, args). (field_idx + 1, struct_insert field_idx v args))"

record http_request =
  hr_method :: bytes
  hr_path :: bytes
  hr_query :: "source_text option"
  hr_content_type :: "bytes option"
  hr_body :: bytes

datatype response_body = BText bytes | BJson json | BUnhandled run_error | BJoinError

type_synonym response = "nat \<times> response_body"

definition is_json :: "http_request \<Rightarrow> bool" where
  "is_json req = (case hr_content_type req of
      Some ct \<Rightarrow> take 16 ct = ascii ''application/json'' | None \<Rightarrow> False)"

text \<open>What the handler takes from libraries: the JSON parser with its error text and base64.\<close>

record parsers =
  pa_json :: "bytes \<Rightarrow> bytes + json"
  pa_b64 :: "bytes \<Rightarrow> bytes option"

definition body_value :: "parsers \<Rightarrow> http_request \<Rightarrow> response + fasm_value option" where
  "body_value pa req =
     (if length (hr_body req) > 1048576 then Inl (400, BText (ascii ''request body too large or unreadable''))
      else if hr_body req = [] then Inr None
      else if is_json req then (case pa_json pa (hr_body req) of
          Inr jv \<Rightarrow> Inr (Some (json_to_value (pa_b64 pa) jv))
        | Inl e \<Rightarrow> Inl (400, BText (ascii ''invalid JSON body: '' @ e)))
      else Inr (Some (byte_vec (hr_body req))))"

definition build_args :: "bytes list \<Rightarrow> bytes list \<Rightarrow> fasm_value option \<Rightarrow> fasm_value" where
  "build_args path_params query_params body =
     (let st = fold add_field (map byte_vec (path_params @ query_params)) (0, [])
      in VStruct (snd (case body of Some v \<Rightarrow> add_field v st | None \<Rightarrow> st)))"

text \<open>The first half of \<open>handle_request\<close>: the response that ends it, or the request to dispatch.
  \<open>walk\<close> is the order in which the map of path parameters yields its values.\<close>

definition handle_request :: "parsers \<Rightarrow> (bytes \<Rightarrow> bytes) \<Rightarrow> ((bytes \<times> bytes) list \<Rightarrow> bytes list)
    \<Rightarrow> (program, jit_dispatcher) route_table \<Rightarrow> http_request \<Rightarrow> response + exec_request" where
  "handle_request pa unicode walk table req =
     (case match_route unicode (to_uppercase unicode (hr_method req)) (hr_path req) table of
        None \<Rightarrow> Inl (404, BText (ascii ''404 not found''))
      | Some matched \<Rightarrow> (case body_value pa req of
          Inl resp \<Rightarrow> Inl resp
        | Inr body \<Rightarrow> Inr \<lparr>rq_func = mr_func matched, rq_program = mr_program matched,
            rq_args = build_args (walk (mr_params matched)) (query_values (hr_query req)) body,
            rq_trigger = ascii ''http'', rq_jit = mr_jit matched\<rparr>))"

text \<open>The second half.\<close>

definition http_response :: "printers \<Rightarrow> engine_error + fasm_value \<Rightarrow> response" where
  "http_response pr r = (case r of
      Inr v \<Rightarrow> (200, BJson (value_to_json pr v))
    | Inl Overloaded \<Rightarrow> (503, BText (ascii ''engine overloaded''))
    | Inl (FasmFault e) \<Rightarrow> (500, BUnhandled e)
    | Inl JoinError \<Rightarrow> (500, BJoinError))"

end
