(* ===== verification/Fasm_Pool.thy ===== *)
theory Fasm_Pool
  imports Fasm_Dispatcher Fasm_Behaviour
begin

text \<open>
  What the dispatcher promises over every history of requests: bounded concurrency, the gauge of
  active sandboxes, and no panics for calm programs; and what a recycled sandbox carries from one
  request to the next.
\<close>

inductive_simps engine_step_simps: "engine_step ho Q (en, p) s"

abbreviation engine_reaches :: "host \<Rightarrow> (exec_request \<Rightarrow> bool) \<Rightarrow> engine \<Rightarrow> engine \<Rightarrow> nat \<Rightarrow> bool" where
  "engine_reaches ho Q en en' p \<equiv> (engine_step ho Q)\<^sup>*\<^sup>* (en, 0) (en', p)"

subsection \<open>Acquiring a sandbox\<close>

lemma prepare_engine [simp]:
  "en_permits (snd (prepare ho t req en)) = en_permits en"
  "en_metrics (snd (prepare ho t req en)) = en_metrics en"
  "en_running (snd (prepare ho t req en)) = en_running en"
  "en_config (snd (prepare ho t req en)) = en_config en"
  by (simp_all add: prepare_def acquire_sandbox_def split: option.split prod.split)

lemma prepare_pool: "en_pool (snd (prepare ho t req en)) = (en_pool en)(t := None)"
  by (auto simp: prepare_def acquire_sandbox_def fun_eq_iff split: option.split prod.split)

lemma length_drop_at: "k < length xs \<Longrightarrow> Suc (length (drop_at k xs)) = length xs"
  by (simp add: drop_at_def)

lemma set_drop_at: "set (drop_at k xs) \<subseteq> set xs"
  by (auto simp: drop_at_def dest: in_set_takeD in_set_dropD)

lemma fold_keeps: "(\<And>x s. g (f x s) = g s) \<Longrightarrow> g (fold f xs s) = g s"
  by (induction xs arbitrary: s) auto

lemma mount_keeps_vm [simp]:
  "sb_vm (sandbox_mount_syscall i h sb) = sb_vm sb"
  "sb_vm (mount_shared_sidecar ids call sb) = sb_vm sb"
  "sb_vm (mount_sidecar_from_discovery discover dir sb) = sb_vm sb"
  "sb_vm (mount_engine_syscalls ho sb) = sb_vm sb"
proof -
  show one: "sb_vm (sandbox_mount_syscall i h sb) = sb_vm sb" for i h sb
    by (simp add: sandbox_mount_syscall_def)
  show side: "sb_vm (mount_shared_sidecar ids call sb) = sb_vm sb" for ids call sb
    unfolding mount_shared_sidecar_def by (rule fold_keeps) (rule one)
  show "sb_vm (mount_sidecar_from_discovery discover dir sb) = sb_vm sb"
    unfolding mount_sidecar_from_discovery_def by (rule fold_keeps) (simp add: side split: prod.split)
  show "sb_vm (mount_engine_syscalls ho sb) = sb_vm sb"
    unfolding mount_engine_syscalls_def by (rule fold_keeps) (simp add: one split: prod.split)
qed

lemma from_config_vm [simp]: "sb_vm (from_config discover i cfg) = vm_new []"
  by (simp add: from_config_def Let_def set_clock_hz_def sandbox_new_def split: option.split)

lemma metrics_active [simp]:
  "me_active_sandboxes (record_duration_ms f ms m) = me_active_sandboxes m"
  "me_active_sandboxes (record_error f m) = me_active_sandboxes m"
  "me_active_sandboxes (record_dropped f m) = me_active_sandboxes m"
  "me_active_sandboxes (record_invocation f m) = me_active_sandboxes m"
  "me_active_sandboxes (inc_active m) = me_active_sandboxes m + 1"
  "me_active_sandboxes (dec_active m) = (if me_active_sandboxes m = 0 then 0 else me_active_sandboxes m - 1)"
  by (simp_all add: record_duration_ms_def record_error_def record_dropped_def record_invocation_def
      inc_active_def dec_active_def)

text \<open>The sandbox a request gets, and its run there.\<close>

definition job_sandbox :: "host \<Rightarrow> nat \<Rightarrow> exec_request \<Rightarrow> engine \<Rightarrow> sandbox" where
  "job_sandbox ho t req en = fst (prepare ho t req en)"

definition job_run :: "host \<Rightarrow> nat \<Rightarrow> exec_request \<Rightarrow> engine \<Rightarrow> step_result option" where
  "job_run ho t req en =
     snd (sandbox_run_named (job_sandbox ho t req en) (rq_program req) (rq_func req) (rq_args req))"

lemma finish_job_cases:
  assumes "finish_job ho k t ms en = Finished r en'"
  shows "en_permits en' = en_permits en + 1 \<and> en_running en' = drop_at k (en_running en) \<and>
    ((r = Inl JoinError \<and> job_run ho t (en_running en ! k) en = Some SPanic
        \<and> en_pool en' = (en_pool en)(t := None)
        \<and> me_active_sandboxes (en_metrics en') = me_active_sandboxes (en_metrics en))
     \<or> (\<exists>y s. job_run ho t (en_running en ! k) en = Some (SStop y s)
        \<and> r = map_sum FasmFault id y
        \<and> en_pool en' = (en_pool en)(t \<mapsto> (job_sandbox ho t (en_running en ! k) en)\<lparr>sb_vm := s\<rparr>)
        \<and> me_active_sandboxes (en_metrics en') =
            (let a = me_active_sandboxes (en_metrics en) in if a = 0 then 0 else a - 1)))"
  using assms unfolding finish_job_def job_run_def job_sandbox_def Let_def case_prod_unfold
  by (auto simp: release_sandbox_def prepare_pool split: option.splits step_result.splits sum.splits)

lemma no_join_error [simp]: "map_sum FasmFault id y \<noteq> Inl JoinError" "Inl JoinError \<noteq> map_sum FasmFault id y"
  by (cases y; simp)+

lemma spawn_cases:
  assumes "spawn req en = (r, en')"
  shows "en_pool en' = en_pool en
    \<and> ((en_permits en = 0 \<and> r = Inl Overloaded \<and> en_permits en' = 0 \<and> en_running en' = en_running en
        \<and> me_active_sandboxes (en_metrics en') = me_active_sandboxes (en_metrics en))
     \<or> (en_permits en = Suc (en_permits en') \<and> r = Inr () \<and> en_running en' = en_running en @ [req]
        \<and> me_active_sandboxes (en_metrics en') = me_active_sandboxes (en_metrics en) + 1))"
  using assms by (auto simp: spawn_def split: if_splits)

subsection \<open>Permits and the gauge\<close>

lemma permits_and_gauge:
  assumes "engine_reaches ho Q (dispatcher_new lim metrics_new cfg) en p" "lim + p < 2 ^ 64"
  shows "en_permits en + length (en_running en) = lim
    \<and> unat (me_active_sandboxes (en_metrics en)) = length (en_running en) + p"
  using assms
proof (induction "(en, p)" arbitrary: en p rule: rtranclp_induct)
  case base
  then show ?case
    by (simp add: dispatcher_new_def metrics_new_def)
next
  case (step s)
  obtain en1 p1 where s: "s = (en1, p1)"
    by (cases s)
  from step.hyps(2) show ?case
    unfolding s
  proof (cases rule: engine_step.cases)
    case (step_spawn req r)
    then have IH: "en_permits en1 + length (en_running en1) = lim"
        "unat (me_active_sandboxes (en_metrics en1)) = length (en_running en1) + p"
      using step.hyps(3) [OF s] step.prems by auto
    then show ?thesis
      using spawn_cases [of req en1 r en] step_spawn(3) step.prems by (auto simp: unat_plus_if')
  next
    case (step_finish k t ms r)
    then have IH: "en_permits en1 + length (en_running en1) = lim"
        "unat (me_active_sandboxes (en_metrics en1)) = length (en_running en1) + p1"
      using step.hyps(3) [OF s] step.prems by (auto split: if_splits)
    then show ?thesis
      using finish_job_cases [OF step_finish(3)] length_drop_at [OF step_finish(2)] step_finish(1)
      by (auto simp: Let_def unat_minus_one split: if_splits)
  qed
qed

text \<open>C13. In every history of requests the permits that are left and the requests that run add up to the
  limit, so that no more run at a time, and the gauge of active sandboxes is the number of
  running requests plus the number of those that panicked: a panic leaves it one too high for
  good.\<close>

theorem bounded_concurrency:
  assumes "engine_reaches ho Q (dispatcher_new lim metrics_new cfg) en p" "lim + p < 2 ^ 64"
  shows "en_permits en + length (en_running en) = lim
    \<and> unat (me_active_sandboxes (en_metrics en)) = length (en_running en) + p"
  by (rule permits_and_gauge [OF assms])

subsection \<open>Calm programs\<close>

definition calm_request :: "exec_request \<Rightarrow> bool" where
  "calm_request req \<longleftrightarrow> prog_calm (rq_program req) \<and> wf_value (rq_args req)
     \<and> (\<forall>d i a v. rq_jit req = Some d \<longrightarrow> wf_value a \<longrightarrow> d i a = Some v \<longrightarrow> wf_value v)"

definition sandbox_ok :: "sandbox \<Rightarrow> bool" where
  "sandbox_ok sb \<longleftrightarrow> (\<forall>i h. sb_syscalls sb i = Some h \<longrightarrow> handler_ok False h)
     \<and> (\<forall>d i a v. sb_jit sb = Some d \<longrightarrow> wf_value a \<longrightarrow> d i a = Some v \<longrightarrow> wf_value v)
     \<and> slots_ok (vm_globals (sb_vm sb))"

definition host_ok :: "host \<Rightarrow> bool" where
  "host_ok ho \<longleftrightarrow> (\<forall>(i, h) \<in> set (ho_syscalls ho). handler_ok False h)
     \<and> (\<forall>dir. \<forall>(ids, call) \<in> set (ho_discover ho dir). \<forall>i. handler_ok False (call i))"

lemma sandbox_ok_update [simp]:
  "sandbox_ok (sb\<lparr>sb_clock := c\<rparr>) = sandbox_ok sb"
  "sandbox_ok (sb\<lparr>sb_seccomp := b, sb_landlock := b', sb_read_paths := ps\<rparr>) = sandbox_ok sb"
  "sandbox_ok (sandbox_reset sb) = sandbox_ok sb"
  by (simp_all add: sandbox_ok_def sandbox_reset_def reset_call_stack_def)

lemma sandbox_ok_mount: "sandbox_ok sb \<Longrightarrow> handler_ok False h \<Longrightarrow> sandbox_ok (sandbox_mount_syscall i h sb)"
  by (simp add: sandbox_ok_def sandbox_mount_syscall_def)

lemma sandbox_ok_fold:
  assumes "sandbox_ok sb" "\<And>x sb. x \<in> set xs \<Longrightarrow> sandbox_ok sb \<Longrightarrow> sandbox_ok (f x sb)"
  shows "sandbox_ok (fold f xs sb)"
  using assms by (induction xs arbitrary: sb) auto

lemma sandbox_ok_sidecar:
  "sandbox_ok sb \<Longrightarrow> (\<And>i. handler_ok False (call i)) \<Longrightarrow> sandbox_ok (mount_shared_sidecar ids call sb)"
  unfolding mount_shared_sidecar_def by (rule sandbox_ok_fold) (auto intro: sandbox_ok_mount)

lemma sandbox_ok_new: "sandbox_ok (sandbox_new i)"
  by (auto simp: sandbox_ok_def sandbox_new_def vm_new_def global_new_def dest: builtins_ok)

lemma sandbox_ok_fresh:
  assumes "host_ok ho"
  shows "sandbox_ok (mount_engine_syscalls ho (from_config (ho_discover ho) i cfg))"
proof -
  have "sandbox_ok sb \<Longrightarrow> sandbox_ok (mount_sidecar_from_discovery (ho_discover ho) dir sb)" for sb dir
    using assms unfolding mount_sidecar_from_discovery_def host_ok_def
    by (intro sandbox_ok_fold) (fastforce intro: sandbox_ok_sidecar)+
  then have "sandbox_ok (from_config (ho_discover ho) i cfg)"
    by (auto simp: from_config_def Let_def set_clock_hz_def sandbox_ok_new split: option.split)
  with assms show ?thesis
    unfolding mount_engine_syscalls_def host_ok_def
    by (intro sandbox_ok_fold) (fastforce intro: sandbox_ok_mount)+
qed

definition pool_ok :: "engine \<Rightarrow> bool" where
  "pool_ok en \<longleftrightarrow> (\<forall>t sb. en_pool en t = Some sb \<longrightarrow> sandbox_ok sb) \<and> list_all calm_request (en_running en)"

lemma job_sandbox_ok:
  assumes "host_ok ho" "pool_ok en" "calm_request req"
  shows "sandbox_ok (job_sandbox ho t req en)" "vm_call_stack (sb_vm (job_sandbox ho t req en)) = []"
proof -
  have "sandbox_ok (fst (acquire_sandbox ho t en))"
    using assms(1,2) by (auto simp: acquire_sandbox_def pool_ok_def sandbox_ok_fresh split: option.split)
  then show "sandbox_ok (job_sandbox ho t req en)"
    using assms(3) by (auto simp: job_sandbox_def prepare_def case_prod_unfold sandbox_ok_def
        sandbox_set_jit_def calm_request_def split: option.split)
  show "vm_call_stack (sb_vm (job_sandbox ho t req en)) = []"
    by (auto simp: job_sandbox_def prepare_def case_prod_unfold acquire_sandbox_def sandbox_reset_def
        reset_call_stack_def sandbox_set_jit_def vm_new_def split: option.split)
qed

lemma calm_job:
  assumes "host_ok ho" "pool_ok en" "calm_request req" "job_run ho t req en = Some r"
  shows "step_ok (rq_program req) False r"
proof -
  let ?sb = "job_sandbox ho t req en"
  note ok = job_sandbox_ok [OF assms(1-3), of t]
  have "env_ok False (sandbox_env ?sb (rq_program req))" "slots_ok (vm_globals (sb_vm ?sb))"
    using ok(1) by (auto simp: sandbox_ok_def env_ok_def sandbox_env_def jit_dispatch_def bind_eq_Some_conv)
  moreover have "prog_calm (env_program (sandbox_env ?sb (rq_program req)))" "wf_value (rq_args req)"
    using assms(3) by (auto simp: calm_request_def sandbox_env_def)
  ultimately show ?thesis
    using run_named_step_ok [of "sandbox_env ?sb (rq_program req)" "rq_args req" "sb_vm ?sb" "rq_func req" r]
      ok(2) assms(4) by (simp add: job_run_def sandbox_run_named_def) (simp add: sandbox_env_def)
qed

lemma calm_finish:
  assumes "host_ok ho" "pool_ok en" "k < length (en_running en)" "finish_job ho k t ms en = Finished r en'"
  shows "pool_ok en'" "r \<noteq> Inl JoinError" "r = Inr v \<Longrightarrow> wf_value v"
proof -
  let ?req = "en_running en ! k"
  have calm: "calm_request ?req"
    using assms(2,3) by (simp add: pool_ok_def list_all_length)
  note step = calm_job [OF assms(1,2) calm] and sb = job_sandbox_ok(1) [OF assms(1,2) calm, of t]
  have "\<exists>y s. job_run ho t ?req en = Some (SStop y s) \<and> r = map_sum FasmFault id y
      \<and> en_pool en' = (en_pool en)(t \<mapsto> (job_sandbox ho t ?req en)\<lparr>sb_vm := s\<rparr>)"
    using finish_job_cases [OF assms(4)] step [of t SPanic] by auto
  then obtain y s where y: "job_run ho t ?req en = Some (SStop y s)" "r = map_sum FasmFault id y"
      "en_pool en' = (en_pool en)(t \<mapsto> (job_sandbox ho t ?req en)\<lparr>sb_vm := s\<rparr>)"
    by blast
  have "slots_ok (vm_globals s)" and v: "y = Inr v \<Longrightarrow> wf_value v"
    using step [OF y(1)] by (auto simp: step_ok_def split: sum.splits)
  then have "sandbox_ok ((job_sandbox ho t ?req en)\<lparr>sb_vm := s\<rparr>)"
    using sb by (simp add: sandbox_ok_def)
  then show "pool_ok en'"
    using assms(2) y(3) finish_job_cases [OF assms(4)] set_drop_at [of k "en_running en"]
    by (auto simp: pool_ok_def list_all_iff)
  show "r \<noteq> Inl JoinError" "r = Inr v \<Longrightarrow> wf_value v"
    using y(2) v by (cases y; simp)+
qed

lemma calm_history:
  assumes "host_ok ho" "\<And>req. Q req \<Longrightarrow> calm_request req" "engine_reaches ho Q (dispatcher_new lim metrics_new cfg) en p"
  shows "p = 0 \<and> pool_ok en"
  using assms(3)
proof (induction "(en, p)" arbitrary: en p rule: rtranclp_induct)
  case base
  then show ?case
    by (simp add: pool_ok_def dispatcher_new_def)
next
  case (step s)
  obtain en1 p1 where s: "s = (en1, p1)"
    by (cases s)
  have IH: "p1 = 0" "pool_ok en1"
    using step.hyps(3) [OF s] by auto
  from step.hyps(2) show ?case
    unfolding s
  proof (cases rule: engine_step.cases)
    case (step_spawn req r)
    then show ?thesis
      using IH assms(2) spawn_cases [OF step_spawn(3)] by (auto simp: pool_ok_def)
  next
    case (step_finish k t ms r)
    then show ?thesis
      using IH calm_finish [OF assms(1) IH(2) step_finish(2,3)] by auto
  qed
qed


subsection \<open>What a recycled sandbox keeps\<close>

definition initialised :: "program \<Rightarrow> u32 set" where
  "initialised prog = {idx. \<exists>ins \<in> set (prog_global_inits prog). \<exists>rest. operands ins = OpdKey idx # rest}"

lemma init_globals_other: "idx \<notin> initialised prog \<Longrightarrow> global_get idx (init_globals prog g) = global_get idx g"
proof -
  have "(\<forall>ins \<in> set inss. \<forall>rest. operands ins \<noteq> OpdKey idx # rest) \<Longrightarrow>
      global_get idx (fold init_global inss g) = global_get idx g" for inss
  proof (induction inss arbitrary: g)
    case (Cons ins inss)
    then have "global_get idx (init_global ins g) = global_get idx g"
      by (auto simp: init_global_def global_store.get_set split: list.split operand.split)
    with Cons show ?case
      by simp
  qed simp
  then show "idx \<notin> initialised prog \<Longrightarrow> ?thesis"
    by (auto simp: init_globals_def initialised_def)
qed

lemma job_sandbox_recycled:
  assumes "en_pool en t = Some sb"
  shows "sb_vm (job_sandbox ho t req en) = reset_call_stack (sb_vm sb)"
    "sb_jit (job_sandbox ho t req en) = (case rq_jit req of Some d \<Rightarrow> Some d | None \<Rightarrow> sb_jit sb)"
  using assms by (auto simp: job_sandbox_def prepare_def acquire_sandbox_def sandbox_reset_def
      sandbox_set_jit_def split: option.split)

text \<open>C17. A sandbox that is recycled carries state over to the next request on its thread: a request
  without JIT code runs with the dispatcher of the request before it, whatever that one's
  program was, and every global that its own program does not initialise starts with the value
  that the request before it left.\<close>

theorem recycled_sandbox_keeps:
  assumes "finish_job ho k t ms en = Finished r en'" "job_run ho t (en_running en ! k) en = Some (SStop y s)"
  shows "(rq_jit req = None \<longrightarrow> sb_jit (job_sandbox ho t req en') = sb_jit (job_sandbox ho t (en_running en ! k) en))
    \<and> (\<forall>idx. idx \<notin> initialised (rq_program req) \<longrightarrow>
        global_get idx (init_globals (rq_program req) (vm_globals (sb_vm (job_sandbox ho t req en'))))
          = global_get idx (vm_globals s))"
proof -
  have pool: "en_pool en' t = Some ((job_sandbox ho t (en_running en ! k) en)\<lparr>sb_vm := s\<rparr>)"
    using finish_job_cases [OF assms(1)] assms(2) by auto
  show ?thesis
    using job_sandbox_recycled [OF pool, of ho req] by (simp add: init_globals_other reset_call_stack_def)
qed

definition demo_host :: host where
  "demo_host = \<lparr>ho_discover = (\<lambda>dir. []), ho_syscalls = []\<rparr>"

definition demo_config :: sandbox_config where
  "demo_config = \<lparr>sc_clock_hz = 0, sc_plugin_dir = None, sc_seccomp = False, sc_landlock = False, sc_read_paths = []\<rparr>"

definition request_id :: exec_request where
  "request_id = \<lparr>rq_func = ascii ''Id'', rq_program = caller_demo, rq_args = VInt32 1, rq_trigger = [],
     rq_jit = Some (\<lambda>i a. Some (VInt32 99))\<rparr>"

definition request_main :: exec_request where
  "request_main = \<lparr>rq_func = ascii ''Main'', rq_program = caller_demo, rq_args = VStruct [], rq_trigger = [],
     rq_jit = None\<rparr>"

lemma finish_job_stops:
  assumes "job_run ho t (en_running en ! k) en = Some (SStop y s)"
  shows "\<exists>en'. finish_job ho k t ms en = Finished (map_sum FasmFault id y) en'
    \<and> en_pool en' = (en_pool en)(t \<mapsto> (job_sandbox ho t (en_running en ! k) en)\<lparr>sb_vm := s\<rparr>)
    \<and> en_running en' = drop_at k (en_running en) \<and> en_permits en' = en_permits en + 1"
proof -
  have "\<exists>en'. finish_job ho k t ms en = Finished (map_sum FasmFault id y) en'"
    using assms unfolding finish_job_def job_run_def job_sandbox_def Let_def case_prod_unfold
    by (cases y) auto
  then show ?thesis
    using finish_job_cases [of ho k t ms en] assms by fastforce
qed

lemma demo_names [simp]:
  "get_function_index caller_demo (ascii ''Id'') = Some 1" "get_function_index caller_demo (ascii ''Main'') = Some 0"
  by (simp_all add: get_function_index_def caller_demo_def ascii_def)

lemma demo_globals [simp]: "init_globals caller_demo g = g"
  by (simp add: init_globals_def caller_demo_def)

lemma demo_runs:
  assumes "vm_call_stack m = []"
  shows "run_named \<lparr>env_program = caller_demo, env_syscalls = h, env_jit = j\<rparr> (ascii ''Id'') a m
      = Some (SStop (Inr a) m)"
    and "run_named \<lparr>env_program = caller_demo, env_syscalls = h, env_jit = None\<rparr> (ascii ''Main'') a m
      = Some (SStop (Inr (VInt32 7)) m)"
    and "run_named \<lparr>env_program = caller_demo, env_syscalls = h, env_jit = Some (\<lambda>i a. Some v)\<rparr> (ascii ''Main'') a m
      = Some (SStop (Inr v) m)"
proof -
  show "run_named \<lparr>env_program = caller_demo, env_syscalls = h, env_jit = j\<rparr> (ascii ''Id'') a m
      = Some (SStop (Inr a) m)"
    using assms by (simp add: run_named_def, intro run_rounds_loop [of _ 1])
      (simp add: round_eval caller_demo_def instr_new_def)
  show "run_named \<lparr>env_program = caller_demo, env_syscalls = h, env_jit = None\<rparr> (ascii ''Main'') a m
      = Some (SStop (Inr (VInt32 7)) m)"
    using assms by (simp add: run_named_def, intro run_rounds_loop [of _ 3])
      (simp add: round_eval caller_demo_def instr_new_def eval_nat_numeral)
  show "run_named \<lparr>env_program = caller_demo, env_syscalls = h, env_jit = Some (\<lambda>i a. Some v)\<rparr> (ascii ''Main'') a m
      = Some (SStop (Inr v) m)"
    using assms by (simp add: run_named_def, intro run_rounds_loop [of _ 2])
      (simp add: round_eval caller_demo_def instr_new_def eval_nat_numeral)
qed

text \<open>A single request run on a thread of an idle engine.\<close>

definition serve :: "nat \<Rightarrow> exec_request \<Rightarrow> engine \<Rightarrow> job_end" where
  "serve t req en = finish_job demo_host 0 t 0 (snd (spawn req en))"

lemma serve_stops:
  assumes "en_running en = []" "en_permits en = 4"
    and "run_named (sandbox_env (job_sandbox demo_host t req (snd (spawn req en))) (rq_program req)) (rq_func req)
      (rq_args req) (sb_vm (job_sandbox demo_host t req (snd (spawn req en)))) = Some (SStop (Inr v) s)"
  shows "\<exists>en'. serve t req en = Finished (Inr v) en' \<and> en_running en' = [] \<and> en_permits en' = 4
    \<and> en_pool en' = (en_pool en)(t \<mapsto> (job_sandbox demo_host t req (snd (spawn req en)))\<lparr>sb_vm := s\<rparr>)"
proof -
  define en1 where "en1 = snd (spawn req en)"
  have en1: "en_running en1 = [req]" "en_permits en1 = 3" "en_pool en1 = en_pool en"
    using assms(1,2) by (simp_all add: en1_def spawn_def)
  then have "job_run demo_host t (en_running en1 ! 0) en1 = Some (SStop (Inr v) s)"
    using assms(3) by (simp add: job_run_def sandbox_run_named_def en1_def)
  from finish_job_stops [OF this, of 0] show ?thesis
    using en1 by (auto simp: serve_def en1_def [symmetric] drop_at_def)
qed

lemma fresh_sandbox:
  "en_pool en t = None \<Longrightarrow> vm_call_stack (sb_vm (job_sandbox demo_host t req (snd (spawn req en)))) = []"
  "en_pool en t = None \<Longrightarrow> sb_jit (job_sandbox demo_host t req (snd (spawn req en))) = rq_jit req"
  by (auto simp: job_sandbox_def prepare_def acquire_sandbox_def demo_host_def mount_engine_syscalls_def
      sandbox_set_jit_def vm_new_def from_config_def sandbox_new_def mount_sidecar_from_discovery_def
      set_clock_hz_def Let_def spawn_def split: option.split)

text \<open>The thread that serves a request decides its answer: after a request whose program has JIT code,
  a request for another program answers 99 on that thread and 7 on a thread that is new.\<close>

theorem thread_decides_answer:
  "\<exists>en en1 en2. serve 0 request_id (dispatcher_new 4 metrics_new demo_config) = Finished (Inr (VInt32 1)) en
     \<and> serve 0 request_main en = Finished (Inr (VInt32 99)) en1
     \<and> serve 1 request_main en = Finished (Inr (VInt32 7)) en2"
proof -
  let ?en0 = "dispatcher_new 4 metrics_new demo_config"
  let ?sb = "job_sandbox demo_host 0 request_id (snd (spawn request_id ?en0))"
  have sb: "vm_call_stack (sb_vm ?sb) = []" "sb_jit ?sb = Some (\<lambda>i a. Some (VInt32 99))"
    by (simp_all add: fresh_sandbox dispatcher_new_def request_id_def)
  then obtain en where en: "serve 0 request_id ?en0 = Finished (Inr (VInt32 1)) en" "en_running en = []"
      "en_permits en = 4" "en_pool en = (en_pool ?en0)(0 \<mapsto> ?sb\<lparr>sb_vm := sb_vm ?sb\<rparr>)"
    using serve_stops [of ?en0 0 request_id "VInt32 1" "sb_vm ?sb"]
    by (auto simp: dispatcher_new_def sandbox_env_def demo_runs request_id_def)
  have pool: "en_pool (snd (spawn request_main en)) 0 = Some ?sb"
    using en(4) by (simp add: spawn_def)
  note again = job_sandbox_recycled [OF pool, of demo_host request_main]
  have "\<exists>en1. serve 0 request_main en = Finished (Inr (VInt32 99)) en1"
    using serve_stops [OF en(2,3), of 0 request_main "VInt32 99"
        "sb_vm (job_sandbox demo_host 0 request_main (snd (spawn request_main en)))"] again sb
    by (auto simp: sandbox_env_def demo_runs request_main_def reset_call_stack_def)
  moreover have "\<exists>en2. serve 1 request_main en = Finished (Inr (VInt32 7)) en2"
    using serve_stops [OF en(2,3), of 1 request_main "VInt32 7"
        "sb_vm (job_sandbox demo_host 1 request_main (snd (spawn request_main en)))"] en(4)
      fresh_sandbox [of en 1 request_main]
    by (auto simp: sandbox_env_def demo_runs request_main_def dispatcher_new_def)
  ultimately show ?thesis
    using en(1) by blast
qed

subsection \<open>Witnesses\<close>

definition demo_engine :: engine where
  "demo_engine = snd (spawn request_main (dispatcher_new 4 metrics_new demo_config))"

lemma demo_engine_reached:
  "Q request_main \<Longrightarrow> engine_reaches ho Q (dispatcher_new 4 metrics_new demo_config) demo_engine 0"
  by (rule r_into_rtranclp, rule step_spawn [of Q request_main _ "fst (spawn request_main (dispatcher_new 4 metrics_new demo_config))"])
     (simp_all add: demo_engine_def)

lemma bounded_concurrency_witness:
  "en_permits demo_engine + length (en_running demo_engine) = 4
     \<and> unat (me_active_sandboxes (en_metrics demo_engine)) = length (en_running demo_engine)"
  using bounded_concurrency [OF demo_engine_reached [of "\<lambda>_. True" demo_host]] by simp

lemma demo_host_ok: "host_ok demo_host"
  by (simp add: host_ok_def demo_host_def)

lemma main_served:
  assumes "rq_func req = ascii ''Main''" "rq_program req = caller_demo" "rq_jit req = None"
  shows "\<exists>en'. serve t req (dispatcher_new 4 metrics_new demo_config) = Finished (Inr (VInt32 7)) en'"
proof -
  let ?en0 = "dispatcher_new 4 metrics_new demo_config"
  let ?sb = "job_sandbox demo_host t req (snd (spawn req ?en0))"
  have "vm_call_stack (sb_vm ?sb) = []" "sb_jit ?sb = None"
    using assms by (simp_all add: fresh_sandbox dispatcher_new_def)
  then show ?thesis
    using serve_stops [of ?en0 t req "VInt32 7" "sb_vm ?sb"] assms
    by (auto simp: dispatcher_new_def sandbox_env_def demo_runs)
qed


lemma recycled_sandbox_keeps_witness:
  "\<exists>en. serve 0 request_id (dispatcher_new 4 metrics_new demo_config) = Finished (Inr (VInt32 1)) en
     \<and> sb_jit (job_sandbox demo_host 0 request_main en) = Some (\<lambda>i a. Some (VInt32 99))"
proof -
  let ?en = "snd (spawn request_id (dispatcher_new 4 metrics_new demo_config))"
  let ?sb = "job_sandbox demo_host 0 request_id ?en"
  have req: "en_running ?en ! 0 = request_id"
    by (simp add: spawn_def dispatcher_new_def)
  have sb: "vm_call_stack (sb_vm ?sb) = []" "sb_jit ?sb = Some (\<lambda>i a. Some (VInt32 99))"
    by (simp_all add: fresh_sandbox dispatcher_new_def request_id_def)
  then have run: "job_run demo_host 0 (en_running ?en ! 0) ?en = Some (SStop (Inr (VInt32 1)) (sb_vm ?sb))"
    unfolding req by (simp add: job_run_def sandbox_run_named_def sandbox_env_def)
      (simp add: request_id_def demo_runs)
  then obtain en' where en': "finish_job demo_host 0 0 0 ?en = Finished (map_sum FasmFault id (Inr (VInt32 1))) en'"
    using finish_job_stops by blast
  from recycled_sandbox_keeps [OF this run, of request_main] have
    "sb_jit (job_sandbox demo_host 0 request_main en') = sb_jit ?sb"
    unfolding req by (simp add: request_main_def)
  with sb(2) en' show ?thesis
    by (auto simp: serve_def)
qed

end
