(* ===== verification/Fasm_Web.thy ===== *)
theory Fasm_Web
  imports Fasm_Http Fasm_Pool
begin

text \<open>
  What the HTTP handler promises: every request it dispatches has well-formed arguments, values
  survive the way through JSON, and percent-decoding is exact on ASCII; and where the two
  directions of the conversion do not fit each other.
\<close>

subsection \<open>Arguments are well formed\<close>

lemma byte_vec_wf [simp]: "wf_value (byte_vec bs)"
  by (simp add: byte_vec_def list_all_iff)

lemma struct_insert_wf:
  "wf_value (VStruct s) \<Longrightarrow> wf_value v \<Longrightarrow> wf_value (VStruct (struct_insert k v s))"
  by (simp add: keys_distinct_insert wf_struct_insert)

lemma fold_wf:
  assumes "wf_value (VStruct (f st))" "\<And>x st. x \<in> set xs \<Longrightarrow> wf_value (VStruct (f st)) \<Longrightarrow> wf_value (VStruct (f (g x st)))"
  shows "wf_value (VStruct (f (fold g xs st)))"
  using assms
proof (induction xs arbitrary: st)
  case (Cons x xs)
  have "wf_value (VStruct (f (g x st)))"
    using Cons.prems by (meson list.set_intros(1))
  then show ?case
    using Cons.IH [of "g x st"] Cons.prems(2) by (simp del: wf_value.simps)
qed (simp del: wf_value.simps)

lemma positional_wf:
  assumes "list_all (\<lambda>(k, v). wf_value v) obj"
  shows "wf_value (VStruct (positional obj))"
proof -
  have "wf_value v" if "(i, k, v) \<in> set (enumerate 0 obj)" for i k v
    using that assms by (auto simp: in_set_enumerate_eq list_all_length)
  then show ?thesis
    unfolding positional_def
    by (intro fold_wf [of "\<lambda>s. s"]) (auto simp del: wf_value.simps intro: struct_insert_wf, simp)
qed

lemma json_to_value_wf: "wf_value (json_to_value dec j)"
proof (induction j)
  case (JObject obj)
  have "list_all (\<lambda>(k, v). wf_value v) (map (map_prod id (json_to_value dec)) obj)"
    using JObject.IH by (fastforce simp: list_all_iff)
  then show ?case
    by (auto simp del: wf_value.simps intro: positional_wf split: option.split)
qed (auto simp: json_number_to_value_def list_all_iff split: option.split)

lemma add_field_wf:
  "wf_value v \<Longrightarrow> wf_value (VStruct (snd st)) \<Longrightarrow> wf_value (VStruct (snd (add_field v st)))"
  by (cases st) (simp add: add_field_def struct_insert_wf del: wf_value.simps)

lemma build_args_wf:
  assumes "pred_option wf_value body"
  shows "wf_value (build_args ps qs body)"
proof -
  have "wf_value (VStruct (snd (fold add_field (map byte_vec (ps @ qs)) (0, []))))"
  proof (rule fold_wf)
    fix x :: fasm_value and st :: "u32 \<times> (u32 \<times> fasm_value) list"
    assume "x \<in> set (map byte_vec (ps @ qs))" and st: "wf_value (VStruct (snd st))"
    then have "wf_value x"
      by (auto simp del: wf_value.simps)
    then show "wf_value (VStruct (snd (add_field x st)))"
      using st by (rule add_field_wf)
  qed simp
  with assms show ?thesis
    by (auto simp: build_args_def Let_def simp del: wf_value.simps map_append fold_append
        intro: add_field_wf split: option.split)
qed

lemma body_value_wf: "body_value pa req = Inr body \<Longrightarrow> pred_option wf_value body"
  by (auto simp: body_value_def json_to_value_wf split: if_splits sum.splits)

text \<open>A table whose programs are calm and whose JIT code is well behaved.\<close>

definition calm_table :: "(program, jit_dispatcher) route_table \<Rightarrow> bool" where
  "calm_table table \<longleftrightarrow> (\<forall>r \<in> set table. prog_calm (re_program r)
     \<and> (\<forall>d i a v. re_jit r = Some d \<longrightarrow> wf_value a \<longrightarrow> d i a = Some v \<longrightarrow> wf_value v))"

lemma match_loop_from: "match_loop m reqs table = Some mr \<Longrightarrow>
    \<exists>r \<in> set table. mr_func mr = re_func r \<and> mr_program mr = re_program r \<and> mr_jit mr = re_jit r"
  by (induction table) (auto split: option.splits)

text \<open>Whatever an HTTP request holds, the handler either answers 404 or 400 or dispatches a request
  with well-formed arguments for a route of the table; when the programs of the table are calm it
  is a calm request, which no history of the engine lets panic.\<close>

lemma http_requests_are_calm:
  "case handle_request pa unicode walk table req of
     Inl (code, body) \<Rightarrow> code = 404 \<or> code = 400
   | Inr rq \<Rightarrow> wf_value (rq_args rq) \<and> (\<exists>r \<in> set table. rq_func rq = re_func r \<and> rq_program rq = re_program r)
       \<and> (calm_table table \<longrightarrow> calm_request rq)"
proof (cases "match_route unicode (to_uppercase unicode (hr_method req)) (hr_path req) table")
  case None
  then show ?thesis
    by (simp add: handle_request_def)
next
  case (Some mr)
  then obtain r where r: "r \<in> set table" "mr_func mr = re_func r" "mr_program mr = re_program r" "mr_jit mr = re_jit r"
    unfolding match_route_def using match_loop_from by blast
  show ?thesis
  proof (cases "body_value pa req")
    case (Inl resp)
    then have "fst resp = 400"
      by (auto simp: body_value_def split: if_splits sum.splits)
    with Some Inl show ?thesis
      by (cases resp) (simp add: handle_request_def)
  next
    case (Inr body)
    with Some r build_args_wf [OF body_value_wf [OF Inr]] show ?thesis
      by (auto simp: handle_request_def calm_request_def calm_table_def)
  qed
qed

text \<open>The requests that reach the engine over HTTP.\<close>

definition from_http :: "(program, jit_dispatcher) route_table \<Rightarrow> exec_request \<Rightarrow> bool" where
  "from_http table rq \<longleftrightarrow> (\<exists>pa unicode walk req. handle_request pa unicode walk table req = Inr rq)"


definition demo_route :: "(program, jit_dispatcher) route_table" where
  "demo_route = [new_entry (\<lambda>_. None) [1] [71] [Literal [97]] (ascii ''Main'') caller_demo False]"

definition demo_parsers :: parsers where
  "demo_parsers = \<lparr>pa_json = (\<lambda>_. Inl []), pa_b64 = Some\<rparr>"

lemma demo_handled:
  "handle_request demo_parsers id (map snd) demo_route
     \<lparr>hr_method = [71], hr_path = [47, 97], hr_query = None, hr_content_type = None, hr_body = []\<rparr>
   = Inr \<lparr>rq_func = ascii ''Main'', rq_program = caller_demo, rq_args = VStruct [],
       rq_trigger = ascii ''http'', rq_jit = None\<rparr>"
  by (simp add: handle_request_def demo_route_def match_route_def to_uppercase_def request_segments_def
      trim_matches_def match_entry_def new_entry_def body_value_def build_args_def query_values_def)

definition demo_http :: exec_request where
  "demo_http = \<lparr>rq_func = ascii ''Main'', rq_program = caller_demo, rq_args = VStruct [],
     rq_trigger = ascii ''http'', rq_jit = None\<rparr>"

definition demo_printers :: printers where
  "demo_printers = \<lparr>pr_b64 = id, pr_debug = (\<lambda>_. [])\<rparr>"


subsection \<open>JSON there and back\<close>

text \<open>The values that JSON carries: null, booleans, \<open>INT32\<close>, \<open>INT64\<close> beyond \<open>INT32\<close>, finite \<open>FLOAT64\<close>,
  byte vectors, vectors of such values that are not all bytes, and structs with the fields 0 to
  \<open>n - 1\<close> in order, ten at most.\<close>

primrec web_value :: "fasm_value \<Rightarrow> bool" where
  "web_value VNull = True"
| "web_value (VBool b) = True"
| "web_value (VInt32 n) = True"
| "web_value (VInt64 n) = (\<not> (- (2 ^ 31) \<le> sint n \<and> sint n \<le> 2 ^ 31 - 1))"
| "web_value (VFloat64 f) = (case f64_decode f of FNum _ _ _ \<Rightarrow> True | _ \<Rightarrow> False)"
| "web_value (VVec vs) = (list_all (\<lambda>v. as_uint8 v \<noteq> None) vs \<or> list_all id (map web_value vs))"
| "web_value (VStruct s) = (list_all snd (map (map_prod id web_value) s) \<and> length s \<le> 10
     \<and> map fst s = map of_nat [0..<length s])"
| "web_value (VInt8 n) = False"
| "web_value (VInt16 n) = False"
| "web_value (VUint8 n) = False"
| "web_value (VUint16 n) = False"
| "web_value (VUint32 n) = False"
| "web_value (VUint64 n) = False"
| "web_value (VFloat32 f) = False"
| "web_value (VRefMut a b) = False"
| "web_value (VRefImm a b) = False"
| "web_value (VStack xs) = False"
| "web_value (VQueue xs) = False"
| "web_value (VHeapMin xs) = False"
| "web_value (VHeapMax xs) = False"
| "web_value (VSparse m) = False"
| "web_value (VBTree m) = False"
| "web_value (VSlice xs) = False"
| "web_value (VDeque xs) = False"
| "web_value (VBitset b) = False"
| "web_value (VBitvec b) = False"
| "web_value (VOption opt) = False"
| "web_value (VResult r) = False"
| "web_value (VFuture f) = False"

lemma unat_small: "n < 2 ^ LENGTH('a) \<Longrightarrow> unat (of_nat n :: 'a::len word) = n"
  by (simp add: unat_of_nat take_bit_nat_eq_self)

lemma as_i64_number: "as_i64 (number_of_i64 w) = Some w"
proof (cases "sint w < 0")
  case False
  moreover have "sint w < 2 ^ 63"
    using sint_lt [of w] by simp
  moreover have "uint w = sint w mod 2 ^ 64"
    by (simp add: uint_sint take_bit_eq_mod)
  ultimately have "uint w < 2 ^ 63"
    by simp
  then have "int (unat w) < int (2 ^ 63)"
    by simp
  then have "unat w < 2 ^ 63"
    by (simp only: of_nat_less_iff)
  with False show ?thesis
    by (simp add: as_i64_def number_of_i64_def)
qed (simp add: as_i64_def number_of_i64_def)

lemma all_bytes: "length (List.map_filter as_uint8 vs) = length vs \<longleftrightarrow> list_all (\<lambda>v. as_uint8 v \<noteq> None) vs"
proof (induction vs)
  case (Cons v vs)
  have "length (List.map_filter as_uint8 vs) \<le> length vs"
    by (simp add: map_filter_def)
  with Cons show ?case
    by (auto simp: map_filter_simps split: option.split)
qed (simp add: map_filter_simps)

lemma bytes_back: "list_all (\<lambda>v. as_uint8 v \<noteq> None) vs \<Longrightarrow> byte_vec (List.map_filter as_uint8 vs) = VVec vs"
  by (induction vs) (auto simp: byte_vec_def map_filter_simps as_uint8_def split: val_split option.splits)

lemma btree_insert_last: "\<forall>x \<in> set m. fst x < k \<Longrightarrow> btree_insert k v m = m @ [(k, v)]"
  by (induction m) (auto dest: less_not_sym)

lemma btree_inserts_sorted:
  "sorted_wrt (<) (map fst (m @ kvs)) \<Longrightarrow> fold (\<lambda>(k, v). btree_insert k v) kvs m = m @ kvs"
proof (induction kvs arbitrary: m)
  case (Cons kv kvs)
  obtain k v where kv: "kv = (k, v)"
    by (cases kv)
  have "btree_insert k v m = m @ [(k, v)]"
    using Cons.prems by (intro btree_insert_last) (auto simp: kv sorted_wrt_append)
  then show ?case
    using Cons.IH [of "m @ [(k, v)]"] Cons.prems by (simp add: kv)
qed simp

lemma positional_numbers:
  "positional kvs = map (\<lambda>(i, (_, v)). (of_nat i, v)) (enumerate 0 kvs)" if "length kvs \<le> 10"
proof -
  have "fold (\<lambda>(i, (_, v)). struct_insert (of_nat i) v) (enumerate n kvs) s
      = s @ map (\<lambda>(i, (_, v)). (of_nat i, v)) (enumerate n kvs)"
    if "n + length kvs \<le> 10" "\<forall>x \<in> set s. \<exists>j < n. fst x = of_nat j" for n and s :: "(u32 \<times> fasm_value) list" and kvs :: "(bytes \<times> fasm_value) list"
    using that
  proof (induction kvs arbitrary: n s)
    case (Cons kv kvs)
    have fresh: "\<forall>x \<in> set s. fst x \<noteq> of_nat n" if "\<forall>x \<in> set s. \<exists>j < n. fst x = of_nat j"
      for s :: "(u32 \<times> fasm_value) list"
    proof
      fix x assume "x \<in> set s"
      with that obtain j where "j < n" "fst x = of_nat j" by blast
      moreover from this have "unat (of_nat j :: u32) = j" "unat (of_nat n :: u32) = n"
        using Cons.prems(1) by (auto simp: unat_small)
      ultimately show "fst x \<noteq> of_nat n" by (metis less_irrefl)
    qed
    have app: "struct_insert k v s = s @ [(k, v)]" if "\<forall>x \<in> set s. fst x \<noteq> k"
      for k :: u32 and v :: fasm_value and s
      using that by (induction k v s rule: struct_insert.induct) auto
    obtain k v where kv: "kv = (k, v)"
      by (cases kv)
    have "\<forall>x \<in> set (s @ [(of_nat n, v)]). \<exists>j < Suc n. fst x = of_nat j"
      using Cons.prems(2) by (auto intro: less_SucI)
    then show ?case
      using Cons.IH [of "Suc n" "s @ [(of_nat n, v)]"] Cons.prems(1) app [OF fresh [OF Cons.prems(2)]]
      by (simp add: kv)
  qed simp
  from this [of 0 kvs "[]"] that show ?thesis
    by (simp add: positional_def)
qed

lemma digit_key: "i < 10 \<Longrightarrow> show_nat i = [of_nat (48 + i)]"
  by (simp add: show_nat_def nat_digits.simps)

lemma web_struct_back:
  assumes "length s \<le> 10" "map fst s = map of_nat [0..<length s]"
    and "\<And>v. v \<in> snd ` set s \<Longrightarrow> json_to_value dec (value_to_json pr v) = v"
  shows "json_to_value dec (value_to_json pr (VStruct s)) = VStruct s"
proof -
  define obj where "obj = map (\<lambda>(k, v). (show_nat (unat k), value_to_json pr v)) s"
  have key: "fst (s ! i) = of_nat i" if "i < length s" for i
    using that assms(2) by (metis nth_map nth_upt add_0 length_map length_upt diff_zero)
  have name: "fst (obj ! i) = [of_nat (48 + i)]" if "i < length s" for i
  proof -
    have "unat (of_nat i :: u32) = i"
      using that assms(1) by (simp add: unat_small)
    then show ?thesis
      using that assms(1) key [OF that] by (cases "s ! i") (simp add: obj_def digit_key)
  qed
  have len: "length obj = length s"
    by (simp add: obj_def)
  have "sorted_wrt (<) (map fst obj)"
    unfolding sorted_wrt_iff_nth_less
  proof (intro allI impI)
    fix i j assume ij: "i < j" "j < length (map fst obj)"
    then have "(of_nat (48 + i) :: u8) < of_nat (48 + j)"
      using assms(1) len by (simp add: word_less_nat_alt unat_small del: of_nat_add)
    with ij show "map fst obj ! i < map fst obj ! j"
      by (simp add: name len)
  qed
  then have json: "value_to_json pr (VStruct s) = JObject obj"
    using btree_inserts_sorted [of "[]" obj] by (simp add: json_map_def obj_def comp_def case_prod_unfold)
  have "sentinel dec obj = None"
  proof (cases "length obj = 1")
    case True
    then obtain k j where obj: "obj = [(k, j)]"
      by (cases obj) auto
    then have "k = [48]"
      using name [of 0] len by (cases s) auto
    with obj show ?thesis
      by (simp add: sentinel_def btree_get_def ascii_def)
  qed (simp add: sentinel_def)
  moreover have "positional (map (map_prod id (json_to_value dec)) obj) = s"
  proof (rule nth_equalityI)
    show "length (positional (map (map_prod id (json_to_value dec)) obj)) = length s"
      using assms(1) by (simp add: positional_numbers len)
    fix i assume "i < length (positional (map (map_prod id (json_to_value dec)) obj))"
    then have i: "i < length s"
      using assms(1) by (simp add: positional_numbers len)
    then have "json_to_value dec (value_to_json pr (snd (s ! i))) = snd (s ! i)"
      by (intro assms(3)) simp
    with i assms(1) key [OF i] show "positional (map (map_prod id (json_to_value dec)) obj) ! i = s ! i"
      by (cases "s ! i") (simp add: positional_numbers len nth_enumerate_eq obj_def)
  qed
  ultimately show ?thesis
    unfolding json by simp
qed

text \<open>C19. A value that JSON carries comes back from JSON unchanged, when base64 decodes what it encodes.\<close>

theorem json_round_trip:
  assumes "web_value v" "\<And>bs. dec (pr_b64 pr bs) = Some bs"
  shows "json_to_value dec (value_to_json pr v) = v"
  using assms(1)
proof (induction v)
  case (VInt32 n)
  have "sint (scast n :: i64) = sint n"
    by (simp add: sint_up_scast is_up)
  moreover have "- (2 ^ 31) \<le> sint n" "sint n < 2 ^ 31"
    using sint_ge [of n] sint_lt [of n] by simp_all
  moreover have "ucast (scast n :: i64) = n"
  proof (rule bit_word_eqI)
    fix i assume "i < LENGTH(32)"
    then have "min 31 i = i" "i < 32"
      by auto
    then show "bit (ucast (scast n :: i64) :: i32) i = bit n i"
      by (simp add: bit_simps)
  qed
  ultimately show ?case
    by (simp add: json_number_to_value_def as_i64_number)
next
  case (VInt64 n)
  then show ?case
    by (auto simp: json_number_to_value_def as_i64_number)
next
  case (VFloat64 f)
  then show ?case
    by (auto simp: json_of_f64_def json_number_to_value_def as_i64_def as_f64_def split: fl.splits)
next
  case (VVec vs)
  show ?case
  proof (cases "list_all (\<lambda>v. as_uint8 v \<noteq> None) vs")
    case True
    then show ?thesis
      using bytes_back [OF True] assms(2)
      by (simp add: all_bytes Let_def json_map_def sentinel_def btree_get_def)
  next
    case False
    then have "map (json_to_value dec \<circ> value_to_json pr) vs = vs"
      using VVec by (intro map_idI) (auto simp: list_all_iff)
    with False show ?thesis
      by (simp add: all_bytes Let_def)
  qed
next
  case (VStruct s)
  then show ?case
    by (intro web_struct_back) (fastforce simp: list_all_iff)+
qed simp_all

lemma json_round_trip_witness:
  "json_to_value Some (value_to_json \<lparr>pr_b64 = id, pr_debug = (\<lambda>_. [])\<rparr>
     (VStruct [(0, VInt32 7), (1, VVec [VUint8 255]), (2, VVec [VNull, VBool True])]))
   = VStruct [(0, VInt32 7), (1, VVec [VUint8 255]), (2, VVec [VNull, VBool True])]"
  by (rule json_round_trip) (simp_all add: as_uint8_def upt_conv_Cons)

text \<open>A struct of more than ten fields does not: its keys are ordered as texts, so that field 10
  comes back as field 2.\<close>

theorem large_struct_is_permuted:
  "json_to_value dec (value_to_json pr (VStruct (map (\<lambda>i. (of_nat i, VInt32 (of_nat i))) [0..<11])))
   = VStruct (map (\<lambda>(i, j). (of_nat i, VInt32 (of_nat j))) (zip [0..<11] [0, 1, 10, 2, 3, 4, 5, 6, 7, 8, 9]))"
  by (simp add: upt_conv_Cons json_map_def show_nat_def nat_digits.simps positional_def sentinel_def
      json_number_to_value_def as_i64_def number_of_i64_def)

subsection \<open>Percent encoding\<close>

definition hex_char :: "nat \<Rightarrow> nat" where
  "hex_char d = (if d < 10 then 48 + d else 55 + d)"

definition percent_encode :: "bytes \<Rightarrow> source_text" where
  "percent_encode bs = concat (map (\<lambda>b. [37, hex_char (unat b div 16), hex_char (unat b mod 16)]) bs)"

lemma percent_loop_encode: "percent_loop (percent_encode bs) = map unat bs"
proof (induction bs)
  case (Cons b bs)
  have "unat b div 16 < 16"
    using unat_lt_256 [of b] by linarith
  then have "to_digit16 (hex_char (unat b div 16)) = Some (unat b div 16)"
    "to_digit16 (hex_char (unat b mod 16)) = Some (unat b mod 16)"
    by (auto simp: to_digit16_def hex_char_def)
  with Cons show ?case
    by (simp add: percent_encode_def)
qed (simp add: percent_encode_def)

lemma utf8_latin1: "utf8 (map unat bs) = bs \<longleftrightarrow> list_all (\<lambda>b. b < 128) bs"
proof -
  have enc: "utf8_encode (unat b) = [b]" if "b < 128" for b :: u8
    using that by (simp add: utf8_encode_def word_less_nat_alt)
  have len: "length (utf8_encode (unat b)) = 2" if "\<not> b < 128" for b :: u8
    using that unat_lt_256 [of b] by (simp add: utf8_encode_def word_less_nat_alt)
  have "length (utf8 (map unat bs)) = length bs + length (filter (\<lambda>b. \<not> b < 128) bs)"
    by (induction bs) (auto simp: utf8_def enc len)
  then have "utf8 (map unat bs) = bs \<Longrightarrow> list_all (\<lambda>b. b < 128) bs"
    by (auto simp: filter_empty_conv list_all_iff)
  moreover have "list_all (\<lambda>b. b < 128) bs \<Longrightarrow> utf8 (map unat bs) = bs"
    by (induction bs) (auto simp: utf8_def enc)
  ultimately show ?thesis
    by blast
qed

text \<open>A query value whose bytes are percent-encoded reaches the program as those bytes exactly when
  all of them are ASCII: each byte of a longer UTF-8 character becomes a character of its own.\<close>

theorem percent_decode_ascii_only:
  "utf8 (percent_decode (percent_encode bs)) = bs \<longleftrightarrow> list_all (\<lambda>b. b < 128) bs"
proof -
  have "percent_decode (percent_encode bs) = map unat bs"
    using percent_loop_encode [of bs] by (cases bs) (auto simp: percent_decode_def percent_encode_def)
  then show ?thesis
    by (simp add: utf8_latin1)
qed

end
