(* ===== verification/Fasm_Routing.thy ===== *)
theory Fasm_Routing
  imports Fasm_Router
begin

text \<open>
  What the route table promises: a request goes to the first route that fits it, with the values of
  its parameters; the collision check refuses exactly the patterns that fit the same requests as an
  existing one; removal touches managed routes only; patterns survive printing and parsing.
\<close>

subsection \<open>Fitting a pattern\<close>

fun segment_fits :: "segment \<Rightarrow> bytes \<Rightarrow> bool" where
  "segment_fits (Literal lit) req = (lit = req)"
| "segment_fits (Param name) req = True"

definition pattern_fits :: "segment list \<Rightarrow> bytes list \<Rightarrow> bool" where
  "pattern_fits = list_all2 segment_fits"

definition fits :: "bytes \<Rightarrow> bytes list \<Rightarrow> ('p, 'j) route_entry \<Rightarrow> bool" where
  "fits m reqs r \<longleftrightarrow> re_method r = m \<and> pattern_fits (re_segments r) reqs"

text \<open>The parameters of a match, the last one of a name first.\<close>

fun bound_params :: "segment list \<Rightarrow> bytes list \<Rightarrow> (bytes \<times> bytes) list" where
  "bound_params (Param name # segs) (req # reqs) = bound_params segs reqs @ [(name, req)]"
| "bound_params (Literal lit # segs) (req # reqs) = bound_params segs reqs"
| "bound_params _ _ = []"

lemma match_segments_fits:
  "length segs = length reqs \<Longrightarrow> match_segments segs reqs params =
     (if pattern_fits segs reqs then Some (fold (\<lambda>(k, v). sparse_insert k v) (rev (bound_params segs reqs)) params)
      else None)"
  by (induction segs reqs params rule: match_segments.induct) (auto simp: pattern_fits_def)

lemma match_entry_fits:
  "match_entry m reqs r = (if fits m reqs r
     then Some (fold (\<lambda>(k, v). sparse_insert k v) (rev (bound_params (re_segments r) reqs)) []) else None)"
  by (auto simp: match_entry_def fits_def match_segments_fits pattern_fits_def list_all2_lengthD)

lemma match_loop_find:
  "match_loop m reqs table = map_option (\<lambda>r. \<lparr>mr_func = re_func r, mr_program = re_program r, mr_jit = re_jit r,
     mr_params = fold (\<lambda>(k, v). sparse_insert k v) (rev (bound_params (re_segments r) reqs)) []\<rparr>)
       (List.find (fits m reqs) table)"
  by (induction table) (auto simp: match_entry_fits)

lemma sparse_get_inserts:
  "sparse_get (fold (\<lambda>(k, v). sparse_insert k v) (rev kvs) []) = map_of kvs"
  by (induction kvs) (auto simp: sparse_get_map_of sparse_insert_def update_conv')

text \<open>The last position of a parameter in a pattern.\<close>

definition last_param :: "segment list \<Rightarrow> nat \<Rightarrow> bytes \<Rightarrow> bool" where
  "last_param segs i name \<longleftrightarrow>
     i < length segs \<and> segs ! i = Param name \<and> (\<forall>j < length segs. i < j \<longrightarrow> segs ! j \<noteq> Param name)"

lemma bound_params_last:
  assumes "length segs = length reqs" "last_param segs i name"
  shows "map_of (bound_params segs reqs) name = Some (reqs ! i)"
  using assms
proof (induction segs reqs arbitrary: i rule: list_induct2)
  case (Cons s segs r reqs)
  have later: "map_of (bound_params segs reqs) name = Some (reqs ! k)" if "i = Suc k" for k
    using that Cons.prems by (intro Cons.IH) (force simp: last_param_def)
  have none: "map_of (bound_params segs reqs) name = None" if "i = 0"
  proof -
    have "name \<notin> fst ` set (bound_params ss rs)" if "Param name \<notin> set ss" for ss rs
      using that by (induction ss rs rule: bound_params.induct) auto
    moreover have "Param name \<notin> set segs"
      using Cons.prems \<open>i = 0\<close> by (force simp: last_param_def in_set_conv_nth)
    ultimately show ?thesis
      by (simp add: map_of_eq_None_iff)
  qed
  show ?case
    using later none Cons.prems by (cases i; cases s) (auto simp: map_add_def last_param_def split: option.split)
qed (simp add: last_param_def)

subsection \<open>Matching a request\<close>

definition demo_table :: "(unit, unit) route_table" where
  "demo_table = [new_entry (\<lambda>_. None) [1] [71] [Literal [97]] [70] () False,
     new_entry (\<lambda>_. None) [2] [71] [Literal [98], Param [105]] [72] () True]"

lemmas route_eval = match_route_def to_uppercase_def request_segments_def trim_matches_def demo_table_def
  new_entry_def match_entry_def

text \<open>C15. A request goes to the first route of the table whose method is the request's in upper case and
  whose pattern fits its path, and to none exactly when no route fits; the route's function and
  program are taken, and a parameter of the pattern is bound to the path segment at its last
  position.\<close>

theorem request_goes_to_first_fit:
  fixes unicode :: "bytes \<Rightarrow> bytes" and m path :: bytes and table :: "('p, 'j) route_table"
  defines "reqs \<equiv> request_segments path" and "method_up \<equiv> to_uppercase unicode m"
  shows "(match_route unicode m path table = None \<longleftrightarrow> (\<forall>r \<in> set table. \<not> fits method_up reqs r))
    \<and> (\<forall>mr. match_route unicode m path table = Some mr \<longrightarrow> (\<exists>k < length table. fits method_up reqs (table ! k)
        \<and> (\<forall>j < k. \<not> fits method_up reqs (table ! j))
        \<and> mr_func mr = re_func (table ! k) \<and> mr_program mr = re_program (table ! k)
        \<and> (\<forall>i name. last_param (re_segments (table ! k)) i name
            \<longrightarrow> sparse_get (mr_params mr) name = Some (reqs ! i))))"
proof (intro conjI allI impI)
  show "match_route unicode m path table = None \<longleftrightarrow> (\<forall>r \<in> set table. \<not> fits method_up reqs r)"
    by (auto simp: match_route_def match_loop_find reqs_def method_up_def find_None_iff)
next
  fix mr
  assume "match_route unicode m path table = Some mr"
  then obtain r where find: "List.find (fits method_up reqs) table = Some r" and mr: "mr_func mr = re_func r"
      "mr_program mr = re_program r" "sparse_get (mr_params mr) = map_of (bound_params (re_segments r) reqs)"
    by (auto simp: match_route_def match_loop_find reqs_def method_up_def sparse_get_inserts)
  from find obtain k where k: "k < length table" "fits method_up reqs (table ! k)" "r = table ! k"
      "\<forall>j < k. \<not> fits method_up reqs (table ! j)"
    by (auto simp: find_Some_iff)
  have "length (re_segments r) = length reqs"
    using k(2,3) by (auto simp: fits_def pattern_fits_def list_all2_lengthD)
  with k mr show "\<exists>k < length table. fits method_up reqs (table ! k)
        \<and> (\<forall>j < k. \<not> fits method_up reqs (table ! j))
        \<and> mr_func mr = re_func (table ! k) \<and> mr_program mr = re_program (table ! k)
        \<and> (\<forall>i name. last_param (re_segments (table ! k)) i name
            \<longrightarrow> sparse_get (mr_params mr) name = Some (reqs ! i))"
    by (intro exI [of _ k]) (auto intro!: bound_params_last)
qed

lemma request_goes_to_first_fit_witness:
  "\<exists>k < length demo_table. fits [71] [[98], [52]] (demo_table ! k) \<and> (\<forall>j < k. \<not> fits [71] [[98], [52]] (demo_table ! j))"
proof -
  have "match_route id [103] [47, 98, 47, 52] demo_table =
      Some \<lparr>mr_func = [72], mr_program = (), mr_jit = None, mr_params = sparse_insert [105] [52] []\<rparr>"
    by (simp add: route_eval)
  with conjunct2 [OF request_goes_to_first_fit [of id "[103]" "[47, 98, 47, 52]" demo_table]] show ?thesis
    by (fastforce simp: to_uppercase_def request_segments_def trim_matches_def)
qed

subsection \<open>The collision check\<close>

lemma segments_equal_all2: "segments_equal a b \<longleftrightarrow> list_all2 same_segment a b"
  by (auto simp: segments_equal_def list_all2_iff list_all_iff)

text \<open>A request that fits a pattern, with \<open>w\<close> for each parameter.\<close>

definition instance_of :: "bytes \<Rightarrow> segment list \<Rightarrow> bytes list" where
  "instance_of w = map (\<lambda>s. case s of Literal l \<Rightarrow> l | Param n \<Rightarrow> w)"

lemma instance_of_fits: "pattern_fits segs (instance_of w segs)"
  by (induction segs) (auto simp: pattern_fits_def instance_of_def split: segment.split)

lemma same_segment_fits: "same_segment x y \<Longrightarrow> segment_fits x r = segment_fits y r"
  by (cases x; cases y) auto

lemma same_pattern_fits: "segments_equal a b \<Longrightarrow> pattern_fits a reqs = pattern_fits b reqs"
  unfolding segments_equal_all2
proof (induction a b arbitrary: reqs rule: list_all2_induct)
  case (Cons x a y b)
  then show ?case
    using same_segment_fits [OF Cons.hyps(1)] by (cases reqs) (auto simp: pattern_fits_def)
qed simp

text \<open>The collision check is exact: two patterns count as equal exactly when the same requests fit
  them.\<close>

theorem collision_check_exact:
  "segments_equal a b \<longleftrightarrow> (\<forall>reqs. pattern_fits a reqs = pattern_fits b reqs)"
proof
  assume fits: "\<forall>reqs. pattern_fits a reqs = pattern_fits b reqs"
  have ab: "list_all2 segment_fits b (instance_of w a)" "list_all2 segment_fits a (instance_of w b)" for w
    using fits instance_of_fits by (metis pattern_fits_def)+
  then have len: "length a = length b"
    using list_all2_lengthD [OF ab(1)] by (simp add: instance_of_def)
  have "same_segment (a ! i) (b ! i)" if "i < length a" for i
  proof -
    have w: "segment_fits (b ! i) (case a ! i of Literal l \<Rightarrow> l | Param n \<Rightarrow> w)"
      "segment_fits (a ! i) (case b ! i of Literal l \<Rightarrow> l | Param n \<Rightarrow> w)" for w
      using list_all2_nthD2 [OF ab(1) [of w], of i] list_all2_nthD2 [OF ab(2) [of w], of i] that len
      by (auto simp: instance_of_def)
    show ?thesis
      using w [of "[]"] w [of "[0]"] by (cases "a ! i"; cases "b ! i") auto
  qed
  with len show "segments_equal a b"
    by (simp add: segments_equal_all2 list_all2_conv_all_nth)
qed (simp add: same_pattern_fits)

subsection \<open>Registration and removal at run time\<close>

definition conflict_free :: "('p, 'j) route_table \<Rightarrow> bool" where
  "conflict_free = sorted_wrt (\<lambda>r s. \<not> conflicts (re_method s) (re_segments s) r)"

lemma match_loop_append:
  "match_loop m reqs (table @ rs) = (case match_loop m reqs table of
     Some mr \<Rightarrow> Some mr | None \<Rightarrow> match_loop m reqs rs)"
  by (induction table) (auto split: option.split)

text \<open>C16. Registration at run time either names an existing route that serves exactly the requests of the
  new one, or appends the new route: requests that were served are served as before, those that
  were not and fit the new route go to its function, and a table without conflicts stays so.\<close>

theorem dynamic_registration:
  "case add_route_dyn jit unicode uuid m path func program table of
     Inl i \<Rightarrow> \<exists>r \<in> set table. re_id r = i \<and> re_method r = to_uppercase unicode m
       \<and> (\<forall>reqs. pattern_fits (re_segments r) reqs = pattern_fits (parse_path path) reqs)
   | Inr (i, table') \<Rightarrow> i = uuid \<and> (conflict_free table \<longrightarrow> conflict_free table')
       \<and> (\<forall>m' path'. match_route unicode m' path' table' = (case match_route unicode m' path' table of
            Some mr \<Rightarrow> Some mr
          | None \<Rightarrow> if to_uppercase unicode m' = to_uppercase unicode m
                \<and> pattern_fits (parse_path path) (request_segments path')
              then Some \<lparr>mr_func = func, mr_program = program, mr_jit = jit program, mr_params =
                fold (\<lambda>(k, v). sparse_insert k v) (rev (bound_params (parse_path path) (request_segments path'))) []\<rparr>
              else None))"
proof (cases "List.find (conflicts (to_uppercase unicode m) (parse_path path)) table")
  case None
  then have "\<forall>r \<in> set table. \<not> conflicts (to_uppercase unicode m) (parse_path path) r"
    by (auto simp: find_None_iff)
  with None show ?thesis
    by (auto simp: add_route_dyn_def Let_def match_loop_append conflict_free_def sorted_wrt_append
        match_route_def match_entry_fits fits_def new_entry_def split: option.split)
next
  case (Some r)
  then have "r \<in> set table" "conflicts (to_uppercase unicode m) (parse_path path) r"
    by (auto simp: find_Some_iff)
  with Some show ?thesis
    by (auto simp: add_route_dyn_def Let_def conflicts_def same_pattern_fits intro!: bexI [of _ r])
qed

lemma dynamic_registration_witness:
  "conflict_free (demo_table @ [new_entry (\<lambda>_. None) [3] [71] [Literal [99]] [73] () True])"
proof -
  have added: "add_route_dyn (\<lambda>_. None) id [3] [103] [47, 99] [73] () demo_table =
      Inr ([3], demo_table @ [new_entry (\<lambda>_. None) [3] [71] [Literal [99]] [73] () True])"
    by (simp add: add_route_dyn_def route_eval conflicts_def segments_equal_def parse_path_def parse_segment_def)
  have "conflict_free demo_table"
    by (simp add: conflict_free_def demo_table_def new_entry_def conflicts_def segments_equal_def)
  with dynamic_registration [where jit = "\<lambda>_. None" and unicode = id and uuid = "[3]" and m = "[103]"
    and path = "[47, 99]" and func = "[73]" and program = "()" and table = demo_table] show ?thesis
    by (simp add: added)
qed

definition removable :: "bytes \<Rightarrow> ('p, 'j) route_entry \<Rightarrow> bool" where
  "removable i r \<longleftrightarrow> re_id r = i \<and> re_managed r"

lemma remove_route_cases:
  "(remove_route i table = (False, table) \<and> (\<forall>r \<in> set table. \<not> removable i r))
   \<or> (\<exists>xs r ys. table = xs @ r # ys \<and> removable i r \<and> remove_route i table = (True, xs @ ys))"
proof (induction table)
  case (Cons a table)
  show ?case
  proof (cases "removable i a")
    case True
    then have "a # table = [] @ a # table \<and> removable i a \<and> remove_route i (a # table) = (True, [] @ table)"
      by (simp add: removable_def)
    then show ?thesis
      by blast
  next
    case False
    from Cons.IH show ?thesis
    proof (elim disjE exE conjE)
      fix xs r ys
      assume "table = xs @ r # ys" "removable i r" "remove_route i table = (True, xs @ ys)"
      with False have "a # table = (a # xs) @ r # ys \<and> removable i r \<and> remove_route i (a # table) = (True, (a # xs) @ ys)"
        by (auto simp: removable_def)
      then show ?thesis
        by blast
    qed (use False in \<open>auto simp: removable_def\<close>)
  qed
qed simp

text \<open>Removal answers whether a managed route has the identifier; it takes away that one route and no
  static one, keeps a table without conflicts so, and leaves every request that does not fit the
  removed route where it went.\<close>

theorem removal_is_local:
  assumes "remove_route i table = (found, table')"
  shows "(found \<longleftrightarrow> (\<exists>r \<in> set table. re_id r = i \<and> re_managed r))
    \<and> length table' = (if found then length table - 1 else length table)
    \<and> filter (\<lambda>r. \<not> re_managed r) table' = filter (\<lambda>r. \<not> re_managed r) table
    \<and> (conflict_free table \<longrightarrow> conflict_free table')
    \<and> (\<forall>m path. (\<forall>r \<in> set table. re_id r = i \<longrightarrow> \<not> fits (to_uppercase unicode m) (request_segments path) r)
         \<longrightarrow> match_route unicode m path table' = match_route unicode m path table)"
  using remove_route_cases [of i table]
proof (elim disjE exE conjE)
  assume "remove_route i table = (False, table)" "\<forall>r \<in> set table. \<not> removable i r"
  then show ?thesis
    using assms by (auto simp: removable_def)
next
  fix xs r ys
  assume r: "table = xs @ r # ys" "removable i r" "remove_route i table = (True, xs @ ys)"
  have "match_route unicode m path (xs @ ys) = match_route unicode m path table"
    if "\<not> fits (to_uppercase unicode m) (request_segments path) r" for m path
    using that by (simp add: r(1) match_route_def match_loop_append match_entry_fits split: option.split)
  then show ?thesis
    using assms r by (auto simp: removable_def conflict_free_def sorted_wrt_append)
qed

lemma removal_is_local_witness:
  "match_route id [71] [47, 97] [demo_table ! 0] = match_route id [71] [47, 97] demo_table"
proof -
  have "remove_route [2] demo_table = (True, [demo_table ! 0])"
    by (simp add: demo_table_def new_entry_def)
  moreover have "\<not> fits [71] (request_segments [47, 97]) (demo_table ! 1)"
    by (simp add: fits_def pattern_fits_def request_segments_def trim_matches_def demo_table_def new_entry_def)
  ultimately show ?thesis
    using removal_is_local [of "[2]" demo_table True "[demo_table ! 0]" id]
    by (auto simp: to_uppercase_def demo_table_def new_entry_def)
qed

subsection \<open>Patterns as text\<close>

lemma split_on_not_Nil [simp]: "split_on c s \<noteq> []"
  by (induction s) (auto split: list.split)

lemma join_with_Cons: "ws \<noteq> [] \<Longrightarrow> join_with c (w # ws) = w @ c # join_with c ws"
  by (cases ws) auto

lemma join_with_longer: "join_with c ((b # w) # ws) = b # join_with c (w # ws)"
  by (cases ws) auto

lemma join_split: "join_with c (split_on c s) = s"
  by (induction s) (auto simp: join_with_Cons join_with_longer split: list.split)

lemma parse_segment_text: "segment_text (parse_segment s) = s"
  by (auto simp: parse_segment_def split: list.split)

lemma dropWhile_idem: "dropWhile P (dropWhile P xs) = dropWhile P xs"
  by (induction xs) auto

lemma dropWhile_rev_dropWhile:
  "dropWhile P (rev (dropWhile P (rev (dropWhile P xs)))) = rev (dropWhile P (rev (dropWhile P xs)))"
proof -
  have "dropWhile P (rev (dropWhile P (rev ys))) = rev (dropWhile P (rev ys))" if "dropWhile P ys = ys" for ys
  proof (cases ys)
    case (Cons y zs)
    have "\<not> P y"
      using that Cons length_dropWhile_le [of P zs] by auto
    then have "rev (dropWhile P (rev ys)) = y # rev (dropWhile P (rev zs))"
      using Cons by (simp add: dropWhile_append)
    with \<open>\<not> P y\<close> show ?thesis
      by simp
  qed simp
  then show ?thesis
    by (simp add: dropWhile_idem)
qed

lemma trim_matches_slash: "trim_matches c (c # trim_matches c s) = trim_matches c s"
  by (simp add: trim_matches_def dropWhile_rev_dropWhile dropWhile_idem)

text \<open>The path a route is listed with is the registered path without its outer slashes, after one
  slash, and parses to the same pattern.\<close>

theorem listed_path_round_trip:
  "segments_to_path (parse_path path) = slash # trim_matches slash path
   \<and> parse_path (segments_to_path (parse_path path)) = parse_path path"
proof -
  have "segments_to_path (parse_path path) = slash # trim_matches slash path"
    by (simp add: segments_to_path_def parse_path_def comp_def parse_segment_text join_split)
  then show ?thesis
    by (simp add: parse_path_def trim_matches_slash)
qed

end
