(* ===== verification/Fasm_Queue.thy ===== *)
theory Fasm_Queue
  imports Fasm_Collections
begin

text \<open>
  The in-memory message queues of \<open>crates/fasm-engine/src/queues.rs\<close>.  A shared queue holds the
  messages that are ready, in order, and those in flight: delivered and waiting for an
  acknowledgement until a deadline.  Its handle is an \<open>Arc<Mutex<_>>\<close>: an operation that panics
  poisons the lock.  The payload (a JSON value) is a type parameter; the fresh identifiers of
  \<open>Uuid::new_v4\<close> and the times of \<open>Instant::now\<close> (nanoseconds) are arguments, and so is the order in
  which the hash map of messages in flight is walked.  \<open>Notify\<close> has no waiter in the crate and is
  left out.
\<close>

subsection \<open>Messages and queues\<close>

record 'p message =
  msg_id :: bytes
  msg_payload :: 'p
  msg_retries :: u32

definition message_new :: "bytes \<Rightarrow> 'p \<Rightarrow> 'p message" where
  "message_new uuid payload = \<lparr>msg_id = uuid, msg_payload = payload, msg_retries = 0\<rparr>"

record 'p pending_ack =
  pnd_msg :: "'p message"
  pnd_deadline :: nat

record 'p shared_queue =
  sq_ready :: "'p message list"
  sq_in_flight :: "(bytes \<times> 'p pending_ack) list"
  sq_max_retries :: u32
  sq_timeout :: nat

definition sq_new :: "u32 \<Rightarrow> u64 \<Rightarrow> 'p shared_queue" where
  "sq_new max_retries timeout_secs = \<lparr>sq_ready = [], sq_in_flight = [], sq_max_retries = max_retries,
     sq_timeout = unat timeout_secs * 1000000000\<rparr>"

text \<open>The last point in time that an \<open>Instant\<close> of the platform can hold: \<open>i64\<close> seconds.  Adding a
  duration that leads beyond it panics.\<close>

definition instant_max :: nat where
  "instant_max = 2 ^ 63 * 1000000000 - 1"

definition sq_enqueue :: "'p message \<Rightarrow> 'p shared_queue \<Rightarrow> 'p shared_queue" where
  "sq_enqueue msg q = q\<lparr>sq_ready := sq_ready q @ [msg]\<rparr>"

definition sq_try_dequeue :: "nat \<Rightarrow> 'p shared_queue \<Rightarrow> ('p message option \<times> 'p shared_queue) option" where
  "sq_try_dequeue now q = (case sq_ready q of
      [] \<Rightarrow> Some (None, q)
    | msg # rest \<Rightarrow>
        if now + sq_timeout q > instant_max then None
        else Some (Some msg, q\<lparr>sq_ready := rest, sq_in_flight := sparse_insert (msg_id msg)
          \<lparr>pnd_msg = msg, pnd_deadline = now + sq_timeout q\<rparr> (sq_in_flight q)\<rparr>))"

definition sq_ack :: "bytes \<Rightarrow> 'p shared_queue \<Rightarrow> bool \<times> 'p shared_queue" where
  "sq_ack i q = (sparse_contains (sq_in_flight q) i,
     q\<lparr>sq_in_flight := sparse_remove i (sq_in_flight q)\<rparr>)"

definition sq_retry :: "'p pending_ack \<Rightarrow> 'p shared_queue \<Rightarrow> 'p shared_queue" where
  "sq_retry pending q =
     (let msg = (pnd_msg pending)\<lparr>msg_retries := msg_retries (pnd_msg pending) + 1\<rparr>
      in if msg_retries msg \<le> sq_max_retries q then sq_enqueue msg q else q)"

definition sq_nack :: "bytes \<Rightarrow> 'p shared_queue \<Rightarrow> bool \<times> 'p shared_queue" where
  "sq_nack i q = (case sparse_get (sq_in_flight q) i of
      Some pending \<Rightarrow> (True, sq_retry pending (q\<lparr>sq_in_flight := sparse_remove i (sq_in_flight q)\<rparr>))
    | None \<Rightarrow> (False, q))"

text \<open>\<open>order\<close> is the order in which the hash map is walked: it lists the keys.\<close>

definition sq_requeue_expired :: "nat \<Rightarrow> bytes list \<Rightarrow> 'p shared_queue \<Rightarrow> 'p shared_queue" where
  "sq_requeue_expired now order q =
     (let expired = filter (\<lambda>i. case sparse_get (sq_in_flight q) i of
            Some p \<Rightarrow> pnd_deadline p \<le> now | None \<Rightarrow> False) order
      in fold (\<lambda>i q. snd (sq_nack i q)) expired q)"

definition sq_depth :: "'p shared_queue \<Rightarrow> nat" where
  "sq_depth q = length (sq_ready q) + sparse_len (sq_in_flight q)"

subsection \<open>Handles\<close>

text \<open>\<open>self.0.lock().unwrap()\<close> followed by an operation: \<open>None\<close> as a state is a poisoned lock, and as a
  result a panic of the caller.\<close>

definition with_lock :: "('s \<Rightarrow> ('a \<times> 's) option) \<Rightarrow> 's option \<Rightarrow> 'a option \<times> 's option" where
  "with_lock f st = (case Option.bind st f of None \<Rightarrow> (None, None) | Some (x, s) \<Rightarrow> (Some x, Some s))"

definition shared_send :: "bytes \<Rightarrow> 'p \<Rightarrow> 'p shared_queue option \<Rightarrow> unit option \<times> 'p shared_queue option" where
  "shared_send uuid payload = with_lock (\<lambda>q. Some ((), sq_enqueue (message_new uuid payload) q))"

definition shared_try_dequeue ::
  "nat \<Rightarrow> 'p shared_queue option \<Rightarrow> 'p message option option \<times> 'p shared_queue option" where
  "shared_try_dequeue now = with_lock (sq_try_dequeue now)"

definition shared_ack :: "bytes \<Rightarrow> 'p shared_queue option \<Rightarrow> bool option \<times> 'p shared_queue option" where
  "shared_ack i = with_lock (\<lambda>q. Some (sq_ack i q))"

definition shared_nack :: "bytes \<Rightarrow> 'p shared_queue option \<Rightarrow> bool option \<times> 'p shared_queue option" where
  "shared_nack i = with_lock (\<lambda>q. Some (sq_nack i q))"

definition shared_requeue_expired ::
  "nat \<Rightarrow> bytes list \<Rightarrow> 'p shared_queue option \<Rightarrow> unit option \<times> 'p shared_queue option" where
  "shared_requeue_expired now order = with_lock (\<lambda>q. Some ((), sq_requeue_expired now order q))"

definition shared_depth :: "'p shared_queue option \<Rightarrow> nat option \<times> 'p shared_queue option" where
  "shared_depth = with_lock (\<lambda>q. Some (sq_depth q, q))"

text \<open>\<open>recv_async\<close> polls; each turn is the time of the poll and what other tasks do to the queue while
  it yields.  \<open>None\<close>: no poll of the given turns found a message.\<close>

fun recv_async :: "(nat \<times> ('p shared_queue option \<Rightarrow> 'p shared_queue option)) list
    \<Rightarrow> 'p shared_queue option \<Rightarrow> 'p message option option \<times> 'p shared_queue option" where
  "recv_async [] st = (Some None, st)"
| "recv_async ((now, others) # turns) st = (case shared_try_dequeue now st of
      (Some None, st') \<Rightarrow> recv_async turns (others st')
    | r \<Rightarrow> r)"

subsection \<open>Private queues\<close>

definition private_send :: "'p \<Rightarrow> 'p list \<Rightarrow> 'p list" where
  "private_send payload q = q @ [payload]"

definition private_try_recv :: "'p list \<Rightarrow> 'p option \<times> 'p list" where
  "private_try_recv q = (case q of [] \<Rightarrow> (None, []) | payload # rest \<Rightarrow> (Some payload, rest))"

subsection \<open>The registry\<close>

text \<open>Handles are shared: the registry maps names to places of a store of queues.\<close>

record 'p queue_registry =
  qr_names :: "(bytes \<times> nat) list"
  qr_store :: "'p shared_queue option list"

definition qr_new :: "'p queue_registry" where
  "qr_new = \<lparr>qr_names = [], qr_store = []\<rparr>"

definition qr_get_or_create :: "bytes \<Rightarrow> u32 \<Rightarrow> u64 \<Rightarrow> 'p queue_registry \<Rightarrow> nat \<times> 'p queue_registry" where
  "qr_get_or_create name max_retries timeout_secs r = (case sparse_get (qr_names r) name of
      Some h \<Rightarrow> (h, r)
    | None \<Rightarrow> (length (qr_store r),
        \<lparr>qr_names = sparse_insert name (length (qr_store r)) (qr_names r),
         qr_store = qr_store r @ [Some (sq_new max_retries timeout_secs)]\<rparr>))"

definition qr_get :: "bytes \<Rightarrow> 'p queue_registry \<Rightarrow> nat option" where
  "qr_get name r = sparse_get (qr_names r) name"

definition qr_list_names :: "'p queue_registry \<Rightarrow> bytes list" where
  "qr_list_names r = map fst (qr_names r)"

subsection \<open>Histories of a shared queue\<close>

text \<open>What the users of a handle can do, one after the other (the lock orders them), and what a history
  of it leaves: the messages delivered, the identifiers acknowledged, and the queue.\<close>

datatype 'p queue_event =
  EvSend bytes 'p | EvDequeue nat | EvAck bytes | EvNack bytes | EvExpire nat "bytes list"

record 'p queue_log =
  ql_delivered :: "'p message list"
  ql_acked :: "bytes list"

fun queue_step :: "'p queue_event \<Rightarrow> 'p queue_log \<times> 'p shared_queue
    \<Rightarrow> ('p queue_log \<times> 'p shared_queue) option" where
  "queue_step (EvSend uuid payload) (l, q) = Some (l, sq_enqueue (message_new uuid payload) q)"
| "queue_step (EvDequeue now) (l, q) = (case sq_try_dequeue now q of
      None \<Rightarrow> None
    | Some (None, q') \<Rightarrow> Some (l, q')
    | Some (Some m, q') \<Rightarrow> Some (l\<lparr>ql_delivered := ql_delivered l @ [m]\<rparr>, q'))"
| "queue_step (EvAck i) (l, q) = (case sq_ack i q of
      (True, q') \<Rightarrow> Some (l\<lparr>ql_acked := ql_acked l @ [i]\<rparr>, q')
    | (False, q') \<Rightarrow> Some (l, q'))"
| "queue_step (EvNack i) (l, q) = Some (l, snd (sq_nack i q))"
| "queue_step (EvExpire now order) (l, q) = Some (l, sq_requeue_expired now order q)"

fun queue_run :: "'p queue_event list \<Rightarrow> 'p queue_log \<times> 'p shared_queue
    \<Rightarrow> ('p queue_log \<times> 'p shared_queue) option" where
  "queue_run [] s = Some s"
| "queue_run (e # es) s = Option.bind (queue_step e s) (queue_run es)"

fun event_ids :: "'p queue_event \<Rightarrow> bytes list" where
  "event_ids (EvSend i p) = [i]"
| "event_ids (EvDequeue now) = []"
| "event_ids (EvAck i) = []"
| "event_ids (EvNack i) = []"
| "event_ids (EvExpire now order) = []"

definition sent_ids :: "'p queue_event list \<Rightarrow> bytes list" where
  "sent_ids es = concat (map event_ids es)"

definition empty_log :: "'p queue_log" where
  "empty_log = \<lparr>ql_delivered = [], ql_acked = []\<rparr>"

definition deliveries :: "'p queue_log \<Rightarrow> bytes \<Rightarrow> nat" where
  "deliveries l i = count_list (map msg_id (ql_delivered l)) i"

end
