(* ===== verification/Fasm_Delivery.thy ===== *)
theory Fasm_Delivery
  imports Fasm_Queue Fasm_Bits
begin

text \<open>
  What a shared queue promises: its invariant, at-least-once delivery with a bound on the
  deliveries of a message, acknowledgement, and order.  A message is pending while it is ready or
  in flight; the number of its deliveries is its retry count, plus one while it is in flight.
\<close>

subsection \<open>Pending messages\<close>

definition pending_ids :: "'p shared_queue \<Rightarrow> bytes set" where
  "pending_ids q = msg_id ` set (sq_ready q) \<union> fst ` set (sq_in_flight q)"

definition queue_ok :: "'p shared_queue \<Rightarrow> bool" where
  "queue_ok q \<longleftrightarrow> distinct (map msg_id (sq_ready q) @ map fst (sq_in_flight q))
     \<and> (\<forall>(i, p) \<in> set (sq_in_flight q). msg_id (pnd_msg p) = i)"

lemma sparse_insert_absent: "k \<notin> fst ` set m \<Longrightarrow> sparse_insert k v m = m @ [(k, v)]"
  by (induction m) (auto simp: sparse_insert_def)

definition without :: "'k \<Rightarrow> ('k \<times> 'v) list \<Rightarrow> ('k \<times> 'v) list" where
  "without k m = filter (\<lambda>x. fst x \<noteq> k) m"

lemma sparse_remove_without: "sparse_remove k m = without k m"
  by (simp add: sparse_remove_def without_def AList.delete_eq case_prod_unfold eq_commute)

lemma without_keys [simp]: "fst ` set (without k m) = fst ` set m - {k}"
  "x \<in> set (without k m) \<longleftrightarrow> x \<in> set m \<and> fst x \<noteq> k"
  by (auto simp: without_def)

lemma distinct_without: "distinct (map fst m) \<Longrightarrow> distinct (map fst (without k m))"
  by (simp add: without_def distinct_map inj_on_def)

lemma without_absent: "k \<notin> fst ` set m \<Longrightarrow> without k m = m"
  by (induction m) (auto simp: without_def)

lemma map_of_entry:
  assumes "map_of m i = Some p"
  shows "(i, p) \<in> set m" and "i \<in> fst ` set m"
  using map_of_SomeD [OF assms] by force+

lemma sq_dequeueE:
  assumes "sq_try_dequeue now q = Some (r, q')" "queue_ok q"
  obtains "r = None" "q' = q" "sq_ready q = []"
  | m rest p where "r = Some m" "sq_ready q = m # rest" "pnd_msg p = m"
      "q' = q\<lparr>sq_ready := rest, sq_in_flight := sq_in_flight q @ [(msg_id m, p)]\<rparr>"
proof (cases "sq_ready q")
  case Nil
  then show ?thesis
    using assms(1) that(1) by (simp add: sq_try_dequeue_def)
next
  case (Cons m rest)
  then have "msg_id m \<notin> fst ` set (sq_in_flight q)"
    using assms(2) by (simp add: queue_ok_def)
  then show ?thesis
    using assms(1) Cons that(2) [of m rest "\<lparr>pnd_msg = m, pnd_deadline = now + sq_timeout q\<rparr>"]
    by (simp add: sq_try_dequeue_def sparse_insert_absent split: if_splits)
qed

lemma sq_nackE:
  obtains "sq_nack i q = (False, q)" "i \<notin> fst ` set (sq_in_flight q)"
  | p where "(i, p) \<in> set (sq_in_flight q)"
      "sq_nack i q = (True, sq_retry p (q\<lparr>sq_in_flight := without i (sq_in_flight q)\<rparr>))"
proof (cases "map_of (sq_in_flight q) i")
  case None
  then show ?thesis
    using that(1) by (simp add: sq_nack_def sparse_get_map_of) (simp add: map_of_eq_None_iff)
next
  case (Some p)
  then show ?thesis
    using map_of_entry(1) [OF Some] by (intro that(2)) (simp_all add: sq_nack_def sparse_get_map_of sparse_remove_without)
qed

subsection \<open>The invariant of a history\<close>

definition counted :: "u32 \<Rightarrow> (bytes \<Rightarrow> nat) \<Rightarrow> 'p message \<Rightarrow> nat \<Rightarrow> bool" where
  "counted lim d m k \<longleftrightarrow> msg_retries m \<le> lim \<and> d (msg_id m) = unat (msg_retries m) + k"

definition parts_ok :: "u32 \<Rightarrow> bytes set \<Rightarrow> (bytes \<Rightarrow> nat) \<Rightarrow> bytes set \<Rightarrow> 'p message list
    \<Rightarrow> (bytes \<times> 'p pending_ack) list \<Rightarrow> bool" where
  "parts_ok lim ids d acked R F \<longleftrightarrow> distinct (map msg_id R @ map fst F)
     \<and> msg_id ` set R \<union> fst ` set F \<union> acked \<subseteq> ids \<and> acked \<inter> (msg_id ` set R \<union> fst ` set F) = {}
     \<and> (\<forall>m \<in> set R. counted lim d m 0)
     \<and> (\<forall>(i, p) \<in> set F. msg_id (pnd_msg p) = i \<and> counted lim d (pnd_msg p) 1)
     \<and> (\<forall>i \<in> ids - (msg_id ` set R \<union> fst ` set F) - acked. d i = unat lim + 1)
     \<and> (\<forall>i. d i \<le> unat lim + 1) \<and> (\<forall>i. i \<notin> ids \<longrightarrow> d i = 0)"

definition delivery_inv :: "u32 \<Rightarrow> bytes set \<Rightarrow> 'p queue_log \<Rightarrow> 'p shared_queue \<Rightarrow> bool" where
  "delivery_inv lim ids l q \<longleftrightarrow> sq_max_retries q = lim
     \<and> parts_ok lim ids (deliveries l) (set (ql_acked l)) (sq_ready q) (sq_in_flight q)"

lemma counted_other: "counted lim d m k \<Longrightarrow> msg_id m \<noteq> i \<Longrightarrow> counted lim (d(i := n)) m k"
  by (simp add: counted_def)

lemma parts_send:
  assumes "parts_ok lim ids d acked R F" "msg_id m \<notin> ids" "msg_retries m = 0"
  shows "parts_ok lim (insert (msg_id m) ids) d acked (R @ [m]) F"
  using assms unfolding parts_ok_def by (auto simp: counted_def)

lemma parts_ack:
  assumes "parts_ok lim ids d acked R F" "i \<in> fst ` set F"
  shows "parts_ok lim ids d (insert i acked) R (without i F)"
  using assms unfolding parts_ok_def by (auto simp: distinct_without)

lemma parts_dequeue:
  assumes "parts_ok lim ids d acked (m # R) F" "pnd_msg p = m"
  shows "parts_ok lim ids (d(msg_id m := d (msg_id m) + 1)) acked R (F @ [(msg_id m, p)])"
proof -
  let ?d = "d(msg_id m := d (msg_id m) + 1)"
  have fresh: "msg_id m \<notin> msg_id ` set R" "msg_id m \<notin> fst ` set F" and m: "counted lim d m 0" "msg_id m \<in> ids"
    and R: "\<forall>x \<in> set R. counted lim d x 0"
    and F: "\<forall>(i, p) \<in> set F. msg_id (pnd_msg p) = i \<and> counted lim d (pnd_msg p) 1"
    and d: "\<forall>i \<in> ids - (msg_id ` set (m # R) \<union> fst ` set F) - acked. d i = unat lim + 1"
      "\<forall>i. d i \<le> unat lim + 1" "\<forall>i. i \<notin> ids \<longrightarrow> d i = 0"
    using assms(1) by (auto simp: parts_ok_def)
  have "\<forall>x \<in> set R. counted lim ?d x 0"
    using R fresh(1) by (metis counted_other image_eqI)
  moreover have "\<forall>(i, p) \<in> set F. msg_id (pnd_msg p) = i \<and> counted lim ?d (pnd_msg p) 1"
  proof (clarify)
    fix i p assume p: "(i, p) \<in> set F"
    with fresh(2) have "i \<noteq> msg_id m"
      by force
    with p F show "msg_id (pnd_msg p) = i \<and> counted lim ?d (pnd_msg p) 1"
      by (auto simp del: fun_upd_apply intro!: counted_other)
  qed
  moreover have "counted lim ?d m 1" "d (msg_id m) + 1 \<le> unat lim + 1"
    using m by (auto simp: counted_def word_le_nat_alt)
  moreover have "\<forall>i \<in> ids - (msg_id ` set R \<union> fst ` set (F @ [(msg_id m, p)])) - acked. ?d i = unat lim + 1"
  proof
    fix i
    assume "i \<in> ids - (msg_id ` set R \<union> fst ` set (F @ [(msg_id m, p)])) - acked"
    then have "i \<in> ids - (msg_id ` set (m # R) \<union> fst ` set F) - acked" "i \<noteq> msg_id m"
      by auto
    with d(1) show "?d i = unat lim + 1"
      by simp
  qed
  moreover have "?d i \<le> unat lim + 1" "i \<notin> ids \<Longrightarrow> ?d i = 0" for i
    using d(2,3) m(2) \<open>d (msg_id m) + 1 \<le> unat lim + 1\<close> by auto
  moreover have "distinct (map msg_id R @ map fst (F @ [(msg_id m, p)]))"
    "msg_id ` set R \<union> fst ` set (F @ [(msg_id m, p)]) \<union> acked \<subseteq> ids"
    "acked \<inter> (msg_id ` set R \<union> fst ` set (F @ [(msg_id m, p)])) = {}"
    using assms(1) m(2) by (auto simp: parts_ok_def)
  ultimately show ?thesis
    unfolding parts_ok_def using assms(2) by (simp add: ball_Un del: fun_upd_apply)
qed

lemma parts_drop:
  assumes "parts_ok lim ids d acked R F" "(i, p) \<in> set F" "msg_retries (pnd_msg p) = lim"
  shows "parts_ok lim ids d acked R (without i F)"
  using assms unfolding parts_ok_def by (auto simp: distinct_without counted_def)

lemma parts_requeue:
  assumes "parts_ok lim ids d acked R F" "(i, p) \<in> set F" "msg_retries (pnd_msg p) < lim"
  shows "parts_ok lim ids d acked
    (R @ [(pnd_msg p)\<lparr>msg_retries := msg_retries (pnd_msg p) + 1\<rparr>]) (without i F)"
proof -
  have "counted lim d (pnd_msg p) 1" "msg_id (pnd_msg p) = i"
    using assms(1,2) by (auto simp: parts_ok_def)
  moreover from assms(3) have "unat (msg_retries (pnd_msg p) + 1) = unat (msg_retries (pnd_msg p)) + 1"
    by unat_arith
  ultimately have "counted lim d ((pnd_msg p)\<lparr>msg_retries := msg_retries (pnd_msg p) + 1\<rparr>) 0"
    using assms(3) by (auto simp: counted_def word_less_nat_alt word_le_nat_alt)
  moreover have "i \<in> fst ` set F"
    using assms(2) by force
  ultimately show ?thesis
    using assms(1) \<open>msg_id (pnd_msg p) = i\<close> unfolding parts_ok_def by (auto simp: distinct_without)
qed

subsection \<open>Every operation keeps the invariant\<close>

lemma delivery_inv_queue_ok: "delivery_inv lim ids l q \<Longrightarrow> queue_ok q"
  by (auto simp: delivery_inv_def parts_ok_def queue_ok_def)

lemma delivery_inv_new: "delivery_inv lim {} empty_log (sq_new lim timeout)"
  by (simp add: delivery_inv_def parts_ok_def sq_new_def empty_log_def deliveries_def)

lemma deliveries_append [simp]:
  "deliveries (l\<lparr>ql_delivered := ql_delivered l @ [m]\<rparr>) = (deliveries l)(msg_id m := deliveries l (msg_id m) + 1)"
  by (auto simp: deliveries_def fun_eq_iff)

lemma deliveries_acked [simp]: "deliveries (l\<lparr>ql_acked := a\<rparr>) = deliveries l"
  by (simp add: deliveries_def fun_eq_iff)

lemma inv_send:
  assumes "delivery_inv lim ids l q" "i \<notin> ids"
  shows "delivery_inv lim (insert i ids) l (sq_enqueue (message_new i p) q)"
  using assms parts_send [of lim ids "deliveries l" "set (ql_acked l)" "sq_ready q" "sq_in_flight q" "message_new i p"]
  by (simp add: delivery_inv_def sq_enqueue_def message_new_def)

lemma inv_ack:
  assumes "delivery_inv lim ids l q" "sq_ack i q = (b, q')"
  shows "delivery_inv lim ids (if b then l\<lparr>ql_acked := ql_acked l @ [i]\<rparr> else l) q'"
proof (cases "i \<in> fst ` set (sq_in_flight q)")
  case True
  then show ?thesis
    using assms parts_ack [of lim ids "deliveries l" "set (ql_acked l)" "sq_ready q" "sq_in_flight q" i]
    by (auto simp: delivery_inv_def sq_ack_def sparse_remove_without sparse_contains_def sparse_get_map_of
        map_of_eq_None_iff)
next
  case False
  then show ?thesis
    using assms by (auto simp: sq_ack_def sparse_remove_without without_absent sparse_contains_def
        sparse_get_map_of map_of_eq_None_iff)
qed

lemma inv_dequeue:
  assumes "delivery_inv lim ids l q" "sq_try_dequeue now q = Some (r, q')"
  shows "delivery_inv lim ids (case r of None \<Rightarrow> l | Some m \<Rightarrow> l\<lparr>ql_delivered := ql_delivered l @ [m]\<rparr>) q'"
proof (rule sq_dequeueE [OF assms(2) delivery_inv_queue_ok [OF assms(1)]])
  fix m rest p
  assume "r = Some m" "sq_ready q = m # rest" "pnd_msg p = m"
    "q' = q\<lparr>sq_ready := rest, sq_in_flight := sq_in_flight q @ [(msg_id m, p)]\<rparr>"
  then show ?thesis
    using assms(1) parts_dequeue [of lim ids "deliveries l" "set (ql_acked l)" m rest "sq_in_flight q" p]
    by (simp add: delivery_inv_def)
qed (use assms(1) in simp)

lemma inv_nack:
  assumes "delivery_inv lim ids l q" "lim \<noteq> - 1"
  shows "delivery_inv lim ids l (snd (sq_nack i q))"
proof (rule sq_nackE [of i q])
  fix p
  assume p: "(i, p) \<in> set (sq_in_flight q)"
    and nack: "sq_nack i q = (True, sq_retry p (q\<lparr>sq_in_flight := without i (sq_in_flight q)\<rparr>))"
  have parts: "parts_ok lim ids (deliveries l) (set (ql_acked l)) (sq_ready q) (sq_in_flight q)"
    and lim: "sq_max_retries q = lim"
    using assms(1) by (auto simp: delivery_inv_def)
  show ?thesis
  proof (cases "msg_retries (pnd_msg p) = lim")
    case True
    then have "\<not> msg_retries (pnd_msg p) + 1 \<le> lim"
      using assms(2) by (auto simp: word_le_nat_alt unat_Suc)
    then show ?thesis
      using parts_drop [OF parts p True] lim by (simp add: nack sq_retry_def delivery_inv_def)
  next
    case False
    moreover have "msg_retries (pnd_msg p) \<le> lim"
      using parts p by (auto simp: parts_ok_def counted_def)
    ultimately have less: "msg_retries (pnd_msg p) < lim"
      by simp
    then have "msg_retries (pnd_msg p) + 1 \<le> lim"
      by (rule inc_le)
    then show ?thesis
      using parts_requeue [OF parts p less] lim by (simp add: nack sq_retry_def sq_enqueue_def delivery_inv_def)
  qed
qed (use assms(1) in simp)

lemma inv_expire:
  assumes "delivery_inv lim ids l q" "lim \<noteq> - 1"
  shows "delivery_inv lim ids l (sq_requeue_expired now order q)"
proof -
  have "delivery_inv lim ids l (fold (\<lambda>i q. snd (sq_nack i q)) is q)" for "is"
    using assms(1) by (induction "is" arbitrary: q) (simp_all add: inv_nack assms(2))
  then show ?thesis
    by (simp add: sq_requeue_expired_def)
qed

lemma inv_step:
  assumes "queue_step e (l, q) = Some (l', q')" "delivery_inv lim ids l q" "lim \<noteq> - 1"
    and "ids \<inter> set (event_ids e) = {}"
  shows "delivery_inv lim (ids \<union> set (event_ids e)) l' q'"
proof (cases e)
  case (EvDequeue now)
  then show ?thesis
    using assms inv_dequeue [OF assms(2), of now] by (auto split: option.splits)
next
  case (EvAck i)
  then show ?thesis
    using assms inv_ack [OF assms(2), of i] by (auto split: prod.splits bool.splits)
qed (use assms in \<open>auto simp: inv_send inv_nack inv_expire\<close>)

lemma sent_ids_simps [simp]: "sent_ids [] = []" "sent_ids (e # es) = event_ids e @ sent_ids es"
  by (simp_all add: sent_ids_def)

lemma inv_run:
  assumes "queue_run es (l, q) = Some (l', q')" "delivery_inv lim ids l q" "lim \<noteq> - 1"
    and "distinct (sent_ids es)" "ids \<inter> set (sent_ids es) = {}"
  shows "delivery_inv lim (ids \<union> set (sent_ids es)) l' q'"
  using assms
proof (induction es arbitrary: l q ids)
  case (Cons e es)
  then obtain l1 q1 where step: "queue_step e (l, q) = Some (l1, q1)" "queue_run es (l1, q1) = Some (l', q')"
    by (auto split: bind_splits)
  have "delivery_inv lim (ids \<union> set (event_ids e)) l1 q1"
    using Cons.prems by (intro inv_step [OF step(1)]) auto
  then have "delivery_inv lim (ids \<union> set (event_ids e) \<union> set (sent_ids es)) l' q'"
    using Cons.prems by (intro Cons.IH [OF step(2)]) auto
  then show ?case
    by (simp add: Un_assoc)
qed simp

lemma acked_step:
  assumes "queue_step e (l, q) = Some (l', q')" "delivery_inv lim ids l q" "i \<in> set (ql_acked l)"
  shows "i \<in> set (ql_acked l') \<and> deliveries l' i = deliveries l i"
proof (cases e)
  case (EvDequeue now)
  have "i \<notin> msg_id ` set (sq_ready q)"
    using assms(2,3) by (auto simp: delivery_inv_def parts_ok_def)
  with EvDequeue assms(1,3) show ?thesis
    by (auto simp: sq_try_dequeue_def split: option.splits list.splits if_splits)
qed (use assms in \<open>auto split: prod.splits bool.splits\<close>)

lemma acked_run:
  assumes "queue_run es (l, q) = Some (l', q')" "delivery_inv lim ids l q" "lim \<noteq> - 1"
    and "distinct (sent_ids es)" "ids \<inter> set (sent_ids es) = {}" "i \<in> set (ql_acked l)"
  shows "i \<in> set (ql_acked l') \<and> deliveries l' i = deliveries l i"
  using assms
proof (induction es arbitrary: l q ids)
  case (Cons e es)
  then obtain l1 q1 where step: "queue_step e (l, q) = Some (l1, q1)" "queue_run es (l1, q1) = Some (l', q')"
    by (auto split: bind_splits)
  have "delivery_inv lim (ids \<union> set (event_ids e)) l1 q1"
    using Cons.prems by (intro inv_step [OF step(1)]) auto
  moreover note acked = acked_step [OF step(1) Cons.prems(2,6)]
  ultimately have "i \<in> set (ql_acked l') \<and> deliveries l' i = deliveries l1 i"
    using Cons.prems by (intro Cons.IH [OF step(2)]) auto
  with acked show ?case
    by simp
qed simp

subsection \<open>Properties\<close>

definition demo_events :: "nat queue_event list" where
  "demo_events = [EvSend [1] 10, EvSend [2] 20, EvDequeue 0, EvNack [1], EvDequeue 0, EvAck [2], EvDequeue 1]"

definition demo_log :: "nat queue_log" where
  "demo_log = \<lparr>ql_delivered = [\<lparr>msg_id = [1], msg_payload = 10, msg_retries = 0\<rparr>,
     \<lparr>msg_id = [2], msg_payload = 20, msg_retries = 0\<rparr>, \<lparr>msg_id = [1], msg_payload = 10, msg_retries = 1\<rparr>],
     ql_acked = [[2]]\<rparr>"

definition demo_queue :: "nat shared_queue" where
  "demo_queue = \<lparr>sq_ready = [], sq_in_flight = [([1], \<lparr>pnd_msg = \<lparr>msg_id = [1], msg_payload = 10,
     msg_retries = 1\<rparr>, pnd_deadline = 30000000001\<rparr>)], sq_max_retries = 3, sq_timeout = 30000000000\<rparr>"

lemmas queue_eval = empty_log_def sq_new_def sq_enqueue_def message_new_def sq_try_dequeue_def
  instant_max_def sq_nack_def sq_retry_def sparse_get_def sparse_remove_def sparse_insert_def
  sparse_contains_def sq_ack_def Let_def

lemma demo_events_run: "queue_run demo_events (empty_log, sq_new 3 30) = Some (demo_log, demo_queue)"
  by (simp add: demo_events_def demo_log_def demo_queue_def queue_eval)

lemma demo_events_ids: "sent_ids demo_events = [[1], [2]]"
  by (simp add: demo_events_def)

text \<open>C11. Delivery is at least once: in every history of a shared queue in which identifiers are fresh, a
  message that was sent is acknowledged, or still ready or in flight, or has been delivered
  one time more than the retries allowed; and no message is delivered more often than that.\<close>

theorem at_least_once_delivery:
  assumes "queue_run es (empty_log, sq_new lim timeout) = Some (l, q)"
    and "distinct (sent_ids es)" "lim \<noteq> - 1"
  shows "(\<forall>i \<in> set (sent_ids es). i \<in> set (ql_acked l) \<or> i \<in> pending_ids q \<or> deliveries l i = unat lim + 1)
    \<and> (\<forall>i. deliveries l i \<le> unat lim + 1) \<and> distinct (map msg_id (sq_ready q) @ map fst (sq_in_flight q))"
proof -
  have "delivery_inv lim ({} \<union> set (sent_ids es)) l q"
    by (rule inv_run [OF assms(1) delivery_inv_new assms(3,2)]) simp
  then show ?thesis
    by (auto simp: delivery_inv_def parts_ok_def pending_ids_def)
qed

lemma at_least_once_delivery_witness:
  "([1] \<in> set (ql_acked demo_log) \<or> [1] \<in> pending_ids demo_queue \<or> deliveries demo_log [1] = 4)
   \<and> ([2] \<in> set (ql_acked demo_log) \<or> [2] \<in> pending_ids demo_queue \<or> deliveries demo_log [2] = 4)"
  using at_least_once_delivery [OF demo_events_run] by (simp add: demo_events_ids)

text \<open>C26. An acknowledged message was delivered, is gone from the queue and is never delivered again.\<close>

theorem acked_never_redelivered:
  assumes "queue_run es (empty_log, sq_new lim timeout) = Some (l, q)" "sq_ack i q = (True, q')"
    and "queue_run fs (l\<lparr>ql_acked := ql_acked l @ [i]\<rparr>, q') = Some (l'', q'')"
    and "distinct (sent_ids (es @ fs))" "lim \<noteq> - 1"
  shows "0 < deliveries l i \<and> i \<notin> pending_ids q'' \<and> deliveries l'' i = deliveries l i"
proof -
  have ids: "distinct (sent_ids es)" "distinct (sent_ids fs)" "set (sent_ids es) \<inter> set (sent_ids fs) = {}"
    using assms(4) by (auto simp: sent_ids_def)
  have inv: "delivery_inv lim ({} \<union> set (sent_ids es)) l q"
    by (rule inv_run [OF assms(1) delivery_inv_new assms(5) ids(1)]) simp
  obtain p where "(i, p) \<in> set (sq_in_flight q)"
    using assms(2) by (auto simp: sq_ack_def sparse_contains_def sparse_get_map_of dest: map_of_entry)
  then have "0 < deliveries l i"
    using inv by (auto simp: delivery_inv_def parts_ok_def counted_def)
  moreover have acked: "delivery_inv lim (set (sent_ids es)) (l\<lparr>ql_acked := ql_acked l @ [i]\<rparr>) q'"
    using inv_ack [OF inv assms(2)] by simp
  have "i \<in> set (ql_acked l'') \<and> deliveries l'' i = deliveries (l\<lparr>ql_acked := ql_acked l @ [i]\<rparr>) i"
    using ids by (intro acked_run [OF assms(3) acked assms(5)]) auto
  moreover have "delivery_inv lim (set (sent_ids es) \<union> set (sent_ids fs)) l'' q''"
    using ids by (intro inv_run [OF assms(3) acked assms(5)]) auto
  ultimately show ?thesis
    by (auto simp: delivery_inv_def parts_ok_def pending_ids_def)
qed

definition ack_log :: "nat queue_log" where
  "ack_log = \<lparr>ql_delivered = [\<lparr>msg_id = [1], msg_payload = 10, msg_retries = 0\<rparr>], ql_acked = []\<rparr>"

lemma acked_never_redelivered_witness:
  "0 < deliveries ack_log [1] \<and> [1] \<notin> pending_ids (sq_new 3 30 :: nat shared_queue)
     \<and> deliveries (ack_log\<lparr>ql_acked := [[1]]\<rparr>) [1] = deliveries ack_log [1]"
proof (rule acked_never_redelivered)
  let ?q = "(sq_new 3 30)\<lparr>sq_in_flight := [([1],
    \<lparr>pnd_msg = \<lparr>msg_id = [1], msg_payload = 10, msg_retries = 0\<rparr>, pnd_deadline = 30000000000\<rparr>)]\<rparr>"
  show "queue_run [EvSend [1] 10, EvDequeue 0] (empty_log, sq_new 3 30) = Some (ack_log, ?q)"
    by (simp add: queue_eval ack_log_def)
  show "sq_ack [1] ?q = (True, sq_new 3 30)"
    by (simp add: queue_eval)
  show "queue_run [EvDequeue 0] (ack_log\<lparr>ql_acked := ql_acked ack_log @ [[1]]\<rparr>, sq_new 3 30)
      = Some (ack_log\<lparr>ql_acked := [[1]]\<rparr>, sq_new 3 30 :: nat shared_queue)"
    by (simp add: queue_eval ack_log_def)
qed simp_all

text \<open>A queue is first in, first out: without refusals and expiries the payloads delivered, followed by
  those still ready, are the payloads sent, in that order.\<close>

fun sent_payload :: "'p queue_event \<Rightarrow> 'p list" where
  "sent_payload (EvSend i p) = [p]"
| "sent_payload e = []"

fun keeps_order :: "'p queue_event \<Rightarrow> bool" where
  "keeps_order (EvNack i) = False"
| "keeps_order (EvExpire now order) = False"
| "keeps_order e = True"

lemma fifo_step:
  assumes "queue_step e (l, q) = Some (l', q')" "keeps_order e"
  shows "map msg_payload (ql_delivered l' @ sq_ready q')
    = map msg_payload (ql_delivered l @ sq_ready q) @ sent_payload e"
  using assms by (cases e) (auto simp: queue_eval split: option.splits list.splits if_splits prod.splits bool.splits)

theorem first_in_first_out:
  assumes "queue_run es (l, q) = Some (l', q')" "list_all keeps_order es"
  shows "map msg_payload (ql_delivered l' @ sq_ready q')
    = map msg_payload (ql_delivered l @ sq_ready q) @ concat (map sent_payload es)"
  using assms
proof (induction es arbitrary: l q)
  case (Cons e es)
  then obtain l1 q1 where step: "queue_step e (l, q) = Some (l1, q1)" "queue_run es (l1, q1) = Some (l', q')"
    by (auto split: bind_splits)
  from Cons.IH [OF step(2)] fifo_step [OF step(1)] Cons.prems(2) show ?case
    by simp
qed simp

text \<open>A timeout that leads past the last representable instant panics the consumer after the message
  was taken off the queue: the message is lost and the lock is poisoned, so that every later
  use of the queue panics as well.\<close>

theorem timeout_overflow_loses_queue:
  assumes "instant_max < now + unat timeout * 1000000000"
  shows "shared_try_dequeue now (snd (shared_send uuid payload (Some (sq_new lim timeout)))) = (None, None)
    \<and> shared_send i p None = (None, None) \<and> shared_try_dequeue later None = (None, None)
    \<and> shared_depth None = (None, None)"
  using assms
  by (simp add: shared_try_dequeue_def shared_send_def shared_depth_def with_lock_def sq_try_dequeue_def
      sq_new_def sq_enqueue_def)

lemma timeout_overflow_loses_queue_witness:
  "shared_try_dequeue 0 (snd (shared_send [1] () (Some (sq_new 3 (2 ^ 63))))) = (None, None)"
  using conjunct1 [OF timeout_overflow_loses_queue [of 0 "2 ^ 63" "[1]" "()" 3]] by (simp add: instant_max_def)

end
