(* ===== verification/Fasm_Looper.thy ===== *)
theory Fasm_Looper
  imports Fasm_Delivery Fasm_Pool
begin

text \<open>
  The consumers of queues: the looper task of a named queue (\<open>crates/fasm-engine/src/queue_looper.rs\<close>),
  which hands the messages of its queue to the dispatcher, and topics with their subscribers
  (\<open>pubsub.rs\<close>).  The text of a JSON payload is an argument.
\<close>

subsection \<open>The looper\<close>

definition message_args :: "('p \<Rightarrow> bytes) \<Rightarrow> 'p message \<Rightarrow> fasm_value" where
  "message_args show_json msg = VStruct (struct_insert 1 (VVec (map VUint8 (msg_id msg)))
     (struct_insert 0 (VVec (map VUint8 (show_json (msg_payload msg)))) []))"

record 'p looper =
  lo_name :: bytes
  lo_func :: bytes
  lo_program :: program
  lo_show :: "'p \<Rightarrow> bytes"

definition message_request :: "'p looper \<Rightarrow> 'p message \<Rightarrow> exec_request" where
  "message_request lo msg = \<lparr>rq_func = lo_func lo, rq_program = lo_program lo,
     rq_args = message_args (lo_show lo) msg, rq_trigger = ascii ''queue'', rq_jit = None\<rparr>"

text \<open>One iteration: the message handed out, if any, and the new state; \<open>None\<close> when the task panics on a
  poisoned lock.  What the dispatcher answers is only logged.\<close>

definition looper_iteration :: "'p looper \<Rightarrow> nat \<times> bytes list \<times> nat
    \<Rightarrow> u32 \<times> 'p shared_queue option \<times> engine
    \<Rightarrow> ('p message option \<times> u32 \<times> 'p shared_queue option \<times> engine) option" where
  "looper_iteration lo = (\<lambda>(now1, order, now2) (counter, st, en).
     (let counter = counter + 1;
          (expired, st, counter) = (if counter \<ge> 30
            then (case shared_requeue_expired now1 order st of (r, st) \<Rightarrow> (r, st, 0))
            else (Some (), st, counter));
          (depth, st) = shared_depth st
      in case (expired, depth) of
        (Some u, Some d) \<Rightarrow>
          (let en = en\<lparr>en_metrics := set_queue_depth (lo_name lo) (of_nat d) (en_metrics en)\<rparr>
           in case shared_try_dequeue now2 st of
             (Some None, st) \<Rightarrow> Some (None, counter, st, en)
           | (Some (Some msg), st) \<Rightarrow>
               Some (Some msg, counter, st, snd (spawn (message_request lo msg) en))
           | (None, st) \<Rightarrow> None)
      | _ \<Rightarrow> None))"

text \<open>The life of a queue with a looper: messages are sent, and the looper takes its turns.  The first
  component collects the messages handed out.\<close>

datatype 'p queue_turn = TurnSend bytes 'p | TurnLooper nat "bytes list" nat

fun looper_life :: "'p looper \<Rightarrow> 'p queue_turn list \<Rightarrow> 'p message list \<times> u32 \<times> 'p shared_queue option \<times> engine
    \<Rightarrow> ('p message list \<times> u32 \<times> 'p shared_queue option \<times> engine) option" where
  "looper_life lo [] s = Some s"
| "looper_life lo (TurnSend uuid payload # ts) (handed, counter, st, en) =
     looper_life lo ts (handed, counter, snd (shared_send uuid payload st), en)"
| "looper_life lo (TurnLooper now1 order now2 # ts) (handed, counter, st, en) =
     Option.bind (looper_iteration lo (now1, order, now2) (counter, st, en))
       (\<lambda>(m, counter, st, en). looper_life lo ts
          ((case m of None \<Rightarrow> handed | Some msg \<Rightarrow> handed @ [msg]), counter, st, en))"

subsection \<open>Topics\<close>

text \<open>A subscriber is an execution and the handle of its private queue; the queues behind the handles
  are a store.\<close>

type_synonym subscribers = "(bytes \<times> nat) list"

definition topic_publish :: "'p \<Rightarrow> subscribers \<Rightarrow> (nat \<Rightarrow> 'p list) \<Rightarrow> nat \<Rightarrow> 'p list" where
  "topic_publish payload subs qs = fold (\<lambda>(e, h) qs. qs(h := private_send payload (qs h))) subs qs"

definition topic_unsubscribe :: "bytes \<Rightarrow> subscribers \<Rightarrow> subscribers" where
  "topic_unsubscribe exec subs = filter (\<lambda>(e, h). e \<noteq> exec) subs"

definition topic_subscribe :: "bytes \<Rightarrow> nat \<Rightarrow> subscribers \<Rightarrow> subscribers" where
  "topic_subscribe exec h subs = topic_unsubscribe exec subs @ [(exec, h)]"

record 'p pubsub =
  ps_topics :: "(bytes \<times> subscribers) list"
  ps_queues :: "nat \<Rightarrow> 'p list"

definition topic_of :: "bytes \<Rightarrow> 'p pubsub \<Rightarrow> subscribers" where
  "topic_of topic s = (case sparse_get (ps_topics s) topic of Some subs \<Rightarrow> subs | None \<Rightarrow> [])"

definition create_topic :: "bytes \<Rightarrow> 'p pubsub \<Rightarrow> 'p pubsub" where
  "create_topic topic s = s\<lparr>ps_topics := sparse_insert topic (topic_of topic s) (ps_topics s)\<rparr>"

definition publish :: "bytes \<Rightarrow> 'p \<Rightarrow> 'p pubsub \<Rightarrow> nat \<times> 'p pubsub" where
  "publish topic payload s = (case sparse_get (ps_topics s) topic of
      Some subs \<Rightarrow> (length subs, s\<lparr>ps_queues := topic_publish payload subs (ps_queues s)\<rparr>)
    | None \<Rightarrow> (0, s))"

definition subscribe :: "bytes \<Rightarrow> bytes \<Rightarrow> nat \<Rightarrow> 'p pubsub \<Rightarrow> 'p pubsub" where
  "subscribe topic exec h s =
     s\<lparr>ps_topics := sparse_insert topic (topic_subscribe exec h (topic_of topic s)) (ps_topics s)\<rparr>"

definition unsubscribe_all :: "bytes \<Rightarrow> 'p pubsub \<Rightarrow> 'p pubsub" where
  "unsubscribe_all exec s = s\<lparr>ps_topics := map (map_prod id (topic_unsubscribe exec)) (ps_topics s)\<rparr>"

subsection \<open>The looper and the deliveries of its queue\<close>

definition next_counter :: "u32 \<Rightarrow> u32" where
  "next_counter c = (if c + 1 \<ge> 30 then 0 else c + 1)"

definition iteration_events :: "u32 \<Rightarrow> nat \<Rightarrow> bytes list \<Rightarrow> nat \<Rightarrow> 'p queue_event list" where
  "iteration_events c now1 order now2 = (if c + 1 \<ge> 30 then [EvExpire now1 order] else []) @ [EvDequeue now2]"

fun life_events :: "u32 \<Rightarrow> 'p queue_turn list \<Rightarrow> 'p queue_event list" where
  "life_events c [] = []"
| "life_events c (TurnSend uuid payload # ts) = EvSend uuid payload # life_events c ts"
| "life_events c (TurnLooper now1 order now2 # ts) =
     iteration_events c now1 order now2 @ life_events (next_counter c) ts"

lemma shared_simps [simp]:
  "shared_send uuid payload (Some q) = (Some (), Some (sq_enqueue (message_new uuid payload) q))"
  "shared_requeue_expired now order (Some q) = (Some (), Some (sq_requeue_expired now order q))"
  "shared_depth (Some q) = (Some (sq_depth q), Some q)"
  "shared_try_dequeue now (Some q) = (case sq_try_dequeue now q of
     None \<Rightarrow> (None, None) | Some (m, q) \<Rightarrow> (Some m, Some q))"
  by (simp_all add: shared_send_def shared_requeue_expired_def shared_depth_def shared_try_dequeue_def with_lock_def)

definition hand_over :: "'p message option \<Rightarrow> 'p queue_log \<Rightarrow> 'p queue_log" where
  "hand_over m l = (case m of None \<Rightarrow> l | Some msg \<Rightarrow> l\<lparr>ql_delivered := ql_delivered l @ [msg]\<rparr>)"

lemma dequeue_handing_over:
  "queue_step (EvDequeue now) (l, q) = map_option (\<lambda>(m, q). (hand_over m l, q)) (sq_try_dequeue now q)"
  by (auto simp: hand_over_def split: option.splits)

definition served :: "'p looper \<Rightarrow> nat \<Rightarrow> 'p message option \<Rightarrow> engine \<Rightarrow> engine" where
  "served lo d m en =
     (let en = en\<lparr>en_metrics := set_queue_depth (lo_name lo) (of_nat d) (en_metrics en)\<rparr>
      in case m of None \<Rightarrow> en | Some msg \<Rightarrow> snd (spawn (message_request lo msg) en))"

lemma looper_iteration_eq:
  assumes "q1 = (if c + 1 \<ge> 30 then sq_requeue_expired now1 order q else q)"
  shows "looper_iteration lo (now1, order, now2) (c, Some q, en) =
    map_option (\<lambda>(m, q). (m, next_counter c, Some q, served lo (sq_depth q1) m en)) (sq_try_dequeue now2 q1)"
proof -
  have expired: "(if c + 1 \<ge> 30
      then (case shared_requeue_expired now1 order (Some q) of (r, st) \<Rightarrow> (r, st, 0))
      else (Some (), Some q, c + 1)) = (Some (), Some q1, next_counter c)"
    by (simp add: assms next_counter_def)
  show ?thesis
  proof (cases "sq_try_dequeue now2 q1")
    case (Some r)
    then show ?thesis
      by (cases r; cases "fst r") (simp_all add: looper_iteration_def expired served_def Let_def)
  qed (simp add: looper_iteration_def expired Let_def)
qed

lemma queue_run_append: "queue_run (es @ fs) s = Option.bind (queue_run es s) (queue_run fs)"
  by (induction es arbitrary: s) (simp_all split: bind_splits)

lemma iteration_is_events:
  assumes "q1 = (if c + 1 \<ge> 30 then sq_requeue_expired now1 order q else q)"
  shows "queue_run (iteration_events c now1 order now2) (l, q) =
    map_option (\<lambda>(m, q). (hand_over m l, q)) (sq_try_dequeue now2 q1)"
  using assms by (cases "30 \<le> c + 1"; cases "sq_try_dequeue now2 q1")
    (auto simp: iteration_events_def dequeue_handing_over simp del: queue_step.simps(2))

lemma delivered_hand_over:
  "ql_delivered (hand_over m l) = (case m of None \<Rightarrow> ql_delivered l | Some msg \<Rightarrow> ql_delivered l @ [msg])"
  by (simp add: hand_over_def split: option.splits)

lemma life_is_events:
  "map_option (\<lambda>(handed, c, st, en). (handed, st)) (looper_life lo ts (ql_delivered l, c, Some q, en)) =
   map_option (\<lambda>(l, q). (ql_delivered l, Some q)) (queue_run (life_events c ts) (l, q))"
proof (induction ts arbitrary: l c q en)
  case (Cons t ts)
  show ?case
  proof (cases t)
    case (TurnSend uuid payload)
    then show ?thesis
      using Cons.IH by simp
  next
    case (TurnLooper now1 order now2)
    define q1 where q1: "q1 = (if c + 1 \<ge> 30 then sq_requeue_expired now1 order q else q)"
    show ?thesis
    proof (cases "sq_try_dequeue now2 q1")
      case None
      then show ?thesis
        by (simp add: TurnLooper queue_run_append looper_iteration_eq [OF q1] iteration_is_events [OF q1])
    next
      case (Some r)
      then show ?thesis
        using Cons.IH [of "hand_over (fst r) l"]
        by (simp add: TurnLooper queue_run_append looper_iteration_eq [OF q1] iteration_is_events [OF q1]
            delivered_hand_over case_prod_unfold)
    qed
  qed
qed simp

subsection \<open>Rounds of the looper over one message\<close>

fun turn_ids :: "'p queue_turn \<Rightarrow> bytes list" where
  "turn_ids (TurnSend uuid payload) = [uuid]"
| "turn_ids (TurnLooper now1 order now2) = []"

definition life_ids :: "'p queue_turn list \<Rightarrow> bytes list" where
  "life_ids ts = concat (map turn_ids ts)"

lemma sent_by_life: "sent_ids (life_events c ts) = life_ids ts"
  by (induction c ts rule: life_events.induct)
    (simp_all add: life_ids_def iteration_events_def sent_ids_def)

lemma never_acked: "queue_run (life_events c ts) (l, q) = Some (l', q') \<Longrightarrow> ql_acked l' = ql_acked l"
proof (induction c ts arbitrary: l q rule: life_events.induct)
  case (3 c now1 order now2 ts)
  then show ?case
    by (auto simp: queue_run_append iteration_is_events [OF refl] hand_over_def
        split: bind_splits option.splits)
qed simp_all

definition looper_round :: "bytes \<Rightarrow> nat \<Rightarrow> 'p queue_turn list" where
  "looper_round uuid t = replicate 30 (TurnLooper t [uuid] t)"

lemma turns_before_expiry:
  "unat c + n \<le> 29 \<Longrightarrow> life_events c (replicate n (TurnLooper t [uuid] t) @ ts) =
    replicate n (EvDequeue t) @ life_events (c + of_nat n) ts"
proof (induction n arbitrary: c)
  case (Suc n)
  then have "unat (c + 1) = unat c + 1"
    by (simp add: unat_word_ariths)
  moreover from this Suc.prems have "\<not> 30 \<le> c + 1"
    by (simp add: word_le_nat_alt)
  ultimately show ?case
    using Suc.prems by (simp add: Suc.IH iteration_events_def next_counter_def add.assoc)
qed simp

lemma round_events:
  "life_events 0 (looper_round uuid t @ ts) =
    replicate 29 (EvDequeue t) @ [EvExpire t [uuid], EvDequeue t] @ life_events 0 ts"
proof -
  have "looper_round uuid t @ ts = replicate 29 (TurnLooper t [uuid] t) @ TurnLooper t [uuid] t # ts"
    unfolding looper_round_def by (simp add: replicate_app_Cons_same flip: replicate_Suc)
  then show ?thesis
    by (simp add: turns_before_expiry iteration_events_def next_counter_def)
qed

lemma idle_run: "sq_ready q = [] \<Longrightarrow> queue_run (replicate n (EvDequeue t)) (l, q) = Some (l, q)"
  by (induction n) (simp_all add: sq_try_dequeue_def)

definition waiting :: "u32 \<Rightarrow> nat \<Rightarrow> 'p message \<Rightarrow> nat \<Rightarrow> 'p shared_queue" where
  "waiting lim timeout m deadline = \<lparr>sq_ready = [],
     sq_in_flight = [(msg_id m, \<lparr>pnd_msg = m, pnd_deadline = deadline\<rparr>)],
     sq_max_retries = lim, sq_timeout = timeout\<rparr>"

definition delivered :: "'p message \<Rightarrow> 'p queue_log \<Rightarrow> 'p queue_log" where
  "delivered m l = l\<lparr>ql_delivered := ql_delivered l @ [m]\<rparr>"

definition retried :: "'p message \<Rightarrow> 'p message" where
  "retried m = m\<lparr>msg_retries := msg_retries m + 1\<rparr>"

lemma retried_simps [simp]: "msg_id (retried m) = msg_id m" "msg_retries (retried m) = msg_retries m + 1"
  by (simp_all add: retried_def)

lemma later_round:
  assumes "deadline \<le> t" "t + timeout \<le> instant_max"
  shows "queue_run (life_events 0 (looper_round (msg_id m) t @ ts)) (l, waiting lim timeout m deadline) =
    queue_run (life_events 0 ts)
     (if msg_retries m + 1 \<le> lim then (delivered (retried m) l, waiting lim timeout (retried m) (t + timeout))
      else (l, \<lparr>sq_ready = [], sq_in_flight = [], sq_max_retries = lim, sq_timeout = timeout\<rparr>))"
  using assms by (simp add: round_events queue_run_append idle_run waiting_def queue_eval delivered_def
      retried_def sq_requeue_expired_def)

lemma first_round:
  assumes "0 < timeout" "t + timeout \<le> instant_max"
    and "q = \<lparr>sq_ready = [m], sq_in_flight = [], sq_max_retries = lim, sq_timeout = timeout\<rparr>"
  shows "queue_run (life_events 0 (looper_round (msg_id m) t @ ts)) (l, q) =
    queue_run (life_events 0 ts) (delivered m l, waiting lim timeout m (t + timeout))"
proof -
  have "replicate 29 (EvDequeue t) = EvDequeue t # replicate 28 (EvDequeue t :: 'a queue_event)"
    by (simp add: eval_nat_numeral)
  moreover have "queue_run (replicate 28 (EvDequeue t)) (delivered m l, waiting lim timeout m (t + timeout))
      = Some (delivered m l, waiting lim timeout m (t + timeout))"
    by (rule idle_run) (simp add: waiting_def)
  ultimately show ?thesis
    using assms by (simp add: round_events queue_run_append waiting_def queue_eval delivered_def
        sq_requeue_expired_def)
qed

definition rounds :: "bytes \<Rightarrow> (nat \<Rightarrow> nat) \<Rightarrow> nat \<Rightarrow> nat \<Rightarrow> 'p queue_turn list" where
  "rounds uuid t k n = concat (map (\<lambda>i. looper_round uuid (t i)) [k..<k + n])"

lemma rounds_Suc: "rounds uuid t k (Suc n) = looper_round uuid (t k) @ rounds uuid t (Suc k) n"
  by (simp add: rounds_def upt_conv_Cons del: upt_Suc)

definition attempts :: "bytes \<Rightarrow> 'p \<Rightarrow> nat \<Rightarrow> nat \<Rightarrow> 'p message list" where
  "attempts uuid payload k n =
    map (\<lambda>r. \<lparr>msg_id = uuid, msg_payload = payload, msg_retries = of_nat r\<rparr>) [k..<k + n]"

lemma attempts_Suc: "attempts uuid payload k (Suc n) =
  \<lparr>msg_id = uuid, msg_payload = payload, msg_retries = of_nat k\<rparr> # attempts uuid payload (Suc k) n"
  by (simp add: attempts_def upt_conv_Cons del: upt_Suc)

lemma later_rounds:
  assumes "k + n = unat lim" "lim \<noteq> - 1"
    and "\<forall>i. t i + timeout \<le> t (Suc i)" "\<forall>i \<le> unat lim + 1. t i + timeout \<le> instant_max"
    and "m = \<lparr>msg_id = uuid, msg_payload = payload, msg_retries = of_nat k\<rparr>"
  shows "\<exists>l'. queue_run (life_events 0 (rounds uuid t (Suc k) (Suc n))) (l, waiting lim timeout m (t k + timeout))
    = Some (l', \<lparr>sq_ready = [], sq_in_flight = [], sq_max_retries = lim, sq_timeout = timeout\<rparr>)
    \<and> ql_delivered l' = ql_delivered l @ attempts uuid payload (Suc k) n"
  using assms(1,5)
proof (induction n arbitrary: k m l)
  case 0
  then have "\<not> msg_retries m + 1 \<le> lim"
    using assms(2) by (auto simp: word_le_nat_alt unat_Suc)
  moreover have "msg_id m = uuid" "t k + timeout \<le> t (Suc k)" "t (Suc k) + timeout \<le> instant_max"
    using 0 assms(3,4) by auto
  ultimately show ?case
    using later_round [of "t k + timeout" "t (Suc k)" timeout m "[]" l lim]
    by (simp add: rounds_def attempts_def)
next
  case (Suc n)
  have less: "unat (msg_retries m) < unat lim"
    using Suc.prems unsigned_less [of lim, where 'a = nat] by (simp add: unat_of_nat)
  then have le: "msg_retries m + 1 \<le> lim"
    by (intro inc_le) (simp add: word_less_nat_alt)
  have m: "msg_id m = uuid" "t k + timeout \<le> t (Suc k)" "t (Suc k) + timeout \<le> instant_max"
    "retried m = \<lparr>msg_id = uuid, msg_payload = payload, msg_retries = of_nat (Suc k)\<rparr>"
    using Suc.prems assms(3,4) by (auto simp: retried_def algebra_simps)
  show ?case
    using Suc.IH [OF _ m(4), of "delivered (retried m) l"] Suc.prems(1) m
      later_round [of "t k + timeout" "t (Suc k)" timeout m "rounds uuid t (Suc (Suc k)) (Suc n)" l lim]
    by (simp add: rounds_Suc [of _ _ "Suc k" "Suc n"] le delivered_def attempts_Suc)
qed

subsection \<open>Properties of loopers\<close>

definition demo_looper :: "nat looper" where
  "demo_looper = \<lparr>lo_name = [113], lo_func = ascii ''handle'', lo_program = program_new,
     lo_show = (\<lambda>n. [of_nat n])\<rparr>"

definition demo_turns :: "nat queue_turn list" where
  "demo_turns = [TurnSend [1] 7, TurnLooper 0 [] 0, TurnSend [2] 8]"

definition demo_handed :: "nat message list" where
  "demo_handed = [\<lparr>msg_id = [1], msg_payload = 7, msg_retries = 0\<rparr>]"

definition demo_left :: "nat shared_queue" where
  "demo_left = \<lparr>sq_ready = [\<lparr>msg_id = [2], msg_payload = 8, msg_retries = 0\<rparr>],
     sq_in_flight = [([1], \<lparr>pnd_msg = \<lparr>msg_id = [1], msg_payload = 7, msg_retries = 0\<rparr>,
       pnd_deadline = 30000000000\<rparr>)], sq_max_retries = 3, sq_timeout = 30000000000\<rparr>"

lemma demo_life: "looper_life demo_looper demo_turns ([], 0, Some (sq_new 3 30), demo_engine) =
  Some (demo_handed, 1, Some demo_left, served demo_looper 1 (Some (hd demo_handed)) demo_engine)"
  by (simp add: demo_turns_def looper_iteration_eq [OF refl] next_counter_def queue_eval demo_left_def
      demo_handed_def sq_depth_def sparse_len_def word_le_nat_alt)

text \<open>C20. The looper is a user of its queue like any other: what it hands out, and the queue it leaves, are
  those of a history in which each iteration is one delivery and each thirtieth also an expiry,
  and which has no acknowledgement and no refusal.  So a message that was sent is still ready or in
  flight, or has been handed out one time more than the retries allowed, whatever became of the runs.\<close>

theorem looper_never_settles:
  assumes "looper_life lo ts ([], 0, Some (sq_new lim timeout), en) = Some (handed, c, st, en')"
    and "distinct (life_ids ts)" "lim \<noteq> - 1"
  shows "\<exists>q. st = Some q \<and> (\<forall>i \<in> set (life_ids ts). i \<in> pending_ids q
      \<or> count_list (map msg_id handed) i = unat lim + 1)
    \<and> (\<forall>i. count_list (map msg_id handed) i \<le> unat lim + 1)"
proof -
  have "map_option (\<lambda>(l, q). (ql_delivered l, Some q))
      (queue_run (life_events 0 ts) (empty_log, sq_new lim timeout)) = Some (handed, st)"
    using life_is_events [of lo ts empty_log 0 "sq_new lim timeout" en] assms(1)
    by (simp add: empty_log_def)
  then obtain l q where run: "queue_run (life_events 0 ts) (empty_log, sq_new lim timeout) = Some (l, q)"
    and l: "handed = ql_delivered l" "st = Some q"
    by auto
  have "delivery_inv lim ({} \<union> set (sent_ids (life_events 0 ts))) l q"
    by (rule inv_run [OF run delivery_inv_new assms(3)]) (use assms(2) in \<open>simp_all add: sent_by_life\<close>)
  then show ?thesis
    using never_acked [OF run] l
    by (auto simp: delivery_inv_def parts_ok_def pending_ids_def sent_by_life deliveries_def empty_log_def)
qed

lemma looper_never_settles_witness:
  "\<exists>q. Some demo_left = Some q \<and> (\<forall>i \<in> set (life_ids demo_turns). i \<in> pending_ids q
      \<or> count_list (map msg_id demo_handed) i = unat (3 :: u32) + 1)
    \<and> (\<forall>i. count_list (map msg_id demo_handed) i \<le> unat (3 :: u32) + 1)"
  by (rule looper_never_settles [OF demo_life]) (simp_all add: life_ids_def demo_turns_def)



subsection \<open>Topics and subscriptions\<close>

text \<open>What executions can do to the registry of topics, in any order.\<close>

inductive pubsub_reachable :: "'p pubsub \<Rightarrow> bool" where
  start: "pubsub_reachable \<lparr>ps_topics = [], ps_queues = (\<lambda>h. [])\<rparr>"
| create: "pubsub_reachable s \<Longrightarrow> pubsub_reachable (create_topic topic s)"
| publish: "pubsub_reachable s \<Longrightarrow> pubsub_reachable (snd (publish topic payload s))"
| subscribe: "pubsub_reachable s \<Longrightarrow> pubsub_reachable (subscribe topic exec h s)"
| unsubscribe: "pubsub_reachable s \<Longrightarrow> pubsub_reachable (unsubscribe_all exec s)"
| recv: "pubsub_reachable s \<Longrightarrow> private_try_recv (ps_queues s h) = (r, q)
    \<Longrightarrow> pubsub_reachable (s\<lparr>ps_queues := (ps_queues s)(h := q)\<rparr>)"

lemma topic_of_insert: "topic_of topic (s\<lparr>ps_topics := sparse_insert topic' subs (ps_topics s)\<rparr>) =
  (if topic = topic' then subs else topic_of topic s)"
  by (simp add: topic_of_def sparse_get_map_of sparse_insert_def update_conv')

lemma topic_of_queues [simp]: "topic_of topic (s\<lparr>ps_queues := qs\<rparr>) = topic_of topic s"
  by (simp add: topic_of_def sparse_get_map_of sparse_insert_def update_conv')

lemma topic_of_create [simp]: "topic_of topic (create_topic topic' s) = topic_of topic s"
  by (simp add: create_topic_def topic_of_insert)

lemma topic_of_publish [simp]: "topic_of topic (snd (publish topic' payload s)) = topic_of topic s"
  by (simp add: publish_def split: option.splits)

lemma topic_of_subscribe: "topic_of topic (subscribe topic' exec h s) =
  (if topic = topic' then topic_subscribe exec h (topic_of topic s) else topic_of topic s)"
  by (simp add: subscribe_def topic_of_insert)

lemma topic_of_unsubscribe: "topic_of topic (unsubscribe_all exec s) = topic_unsubscribe exec (topic_of topic s)"
  by (simp add: topic_of_def unsubscribe_all_def sparse_get_map_of map_prod_def topic_unsubscribe_def
      map_of_map split: option.splits)

lemma queues_kept [simp]:
  "ps_queues (create_topic topic s) = ps_queues s" "ps_queues (subscribe topic exec h s) = ps_queues s"
  by (simp_all add: create_topic_def subscribe_def)

lemma subscribed_once:
  "pubsub_reachable s \<Longrightarrow> distinct (map fst (topic_of topic s))"
proof (induction arbitrary: topic rule: pubsub_reachable.induct)
  case start
  then show ?case
    by (simp add: topic_of_def sparse_get_def)
qed (auto simp: topic_of_subscribe topic_of_unsubscribe topic_subscribe_def topic_unsubscribe_def
    case_prod_unfold distinct_map_filter)

lemma topic_publish_appends:
  "topic_publish payload subs qs h = qs h @ replicate (count_list (map snd subs) h) payload"
  by (induction subs arbitrary: qs) (auto simp: topic_publish_def private_send_def replicate_append_same)

text \<open>C24. In every state that topics can reach, publishing hands one copy of the payload to the queue of each
  subscription, behind what waits there, touches no other queue and answers the number of
  executions subscribed; an execution is subscribed to a topic at most once, and after it is
  unsubscribed nothing published reaches a queue that was its own.\<close>

theorem publish_fans_out:
  assumes "pubsub_reachable s"
  shows "distinct (map fst (topic_of topic s)) \<and> fst (publish topic payload s) = card (fst ` set (topic_of topic s))
    \<and> ps_queues (snd (publish topic payload s)) h
      = ps_queues s h @ replicate (count_list (map snd (topic_of topic s)) h) payload
    \<and> (snd ` {x \<in> set (topic_of topic s). fst x \<noteq> exec} \<subseteq> - {h} \<longrightarrow>
        ps_queues (snd (publish topic payload (unsubscribe_all exec s))) h = ps_queues s h)"
proof -
  have queues: "ps_queues (snd (publish topic payload r)) h
      = ps_queues r h @ replicate (count_list (map snd (topic_of topic r)) h) payload" for r
    by (simp add: publish_def topic_publish_appends topic_of_def split: option.splits)
  have "length (topic_of topic s) = card (fst ` set (topic_of topic s))"
    using distinct_card [OF subscribed_once [OF assms, of topic]] by simp
  then have "fst (publish topic payload s) = card (fst ` set (topic_of topic s))"
    by (simp add: publish_def topic_of_def split: option.splits)
  moreover have "snd ` {x \<in> set (topic_of topic s). fst x \<noteq> exec} \<subseteq> - {h} \<longrightarrow>
      ps_queues (snd (publish topic payload (unsubscribe_all exec s))) h = ps_queues s h"
    unfolding queues topic_of_unsubscribe
    by (auto simp: topic_unsubscribe_def unsubscribe_all_def count_list_0_iff)
  ultimately show ?thesis
    by (simp add: subscribed_once [OF assms] queues)
qed

lemma publish_fans_out_witness:
  "ps_queues (snd (publish [116] (5::nat) (subscribe [116] [1] 0 (create_topic [116]
     \<lparr>ps_topics = [], ps_queues = (\<lambda>h. [])\<rparr>)))) 0 = [5]"
  using conjunct1 [OF conjunct2 [OF conjunct2 [OF publish_fans_out [where topic = "[116]" and payload = "5 :: nat"
        and h = 0 and exec = "[]", OF pubsub_reachable.subscribe [where topic = "[116]" and exec = "[1]" and h = 0,
          OF pubsub_reachable.create [where topic = "[116]", OF pubsub_reachable.start]]]]]]
  by (simp add: topic_of_subscribe topic_subscribe_def topic_unsubscribe_def)
    (simp add: topic_of_def sparse_get_def)

end
