(* ===== verification/Fasm_Analyze.thy ===== *)
theory Fasm_Analyze
  imports Fasm_Bytecode Fasm_Collections
begin

text \<open>
  The eligibility analysis of the JIT compiler (\<open>crates/fasm-jit/src/analyze.rs\<close>): which functions are
  compiled, and the types of their slots, parameters and result.  Hash maps and hash sets are
  lists; nothing observes their order.
\<close>

subsection \<open>Types\<close>

datatype jit_type = JI32 | JI64 | JF32 | JF64

definition jit_type_of :: "fasm_type \<Rightarrow> jit_type option" where
  "jit_type_of t = (case t of
      TyBool \<Rightarrow> Some JI32
    | TyInt8 \<Rightarrow> Some JI32
    | TyInt16 \<Rightarrow> Some JI32
    | TyInt32 \<Rightarrow> Some JI32
    | TyUint8 \<Rightarrow> Some JI32
    | TyUint16 \<Rightarrow> Some JI32
    | TyUint32 \<Rightarrow> Some JI32
    | TyInt64 \<Rightarrow> Some JI64
    | TyUint64 \<Rightarrow> Some JI64
    | TyFloat32 \<Rightarrow> Some JF32
    | TyFloat64 \<Rightarrow> Some JF64
    | _ \<Rightarrow> None)"

record jit_fn_info =
  ji_slot_types :: "(u8 \<times> jit_type) list"
  ji_accumulators :: "u8 list"
  ji_params :: "(u32 \<times> jit_type) list"
  ji_ret_type :: jit_type

definition operand_at :: "instruction \<Rightarrow> nat \<Rightarrow> operand option" where
  "operand_at ins n = nth_opt (operands ins) n"

subsection \<open>The steps of the analysis\<close>

text \<open>Step 1: the slots that RESERVE instructions declare.\<close>

fun collect_slots :: "instruction list \<Rightarrow> (u8 \<times> jit_type) list \<times> u8 list
    \<Rightarrow> ((u8 \<times> jit_type) list \<times> u8 list) option" where
  "collect_slots [] (slots, structs) = Some (slots, structs)"
| "collect_slots (ins # inss) (slots, structs) =
     (if opcode ins \<noteq> OMem OpReserve then collect_slots inss (slots, structs)
      else case operand_at ins 0 of
        Some (OpdSlot (SlLocal idx)) \<Rightarrow> (case operand_at ins 1 of
            Some (OpdType t) \<Rightarrow> (case jit_type_of t of
                Some jt \<Rightarrow> collect_slots inss (sparse_insert idx jt slots, structs)
              | None \<Rightarrow> if t = TyStruct then collect_slots inss (slots, List.insert idx structs) else None)
          | _ \<Rightarrow> None)
      | _ \<Rightarrow> None)"

text \<open>Step 2: the parameters.\<close>

fun collect_params :: "param_descriptor list \<Rightarrow> (u32 \<times> jit_type) list option" where
  "collect_params [] = Some []"
| "collect_params (p # ps) = (case jit_type_of (par_type p) of
      None \<Rightarrow> None
    | Some jt \<Rightarrow> map_option (\<lambda>rest. (par_key p, jt) # rest) (collect_params ps))"

text \<open>Step 3: the type of the results; \<open>found\<close> is the type of the returns so far.\<close>

fun return_type :: "(u8 \<times> jit_type) list \<Rightarrow> instruction list \<Rightarrow> jit_type option \<Rightarrow> jit_type option option" where
  "return_type slots [] found = Some found"
| "return_type slots (ins # inss) found =
     (if opcode ins \<noteq> OFlow OpRet then return_type slots inss found
      else case operand_at ins 0 of
        None \<Rightarrow> return_type slots inss found
      | Some (OpdSlot (SlBuiltIn BiRet)) \<Rightarrow> return_type slots inss found
      | Some (OpdSlot (SlLocal idx)) \<Rightarrow> (case sparse_get slots idx of
            None \<Rightarrow> None
          | Some jt \<Rightarrow> (case found of
              None \<Rightarrow> return_type slots inss (Some jt)
            | Some prev \<Rightarrow> if prev = jt then return_type slots inss found else None))
      | Some (OpdImm imm) \<Rightarrow> return_type slots inss found
      | _ \<Rightarrow> None)"

text \<open>Step 4: the instructions that code generation knows.\<close>

definition is_jit_eligible_opcode :: "u8 list \<Rightarrow> nat \<Rightarrow> instruction \<Rightarrow> bool" where
  "is_jit_eligible_opcode structs self_idx ins = (case opcode ins of
      OMem p \<Rightarrow> True
    | OMove p \<Rightarrow> p \<in> {OpMov, OpStore}
    | OArith p \<Rightarrow> True
    | OCmp p \<Rightarrow> True
    | OBitwise p \<Rightarrow> True
    | OFlow p \<Rightarrow> (case p of
        OpTailCall \<Rightarrow> (case operand_at ins 0 of Some (OpdFuncRef i) \<Rightarrow> unat i = self_idx | _ \<Rightarrow> False)
      | _ \<Rightarrow> p \<in> {OpNop, OpJmp, OpJz, OpJnz, OpRet, OpHalt})
    | OColl p \<Rightarrow> (case p of
        OpGetField \<Rightarrow> operand_at ins 0 = Some (OpdSlot (SlBuiltIn BiArgs))
      | OpSetField \<Rightarrow> (case operand_at ins 0 of Some (OpdSlot (SlLocal i)) \<Rightarrow> i \<in> set structs | _ \<Rightarrow> False)
      | _ \<Rightarrow> False)
    | OCast \<Rightarrow> True
    | _ \<Rightarrow> False)"

text \<open>Step 5: structs are only filled, never read.\<close>

definition struct_use_ok :: "u8 list \<Rightarrow> instruction \<Rightarrow> bool" where
  "struct_use_ok structs ins = (case opcode ins of
      OColl OpGetField \<Rightarrow> operand_at ins 0 = Some (OpdSlot (SlBuiltIn BiArgs))
    | OColl OpSetField \<Rightarrow> (case operand_at ins 0 of Some (OpdSlot (SlLocal i)) \<Rightarrow> i \<in> set structs | _ \<Rightarrow> False)
    | _ \<Rightarrow> True)"

definition analyze_function :: "function_def \<Rightarrow> nat \<Rightarrow> jit_fn_info option" where
  "analyze_function func self_idx = (case collect_slots (fun_instrs func) ([], []) of
      None \<Rightarrow> None
    | Some (slots, structs) \<Rightarrow> (case collect_params (fun_params func) of
        None \<Rightarrow> None
      | Some params \<Rightarrow> (case return_type slots (fun_instrs func) None of
          None \<Rightarrow> None
        | Some found \<Rightarrow>
            if \<not> list_all (is_jit_eligible_opcode structs self_idx) (fun_instrs func) then None
            else if \<not> list_all (struct_use_ok structs) (fun_instrs func) then None
            else Some \<lparr>ji_slot_types = slots, ji_accumulators = structs, ji_params = params,
              ji_ret_type = (case found of Some jt \<Rightarrow> jt | None \<Rightarrow> JI64)\<rparr>)))"

definition analyze_program :: "program \<Rightarrow> (nat \<times> jit_fn_info) list" where
  "analyze_program prog = List.map_filter
     (\<lambda>(idx, func). map_option (Pair idx) (analyze_function func idx)) (enumerate 0 (prog_functions prog))"

definition slot_is_numeric :: "u8 \<Rightarrow> (u8 \<times> jit_type) list \<Rightarrow> bool" where
  "slot_is_numeric slot slots = sparse_contains slots slot"

end
