(* ===== verification/Fasm_Jit.thy ===== *)
theory Fasm_Jit
  imports Fasm_Analyze Fasm_Value
begin

text \<open>
  The code generator of the JIT compiler (\<open>crates/fasm-jit/src/codegen.rs\<close>, \<open>lib.rs\<close>).  The generator
  drives the builder of the Cranelift library; its output is modelled as the calls it makes, in
  order, with the numbers of the values, variables and blocks that the builder hands out in
  sequence.  What Cranelift does with the calls (\<open>define_function\<close>) and what the machine code then
  does is a parameter.  Sealing blocks is bookkeeping of the builder and is left out, as are the
  messages on standard error.
\<close>

subsection \<open>Calls of the builder\<close>

type_synonym cval = nat
type_synonym variable = nat
type_synonym block = nat

datatype ir_type = CI8 | CI32 | CI64 | CF32 | CF64

datatype int_cc = CcEqual | CcNotEqual | CcSignedLess | CcSignedLessEqual | CcSignedGreater | CcSignedGreaterEqual

datatype ir_unary = Sextend | Uextend | Ireduce | Fpromote | Fdemote | FcvtFromSint | FcvtToSintSat | Fneg

datatype ir_binary =
  Iadd | Isub | Imul | Sdiv | Srem | Band | Bor | Bxor | Ishl | Sshr | Fadd | Fsub | Fmul | Fdiv

datatype builder_call =
  BSwitch block
| BDefVar variable cval
| BUseVar cval variable
| BIconst cval ir_type i64
| BF32const cval u32
| BF64const cval u64
| BUnary cval ir_unary ir_type cval
| BBinary cval ir_binary cval cval
| BIcmp cval int_cc cval cval
| BJump block
| BBrif cval block block
| BReturn cval

text \<open>The state of the builder: the types of its values and variables, the number of blocks and the
  calls made; and the local variables of \<open>compile_fn\<close>.\<close>

record codegen =
  cg_types :: "ir_type list"
  cg_vars :: "ir_type list"
  cg_blocks :: nat
  cg_calls :: "builder_call list"
  cg_setfields :: "((u8 \<times> u32) \<times> cval) list"
  cg_current :: block
  cg_terminated :: bool

text \<open>\<open>None\<close> is a return of \<open>None\<close> from \<open>compile_fn\<close>.\<close>

type_synonym 'a cg = "codegen \<Rightarrow> ('a \<times> codegen) option"

definition cg_return :: "'a \<Rightarrow> 'a cg" where
  "cg_return x = (\<lambda>s. Some (x, s))"

definition cg_bind :: "'a cg \<Rightarrow> ('a \<Rightarrow> 'b cg) \<Rightarrow> 'b cg" where
  "cg_bind m k = (\<lambda>s. case m s of None \<Rightarrow> None | Some (x, s') \<Rightarrow> k x s')"

definition cg_try :: "'a option \<Rightarrow> 'a cg" where
  "cg_try x = (\<lambda>s. map_option (\<lambda>y. (y, s)) x)"

definition call_builder :: "builder_call \<Rightarrow> unit cg" where
  "call_builder c = (\<lambda>s. Some ((), s\<lparr>cg_calls := cg_calls s @ [c]\<rparr>))"

text \<open>A call that makes a value of the given type.\<close>

definition new_value :: "ir_type \<Rightarrow> (cval \<Rightarrow> builder_call) \<Rightarrow> cval cg" where
  "new_value t c = (\<lambda>s. Some (length (cg_types s),
     s\<lparr>cg_types := cg_types s @ [t], cg_calls := cg_calls s @ [c (length (cg_types s))]\<rparr>))"

definition value_type :: "cval \<Rightarrow> ir_type cg" where
  "value_type c = (\<lambda>s. Some (cg_types s ! c, s))"

definition use_var :: "variable \<Rightarrow> cval cg" where
  "use_var v = (\<lambda>s. new_value (cg_vars s ! v) (\<lambda>c. BUseVar c v) s)"

definition def_var :: "variable \<Rightarrow> cval \<Rightarrow> unit cg" where
  "def_var v c = call_builder (BDefVar v c)"

definition iconst :: "ir_type \<Rightarrow> i64 \<Rightarrow> cval cg" where
  "iconst t n = new_value t (\<lambda>c. BIconst c t n)"

definition ins_unary :: "ir_unary \<Rightarrow> ir_type \<Rightarrow> cval \<Rightarrow> cval cg" where
  "ins_unary op t a = new_value t (\<lambda>c. BUnary c op t a)"

definition ins_binary :: "ir_binary \<Rightarrow> cval \<Rightarrow> cval \<Rightarrow> cval cg" where
  "ins_binary op a b = cg_bind (value_type a) (\<lambda>t. new_value t (\<lambda>c. BBinary c op a b))"

definition icmp :: "int_cc \<Rightarrow> cval \<Rightarrow> cval \<Rightarrow> cval cg" where
  "icmp cc a b = new_value CI8 (\<lambda>c. BIcmp c cc a b)"

subsection \<open>Helpers of the generator\<close>

primrec jit_ir_type :: "jit_type \<Rightarrow> ir_type" where
  "jit_ir_type JI32 = CI32"
| "jit_ir_type JI64 = CI64"
| "jit_ir_type JF32 = CF32"
| "jit_ir_type JF64 = CF64"

definition is_float :: "ir_type \<Rightarrow> bool" where
  "is_float t \<longleftrightarrow> t = CF32 \<or> t = CF64"

definition conversion :: "ir_type \<Rightarrow> ir_type \<Rightarrow> ir_unary option" where
  "conversion src target =
     (if src = CI32 \<and> target = CI64 then Some Sextend
      else if src = CI64 \<and> target = CI32 then Some Ireduce
      else if src = CF32 \<and> target = CF64 then Some Fpromote
      else if src = CF64 \<and> target = CF32 then Some Fdemote
      else if (src = CI32 \<or> src = CI64) \<and> is_float target then Some FcvtFromSint
      else if is_float src \<and> (target = CI32 \<or> target = CI64) then Some FcvtToSintSat
      else None)"

definition coerce_to :: "cval \<Rightarrow> ir_type \<Rightarrow> cval cg" where
  "coerce_to c target = cg_bind (value_type c) (\<lambda>src.
     if src = target then cg_return c
     else case conversion src target of Some op \<Rightarrow> ins_unary op target c | None \<Rightarrow> cg_return c)"

definition zero_val :: "jit_type \<Rightarrow> cval cg" where
  "zero_val jt = (case jt of
      JI32 \<Rightarrow> iconst CI32 0
    | JI64 \<Rightarrow> iconst CI64 0
    | JF32 \<Rightarrow> new_value CF32 (\<lambda>c. BF32const c 0)
    | JF64 \<Rightarrow> new_value CF64 (\<lambda>c. BF64const c 0))"

definition imm_to_cv :: "jit_type \<Rightarrow> operand \<Rightarrow> cval cg" where
  "imm_to_cv hint op = (case op of
      OpdImm imm \<Rightarrow> (case imm of
          ImBool b \<Rightarrow> iconst CI32 (if b then 1 else 0)
        | ImInt8 n \<Rightarrow> iconst CI32 (scast n)
        | ImInt16 n \<Rightarrow> iconst CI32 (scast n)
        | ImInt32 n \<Rightarrow> iconst CI32 (scast n)
        | ImInt64 n \<Rightarrow> iconst CI64 n
        | ImUint8 n \<Rightarrow> iconst CI32 (ucast n)
        | ImUint16 n \<Rightarrow> iconst CI32 (ucast n)
        | ImUint32 n \<Rightarrow> iconst CI32 (ucast n)
        | ImUint64 n \<Rightarrow> iconst CI64 n
        | ImFloat32 f \<Rightarrow> new_value CF32 (\<lambda>c. BF32const c f)
        | ImFloat64 f \<Rightarrow> new_value CF64 (\<lambda>c. BF64const c f)
        | ImNull \<Rightarrow> iconst (jit_ir_type hint) 0
        | ImStr s \<Rightarrow> cg_try None)
    | _ \<Rightarrow> cg_try None)"

text \<open>What stays fixed while a function is compiled.\<close>

record jit_env =
  je_vars :: "(u8 \<times> variable) list"
  je_param_vars :: "(u32 \<times> variable) list"
  je_ret :: variable
  je_ret_type :: jit_type
  je_params :: "(u32 \<times> jit_type) list"
  je_block_of :: "(nat \<times> block) list"
  je_loop :: block
  je_self :: nat

definition read_op :: "jit_env \<Rightarrow> operand \<Rightarrow> cval cg" where
  "read_op je op = (case op of
      OpdSlot (SlLocal idx) \<Rightarrow> cg_bind (cg_try (sparse_get (je_vars je) idx)) use_var
    | OpdSlot (SlBuiltIn BiRet) \<Rightarrow> use_var (je_ret je)
    | OpdImm imm \<Rightarrow> imm_to_cv (je_ret_type je) op
    | _ \<Rightarrow> cg_try None)"

definition write_op :: "jit_env \<Rightarrow> operand \<Rightarrow> cval \<Rightarrow> unit cg" where
  "write_op je op val = (case op of
      OpdSlot (SlLocal idx) \<Rightarrow> cg_bind (cg_try (sparse_get (je_vars je) idx)) (\<lambda>v.
        cg_bind (use_var v) (\<lambda>current. cg_bind (value_type current) (\<lambda>var_ty.
          cg_bind (coerce_to val var_ty) (def_var v))))
    | OpdSlot (SlBuiltIn BiRet) \<Rightarrow> def_var (je_ret je) val
    | _ \<Rightarrow> cg_try None)"

definition operand_of :: "instruction \<Rightarrow> nat \<Rightarrow> operand cg" where
  "operand_of ins n = cg_try (operand_at ins n)"

definition read_at :: "jit_env \<Rightarrow> instruction \<Rightarrow> nat \<Rightarrow> cval cg" where
  "read_at je ins n = cg_bind (operand_of ins n) (read_op je)"

definition write_at :: "jit_env \<Rightarrow> instruction \<Rightarrow> nat \<Rightarrow> cval \<Rightarrow> unit cg" where
  "write_at je ins n val = cg_bind (operand_of ins n) (\<lambda>op. write_op je op val)"

definition compare_with_zero :: "int_cc \<Rightarrow> cval \<Rightarrow> cval cg" where
  "compare_with_zero cc val = cg_bind (value_type val) (\<lambda>ty. cg_bind (iconst ty 0) (\<lambda>zero. icmp cc val zero))"

definition label_target_ip :: "operand \<Rightarrow> nat option" where
  "label_target_ip op = (case op of OpdLabelTarget t \<Rightarrow> Some (unat t) | _ \<Rightarrow> None)"

subsection \<open>Instructions\<close>

text \<open>The instruction that a binary opcode becomes on operands of a type: \<open>None\<close> ends the compilation.\<close>

definition arith_ins :: "arith_op \<Rightarrow> ir_type \<Rightarrow> ir_binary option" where
  "arith_ins op ty = (case op of
      OpAdd \<Rightarrow> Some (if is_float ty then Fadd else Iadd)
    | OpSub \<Rightarrow> Some (if is_float ty then Fsub else Isub)
    | OpMul \<Rightarrow> Some (if is_float ty then Fmul else Imul)
    | OpDiv \<Rightarrow> Some (if is_float ty then Fdiv else Sdiv)
    | OpMod \<Rightarrow> if is_float ty then None else Some Srem
    | OpNeg \<Rightarrow> None)"

definition bitwise_ins :: "bitwise_op \<Rightarrow> ir_binary option" where
  "bitwise_ins op = (case op of
      OpAnd \<Rightarrow> Some Band | OpOr \<Rightarrow> Some Bor | OpXor \<Rightarrow> Some Bxor | OpShl \<Rightarrow> Some Ishl | OpShr \<Rightarrow> Some Sshr
    | OpNot \<Rightarrow> None)"

definition emit_binop :: "jit_env \<Rightarrow> instruction \<Rightarrow> (ir_type \<Rightarrow> ir_binary option) \<Rightarrow> unit cg" where
  "emit_binop je ins f = cg_bind (read_at je ins 0) (\<lambda>a. cg_bind (read_at je ins 1) (\<lambda>b_raw.
     cg_bind (value_type a) (\<lambda>ty. cg_bind (coerce_to b_raw ty) (\<lambda>b.
       cg_bind (cg_try (f ty)) (\<lambda>op. cg_bind (ins_binary op a b) (write_at je ins 2))))))"

definition cmp_cc :: "cmp_op \<Rightarrow> int_cc" where
  "cmp_cc op = (case op of
      OpEq \<Rightarrow> CcEqual | OpNeq \<Rightarrow> CcNotEqual | OpLt \<Rightarrow> CcSignedLess | OpLte \<Rightarrow> CcSignedLessEqual
    | OpGt \<Rightarrow> CcSignedGreater | OpGte \<Rightarrow> CcSignedGreaterEqual)"

definition emit_cmp :: "jit_env \<Rightarrow> instruction \<Rightarrow> int_cc \<Rightarrow> unit cg" where
  "emit_cmp je ins cc = cg_bind (read_at je ins 0) (\<lambda>a. cg_bind (read_at je ins 1) (\<lambda>b_raw.
     cg_bind (value_type a) (\<lambda>ty. cg_bind (coerce_to b_raw ty) (\<lambda>b.
       cg_bind (icmp cc a b) (\<lambda>cmp. cg_bind (ins_unary Uextend CI32 cmp) (write_at je ins 2))))))"

definition emit_neg :: "jit_env \<Rightarrow> instruction \<Rightarrow> unit cg" where
  "emit_neg je ins = cg_bind (read_at je ins 0) (\<lambda>a. cg_bind (value_type a) (\<lambda>ty.
     cg_bind (if is_float ty then ins_unary Fneg ty a
              else cg_bind (iconst ty 0) (\<lambda>zero. ins_binary Isub zero a))
       (write_at je ins 1)))"

definition emit_not :: "jit_env \<Rightarrow> instruction \<Rightarrow> unit cg" where
  "emit_not je ins = cg_bind (read_at je ins 0) (\<lambda>a. cg_bind (value_type a) (\<lambda>ty.
     cg_bind (iconst ty (- 1)) (\<lambda>ones. cg_bind (ins_binary Bxor a ones) (write_at je ins 1))))"

definition emit_cast :: "jit_env \<Rightarrow> instruction \<Rightarrow> unit cg" where
  "emit_cast je ins = cg_bind (read_at je ins 0) (\<lambda>val.
     case operand_at ins 1 of
       Some (OpdType t) \<Rightarrow> cg_bind (cg_try (jit_type_of t)) (\<lambda>jt.
         cg_bind (coerce_to val (jit_ir_type jt)) (write_at je ins 2))
     | _ \<Rightarrow> cg_try None)"

definition end_block :: "builder_call \<Rightarrow> unit cg" where
  "end_block c = cg_bind (call_builder c) (\<lambda>_. (\<lambda>s. Some ((), s\<lparr>cg_terminated := True\<rparr>)))"

text \<open>\<open>next_ip\<close> is the position after the instruction.\<close>

definition emit_branch :: "jit_env \<Rightarrow> nat \<Rightarrow> instruction \<Rightarrow> int_cc \<Rightarrow> unit cg" where
  "emit_branch je next_ip ins cc = cg_bind (read_at je ins 0) (\<lambda>cond.
     cg_bind (operand_of ins 1) (\<lambda>op. cg_bind (cg_try (label_target_ip op)) (\<lambda>target.
       cg_bind (cg_try (sparse_get (je_block_of je) target)) (\<lambda>target_blk.
         cg_bind (cg_try (sparse_get (je_block_of je) next_ip)) (\<lambda>fall_blk.
           cg_bind (compare_with_zero cc cond) (\<lambda>c. end_block (BBrif c target_blk fall_blk)))))))"

definition emit_jmp :: "jit_env \<Rightarrow> instruction \<Rightarrow> unit cg" where
  "emit_jmp je ins = cg_bind (cg_try (if operands ins = [] then None else Some (last (operands ins)))) (\<lambda>op.
     cg_bind (cg_try (label_target_ip op)) (\<lambda>target.
       cg_bind (cg_try (sparse_get (je_block_of je) target)) (\<lambda>blk. end_block (BJump blk))))"

definition emit_get_field :: "jit_env \<Rightarrow> instruction \<Rightarrow> unit cg" where
  "emit_get_field je ins =
     (if operand_at ins 0 \<noteq> Some (OpdSlot (SlBuiltIn BiArgs)) then cg_try None
      else case operand_at ins 1 of
        Some (OpdKey key) \<Rightarrow> cg_bind (cg_try (sparse_get (je_param_vars je) key)) (\<lambda>pv.
          cg_bind (use_var pv) (write_at je ins 2))
      | _ \<Rightarrow> cg_try None)"

definition emit_set_field :: "jit_env \<Rightarrow> instruction \<Rightarrow> unit cg" where
  "emit_set_field je ins = (case operand_at ins 0 of
      Some (OpdSlot (SlLocal struct_slot)) \<Rightarrow> (case operand_at ins 1 of
          Some (OpdKey key) \<Rightarrow> cg_bind (read_at je ins 2) (\<lambda>val.
            (\<lambda>s. Some ((), s\<lparr>cg_setfields := sparse_insert (struct_slot, key) val (cg_setfields s)\<rparr>)))
        | _ \<Rightarrow> cg_try None)
    | _ \<Rightarrow> cg_try None)"

fun set_fields_of :: "((u8 \<times> u32) \<times> cval) list \<Rightarrow> u8 \<Rightarrow> (u32 \<times> jit_type) list \<Rightarrow> (u32 \<times> cval) list option" where
  "set_fields_of filled slot [] = Some []"
| "set_fields_of filled slot ((key, jt) # params) = (case sparse_get filled (slot, key) of
      None \<Rightarrow> None
    | Some val \<Rightarrow> map_option (\<lambda>rest. (key, val) # rest) (set_fields_of filled slot params))"

fun def_params :: "jit_env \<Rightarrow> (u32 \<times> cval) list \<Rightarrow> unit cg" where
  "def_params je [] = cg_return ()"
| "def_params je ((key, val) # vals) = cg_bind (cg_try (sparse_get (je_param_vars je) key)) (\<lambda>pv.
     cg_bind (def_var pv val) (\<lambda>_. def_params je vals))"

definition emit_tail_call :: "jit_env \<Rightarrow> instruction \<Rightarrow> unit cg" where
  "emit_tail_call je ins = (case operand_at ins 0 of
      Some (OpdFuncRef idx) \<Rightarrow>
        (if unat idx \<noteq> je_self je then cg_try None
         else case operand_at ins 1 of
           Some (OpdSlot (SlLocal struct_slot)) \<Rightarrow>
             cg_bind (\<lambda>s. map_option (\<lambda>vals. (vals, s)) (set_fields_of (cg_setfields s) struct_slot (je_params je)))
               (\<lambda>vals. cg_bind (def_params je vals) (\<lambda>_. end_block (BJump (je_loop je))))
         | _ \<Rightarrow> cg_try None)
    | _ \<Rightarrow> cg_try None)"

definition emit_ret :: "jit_env \<Rightarrow> instruction \<Rightarrow> unit cg" where
  "emit_ret je ins = cg_bind
     (case operand_at ins 0 of
        None \<Rightarrow> zero_val (je_ret_type je)
      | Some op \<Rightarrow>
          if op = OpdSlot (SlBuiltIn BiRet) then use_var (je_ret je)
          else cg_bind (read_op je op) (\<lambda>v. coerce_to v (jit_ir_type (je_ret_type je))))
     (\<lambda>ret_val. end_block (BReturn ret_val))"

definition compile_instr :: "jit_env \<Rightarrow> nat \<Rightarrow> instruction \<Rightarrow> unit cg" where
  "compile_instr je next_ip ins = (case opcode ins of
      OMem p \<Rightarrow> cg_return ()
    | OMove OpMov \<Rightarrow> cg_bind (read_at je ins 0) (write_at je ins 1)
    | OMove OpStore \<Rightarrow> cg_bind (cg_bind (operand_of ins 0) (imm_to_cv (je_ret_type je))) (write_at je ins 1)
    | OArith op \<Rightarrow> if op = OpNeg then emit_neg je ins else emit_binop je ins (arith_ins op)
    | OBitwise op \<Rightarrow> if op = OpNot then emit_not je ins else emit_binop je ins (\<lambda>_. bitwise_ins op)
    | OCmp op \<Rightarrow> emit_cmp je ins (cmp_cc op)
    | OFlow OpNop \<Rightarrow> cg_return ()
    | OFlow OpJmp \<Rightarrow> emit_jmp je ins
    | OFlow OpJnz \<Rightarrow> emit_branch je next_ip ins CcNotEqual
    | OFlow OpJz \<Rightarrow> emit_branch je next_ip ins CcEqual
    | OFlow OpTailCall \<Rightarrow> emit_tail_call je ins
    | OFlow OpRet \<Rightarrow> emit_ret je ins
    | OFlow OpHalt \<Rightarrow> cg_bind (zero_val (je_ret_type je)) (\<lambda>z. end_block (BReturn z))
    | OColl OpGetField \<Rightarrow> emit_get_field je ins
    | OColl OpSetField \<Rightarrow> emit_set_field je ins
    | OCast \<Rightarrow> emit_cast je ins
    | _ \<Rightarrow> cg_try None)"

subsection \<open>Functions\<close>

text \<open>Where blocks begin; the source keeps them in an ordered set.\<close>

definition starts_at :: "nat \<Rightarrow> instruction \<Rightarrow> nat list" where
  "starts_at ip ins = (case opcode ins of
      OFlow op \<Rightarrow>
        if op \<in> {OpJmp, OpJz, OpJnz} then
          (if operands ins = [] then [] else
             case last (operands ins) of OpdLabelTarget t \<Rightarrow> [unat t] | _ \<Rightarrow> []) @ [ip + 1]
        else if op \<in> {OpTailCall, OpRet, OpHalt} then [ip + 1] else []
    | _ \<Rightarrow> [])"

definition block_starts :: "instruction list \<Rightarrow> nat list" where
  "block_starts inss = sort (remdups (0 # concat (map (\<lambda>(ip, ins). starts_at ip ins) (enumerate 0 inss))))"

definition entry_blk :: block where "entry_blk = 0"
definition loop_blk :: block where "loop_blk = 1"

definition ip_to_block :: "instruction list \<Rightarrow> (nat \<times> block) list" where
  "ip_to_block inss = (0, loop_blk) #
     (let starts = filter (\<lambda>s. s \<noteq> 0) (block_starts inss) in zip starts [2..<2 + length starts])"

text \<open>The slots in ascending order (a \<open>BTreeMap\<close> in the source).\<close>

definition sorted_slots :: "jit_fn_info \<Rightarrow> (u8 \<times> jit_type) list" where
  "sorted_slots info = fold (\<lambda>(k, jt). btree_insert k jt) (ji_slot_types info) []"

definition jit_env_of :: "jit_fn_info \<Rightarrow> instruction list \<Rightarrow> nat \<Rightarrow> jit_env" where
  "jit_env_of info inss self_idx =
     (let slots = sorted_slots info; n = length slots; params = ji_params info
      in \<lparr>je_vars = zip (map fst slots) [0..<n],
          je_param_vars = fold (\<lambda>(k, v). sparse_insert k v) (zip (map fst params) [n..<n + length params]) [],
          je_ret = n + length params, je_ret_type = ji_ret_type info, je_params = params,
          je_block_of = ip_to_block inss, je_loop = loop_blk, je_self = self_idx\<rparr>)"

text \<open>The state when emission starts: the variables are declared, the blocks created, and the entry block has
  one value for each parameter.\<close>

definition codegen_start :: "jit_fn_info \<Rightarrow> instruction list \<Rightarrow> codegen" where
  "codegen_start info inss =
     \<lparr>cg_types = map (jit_ir_type \<circ> snd) (ji_params info),
      cg_vars = map (jit_ir_type \<circ> snd) (sorted_slots info) @ map (jit_ir_type \<circ> snd) (ji_params info)
        @ [jit_ir_type (ji_ret_type info)],
      cg_blocks = Suc (length (ip_to_block inss)), cg_calls = [], cg_setfields = [],
      cg_current = loop_blk, cg_terminated = False\<rparr>"

fun zero_vars :: "(variable \<times> jit_type) list \<Rightarrow> unit cg" where
  "zero_vars [] = cg_return ()"
| "zero_vars ((v, jt) # vs) = cg_bind (zero_val jt) (\<lambda>z. cg_bind (def_var v z) (\<lambda>_. zero_vars vs))"

definition emit_prologue :: "jit_fn_info \<Rightarrow> jit_env \<Rightarrow> unit cg" where
  "emit_prologue info je =
     cg_bind (call_builder (BSwitch entry_blk)) (\<lambda>_.
     cg_bind (def_params je (zip (map fst (ji_params info)) [0..<length (ji_params info)])) (\<lambda>_.
     cg_bind (zero_vars (zip (map snd (je_vars je)) (map snd (sorted_slots info)))) (\<lambda>_.
     cg_bind (zero_vars [(je_ret je, ji_ret_type info)]) (\<lambda>_.
     cg_bind (call_builder (BJump loop_blk)) (\<lambda>_. call_builder (BSwitch loop_blk))))))"

text \<open>The head of the loop over the instructions: a new block begins.\<close>

definition enter_block :: "jit_env \<Rightarrow> nat \<Rightarrow> unit cg" where
  "enter_block je ip = (\<lambda>s. case sparse_get (je_block_of je) ip of
      None \<Rightarrow> Some ((), s)
    | Some blk \<Rightarrow>
        if blk = cg_current s then Some ((), s)
        else Some ((), s\<lparr>cg_calls := cg_calls s @ (if cg_terminated s then [] else [BJump blk]) @ [BSwitch blk],
          cg_terminated := False, cg_current := blk\<rparr>))"

fun compile_body :: "jit_env \<Rightarrow> nat \<Rightarrow> instruction list \<Rightarrow> unit cg" where
  "compile_body je ip [] = enter_block je ip"
| "compile_body je ip (ins # inss) = cg_bind (enter_block je ip) (\<lambda>_.
     cg_bind (compile_instr je (ip + 1) ins) (\<lambda>_. compile_body je (ip + 1) inss))"

definition emit_epilogue :: "jit_fn_info \<Rightarrow> unit cg" where
  "emit_epilogue info = (\<lambda>s.
     if cg_terminated s then Some ((), s)
     else cg_bind (zero_val (ji_ret_type info)) (\<lambda>z. call_builder (BReturn z)) s)"

definition compile_fn :: "function_def \<Rightarrow> jit_fn_info \<Rightarrow> nat \<Rightarrow> builder_call list option" where
  "compile_fn func info self_idx =
     (let inss = fun_instrs func; je = jit_env_of info inss self_idx
      in map_option (cg_calls \<circ> snd)
        (cg_bind (emit_prologue info je) (\<lambda>_. cg_bind (compile_body je 0 inss) (\<lambda>_. emit_epilogue info))
          (codegen_start info inss)))"

subsection \<open>Programs\<close>

text \<open>The machine: whether the host has a JIT backend, whether it accepts the code of a function, and what a
  call of the machine code does with the registers it is given.\<close>

type_synonym signature = "ir_type list \<times> ir_type"

datatype native_end = NativeReturn i64 | NativeTrap | NativeLoop

record cranelift =
  cl_supported :: bool
  cl_accepts :: "signature \<Rightarrow> builder_call list \<Rightarrow> bool"
  cl_native :: "signature \<Rightarrow> builder_call list \<Rightarrow> i64 list \<Rightarrow> native_end"

definition build_signature :: "jit_fn_info \<Rightarrow> signature" where
  "build_signature info = (map (jit_ir_type \<circ> snd) (ji_params info), jit_ir_type (ji_ret_type info))"

record jit_entry =
  jt_native :: "i64 list \<Rightarrow> native_end"
  jt_params :: "(u32 \<times> jit_type) list"
  jt_ret_type :: jit_type

type_synonym jit_cache = "(nat \<times> jit_entry) list"

definition jit_entry_of :: "cranelift \<Rightarrow> program \<Rightarrow> nat \<times> jit_fn_info \<Rightarrow> (nat \<times> jit_entry) option" where
  "jit_entry_of cl prog = (\<lambda>(idx, info). case compile_fn (prog_functions prog ! idx) info idx of
      None \<Rightarrow> None
    | Some code \<Rightarrow>
        if cl_accepts cl (build_signature info) code
        then Some (idx, \<lparr>jt_native = cl_native cl (build_signature info) code,
          jt_params = ji_params info, jt_ret_type = ji_ret_type info\<rparr>)
        else None)"

fun all_entries :: "('a \<Rightarrow> 'b option) \<Rightarrow> 'a list \<Rightarrow> 'b list option" where
  "all_entries f [] = Some []"
| "all_entries f (x # xs) = (case f x of None \<Rightarrow> None | Some y \<Rightarrow> map_option (Cons y) (all_entries f xs))"

definition compile_program :: "cranelift \<Rightarrow> program \<Rightarrow> (nat \<times> jit_fn_info) list \<Rightarrow> jit_cache option" where
  "compile_program cl prog eligible =
     (if eligible = [] then None
      else if \<not> cl_supported cl then None
      else all_entries (jit_entry_of cl prog) eligible)"

definition jit_compile :: "cranelift \<Rightarrow> program \<Rightarrow> jit_cache option" where
  "jit_compile cl prog = compile_program cl prog (analyze_program prog)"

subsection \<open>Calls\<close>

definition value_to_i64 :: "fasm_value \<Rightarrow> i64 option" where
  "value_to_i64 v = (case v of
      VBool b \<Rightarrow> Some (if b then 1 else 0)
    | VInt8 n \<Rightarrow> Some (scast n)
    | VInt16 n \<Rightarrow> Some (scast n)
    | VInt32 n \<Rightarrow> Some (scast n)
    | VInt64 n \<Rightarrow> Some n
    | VUint8 n \<Rightarrow> Some (ucast n)
    | VUint16 n \<Rightarrow> Some (ucast n)
    | VUint32 n \<Rightarrow> Some (ucast n)
    | VUint64 n \<Rightarrow> Some n
    | VFloat32 f \<Rightarrow> Some (ucast f)
    | VFloat64 f \<Rightarrow> Some f
    | _ \<Rightarrow> None)"

fun pack_fields :: "(u32 \<times> fasm_value) list \<Rightarrow> (u32 \<times> jit_type) list \<Rightarrow> i64 list option" where
  "pack_fields s [] = Some []"
| "pack_fields s ((key, jt) # params) = (case struct_get s key of
      None \<Rightarrow> None
    | Some v \<Rightarrow> (case value_to_i64 v of
        None \<Rightarrow> None
      | Some bits \<Rightarrow> map_option (Cons bits) (pack_fields s params)))"

definition pack_args :: "fasm_value \<Rightarrow> (u32 \<times> jit_type) list \<Rightarrow> i64 list option" where
  "pack_args args params = (case args of VStruct s \<Rightarrow> pack_fields s params | _ \<Rightarrow> None)"

definition unpack_ret :: "i64 \<Rightarrow> jit_type \<Rightarrow> fasm_value" where
  "unpack_ret raw ret_type = (case ret_type of
      JI32 \<Rightarrow> VInt32 (ucast raw)
    | JI64 \<Rightarrow> VInt64 raw
    | JF32 \<Rightarrow> VFloat32 (ucast raw)
    | JF64 \<Rightarrow> VFloat64 raw)"

text \<open>A trap ends the process.\<close>

datatype dispatch_end = Answered "fasm_value option" | Trapped | Looping

definition call_jit :: "jit_entry \<Rightarrow> fasm_value \<Rightarrow> dispatch_end" where
  "call_jit entry args = (case pack_args args (jt_params entry) of
      None \<Rightarrow> Answered None
    | Some packed \<Rightarrow>
        (if length packed > 8 then Answered None
         else case jt_native entry packed of
           NativeReturn raw \<Rightarrow> Answered (Some (unpack_ret raw (jt_ret_type entry)))
         | NativeTrap \<Rightarrow> Trapped
         | NativeLoop \<Rightarrow> Looping))"

definition dispatch :: "jit_cache \<Rightarrow> nat \<Rightarrow> fasm_value \<Rightarrow> dispatch_end" where
  "dispatch cache func_idx args = (case sparse_get cache func_idx of
      None \<Rightarrow> Answered None
    | Some entry \<Rightarrow> call_jit entry args)"

end
