(* ===== verification/Fasm_Native.thy ===== *)
theory Fasm_Native
  imports Fasm_Jit Fasm_Bits
begin

text \<open>
  What the JIT compiler relies on: the documented meaning of the integer instructions of the
  intermediate language, and the assumption that machine code behaves accordingly.  A function is
  the list of its builder calls; the code of a block is what follows the switch to it.  Code whose
  behaviour the documentation does not fix here (floating point, unverified code) and traps have
  the result \<open>None\<close>.
\<close>

subsection \<open>Values and instructions\<close>

datatype ir_val = V8 "8 word" | V32 "32 word" | V64 "64 word"

definition int_binary :: "ir_binary \<Rightarrow> 'a::len word \<Rightarrow> 'a word \<Rightarrow> 'a word option" where
  "int_binary op a b = (case op of
      Iadd \<Rightarrow> Some (a + b)
    | Isub \<Rightarrow> Some (a - b)
    | Imul \<Rightarrow> Some (a * b)
    | Sdiv \<Rightarrow> if b = 0 \<or> (sint a = - (2 ^ (LENGTH('a) - 1)) \<and> b = - 1) then None
        else Some (word_of_int (sint a sdiv sint b))
    | Srem \<Rightarrow> if b = 0 then None else Some (word_of_int (sint a smod sint b))
    | Band \<Rightarrow> Some (and a b)
    | Bor \<Rightarrow> Some (or a b)
    | Bxor \<Rightarrow> Some (xor a b)
    | Ishl \<Rightarrow> Some (push_bit (unat b mod LENGTH('a)) a)
    | Sshr \<Rightarrow> Some (signed_drop_bit (unat b mod LENGTH('a)) a)
    | _ \<Rightarrow> None)"

definition int_compare :: "int_cc \<Rightarrow> 'a::len word \<Rightarrow> 'a word \<Rightarrow> bool" where
  "int_compare cc a b = (case cc of
      CcEqual \<Rightarrow> a = b
    | CcNotEqual \<Rightarrow> a \<noteq> b
    | CcSignedLess \<Rightarrow> sint a < sint b
    | CcSignedLessEqual \<Rightarrow> sint a \<le> sint b
    | CcSignedGreater \<Rightarrow> sint a > sint b
    | CcSignedGreaterEqual \<Rightarrow> sint a \<ge> sint b)"

fun ir_binary_val :: "ir_binary \<Rightarrow> ir_val \<Rightarrow> ir_val \<Rightarrow> ir_val option" where
  "ir_binary_val op (V32 a) (V32 b) = map_option V32 (int_binary op a b)"
| "ir_binary_val op (V64 a) (V64 b) = map_option V64 (int_binary op a b)"
| "ir_binary_val op _ _ = None"

fun ir_compare :: "int_cc \<Rightarrow> ir_val \<Rightarrow> ir_val \<Rightarrow> bool option" where
  "ir_compare cc (V32 a) (V32 b) = Some (int_compare cc a b)"
| "ir_compare cc (V64 a) (V64 b) = Some (int_compare cc a b)"
| "ir_compare cc _ _ = None"

fun ir_unary_val :: "ir_unary \<Rightarrow> ir_type \<Rightarrow> ir_val \<Rightarrow> ir_val option" where
  "ir_unary_val Uextend CI32 (V8 a) = Some (V32 (ucast a))"
| "ir_unary_val Sextend CI64 (V32 a) = Some (V64 (scast a))"
| "ir_unary_val Ireduce CI32 (V64 a) = Some (V32 (ucast a))"
| "ir_unary_val _ _ _ = None"

fun ir_const :: "ir_type \<Rightarrow> i64 \<Rightarrow> ir_val option" where
  "ir_const CI8 n = Some (V8 (ucast n))"
| "ir_const CI32 n = Some (V32 (ucast n))"
| "ir_const CI64 n = Some (V64 n)"
| "ir_const _ n = None"

subsection \<open>Running a function\<close>

type_synonym ir_state = "(cval \<Rightarrow> ir_val option) \<times> (variable \<Rightarrow> ir_val option)"

definition ir_set :: "cval \<Rightarrow> ir_val option \<Rightarrow> ir_state \<Rightarrow> ir_state option" where
  "ir_set c x = (\<lambda>(vals, vars). case x of None \<Rightarrow> None | Some y \<Rightarrow> Some (vals(c \<mapsto> y), vars))"

text \<open>A call that does not end its block.\<close>

fun ir_step :: "builder_call \<Rightarrow> ir_state \<Rightarrow> ir_state option" where
  "ir_step (BDefVar v c) (vals, vars) = (case vals c of None \<Rightarrow> None | Some x \<Rightarrow> Some (vals, vars(v \<mapsto> x)))"
| "ir_step (BUseVar c v) (vals, vars) = ir_set c (vars v) (vals, vars)"
| "ir_step (BIconst c t n) st = ir_set c (ir_const t n) st"
| "ir_step (BUnary c op t a) (vals, vars) = ir_set c (Option.bind (vals a) (ir_unary_val op t)) (vals, vars)"
| "ir_step (BBinary c op a b) (vals, vars) =
     ir_set c (Option.bind (vals a) (\<lambda>x. Option.bind (vals b) (ir_binary_val op x))) (vals, vars)"
| "ir_step (BIcmp c cc a b) (vals, vars) = ir_set c (map_option (\<lambda>r. V8 (if r then 1 else 0))
     (Option.bind (vals a) (\<lambda>x. Option.bind (vals b) (ir_compare cc x)))) (vals, vars)"
| "ir_step _ st = None"

definition block_code :: "builder_call list \<Rightarrow> block \<Rightarrow> builder_call list" where
  "block_code code b = tl (dropWhile (\<lambda>c. c \<noteq> BSwitch b) code)"

datatype ir_next = IrGo "builder_call list" ir_state | IrEnd "ir_val option"

fun ir_transfer :: "builder_call list \<Rightarrow> builder_call list \<Rightarrow> ir_state \<Rightarrow> ir_next" where
  "ir_transfer code [] st = IrEnd None"
| "ir_transfer code (BJump b # rest) st = IrGo (block_code code b) st"
| "ir_transfer code (BBrif c b1 b2 # rest) st = (case fst st c of
      Some (V8 x) \<Rightarrow> IrGo (block_code code (if x \<noteq> 0 then b1 else b2)) st
    | _ \<Rightarrow> IrEnd None)"
| "ir_transfer code (BReturn c # rest) st = IrEnd (fst st c)"
| "ir_transfer code (c # rest) st = (case ir_step c st of None \<Rightarrow> IrEnd None | Some st' \<Rightarrow> IrGo rest st')"

partial_function (option) ir_run :: "builder_call list \<Rightarrow> builder_call list \<Rightarrow> ir_state \<Rightarrow> ir_val option option" where
  "ir_run code rest st = (case ir_transfer code rest st of
      IrGo rest' st' \<Rightarrow> ir_run code rest' st' | IrEnd r \<Rightarrow> Some r)"

text \<open>A call with 64-bit registers: a 32-bit parameter is the low half of its register.\<close>

fun ir_param :: "ir_type \<Rightarrow> i64 \<Rightarrow> ir_val option" where
  "ir_param CI32 raw = Some (V32 (ucast raw))"
| "ir_param CI64 raw = Some (V64 raw)"
| "ir_param _ raw = None"

definition ir_entry_vals :: "ir_type list \<Rightarrow> i64 list \<Rightarrow> cval \<Rightarrow> ir_val option" where
  "ir_entry_vals types args = (\<lambda>c. if c < length types \<and> c < length args then ir_param (types ! c) (args ! c) else None)"

definition ir_call :: "signature \<Rightarrow> builder_call list \<Rightarrow> i64 list \<Rightarrow> ir_val option option" where
  "ir_call sig code args = ir_run code (block_code code entry_blk) (ir_entry_vals (fst sig) args, Map.empty)"

subsection \<open>The assumption\<close>

text \<open>Machine code returns what the documentation says, in the low half of the result register.\<close>

definition cranelift_ok :: "cranelift \<Rightarrow> bool" where
  "cranelift_ok cl \<longleftrightarrow> (\<forall>sig code args w. ir_call sig code args = Some (Some (V32 w)) \<longrightarrow>
     (\<exists>raw. cl_native cl sig code args = NativeReturn raw \<and> ucast raw = w))"

text \<open>A machine that does what the documentation says, to the letter.\<close>

definition reference_machine :: cranelift where
  "reference_machine = \<lparr>cl_supported = True, cl_accepts = (\<lambda>sig code. True),
     cl_native = (\<lambda>sig code args. case ir_call sig code args of
         None \<Rightarrow> NativeLoop
       | Some None \<Rightarrow> NativeTrap
       | Some (Some (V8 w)) \<Rightarrow> NativeReturn (ucast w)
       | Some (Some (V32 w)) \<Rightarrow> NativeReturn (ucast w)
       | Some (Some (V64 w)) \<Rightarrow> NativeReturn w)\<rparr>"

lemma reference_machine_ok: "cranelift_ok reference_machine"
proof -
  have "ucast (ucast w :: i64) = w" for w :: i32
    by (rule bit_word_eqI) (simp add: bit_simps)
  then show ?thesis
    by (auto simp: cranelift_ok_def reference_machine_def)
qed

lemma ir_run_straight:
  "ir_step c st = Some st' \<Longrightarrow> ir_run code (c # rest) st = ir_run code rest st'"
  by (subst ir_run.simps, cases c; cases st) simp_all

lemma ir_run_jump: "ir_run code (BJump b # rest) st = ir_run code (block_code code b) st"
  by (subst ir_run.simps) simp

lemma ir_run_brif:
  "fst st c = Some (V8 x) \<Longrightarrow>
    ir_run code (BBrif c b1 b2 # rest) st = ir_run code (block_code code (if x \<noteq> 0 then b1 else b2)) st"
  by (subst ir_run.simps) simp

lemma ir_run_return: "ir_run code (BReturn c # rest) st = Some (fst st c)"
  by (subst ir_run.simps) simp

end
