(* ===== verification/Fasm_Agreement.thy ===== *)
theory Fasm_Agreement
  imports Fasm_Native Fasm_Isolation Fasm_Numbers
begin

text \<open>
  Where interpreter and JIT agree: functions on \<open>INT32\<close> and \<open>BOOL\<close> slots that are declared first and
  have no division, no cast to another type and no tail call.
\<close>

subsection \<open>Values as words\<close>

definition word_of :: "fasm_value \<Rightarrow> i32 option" where
  "word_of v = (case v of VInt32 n \<Rightarrow> Some n | VBool b \<Rightarrow> Some (if b then 1 else 0) | _ \<Rightarrow> None)"

lemma word_of_simps [simp]:
  "word_of (VInt32 n) = Some n" "word_of (VBool b) = Some (if b then 1 else 0)" "word_of VNull = None"
  by (simp_all add: word_of_def)

lemma word_ofE:
  assumes "word_of v = Some w"
  obtains "v = VInt32 w" | b where "v = VBool b" "w = (if b then 1 else 0)"
  using assms by (cases v) (auto simp: word_of_def)

lemma word_is_i64: "word_of v = Some w \<Longrightarrow> numeric_as_i64 v = Some (scast w)"
  by (erule word_ofE) (auto simp: numeric_as_i64_def bool_word_def)

lemma sint_scast_i32 [simp]: "sint (scast (w :: i32) :: i64) = sint w"
  by (simp add: sint_up_scast is_up)

lemma scast_i32_eq [simp]: "(scast (x :: i32) :: i64) = scast y \<longleftrightarrow> x = y"
  by (metis sint_scast_i32 signed_word_eqI)

lemma ucast_scast_i32: "ucast (scast (w :: i32) :: i64) = w"
  by (rule bit_word_eqI) (simp add: bit_simps)

lemma i64_op: "(scast (x :: i32) + scast y :: i64) = word_of_int (sint x + sint y)"
  "(scast x - scast y :: i64) = word_of_int (sint x - sint y)"
  "(scast x * scast y :: i64) = word_of_int (sint x * sint y)"
  by (simp_all only: scast_eq wi_hom_add wi_hom_sub wi_hom_mult)

lemma ucast_of_int_i64: "ucast (word_of_int i :: i64) = (word_of_int i :: i32)"
  by (rule ucast_word_of_int) simp

lemma ucast_i64_ops:
  "(ucast (scast x + scast y :: i64) :: i32) = x + y"
  "(ucast (scast x - scast y :: i64) :: i32) = x - y"
  "(ucast (scast x * scast y :: i64) :: i32) = x * y"
  unfolding i64_op ucast_of_int_i64 by (simp_all only: wi_hom_add [symmetric] wi_hom_sub [symmetric] wi_hom_mult [symmetric] word_of_int_sint)

lemma ucast_i64_bits:
  "(ucast (and (scast x) (scast y) :: i64) :: i32) = and x y"
  "(ucast (or (scast x) (scast y) :: i64) :: i32) = or x y"
  "(ucast (xor (scast x) (scast y) :: i64) :: i32) = xor x y"
  by (rule bit_word_eqI; simp add: bit_simps)+

lemma arith_agrees:
  assumes "arith_binary op a b = Good r" "arith_ins op CI32 = Some bop" "op \<noteq> OpDiv"
    and "word_of a = Some x" "word_of b = Some y"
  shows "\<exists>w. int_binary bop x y = Some w \<and> word_of r = Some w"
proof -
  have "a = VInt32 x \<and> b = VInt32 y"
    using assms by (cases op; elim word_ofE) (auto simp: val_add_def val_sub_def val_mul_def val_rem_def
        numeric_op_def nonzero_divisor_def arith_ins_def split: if_splits)
  then show ?thesis
    using assms(1-3) by (cases op) (auto simp: val_add_def val_sub_def val_mul_def val_rem_def numeric_op_def
        nonzero_divisor_def arith_ins_def is_float_def int_binary_def ucast_i64_ops is_truthy_def i64_rem_def
        ucast_word_of_int split: if_splits)
qed

lemma neg_agrees:
  assumes "arith_binary OpNeg a a = Good r" "word_of a = Some x"
  shows "word_of r = Some (0 - x)"
  using assms(2,1) by (elim word_ofE) (auto simp: val_neg_def)

lemma bitwise_agrees:
  assumes "bitwise_values op a b = Good r" "bitwise_ins op = Some bop"
    and "word_of a = Some x" "word_of b = Some y"
  shows "\<exists>w. int_binary bop x y = Some w \<and> word_of r = Some w"
proof -
  have "a = VInt32 x \<and> b = VInt32 y"
    using assms by (cases op; elim word_ofE) (auto simp: val_bit_and_def val_bit_or_def val_bit_xor_def
        bitwise_op_def val_shl_def val_shr_def as_u32_def bitwise_ins_def out_bind_Good)
  then show ?thesis
    using assms(1,2) by (cases op) (auto simp: val_bit_and_def val_bit_or_def val_bit_xor_def bitwise_op_def
        val_shl_def val_shr_def as_u32_def bitwise_ins_def int_binary_def ucast_i64_bits shift_amount_def)
qed

lemma not_agrees:
  assumes "bitwise_values OpNot a a = Good r" "word_of a = Some x"
  shows "word_of r = Some (xor x (- 1))"
  using assms(2,1) by (elim word_ofE) (auto simp: val_bit_not_def)

lemma compare_agrees:
  assumes "compare_values op a b = Good r" "word_of a = Some x" "word_of b = Some y"
  shows "r = VBool (int_compare (cmp_cc op) x y)"
proof -
  have num: "numeric_cmp f g a b = Some (f (scast x) (scast y))" for f g
    using assms(2,3) by (elim word_ofE) (auto simp: numeric_cmp_def numeric_as_i64_def bool_word_def)
  have "eq_val a b = (x = y)"
    by (simp add: eq_val_def word_is_i64 [OF assms(2)] word_is_i64 [OF assms(3)])
  then show ?thesis
    using assms(1) by (cases op) (auto simp: cmp_lt_def cmp_lte_def cmp_gt_def cmp_gte_def num int_compare_def
        cmp_cc_def)
qed

lemma cast_agrees:
  assumes "cast_value v TyInt32 = Good r" "word_of v = Some w"
  shows "word_of r = Some w"
proof -
  have "cast_as_i64 v = Some (scast w)"
    using word_is_i64 [OF assms(2)] assms(2) by (auto simp: cast_as_i64_def word_of_def split: val_splits)
  then show ?thesis
    using assms(1) by (auto simp: cast_value_def Let_def ucast_scast_i32)
qed

lemma truthy_agrees: "word_of v = Some w \<Longrightarrow> is_truthy v \<longleftrightarrow> w \<noteq> 0"
  by (erule word_ofE) (auto simp: is_truthy_def)

subsection \<open>The code of an instruction\<close>

text \<open>The operands of the functions considered.\<close>

fun plain_operand :: "operand \<Rightarrow> bool" where
  "plain_operand (OpdSlot (SlLocal i)) = True"
| "plain_operand (OpdImm (ImInt32 n)) = True"
| "plain_operand (OpdImm (ImBool b)) = True"
| "plain_operand op = False"

definition int_vars :: "jit_env \<Rightarrow> codegen \<Rightarrow> bool" where
  "int_vars je s \<longleftrightarrow> je_ret_type je = JI32 \<and> cg_vars s ! je_ret je = CI32
     \<and> (\<forall>i v. sparse_get (je_vars je) i = Some v \<longrightarrow> cg_vars s ! v = CI32)
     \<and> (\<forall>k v. sparse_get (je_param_vars je) k = Some v \<longrightarrow> cg_vars s ! v = CI32)"

definition push_val :: "ir_type \<Rightarrow> builder_call \<Rightarrow> codegen \<Rightarrow> codegen" where
  "push_val t c s = s\<lparr>cg_types := cg_types s @ [t], cg_calls := cg_calls s @ [c]\<rparr>"

definition push_call_to :: "builder_call \<Rightarrow> codegen \<Rightarrow> codegen" where
  "push_call_to c s = s\<lparr>cg_calls := cg_calls s @ [c]\<rparr>"

lemma push_simps [simp]:
  "cg_types (push_val t c s) = cg_types s @ [t]" "cg_calls (push_val t c s) = cg_calls s @ [c]"
  "cg_vars (push_val t c s) = cg_vars s" "cg_current (push_val t c s) = cg_current s"
  "cg_terminated (push_val t c s) = cg_terminated s" "int_vars je (push_val t c s) = int_vars je s"
  "cg_types (push_call_to c s) = cg_types s" "cg_calls (push_call_to c s) = cg_calls s @ [c]"
  "cg_vars (push_call_to c s) = cg_vars s" "cg_current (push_call_to c s) = cg_current s"
  "cg_terminated (push_call_to c s) = cg_terminated s"
  by (simp_all add: push_val_def push_call_to_def int_vars_def)

lemma emit_simps [simp]:
  "new_value t c s = Some (length (cg_types s), push_val t (c (length (cg_types s))) s)"
  "value_type a s = Some (cg_types s ! a, s)"
  "use_var v s = Some (length (cg_types s), push_val (cg_vars s ! v) (BUseVar (length (cg_types s)) v) s)"
  "def_var v a s = Some ((), push_call_to (BDefVar v a) s)"
  "call_builder c' s = Some ((), push_call_to c' s)"
  "iconst t n s = Some (length (cg_types s), push_val t (BIconst (length (cg_types s)) t n) s)"
  "ins_unary u t a s = Some (length (cg_types s), push_val t (BUnary (length (cg_types s)) u t a) s)"
  "ins_binary b a a' s = Some (length (cg_types s), push_val (cg_types s ! a) (BBinary (length (cg_types s)) b a a') s)"
  "icmp cc a a' s = Some (length (cg_types s), push_val CI8 (BIcmp (length (cg_types s)) cc a a') s)"
  "cg_return x s = Some (x, s)"
  "cg_try None s = None" "cg_try (Some y) s = Some (y, s)"
  by (simp_all add: new_value_def value_type_def use_var_def def_var_def call_builder_def iconst_def ins_unary_def
      ins_binary_def icmp_def cg_return_def cg_try_def cg_bind_def push_val_def push_call_to_def)

lemma cg_bind_simps [simp]:
  "m s = Some (x, s') \<Longrightarrow> cg_bind m k s = k x s'"
  "m s = None \<Longrightarrow> cg_bind m k s = None"
  by (simp_all add: cg_bind_def)

lemma cg_bind_eq: "cg_bind m k s = (case m s of None \<Rightarrow> None | Some (x, s') \<Rightarrow> k x s')"
  by (simp add: cg_bind_def)

lemma cg_try_Some: "cg_try x s = Some (y, s') \<longleftrightarrow> x = Some y \<and> s' = s"
  by (cases x) auto

lemma coerce_same: "cg_types s ! c = t \<Longrightarrow> coerce_to c t s = Some (c, s)"
  by (simp add: coerce_to_def cg_bind_eq)

fun read_call :: "jit_env \<Rightarrow> operand \<Rightarrow> cval \<Rightarrow> builder_call option" where
  "read_call je (OpdSlot (SlLocal i)) c = map_option (BUseVar c) (sparse_get (je_vars je) i)"
| "read_call je (OpdImm (ImInt32 n)) c = Some (BIconst c CI32 (scast n))"
| "read_call je (OpdImm (ImBool b)) c = Some (BIconst c CI32 (if b then 1 else 0))"
| "read_call je op c = None"

lemma read_op_plain:
  assumes "plain_operand op" "int_vars je s"
  shows "read_op je op s = (case read_call je op (length (cg_types s)) of
      None \<Rightarrow> None | Some x \<Rightarrow> Some (length (cg_types s), push_val CI32 x s))"
  using assms by (cases op rule: plain_operand.cases)
    (auto simp: read_op_def imm_to_cv_def cg_bind_eq int_vars_def split: option.split)

lemma write_op_local:
  assumes "int_vars je s" "c < length (cg_types s)" "cg_types s ! c = CI32"
  shows "write_op je (OpdSlot (SlLocal d)) c s = (case sparse_get (je_vars je) d of
      None \<Rightarrow> None
    | Some v \<Rightarrow> Some ((), push_call_to (BDefVar v c) (push_val CI32 (BUseVar (length (cg_types s)) v) s)))"
proof (cases "sparse_get (je_vars je) d")
  case (Some v)
  then have "cg_vars s ! v = CI32"
    using assms(1) by (auto simp: int_vars_def)
  moreover have "(cg_types s @ [CI32]) ! c = CI32"
    using assms(2,3) by (simp add: nth_append)
  ultimately show ?thesis
    using Some by (simp add: write_op_def cg_bind_eq coerce_same)
qed (simp add: write_op_def cg_bind_eq)

text \<open>What compiling an instruction leaves alone.\<close>

definition same_control :: "codegen \<Rightarrow> codegen \<Rightarrow> bool" where
  "same_control s s' \<longleftrightarrow> cg_vars s' = cg_vars s \<and> cg_current s' = cg_current s \<and> cg_terminated s' = cg_terminated s"

lemma same_control_simps [simp]:
  "same_control s s" "same_control s (push_val t c s') = same_control s s'"
  "same_control s (push_call_to c s') = same_control s s'"
  "same_control (push_val t c s) s' = same_control s s'"
  by (simp_all add: same_control_def)

definition dest_code :: "jit_env \<Rightarrow> u8 \<Rightarrow> nat \<Rightarrow> cval \<Rightarrow> builder_call list option" where
  "dest_code je d n c = map_option (\<lambda>v. [BUseVar n v, BDefVar v c]) (sparse_get (je_vars je) d)"

lemma write_dest:
  assumes "write_at je ins k c s = Some ((), s')" "operand_at ins k = Some (OpdSlot (SlLocal d))"
    and "int_vars je s" "c < length (cg_types s)" "cg_types s ! c = CI32"
  shows "\<exists>code. dest_code je d (length (cg_types s)) c = Some code \<and> cg_calls s' = cg_calls s @ code \<and> same_control s s'"
  using assms by (auto simp: write_at_def operand_of_def write_op_local dest_code_def split: option.splits)

lemma read_plain:
  assumes "operand_at ins k = Some op" "plain_operand op" "int_vars je s"
  shows "cg_bind (read_at je ins k) g s = (case read_call je op (length (cg_types s)) of
    None \<Rightarrow> None | Some x \<Rightarrow> g (length (cg_types s)) (push_val CI32 x s))"
  using assms by (simp add: read_at_def operand_of_def read_op_plain split: option.split)

definition binop_shape :: "instruction \<Rightarrow> operand \<Rightarrow> operand \<Rightarrow> u8 \<Rightarrow> bool" where
  "binop_shape ins a b d \<longleftrightarrow> operand_at ins 0 = Some a \<and> operand_at ins 1 = Some b
     \<and> operand_at ins 2 = Some (OpdSlot (SlLocal d)) \<and> plain_operand a \<and> plain_operand b"

definition unop_shape :: "instruction \<Rightarrow> operand \<Rightarrow> u8 \<Rightarrow> bool" where
  "unop_shape ins a d \<longleftrightarrow> operand_at ins 0 = Some a
     \<and> operand_at ins 1 = Some (OpdSlot (SlLocal d)) \<and> plain_operand a"

lemma emit_binop_code:
  assumes "emit_binop je ins f s = Some ((), s')" "binop_shape ins a b d" "int_vars je s"
  defines "n \<equiv> length (cg_types s)"
  shows "\<exists>x y op code. read_call je a n = Some x \<and> read_call je b (n + 1) = Some y \<and> f CI32 = Some op
    \<and> dest_code je d (n + 3) (n + 2) = Some code
    \<and> cg_calls s' = cg_calls s @ [x, y, BBinary (n + 2) op n (n + 1)] @ code \<and> same_control s s'"
proof -
  from assms(1-3) obtain x y op where x: "read_call je a n = Some x" "read_call je b (n + 1) = Some y" "f CI32 = Some op"
    and w: "write_at je ins 2 (n + 2) (push_val CI32 (BBinary (n + 2) op n (n + 1)) (push_val CI32 y (push_val CI32 x s)))
      = Some ((), s')"
    by (cases "f CI32") (auto simp: emit_binop_def binop_shape_def read_plain n_def coerce_same nth_append
        eval_nat_numeral split: option.splits)
  show ?thesis
    using write_dest [OF w] assms(2,3) x by (auto simp: binop_shape_def n_def nth_append eval_nat_numeral)
qed

lemma emit_cmp_code:
  assumes "emit_cmp je ins cc s = Some ((), s')" "binop_shape ins a b d" "int_vars je s"
  defines "n \<equiv> length (cg_types s)"
  shows "\<exists>x y code. read_call je a n = Some x \<and> read_call je b (n + 1) = Some y
    \<and> dest_code je d (n + 4) (n + 3) = Some code
    \<and> cg_calls s' = cg_calls s @ [x, y, BIcmp (n + 2) cc n (n + 1), BUnary (n + 3) Uextend CI32 (n + 2)] @ code
    \<and> same_control s s'"
proof -
  from assms(1-3) obtain x y where x: "read_call je a n = Some x" "read_call je b (n + 1) = Some y"
    and w: "write_at je ins 2 (n + 3) (push_val CI32 (BUnary (n + 3) Uextend CI32 (n + 2))
      (push_val CI8 (BIcmp (n + 2) cc n (n + 1)) (push_val CI32 y (push_val CI32 x s)))) = Some ((), s')"
    by (auto simp: emit_cmp_def binop_shape_def read_plain n_def coerce_same nth_append eval_nat_numeral split: option.splits)
  show ?thesis
    using write_dest [OF w] assms(2,3) x by (auto simp: binop_shape_def n_def nth_append eval_nat_numeral)
qed

lemma emit_neg_code:
  assumes "emit_neg je ins s = Some ((), s')" "unop_shape ins a d" "int_vars je s"
  defines "n \<equiv> length (cg_types s)"
  shows "\<exists>x code. read_call je a n = Some x \<and> dest_code je d (n + 3) (n + 2) = Some code
    \<and> cg_calls s' = cg_calls s @ [x, BIconst (n + 1) CI32 0, BBinary (n + 2) Isub (n + 1) n] @ code \<and> same_control s s'"
proof -
  from assms(1-3) obtain x where x: "read_call je a n = Some x"
    and w: "write_at je ins 1 (n + 2) (push_val CI32 (BBinary (n + 2) Isub (n + 1) n)
      (push_val CI32 (BIconst (n + 1) CI32 0) (push_val CI32 x s))) = Some ((), s')"
    by (auto simp: emit_neg_def unop_shape_def read_plain n_def is_float_def nth_append eval_nat_numeral split: option.splits)
  show ?thesis
    using write_dest [OF w] assms(2,3) x by (auto simp: unop_shape_def n_def nth_append eval_nat_numeral)
qed

lemma emit_not_code:
  assumes "emit_not je ins s = Some ((), s')" "unop_shape ins a d" "int_vars je s"
  defines "n \<equiv> length (cg_types s)"
  shows "\<exists>x code. read_call je a n = Some x \<and> dest_code je d (n + 3) (n + 2) = Some code
    \<and> cg_calls s' = cg_calls s @ [x, BIconst (n + 1) CI32 (- 1), BBinary (n + 2) Bxor n (n + 1)] @ code
    \<and> same_control s s'"
proof -
  from assms(1-3) obtain x where x: "read_call je a n = Some x"
    and w: "write_at je ins 1 (n + 2) (push_val CI32 (BBinary (n + 2) Bxor n (n + 1))
      (push_val CI32 (BIconst (n + 1) CI32 (- 1)) (push_val CI32 x s))) = Some ((), s')"
    by (auto simp: emit_not_def unop_shape_def read_plain n_def nth_append eval_nat_numeral split: option.splits)
  show ?thesis
    using write_dest [OF w] assms(2,3) x by (auto simp: unop_shape_def n_def nth_append eval_nat_numeral)
qed

lemma emit_mov_code:
  assumes "cg_bind (read_at je ins 0) (write_at je ins 1) s = Some ((), s')" "unop_shape ins a d" "int_vars je s"
  defines "n \<equiv> length (cg_types s)"
  shows "\<exists>x code. read_call je a n = Some x \<and> dest_code je d (n + 1) n = Some code
    \<and> cg_calls s' = cg_calls s @ [x] @ code \<and> same_control s s'"
proof -
  from assms(1-3) obtain x where x: "read_call je a n = Some x"
    and w: "write_at je ins 1 n (push_val CI32 x s) = Some ((), s')"
    by (auto simp: unop_shape_def read_plain n_def split: option.splits)
  show ?thesis
    using write_dest [OF w] assms(2,3) x by (auto simp: unop_shape_def n_def nth_append eval_nat_numeral)
qed

subsection \<open>Running the code of an instruction\<close>

fun plain_value :: "slots \<Rightarrow> operand \<Rightarrow> fasm_value option" where
  "plain_value fr (OpdSlot (SlLocal i)) = frame_get i fr"
| "plain_value fr (OpdImm imm) = Some (imm_to_value imm)"
| "plain_value fr op = None"

text \<open>The variables hold the words of the slots and of the parameters, and the return slot is not used.\<close>

definition slots_agree :: "jit_env \<Rightarrow> slots \<Rightarrow> (variable \<Rightarrow> ir_val option) \<Rightarrow> bool" where
  "slots_agree je fr vars \<longleftrightarrow> (\<forall>i v. frame_get i fr = Some v \<longrightarrow>
     (\<exists>x w. sparse_get (je_vars je) i = Some x \<and> vars x = Some (V32 w) \<and> word_of v = Some w))"

definition vars_agree :: "jit_env \<Rightarrow> (u32 \<times> fasm_value) list \<Rightarrow> (variable \<Rightarrow> ir_val option) \<Rightarrow> bool" where
  "vars_agree je args vars \<longleftrightarrow> vars (je_ret je) = Some (V32 0)
     \<and> (\<forall>i x. sparse_get (je_vars je) i = Some x \<longrightarrow> (\<exists>w. vars x = Some (V32 w)))
     \<and> (\<forall>k x. sparse_get (je_param_vars je) k = Some x \<longrightarrow>
          (\<exists>v w. struct_get args k = Some v \<and> word_of v = Some w \<and> vars x = Some (V32 w)))"

definition vars_apart :: "jit_env \<Rightarrow> bool" where
  "vars_apart je \<longleftrightarrow> (\<forall>i x. sparse_get (je_vars je) i = Some x \<longrightarrow> x \<noteq> je_ret je
     \<and> (\<forall>j. sparse_get (je_vars je) j = Some x \<longrightarrow> j = i) \<and> (\<forall>k. sparse_get (je_param_vars je) k \<noteq> Some x))"

lemma slots_agreeE:
  assumes "slots_agree je fr vars" "frame_get i fr = Some v"
  obtains x w where "sparse_get (je_vars je) i = Some x" "vars x = Some (V32 w)" "word_of v = Some w"
  using assms unfolding slots_agree_def by blast

lemma vars_agree_slot:
  assumes "vars_agree je args vars" "sparse_get (je_vars je) i = Some x"
  obtains w where "vars x = Some (V32 w)"
  using assms unfolding vars_agree_def by blast

lemma vars_agree_param:
  assumes "vars_agree je args vars" "sparse_get (je_param_vars je) k = Some x"
  obtains v w where "struct_get args k = Some v" "word_of v = Some w" "vars x = Some (V32 w)"
  using assms unfolding vars_agree_def by blast

lemma agree_write:
  assumes "vars_apart je" "slots_agree je fr vars" "vars_agree je args vars"
    and "sparse_get (je_vars je) d = Some x" "word_of v = Some w"
  shows "slots_agree je (frame_set d v fr) (vars(x \<mapsto> V32 w)) \<and> vars_agree je args (vars(x \<mapsto> V32 w))"
proof
  show "slots_agree je (frame_set d v fr) (vars(x \<mapsto> V32 w))"
    using assms unfolding slots_agree_def vars_apart_def
    by (auto simp: frame_store.get_set) (metis option.inject)
  show "vars_agree je args (vars(x \<mapsto> V32 w))"
    using assms unfolding vars_agree_def vars_apart_def by auto
qed

lemma read_agrees:
  assumes "plain_operand op" "plain_value fr op = Some v" "slots_agree je fr vars"
    and "read_call je op c = Some x"
  shows "\<exists>w. word_of v = Some w \<and> (\<forall>vals. ir_step x (vals, vars) = Some (vals(c \<mapsto> V32 w), vars))"
proof (cases op rule: plain_operand.cases)
  case (1 i)
  with assms(2) have "frame_get i fr = Some v"
    by simp
  with assms(3) obtain y w where "sparse_get (je_vars je) i = Some y" "vars y = Some (V32 w)" "word_of v = Some w"
    by (rule slots_agreeE)
  then show ?thesis
    using 1 assms(4) by (auto simp: ir_set_def)
next
  case (2 n)
  have "ucast (scast n :: i64) = n"
    by (rule ucast_scast_i32)
  then show ?thesis
    using 2 assms(2,4) by (auto simp: ir_set_def)
qed (use assms in \<open>auto simp: ir_set_def\<close>)

text \<open>A piece of code that does what the interpreter did.\<close>

definition runs_to :: "builder_call list \<Rightarrow> (variable \<Rightarrow> ir_val option) \<Rightarrow> (variable \<Rightarrow> ir_val option) \<Rightarrow> bool" where
  "runs_to seg vars vars' \<longleftrightarrow> (\<forall>code rest vals. \<exists>vals'. ir_run code (seg @ rest) (vals, vars) = ir_run code rest (vals', vars'))"

text \<open>A computation of a value, followed by the write to a slot.\<close>

lemma dest_agrees:
  assumes "dest_code je d n c = Some code" "n \<noteq> c" "word_of r = Some w"
    and "\<And>vals. \<exists>vals'. (\<forall>code rest. ir_run code (seg @ rest) (vals, vars) = ir_run code rest (vals', vars))
      \<and> vals' c = Some (V32 w)"
    and "vars_apart je" "slots_agree je fr vars" "vars_agree je args vars"
  shows "\<exists>vars'. runs_to (seg @ code) vars vars' \<and> slots_agree je (frame_set d r fr) vars' \<and> vars_agree je args vars'"
proof -
  obtain x where x: "sparse_get (je_vars je) d = Some x" "code = [BUseVar n x, BDefVar x c]"
    using assms(1) by (auto simp: dest_code_def)
  obtain w0 where w0: "vars x = Some (V32 w0)"
    using assms(7) x(1) by (rule vars_agree_slot)
  have "runs_to (seg @ code) vars (vars(x \<mapsto> V32 w))"
    unfolding runs_to_def
  proof (intro allI)
    fix full rest vals
    obtain vals' where v: "\<And>code rest. ir_run code (seg @ rest) (vals, vars) = ir_run code rest (vals', vars)"
      "vals' c = Some (V32 w)"
      using assms(4) [of vals] by blast
    have "ir_run full (code @ rest) (vals', vars) = ir_run full rest (vals'(n \<mapsto> V32 w0), vars(x \<mapsto> V32 w))"
      using v(2) assms(2) w0 by (simp add: x(2) ir_run_straight [of _ _ "(vals'(n \<mapsto> V32 w0), vars)"]
          ir_run_straight [of _ _ "(vals'(n \<mapsto> V32 w0), vars(x \<mapsto> V32 w))"] ir_set_def)
    then show "\<exists>vals''. ir_run full ((seg @ code) @ rest) (vals, vars) = ir_run full rest (vals'', vars(x \<mapsto> V32 w))"
      by (auto simp: v(1))
  qed
  with agree_write [OF assms(5-7) x(1) assms(3)] show ?thesis
    by blast
qed

lemmas ir_straight = ir_run_straight [of _ "(vals, vars)" "(vals', vars)" for vals vals' vars]

lemma binop_runs:
  assumes "read_call je a n = Some x" "read_call je b (n + 1) = Some y"
    and "plain_operand a" "plain_operand b" "plain_value fr a = Some va" "plain_value fr b = Some vb"
    and "\<And>wa wb. word_of va = Some wa \<Longrightarrow> word_of vb = Some wb \<Longrightarrow>
      \<exists>w. int_binary op wa wb = Some w \<and> word_of r = Some w"
    and "dest_code je d (n + 3) (n + 2) = Some code"
    and "vars_apart je" "slots_agree je fr vars" "vars_agree je args vars"
  shows "\<exists>vars'. runs_to ([x, y, BBinary (n + 2) op n (n + 1)] @ code) vars vars'
    \<and> slots_agree je (frame_set d r fr) vars' \<and> vars_agree je args vars'"
proof -
  obtain wa where a: "word_of va = Some wa" "\<And>vals. ir_step x (vals, vars) = Some (vals(n \<mapsto> V32 wa), vars)"
    using read_agrees [OF assms(3,5,10,1)] by blast
  obtain wb where b: "word_of vb = Some wb" "\<And>vals. ir_step y (vals, vars) = Some (vals(n + 1 \<mapsto> V32 wb), vars)"
    using read_agrees [OF assms(4,6,10,2)] by blast
  obtain w where w: "int_binary op wa wb = Some w" "word_of r = Some w"
    using assms(7) [OF a(1) b(1)] by blast
  have run: "\<exists>vals'. (\<forall>code rest. ir_run code ([x, y, BBinary (n + 2) op n (n + 1)] @ rest) (vals, vars)
      = ir_run code rest (vals', vars)) \<and> vals' (n + 2) = Some (V32 w)" for vals
    by (intro exI [of _ "vals(n \<mapsto> V32 wa, n + 1 \<mapsto> V32 wb, n + 2 \<mapsto> V32 w)"])
      (simp add: ir_straight [OF a(2)] ir_straight [OF b(2)] ir_run_straight ir_set_def w)
  show ?thesis
    by (rule dest_agrees [OF assms(8) _ w(2) run assms(9-11)]) simp
qed

lemma cmp_runs:
  assumes "read_call je a n = Some x" "read_call je b (n + 1) = Some y"
    and "plain_operand a" "plain_operand b" "plain_value fr a = Some va" "plain_value fr b = Some vb"
    and "\<And>wa wb. word_of va = Some wa \<Longrightarrow> word_of vb = Some wb \<Longrightarrow> r = VBool (int_compare cc wa wb)"
    and "dest_code je d (n + 4) (n + 3) = Some code"
    and "vars_apart je" "slots_agree je fr vars" "vars_agree je args vars"
  shows "\<exists>vars'. runs_to ([x, y, BIcmp (n + 2) cc n (n + 1), BUnary (n + 3) Uextend CI32 (n + 2)] @ code) vars vars'
    \<and> slots_agree je (frame_set d r fr) vars' \<and> vars_agree je args vars'"
proof -
  obtain wa where a: "word_of va = Some wa" "\<And>vals. ir_step x (vals, vars) = Some (vals(n \<mapsto> V32 wa), vars)"
    using read_agrees [OF assms(3,5,10,1)] by blast
  obtain wb where b: "word_of vb = Some wb" "\<And>vals. ir_step y (vals, vars) = Some (vals(n + 1 \<mapsto> V32 wb), vars)"
    using read_agrees [OF assms(4,6,10,2)] by blast
  let ?c = "int_compare cc wa wb"
  let ?w = "if ?c then 1 else 0 :: i32"
  have r: "word_of r = Some ?w"
    using assms(7) [OF a(1) b(1)] by simp
  have run: "\<exists>vals'. (\<forall>code rest. ir_run code ([x, y, BIcmp (n + 2) cc n (n + 1), BUnary (n + 3) Uextend CI32 (n + 2)] @ rest)
      (vals, vars) = ir_run code rest (vals', vars)) \<and> vals' (n + 3) = Some (V32 ?w)" for vals
    by (intro exI [of _ "vals(n \<mapsto> V32 wa, n + 1 \<mapsto> V32 wb, n + 2 \<mapsto> V8 (if ?c then 1 else 0), n + 3 \<mapsto> V32 ?w)"])
      (simp add: ir_straight [OF a(2)] ir_straight [OF b(2)] ir_run_straight ir_set_def)
  show ?thesis
    by (rule dest_agrees [OF assms(8) _ r run assms(9-11)]) simp
qed

lemma unop_runs:
  assumes "read_call je a n = Some x" "plain_operand a" "plain_value fr a = Some va"
    and "\<And>wa. word_of va = Some wa \<Longrightarrow> \<exists>w. word_of r = Some w \<and> (\<forall>vals. \<exists>vals'. vals' c = Some (V32 w)
      \<and> (\<forall>code rest. ir_run code (seg @ rest) (vals(n \<mapsto> V32 wa), vars) = ir_run code rest (vals', vars)))"
    and "dest_code je d m c = Some code" "m \<noteq> c"
    and "vars_apart je" "slots_agree je fr vars" "vars_agree je args vars"
  shows "\<exists>vars'. runs_to ((x # seg) @ code) vars vars'
    \<and> slots_agree je (frame_set d r fr) vars' \<and> vars_agree je args vars'"
proof -
  obtain wa where a: "word_of va = Some wa" "\<And>vals. ir_step x (vals, vars) = Some (vals(n \<mapsto> V32 wa), vars)"
    using read_agrees [OF assms(2,3,8,1)] by blast
  obtain w where w: "word_of r = Some w" and v: "\<And>vals. \<exists>vals'. vals' c = Some (V32 w)
      \<and> (\<forall>code rest. ir_run code (seg @ rest) (vals(n \<mapsto> V32 wa), vars) = ir_run code rest (vals', vars))"
    using assms(4) [OF a(1)] by blast
  have "\<exists>vals'. (\<forall>code rest. ir_run code ((x # seg) @ rest) (vals, vars) = ir_run code rest (vals', vars))
      \<and> vals' c = Some (V32 w)" for vals
    using v [of vals] by (auto simp: ir_straight [OF a(2)])
  then show ?thesis
    by (rule dest_agrees [OF assms(5,6) w _ assms(7-9)])
qed

subsection \<open>The interpreter on these instructions\<close>

lemma read_plain_operand:
  assumes "plain_operand op" "vm_call_stack s = cf # rest"
  shows "read_operand op s = (case plain_value (cf_frame cf) op of None \<Rightarrow> RErr FUndeclaredSlot s | Some v \<Rightarrow> ROk v s)"
  using assms by (cases op rule: plain_operand.cases)
    (auto simp: read_operand_def vm_bind_def top_def vm_ok_or_def vm_return_def vm_fail_def split: option.split)

definition with_slot :: "u8 \<Rightarrow> fasm_value \<Rightarrow> call_frame \<Rightarrow> call_frame" where
  "with_slot d v cf = cf\<lparr>cf_frame := frame_set d v (cf_frame cf)\<rparr>"

lemma with_slot_simps [simp]:
  "cf_frame (with_slot d v cf) = frame_set d v (cf_frame cf)" "cf_ip (with_slot d v cf) = cf_ip cf"
  "cf_func_idx (with_slot d v cf) = cf_func_idx cf" "cf_args (with_slot d v cf) = cf_args cf"
  "cf_ret_val (with_slot d v cf) = cf_ret_val cf" "cf_try_guard (with_slot d v cf) = cf_try_guard cf"
  by (simp_all add: with_slot_def)

lemma get_op_at: "get_op ins k s = (case operand_at ins k of None \<Rightarrow> RErr FTypeMismatch s | Some op \<Rightarrow> ROk op s)"
  by (simp add: get_op_def operand_at_def vm_ok_or_def vm_return_def vm_fail_def split: option.split)

lemma write_val_local:
  assumes "operand_at ins k = Some (OpdSlot (SlLocal d))" "vm_call_stack s = cf # rest"
  shows "write_val ins k v s = ROk () (s\<lparr>vm_call_stack := with_slot d v cf # rest\<rparr>)"
  using assms by (simp add: write_val_def get_op_at write_operand_def set_local_def modify_top_def with_slot_def)

lemma read_val_plain:
  assumes "operand_at ins k = Some a" "plain_operand a" "vm_call_stack s = cf # rest"
  shows "read_val ins k s = (case plain_value (cf_frame cf) a of None \<Rightarrow> RErr FUndeclaredSlot s | Some v \<Rightarrow> ROk v s)"
  using assms by (simp add: read_val_def get_op_at read_plain_operand)

lemma binary_cases:
  assumes "binop_shape ins a b d" "vm_call_stack s = cf # rest"
  shows "(\<exists>f. binary ins g s = RErr f s) \<or> binary ins g s = RPanic
    \<or> (\<exists>x y r. plain_value (cf_frame cf) a = Some x \<and> plain_value (cf_frame cf) b = Some y \<and> g x y = Good r
        \<and> binary ins g s = ROk AContinue (s\<lparr>vm_call_stack := with_slot d r cf # rest\<rparr>))"
proof -
  have "then_continue (write_val ins 2 r) s = ROk AContinue (s\<lparr>vm_call_stack := with_slot d r cf # rest\<rparr>)" for r
    using assms by (simp add: then_continue_def write_val_local binop_shape_def vm_return_def)
  then show ?thesis
    using assms by (auto simp: binary_def binop_shape_def vm_bind_def [of "read_val ins k" for k] read_val_plain
        vm_lift_def vm_bind_def vm_return_def vm_fail_def vm_panic_def split: option.split outcome.split)
qed

lemma unary_cases:
  assumes "unop_shape ins a d" "vm_call_stack s = cf # rest"
  shows "(\<exists>f. unary ins g s = RErr f s) \<or> unary ins g s = RPanic
    \<or> (\<exists>x r. plain_value (cf_frame cf) a = Some x \<and> g x = Good r
        \<and> unary ins g s = ROk AContinue (s\<lparr>vm_call_stack := with_slot d r cf # rest\<rparr>))"
proof -
  have "then_continue (write_val ins 1 r) s = ROk AContinue (s\<lparr>vm_call_stack := with_slot d r cf # rest\<rparr>)" for r
    using assms by (simp add: then_continue_def write_val_local unop_shape_def vm_return_def)
  then show ?thesis
    using assms by (auto simp: unary_def unop_shape_def read_val_plain vm_lift_def vm_bind_def vm_return_def
        vm_fail_def vm_panic_def split: option.split outcome.split)
qed

subsection \<open>One instruction\<close>

definition binary_shape :: "instruction \<Rightarrow> bool" where
  "binary_shape ins = (case operands ins of
      a # b # OpdSlot (SlLocal d) # ops \<Rightarrow> plain_operand a \<and> plain_operand b | _ \<Rightarrow> False)"

definition unary_shape :: "instruction \<Rightarrow> bool" where
  "unary_shape ins = (case operands ins of
      a # OpdSlot (SlLocal d) # ops \<Rightarrow> plain_operand a | _ \<Rightarrow> False)"

definition field_form :: "instruction \<Rightarrow> bool" where
  "field_form ins = (case operands ins of
      OpdSlot (SlBuiltIn BiArgs) # OpdKey k # OpdSlot (SlLocal d) # ops \<Rightarrow> True | _ \<Rightarrow> False)"

fun cast_form :: "operand list \<Rightarrow> bool" where
  "cast_form (a # OpdType t # OpdSlot (SlLocal d) # ops) = (plain_operand a \<and> t = TyInt32)"
| "cast_form ops = False"

text \<open>The instructions that continue with the next one.\<close>

definition straight_instr :: "instruction \<Rightarrow> bool" where
  "straight_instr ins = (case opcode ins of
      OMem op \<Rightarrow> (case op of
        OpReserve \<Rightarrow> False
      | OpRelease \<Rightarrow> (case operands ins of OpdSlot (SlLocal d) # ops \<Rightarrow> True | _ \<Rightarrow> False)
      | _ \<Rightarrow> True)
    | OMove op \<Rightarrow> op \<noteq> OpAddr \<and> unary_shape ins
    | OArith op \<Rightarrow> if op = OpNeg then unary_shape ins else op \<noteq> OpDiv \<and> binary_shape ins
    | OCmp op \<Rightarrow> binary_shape ins
    | OBitwise op \<Rightarrow> if op = OpNot then unary_shape ins else binary_shape ins
    | OFlow op \<Rightarrow> op = OpNop
    | OColl op \<Rightarrow> op = OpGetField \<and> field_form ins
    | OCast \<Rightarrow> cast_form (operands ins)
    | _ \<Rightarrow> False)"

lemma binary_shapeE:
  assumes "binary_shape ins"
  obtains a b d where "binop_shape ins a b d"
  using assms by (auto simp: binary_shape_def binop_shape_def operand_at_def nth_opt_def
      split: list.splits operand.splits slot_ref.splits)

lemma unary_shapeE:
  assumes "unary_shape ins"
  obtains a d where "unop_shape ins a d"
  using assms by (auto simp: unary_shape_def unop_shape_def operand_at_def nth_opt_def
      split: list.splits operand.splits slot_ref.splits)

definition same_place :: "call_frame \<Rightarrow> call_frame \<Rightarrow> bool" where
  "same_place cf cf' \<longleftrightarrow> cf_func_idx cf' = cf_func_idx cf \<and> cf_ip cf' = cf_ip cf \<and> cf_args cf' = cf_args cf
     \<and> cf_ret_val cf' = cf_ret_val cf \<and> cf_try_guard cf' = cf_try_guard cf"

text \<open>The interpreter fails and changes nothing, or goes on and the emitted code does the same.\<close>

definition step_agrees :: "jit_env \<Rightarrow> (u32 \<times> fasm_value) list \<Rightarrow> codegen \<Rightarrow> codegen \<Rightarrow> vm \<Rightarrow> call_frame \<Rightarrow> call_frame list
    \<Rightarrow> (variable \<Rightarrow> ir_val option) \<Rightarrow> (vm, action) res \<Rightarrow> bool" where
  "step_agrees je args s1 s2 s cf rest vars r \<longleftrightarrow> (\<exists>f. r = RErr f s) \<or> r = RPanic
     \<or> (\<exists>cf' vars' seg. r = ROk AContinue (s\<lparr>vm_call_stack := cf' # rest\<rparr>) \<and> same_place cf cf'
        \<and> slots_agree je (cf_frame cf') vars' \<and> vars_agree je args vars'
        \<and> cg_calls s2 = cg_calls s1 @ seg \<and> same_control s1 s2 \<and> runs_to seg vars vars')"

lemma step_agreesI:
  assumes "r = ROk AContinue (s\<lparr>vm_call_stack := cf' # rest\<rparr>)" "same_place cf cf'"
    and "cg_calls s2 = cg_calls s1 @ seg" "same_control s1 s2"
    and "\<exists>vars'. runs_to seg vars vars' \<and> slots_agree je (cf_frame cf') vars' \<and> vars_agree je args vars'"
  shows "step_agrees je args s1 s2 s cf rest vars r"
  using assms unfolding step_agrees_def by blast

lemma same_place_slot [simp]: "same_place cf (with_slot d v cf)"
  by (simp add: same_place_def)

text \<open>What the lemmas on single instructions share.\<close>

definition situation :: "jit_env \<Rightarrow> codegen \<Rightarrow> (u32 \<times> fasm_value) list \<Rightarrow> vm \<Rightarrow> call_frame \<Rightarrow> call_frame list
    \<Rightarrow> (variable \<Rightarrow> ir_val option) \<Rightarrow> bool" where
  "situation je s1 args s cf rest vars \<longleftrightarrow> int_vars je s1 \<and> vars_apart je \<and> slots_agree je (cf_frame cf) vars
     \<and> vars_agree je args vars \<and> vm_call_stack s = cf # rest \<and> cf_args cf = VStruct args"

lemma situationD:
  assumes "situation je s1 args s cf rest vars"
  shows "int_vars je s1" "vars_apart je" "slots_agree je (cf_frame cf) vars" "vars_agree je args vars"
    "vm_call_stack s = cf # rest" "cf_args cf = VStruct args"
  using assms by (simp_all add: situation_def)

lemma binop_step:
  assumes sit: "situation je s1 args s cf rest vars" and "emit_binop je ins f s1 = Some ((), s2)"
    and shape: "binop_shape ins a b d"
    and agrees: "\<And>x y r op wa wb. g x y = Good r \<Longrightarrow> f CI32 = Some op \<Longrightarrow> word_of x = Some wa \<Longrightarrow> word_of y = Some wb
      \<Longrightarrow> \<exists>w. int_binary op wa wb = Some w \<and> word_of r = Some w"
  shows "step_agrees je args s1 s2 s cf rest vars (binary ins g s)"
proof -
  note D = situationD [OF sit]
  define n where "n = length (cg_types s1)"
  obtain x y op code where c: "read_call je a n = Some x" "read_call je b (n + 1) = Some y" "f CI32 = Some op"
      "dest_code je d (n + 3) (n + 2) = Some code"
      "cg_calls s2 = cg_calls s1 @ [x, y, BBinary (n + 2) op n (n + 1)] @ code" "same_control s1 s2"
    using emit_binop_code [OF assms(2) shape D(1)] unfolding n_def by blast
  have plain: "plain_operand a" "plain_operand b"
    using shape by (simp_all add: binop_shape_def)
  from binary_cases [OF shape D(5), of g] show ?thesis
  proof (elim disjE exE conjE)
    fix va vb r
    assume v: "plain_value (cf_frame cf) a = Some va" "plain_value (cf_frame cf) b = Some vb" "g va vb = Good r"
      and r: "binary ins g s = ROk AContinue (s\<lparr>vm_call_stack := with_slot d r cf # rest\<rparr>)"
    have "\<exists>vars'. runs_to ([x, y, BBinary (n + 2) op n (n + 1)] @ code) vars vars'
        \<and> slots_agree je (frame_set d r (cf_frame cf)) vars' \<and> vars_agree je args vars'"
      by (rule binop_runs [OF c(1,2) plain v(1,2) agrees [OF v(3) c(3)] c(4) D(2-4)])
    with c r show ?thesis
      by (intro step_agreesI) auto
  qed (auto simp: step_agrees_def)
qed

lemma cmp_step:
  assumes sit: "situation je s1 args s cf rest vars" and "emit_cmp je ins (cmp_cc op) s1 = Some ((), s2)"
    and shape: "binop_shape ins a b d"
  shows "step_agrees je args s1 s2 s cf rest vars (binary ins (compare_values op) s)"
proof -
  note D = situationD [OF sit]
  define n where "n = length (cg_types s1)"
  obtain x y code where c: "read_call je a n = Some x" "read_call je b (n + 1) = Some y"
      "dest_code je d (n + 4) (n + 3) = Some code"
      "cg_calls s2 = cg_calls s1 @ [x, y, BIcmp (n + 2) (cmp_cc op) n (n + 1), BUnary (n + 3) Uextend CI32 (n + 2)] @ code"
      "same_control s1 s2"
    using emit_cmp_code [OF assms(2) shape D(1)] unfolding n_def by blast
  have plain: "plain_operand a" "plain_operand b"
    using shape by (simp_all add: binop_shape_def)
  from binary_cases [OF shape D(5), of "compare_values op"] show ?thesis
  proof (elim disjE exE conjE)
    fix va vb r
    assume v: "plain_value (cf_frame cf) a = Some va" "plain_value (cf_frame cf) b = Some vb"
        "compare_values op va vb = Good r"
      and r: "binary ins (compare_values op) s = ROk AContinue (s\<lparr>vm_call_stack := with_slot d r cf # rest\<rparr>)"
    have "\<exists>vars'. runs_to ([x, y, BIcmp (n + 2) (cmp_cc op) n (n + 1), BUnary (n + 3) Uextend CI32 (n + 2)] @ code) vars vars'
        \<and> slots_agree je (frame_set d r (cf_frame cf)) vars' \<and> vars_agree je args vars'"
      by (rule cmp_runs [OF c(1,2) plain v(1,2) compare_agrees [OF v(3)] c(3) D(2-4)])
    with c r show ?thesis
      by (intro step_agreesI) auto
  qed (auto simp: step_agrees_def)
qed

lemma unop_step:
  assumes sit: "situation je s1 args s cf rest vars"
    and c: "read_call je a n = Some x" "plain_operand a" "dest_code je d m c = Some code" "m \<noteq> c"
      "cg_calls s2 = cg_calls s1 @ (x # seg) @ code" "same_control s1 s2"
    and agrees: "\<And>va r wa. g va = Good r \<Longrightarrow> word_of va = Some wa \<Longrightarrow> \<exists>w. word_of r = Some w
      \<and> (\<forall>vals. \<exists>vals'. vals' c = Some (V32 w)
        \<and> (\<forall>code rest. ir_run code (seg @ rest) (vals(n \<mapsto> V32 wa), vars) = ir_run code rest (vals', vars)))"
    and exec: "(\<exists>f. R = RErr f s) \<or> R = RPanic \<or> (\<exists>v r. plain_value (cf_frame cf) a = Some v \<and> g v = Good r
        \<and> R = ROk AContinue (s\<lparr>vm_call_stack := with_slot d r cf # rest\<rparr>))"
  shows "step_agrees je args s1 s2 s cf rest vars R"
  using exec
proof (elim disjE exE conjE)
  note D = situationD [OF sit]
  fix va r
  assume v: "plain_value (cf_frame cf) a = Some va" "g va = Good r"
    and r: "R = ROk AContinue (s\<lparr>vm_call_stack := with_slot d r cf # rest\<rparr>)"
  have "\<exists>vars'. runs_to ((x # seg) @ code) vars vars'
      \<and> slots_agree je (frame_set d r (cf_frame cf)) vars' \<and> vars_agree je args vars'"
    by (rule unop_runs [OF c(1,2) v(1) agrees [OF v(2)] c(3,4) D(2-4)])
  with c r show ?thesis
    by (intro step_agreesI) auto
qed (auto simp: step_agrees_def)

lemma neg_step:
  assumes "situation je s1 args s cf rest vars" "emit_neg je ins s1 = Some ((), s2)" "unop_shape ins a d"
  shows "step_agrees je args s1 s2 s cf rest vars (unary ins (\<lambda>a. arith_binary OpNeg a a) s)"
proof -
  note D = situationD [OF assms(1)]
  define n where "n = length (cg_types s1)"
  obtain x code where c: "read_call je a n = Some x" "dest_code je d (n + 3) (n + 2) = Some code"
      "cg_calls s2 = cg_calls s1 @ (x # [BIconst (n + 1) CI32 0, BBinary (n + 2) Isub (n + 1) n]) @ code"
      "same_control s1 s2"
    using emit_neg_code [OF assms(2,3) D(1)] unfolding n_def by auto
  show ?thesis
  proof (rule unop_step [OF assms(1) c(1) _ c(2) _ c(3,4) _ unary_cases [OF assms(3) D(5)]])
    fix va r wa
    assume "arith_binary OpNeg va va = Good r" "word_of va = Some wa"
    then have "word_of r = Some (0 - wa)"
      by (rule neg_agrees)
    then show "\<exists>w. word_of r = Some w \<and> (\<forall>vals. \<exists>vals'. vals' (n + 2) = Some (V32 w)
        \<and> (\<forall>code rest. ir_run code ([BIconst (n + 1) CI32 0, BBinary (n + 2) Isub (n + 1) n] @ rest)
            (vals(n \<mapsto> V32 wa), vars) = ir_run code rest (vals', vars)))"
      by (auto simp: ir_run_straight ir_set_def int_binary_def
          intro!: exI [of _ "vals(n \<mapsto> V32 wa, n + 1 \<mapsto> V32 0, n + 2 \<mapsto> V32 (0 - wa))" for vals])
  qed (use assms(3) in \<open>simp_all add: unop_shape_def\<close>)
qed

lemma ucast_ones: "(ucast (- 1 :: i64) :: i32) = - 1"
  by (rule bit_word_eqI) (simp add: bit_simps)

lemma not_step:
  assumes "situation je s1 args s cf rest vars" "emit_not je ins s1 = Some ((), s2)" "unop_shape ins a d"
  shows "step_agrees je args s1 s2 s cf rest vars (unary ins (\<lambda>a. bitwise_values OpNot a a) s)"
proof -
  note D = situationD [OF assms(1)]
  define n where "n = length (cg_types s1)"
  obtain x code where c: "read_call je a n = Some x" "dest_code je d (n + 3) (n + 2) = Some code"
      "cg_calls s2 = cg_calls s1 @ (x # [BIconst (n + 1) CI32 (- 1), BBinary (n + 2) Bxor n (n + 1)]) @ code"
      "same_control s1 s2"
    using emit_not_code [OF assms(2,3) D(1)] unfolding n_def by auto
  show ?thesis
  proof (rule unop_step [OF assms(1) c(1) _ c(2) _ c(3,4) _ unary_cases [OF assms(3) D(5)]])
    fix va r wa
    assume "bitwise_values OpNot va va = Good r" "word_of va = Some wa"
    then have "word_of r = Some (xor wa (- 1))"
      by (rule not_agrees)
    then show "\<exists>w. word_of r = Some w \<and> (\<forall>vals. \<exists>vals'. vals' (n + 2) = Some (V32 w)
        \<and> (\<forall>code rest. ir_run code ([BIconst (n + 1) CI32 (- 1), BBinary (n + 2) Bxor n (n + 1)] @ rest)
            (vals(n \<mapsto> V32 wa), vars) = ir_run code rest (vals', vars)))"
      by (auto simp: ir_run_straight ir_set_def int_binary_def ucast_ones
          intro!: exI [of _ "vals(n \<mapsto> V32 wa, n + 1 \<mapsto> V32 (- 1), n + 2 \<mapsto> V32 (xor wa (- 1)))" for vals])
  qed (use assms(3) in \<open>simp_all add: unop_shape_def\<close>)
qed

lemma mov_step:
  assumes "situation je s1 args s cf rest vars" "unop_shape ins a d"
    and "cg_bind (read_at je ins 0) (write_at je ins 1) s1 = Some ((), s2)"
  shows "step_agrees je args s1 s2 s cf rest vars (unary ins Good s)"
proof -
  note D = situationD [OF assms(1)]
  define n where "n = length (cg_types s1)"
  obtain x code where c: "read_call je a n = Some x" "dest_code je d (n + 1) n = Some code"
      "cg_calls s2 = cg_calls s1 @ (x # []) @ code" "same_control s1 s2"
    using emit_mov_code [OF assms(3,2) D(1)] unfolding n_def by auto
  show ?thesis
  proof (rule unop_step [OF assms(1) c(1) _ c(2) _ c(3,4) _ unary_cases [OF assms(2) D(5)]])
    fix va r wa
    assume "Good va = Good r" "word_of va = Some wa"
    then show "\<exists>w. word_of r = Some w \<and> (\<forall>vals. \<exists>vals'. vals' n = Some (V32 w)
        \<and> (\<forall>code rest. ir_run code ([] @ rest) (vals(n \<mapsto> V32 wa), vars) = ir_run code rest (vals', vars)))"
      by (auto intro!: exI [of _ "vals(n \<mapsto> V32 wa)" for vals])
  qed (use assms(2) in \<open>simp_all add: unop_shape_def\<close>)
qed

end
