(* ===== verification/Fasm_Simulation.thy ===== *)
theory Fasm_Simulation
  imports Fasm_Agreement
begin

text \<open>
  The remaining instructions of the integer fragment, and the simulation of whole functions: a run
  of the interpreter and a run of the builder's code pass the same instructions.
\<close>

subsection \<open>The other instructions\<close>

lemma runs_to_Nil [simp]: "runs_to [] vars vars"
  by (auto simp: runs_to_def)

text \<open>An instruction without code.\<close>

lemma silent_step:
  assumes "situation je s1 args s cf rest vars" "same_place cf cf'"
    and "\<And>i v. frame_get i (cf_frame cf') = Some v \<Longrightarrow> frame_get i (cf_frame cf) = Some v"
  shows "step_agrees je args s1 s1 s cf rest vars (ROk AContinue (s\<lparr>vm_call_stack := cf' # rest\<rparr>))"
proof (rule step_agreesI [OF refl assms(2), of _ _ "[]"])
  note D = situationD [OF assms(1)]
  have "slots_agree je (cf_frame cf') vars"
    using D(3) assms(3) unfolding slots_agree_def by blast
  with D(4) show "\<exists>vars'. runs_to [] vars vars' \<and> slots_agree je (cf_frame cf') vars' \<and> vars_agree je args vars'"
    using runs_to_Nil by blast
qed simp_all

lemma same_place_unchanged [simp]:
  "same_place cf cf" "same_place cf (cf\<lparr>cf_tmp_frames := t\<rparr>)" "same_place cf (cf\<lparr>cf_frame := fr\<rparr>)"
  by (simp_all add: same_place_def)

lemma mem_step:
  assumes sit: "situation je s1 args s cf rest vars" and "straight_instr ins" "opcode ins = OMem op"
  shows "step_agrees je args s1 s1 s cf rest vars (exec_mem op ins s)"
proof -
  note D = situationD [OF sit]
  have stack: "s\<lparr>vm_call_stack := cf # rest\<rparr> = s"
    using D(5) by (cases s) simp
  show ?thesis
  proof (cases op)
    case OpTmpBlock
    show ?thesis
      using silent_step [OF sit, of "cf\<lparr>cf_tmp_frames := tmp_new # cf_tmp_frames cf\<rparr>"] D(5) OpTmpBlock
      by (simp add: then_continue_def vm_bind_def modify_top_def vm_return_def)
  next
    case OpEndTmp
    show ?thesis
    proof (cases "cf_tmp_frames cf")
      case Nil
      then show ?thesis
        using D(5) OpEndTmp by (simp add: step_agrees_def vm_bind_def top_def vm_fail_def vm_return_def)
    next
      case (Cons t ts)
      then show ?thesis
        using silent_step [OF sit, of "cf\<lparr>cf_tmp_frames := ts\<rparr>"] D(5) OpEndTmp
        by (simp add: then_continue_def vm_bind_def top_def modify_top_def vm_return_def)
    qed
  next
    case OpReserve
    then show ?thesis
      using assms(2,3) by (simp add: straight_instr_def)
  next
    case OpRelease
    then obtain d where d: "operand_at ins 0 = Some (OpdSlot (SlLocal d))"
      using assms(2,3) by (auto simp: straight_instr_def operand_at_def nth_opt_def
          split: list.splits operand.splits slot_ref.splits)
    have "step_agrees je args s1 s1 s cf rest vars
      (ROk AContinue (s\<lparr>vm_call_stack := cf\<lparr>cf_frame := frame_remove d (cf_frame cf)\<rparr> # rest\<rparr>))"
      by (rule silent_step [OF sit]) (auto simp: frame_store.get_remove split: if_splits)
    then show ?thesis
      using D(5) d OpRelease by (simp add: then_continue_def vm_bind_def get_op_at release_operand_def vm_return_def)
  qed
qed

lemma nop_step:
  assumes "situation je s1 args s cf rest vars"
  shows "step_agrees je args s1 s1 s cf rest vars (ROk AContinue s)"
proof -
  have "s\<lparr>vm_call_stack := cf # rest\<rparr> = s"
    using situationD(5) [OF assms] by (cases s) simp
  then show ?thesis
    using silent_step [OF assms, of cf] by simp
qed

lemma exec_mov_unary: "exec_move OpMov ins = unary ins Good"
  by (simp add: unary_def vm_lift_def vm_bind_def vm_return_def fun_eq_iff)

text \<open>STORE only takes an immediate, which reads the same for every hint.\<close>

lemma imm_to_cv_read:
  assumes "plain_operand op" "cg_bind (imm_to_cv t op) k s = Some r"
  shows "imm_to_cv t op = read_op je op"
  using assms by (cases op rule: plain_operand.cases) (auto simp: imm_to_cv_def read_op_def cg_bind_eq)

lemma store_step:
  assumes "situation je s1 args s cf rest vars" "unop_shape ins a d"
    and "cg_bind (cg_bind (operand_of ins 0) (imm_to_cv (je_ret_type je))) (write_at je ins 1) s1 = Some ((), s2)"
  shows "step_agrees je args s1 s2 s cf rest vars (exec_move OpStore ins s)"
proof -
  note D = situationD [OF assms(1)]
  have shape: "operand_at ins 0 = Some a" "plain_operand a"
    using assms(2) by (simp_all add: unop_shape_def)
  have "cg_bind (imm_to_cv (je_ret_type je) a) (write_at je ins 1) s1 = Some ((), s2)"
    using assms(3) shape(1) by (simp add: cg_bind_eq operand_of_def)
  note same = imm_to_cv_read [OF shape(2) this, of je]
  have code: "cg_bind (read_at je ins 0) (write_at je ins 1) s1 = Some ((), s2)"
    using assms(3) shape(1) by (simp add: read_at_def operand_of_def cg_bind_eq same)
  have "exec_move OpStore ins s = unary ins Good s"
    unfolding exec_mov_unary [symmetric] using shape D(5) by (cases a rule: plain_operand.cases)
      (auto simp: vm_bind_def get_op_at imm_operand_def read_operand_def read_val_def)
  with mov_step [OF assms(1,2) code] show ?thesis
    by (simp only:)
qed

definition cast_shape :: "instruction \<Rightarrow> operand \<Rightarrow> u8 \<Rightarrow> bool" where
  "cast_shape ins a d \<longleftrightarrow> operand_at ins 0 = Some a \<and> operand_at ins 1 = Some (OpdType TyInt32)
     \<and> operand_at ins 2 = Some (OpdSlot (SlLocal d)) \<and> plain_operand a"

lemma cast_step:
  assumes "situation je s1 args s cf rest vars" "emit_cast je ins s1 = Some ((), s2)" "cast_shape ins a d"
  shows "step_agrees je args s1 s2 s cf rest vars (exec_cast ins s)"
proof -
  note D = situationD [OF assms(1)]
  have shape: "operand_at ins 0 = Some a" "operand_at ins 1 = Some (OpdType TyInt32)"
      "operand_at ins 2 = Some (OpdSlot (SlLocal d))" "plain_operand a"
    using assms(3) by (simp_all add: cast_shape_def)
  define n where "n = length (cg_types s1)"
  obtain x where x: "read_call je a n = Some x" and w: "write_at je ins 2 n (push_val CI32 x s1) = Some ((), s2)"
    using assms(2) shape D(1) by (auto simp: emit_cast_def read_plain n_def jit_type_of_def coerce_same nth_append
        split: option.splits)
  obtain code where c: "dest_code je d (n + 1) n = Some code" "cg_calls s2 = cg_calls s1 @ (x # []) @ code"
      "same_control s1 s2"
    using write_dest [OF w shape(3)] D(1) by (auto simp: n_def nth_append eval_nat_numeral)
  have written: "then_continue (write_val ins 2 r) s = ROk AContinue (s\<lparr>vm_call_stack := with_slot d r cf # rest\<rparr>)" for r
    using shape(3) D(5) by (simp add: then_continue_def vm_bind_def write_val_local vm_return_def)
  have exec: "(\<exists>f. exec_cast ins s = RErr f s) \<or> exec_cast ins s = RPanic
    \<or> (\<exists>v r. plain_value (cf_frame cf) a = Some v \<and> cast_value v TyInt32 = Good r
        \<and> exec_cast ins s = ROk AContinue (s\<lparr>vm_call_stack := with_slot d r cf # rest\<rparr>))"
    using shape D(5) written by (auto simp: exec_cast_def vm_bind_def read_val_plain get_op_at vm_lift_def vm_return_def
        vm_fail_def vm_panic_def split: option.split outcome.split)
  show ?thesis
  proof (rule unop_step [OF assms(1) x shape(4) c(1) _ c(2,3) _ exec])
    fix va r wa
    assume "cast_value va TyInt32 = Good r" "word_of va = Some wa"
    then show "\<exists>w. word_of r = Some w \<and> (\<forall>vals. \<exists>vals'. vals' n = Some (V32 w)
        \<and> (\<forall>code rest. ir_run code ([] @ rest) (vals(n \<mapsto> V32 wa), vars) = ir_run code rest (vals', vars)))"
      by (auto dest: cast_agrees intro!: exI [of _ "vals(n \<mapsto> V32 wa)" for vals])
  qed simp
qed

definition field_shape :: "instruction \<Rightarrow> u32 \<Rightarrow> u8 \<Rightarrow> bool" where
  "field_shape ins k d \<longleftrightarrow> operand_at ins 0 = Some (OpdSlot (SlBuiltIn BiArgs)) \<and> operand_at ins 1 = Some (OpdKey k)
     \<and> operand_at ins 2 = Some (OpdSlot (SlLocal d))"

lemma field_step:
  assumes "situation je s1 args s cf rest vars" "emit_get_field je ins s1 = Some ((), s2)" "field_shape ins k d"
  shows "step_agrees je args s1 s2 s cf rest vars (exec_coll OpGetField ins s)"
proof -
  note D = situationD [OF assms(1)]
  have shape: "operand_at ins 0 = Some (OpdSlot (SlBuiltIn BiArgs))" "operand_at ins 1 = Some (OpdKey k)"
      "operand_at ins 2 = Some (OpdSlot (SlLocal d))"
    using assms(3) by (simp_all add: field_shape_def)
  define n where "n = length (cg_types s1)"
  obtain pv where pv: "sparse_get (je_param_vars je) k = Some pv"
    and w: "write_at je ins 2 n (push_val (cg_vars s1 ! pv) (BUseVar n pv) s1) = Some ((), s2)"
    using assms(2) shape by (cases "sparse_get (je_param_vars je) k") (auto simp: emit_get_field_def n_def)
  have ty: "cg_vars s1 ! pv = CI32"
    using D(1) pv by (auto simp: int_vars_def)
  obtain code where c: "dest_code je d (n + 1) n = Some code" "cg_calls s2 = cg_calls s1 @ [BUseVar n pv] @ code"
      "same_control s1 s2"
    using write_dest [OF w shape(3)] D(1) ty by (auto simp: n_def nth_append)
  obtain v x where v: "struct_get args k = Some v" "word_of v = Some x" "vars pv = Some (V32 x)"
    using D(4) pv by (rule vars_agree_param)
  have exec: "exec_coll OpGetField ins s = ROk AContinue (s\<lparr>vm_call_stack := with_slot d v cf # rest\<rparr>)"
    using shape D(5,6) v(1) by (simp add: keyed_query_def key_operand_def vm_bind_def get_op_at read_key_operand_def
        read_val_def read_operand_def read_slot_def top_def vm_return_def vm_lift_def vm_ok_or_def field_get_def ok_or_def
        then_continue_def write_val_local)
  have "\<exists>vars'. runs_to ([BUseVar n pv] @ code) vars vars'
      \<and> slots_agree je (frame_set d v (cf_frame cf)) vars' \<and> vars_agree je args vars'"
  proof (rule dest_agrees [OF c(1) _ v(2) _ D(2-4)])
    fix vals
    show "\<exists>vals'. (\<forall>code rest. ir_run code ([BUseVar n pv] @ rest) (vals, vars) = ir_run code rest (vals', vars))
        \<and> vals' n = Some (V32 x)"
      by (intro exI [of _ "vals(n \<mapsto> V32 x)"]) (simp add: ir_run_straight ir_set_def v(3))
  qed simp
  with exec c show ?thesis
    by (intro step_agreesI) auto
qed

lemma field_shapeE:
  assumes "field_form ins"
  obtains k d where "field_shape ins k d"
  using assms by (auto simp: field_form_def field_shape_def operand_at_def nth_opt_def
      split: list.splits operand.splits slot_ref.splits built_in.splits)

lemma cast_shapeE:
  assumes "cast_form (operands ins)"
  obtains a d where "cast_shape ins a d"
  using assms by (cases "operands ins" rule: cast_form.cases) (auto simp: cast_shape_def operand_at_def nth_opt_def)

lemma straight_agrees:
  assumes sit: "situation je s1 args s cf rest vars" and straight: "straight_instr ins"
    and code: "compile_instr je ip ins s1 = Some ((), s2)"
  shows "step_agrees je args s1 s2 s cf rest vars (execute_instruction e ins s)"
proof (cases "opcode ins")
  case (OMem op)
  with code mem_step [OF sit straight OMem] show ?thesis
    by (simp add: compile_instr_def execute_instruction_def)
next
  case (OMove op)
  then obtain a d where "unop_shape ins a d" "op \<noteq> OpAddr"
    using straight by (auto simp: straight_instr_def elim: unary_shapeE)
  then show ?thesis
    using code OMove mov_step [OF sit, of ins a d s2] store_step [OF sit, of ins a d s2]
    by (cases op) (auto simp: compile_instr_def execute_instruction_def exec_mov_unary simp del: exec_move.simps)
next
  case (OArith op)
  show ?thesis
  proof (cases "op = OpNeg")
    case True
    then obtain a d where "unop_shape ins a d"
      using straight OArith by (auto simp: straight_instr_def elim: unary_shapeE)
    with neg_step [OF sit] show ?thesis
      using code OArith True by (simp add: compile_instr_def execute_instruction_def exec_arith_def)
  next
    case False
    then obtain a b d where "binop_shape ins a b d" "op \<noteq> OpDiv"
      using straight OArith by (auto simp: straight_instr_def elim: binary_shapeE)
    with binop_step [OF sit, of ins "arith_ins op" s2 a b d "arith_binary op"] arith_agrees show ?thesis
      using code OArith False by (auto simp: compile_instr_def execute_instruction_def exec_arith_def)
  qed
next
  case (OCmp op)
  then obtain a b d where "binop_shape ins a b d"
    using straight by (auto simp: straight_instr_def elim: binary_shapeE)
  with cmp_step [OF sit] show ?thesis
    using code OCmp by (simp add: compile_instr_def execute_instruction_def exec_cmp_def)
next
  case (OBitwise op)
  show ?thesis
  proof (cases "op = OpNot")
    case True
    then obtain a d where "unop_shape ins a d"
      using straight OBitwise by (auto simp: straight_instr_def elim: unary_shapeE)
    with not_step [OF sit] show ?thesis
      using code OBitwise True by (simp add: compile_instr_def execute_instruction_def exec_bitwise_def)
  next
    case False
    then obtain a b d where "binop_shape ins a b d"
      using straight OBitwise by (auto simp: straight_instr_def elim: binary_shapeE)
    with binop_step [OF sit, of ins "\<lambda>_. bitwise_ins op" s2 a b d "bitwise_values op"] bitwise_agrees show ?thesis
      using code OBitwise False by (auto simp: compile_instr_def execute_instruction_def exec_bitwise_def)
  qed
next
  case (OFlow op)
  with straight code nop_step [OF sit] show ?thesis
    by (simp add: straight_instr_def compile_instr_def execute_instruction_def vm_return_def)
next
  case (OColl op)
  then obtain k d where "op = OpGetField" "field_shape ins k d"
    using straight by (auto simp: straight_instr_def elim: field_shapeE)
  with field_step [OF sit] show ?thesis
    using code OColl by (simp add: compile_instr_def execute_instruction_def del: exec_coll.simps)
next
  case OCast
  then obtain a d where "cast_shape ins a d"
    using straight by (auto simp: straight_instr_def elim: cast_shapeE)
  with cast_step [OF sit] show ?thesis
    using code OCast by (simp add: compile_instr_def execute_instruction_def)
qed (use straight in \<open>simp_all add: straight_instr_def\<close>)

subsection \<open>Compiling an instruction only adds code\<close>

text \<open>The block stays the same; with the flag, it also stays open.\<close>

definition appends :: "bool \<Rightarrow> 'a cg \<Rightarrow> bool" where
  "appends p m \<longleftrightarrow> (\<forall>s x s'. m s = Some (x, s') \<longrightarrow> cg_vars s' = cg_vars s \<and> cg_current s' = cg_current s
     \<and> (p \<longrightarrow> cg_terminated s' = cg_terminated s)
     \<and> (\<exists>seg. cg_calls s' = cg_calls s @ seg \<and> (\<forall>b. BSwitch b \<notin> set seg)))"

lemma appendsD:
  assumes "appends p m" "m s = Some (x, s')"
  shows "cg_vars s' = cg_vars s \<and> cg_current s' = cg_current s
    \<and> (p \<longrightarrow> cg_terminated s' = cg_terminated s) \<and> (\<exists>seg. cg_calls s' = cg_calls s @ seg \<and> (\<forall>b. BSwitch b \<notin> set seg))"
  using assms unfolding appends_def by blast

lemma appends_same:
  assumes "\<And>s x s'. m s = Some (x, s') \<Longrightarrow> cg_vars s' = cg_vars s \<and> cg_current s' = cg_current s
    \<and> (p \<longrightarrow> cg_terminated s' = cg_terminated s) \<and> cg_calls s' = cg_calls s"
  shows "appends p m"
  using assms unfolding appends_def by fastforce

lemma appends_call:
  assumes "\<And>s x s'. m s = Some (x, s') \<Longrightarrow> cg_vars s' = cg_vars s \<and> cg_current s' = cg_current s
    \<and> (p \<longrightarrow> cg_terminated s' = cg_terminated s) \<and> (\<exists>c. cg_calls s' = cg_calls s @ [c] \<and> (\<forall>b. c \<noteq> BSwitch b))"
  shows "appends p m"
  using assms unfolding appends_def by fastforce

lemma appends_bind [intro!]:
  assumes "appends p m" "\<And>x. appends p (k x)"
  shows "appends p (cg_bind m k)"
  unfolding appends_def
proof (intro allI impI)
  fix s x s'
  assume "cg_bind m k s = Some (x, s')"
  then obtain y t where t: "m s = Some (y, t)" "k y t = Some (x, s')"
    by (auto simp: cg_bind_eq split: option.splits)
  obtain seg seg' where "cg_calls t = cg_calls s @ seg" "\<forall>b. BSwitch b \<notin> set seg"
      "cg_calls s' = cg_calls t @ seg'" "\<forall>b. BSwitch b \<notin> set seg'"
    using appendsD [OF assms(1) t(1)] appendsD [OF assms(2) t(2)] by blast
  then show "cg_vars s' = cg_vars s \<and> cg_current s' = cg_current s
      \<and> (p \<longrightarrow> cg_terminated s' = cg_terminated s) \<and> (\<exists>seg. cg_calls s' = cg_calls s @ seg \<and> (\<forall>b. BSwitch b \<notin> set seg))"
    using appendsD [OF assms(1) t(1)] appendsD [OF assms(2) t(2)] by (intro conjI exI [of _ "seg @ seg'"]) auto
qed

lemma appends_basic [simp, intro!]:
  "appends p (cg_return x)" "appends p (cg_try y)" "appends p (value_type c)" "appends p (use_var v)" "appends p (def_var v c)"
  "appends p (iconst t n)" "appends p (ins_unary u t c)" "appends p (ins_binary b c d)" "appends p (icmp cc c d)"
  by (rule appends_same appends_call; auto simp: cg_return_def cg_try_def value_type_def push_val_def push_call_to_def)+

lemma appends_new [simp]: "(\<And>n b. c n \<noteq> BSwitch b) \<Longrightarrow> appends p (new_value t c)"
  by (rule appends_call) (auto simp: push_val_def)

lemma appends_end [simp]: "(\<And>b. c \<noteq> BSwitch b) \<Longrightarrow> appends False (end_block c)"
  by (rule appends_call) (auto simp: end_block_def cg_bind_eq push_call_to_def)

lemma appends_zero [simp]: "appends p (zero_val jt)"
  by (cases jt) (simp_all add: zero_val_def)

lemma appends_coerce [simp]: "appends p (coerce_to c t)"
  by (auto simp: coerce_to_def split: option.split)

lemma appends_imm [simp]: "appends p (imm_to_cv jt op)"
  by (auto simp: imm_to_cv_def split: operand.split immediate.split)

lemma appends_read_op [simp]: "appends p (read_op je op)"
  by (auto simp: read_op_def split: operand.split slot_ref.split built_in.split)

lemma appends_write_op [simp]: "appends p (write_op je op c)"
  by (auto simp: write_op_def split: operand.split slot_ref.split built_in.split)

lemma appends_operands [simp]: "appends p (operand_of ins n)" "appends p (read_at je ins n)" "appends p (write_at je ins n c)"
  by (auto simp: operand_of_def read_at_def write_at_def)

lemma appends_def_params [simp]: "appends p (def_params je vals)"
  by (induction je vals rule: def_params.induct) (auto simp del: emit_simps)

lemma appends_ops [simp]:
  "appends p (emit_binop je ins f)" "appends p (emit_cmp je ins cc)" "appends p (emit_neg je ins)" "appends p (emit_not je ins)"
  "appends p (emit_cast je ins)" "appends p (emit_get_field je ins)"
  "appends False (emit_branch je ip ins cc)" "appends False (emit_jmp je ins)" "appends False (emit_ret je ins)"
  by (auto simp: emit_binop_def emit_cmp_def emit_neg_def emit_not_def emit_cast_def emit_branch_def compare_with_zero_def
      emit_jmp_def emit_get_field_def emit_ret_def split: option.split operand.split)

lemma appends_set_field [simp]: "appends p (emit_set_field je ins)"
proof -
  have "appends p (\<lambda>s. Some ((), s\<lparr>cg_setfields := sparse_insert k v (cg_setfields s)\<rparr>))" for k v
    by (rule appends_same) auto
  then show ?thesis
    by (auto simp: emit_set_field_def split: option.split operand.split slot_ref.split)
qed

lemma appends_tail [simp]: "appends False (emit_tail_call je ins)"
proof -
  have "appends False (\<lambda>s. map_option (\<lambda>vals. (vals, s)) (set_fields_of (cg_setfields s) slot ps))" for slot ps
    by (rule appends_same) auto
  then show ?thesis
    by (auto simp: emit_tail_call_def split: option.split operand.split slot_ref.split)
qed

text \<open>The instructions that end a block.\<close>

definition ends_block :: "instruction \<Rightarrow> bool" where
  "ends_block ins = (case opcode ins of
      OFlow op \<Rightarrow> op \<in> {OpJmp, OpJz, OpJnz, OpTailCall, OpRet, OpHalt} | _ \<Rightarrow> False)"

lemma appends_open: "appends True m \<Longrightarrow> appends p m"
  unfolding appends_def by blast

lemma appends_instr: "appends (\<not> ends_block ins) (compile_instr je ip ins)"
  by (auto simp: compile_instr_def ends_block_def split: opcode.split move_op.split flow_op.split coll_op.split)

end
