(* ===== verification/Fasm_Fragment.thy ===== *)
theory Fasm_Fragment
  imports Fasm_Simulation
begin

text \<open>
  From instructions to functions: where the blocks of a compiled body lie in the code, and the
  simulation of a run of the interpreter by a run of the code.
\<close>

subsection \<open>The states of the generator\<close>

definition enter :: "jit_env \<Rightarrow> nat \<Rightarrow> codegen \<Rightarrow> codegen" where
  "enter je ip s = snd (the (enter_block je ip s))"

lemma enter_block_enter: "enter_block je ip s = Some ((), enter je ip s)"
  by (auto simp: enter_def enter_block_def split: option.split)

lemma enter_cases:
  obtains "enter je ip s = s" "sparse_get (je_block_of je) ip = None \<or> sparse_get (je_block_of je) ip = Some (cg_current s)"
  | blk where "sparse_get (je_block_of je) ip = Some blk" "blk \<noteq> cg_current s"
    "enter je ip s = s\<lparr>cg_calls := cg_calls s @ (if cg_terminated s then [] else [BJump blk]) @ [BSwitch blk],
       cg_terminated := False, cg_current := blk\<rparr>"
  by (cases "sparse_get (je_block_of je) ip") (auto simp: enter_def enter_block_def)

text \<open>State \<open>f k\<close> is the one in which instruction \<open>k\<close> is compiled.\<close>

definition laid_out :: "jit_env \<Rightarrow> instruction list \<Rightarrow> (nat \<Rightarrow> codegen) \<Rightarrow> bool" where
  "laid_out je inss f \<longleftrightarrow> (\<forall>k<length inss. \<exists>s2. compile_instr je (k + 1) (inss ! k) (f k) = Some ((), s2)
     \<and> f (k + 1) = enter je (k + 1) s2)"

lemma compile_body_states:
  assumes "compile_body je ip inss s = Some (u, t)"
  shows "\<exists>f. f 0 = enter je ip s \<and> f (length inss) = t
    \<and> (\<forall>k<length inss. \<exists>s2. compile_instr je (ip + k + 1) (inss ! k) (f k) = Some ((), s2)
        \<and> f (k + 1) = enter je (ip + k + 1) s2)"
  using assms
proof (induction inss arbitrary: ip s)
  case Nil
  then show ?case
    by (auto simp: enter_block_enter intro!: exI [of _ "\<lambda>_. t"])
next
  case (Cons ins inss)
  then obtain s2 where s2: "compile_instr je (ip + 1) ins (enter je ip s) = Some ((), s2)"
      "compile_body je (ip + 1) inss s2 = Some (u, t)"
    by (auto simp: cg_bind_eq enter_block_enter split: option.splits)
  obtain f where f: "f 0 = enter je (ip + 1) s2" "f (length inss) = t"
      "\<And>k. k < length inss \<Longrightarrow> \<exists>s2. compile_instr je (ip + 1 + k + 1) (inss ! k) (f k) = Some ((), s2)
        \<and> f (k + 1) = enter je (ip + 1 + k + 1) s2"
    using Cons.IH [OF s2(2)] by blast
  show ?case
  proof (intro exI [of _ "case_nat (enter je ip s) f"] conjI allI impI)
    fix k
    assume "k < length (ins # inss)"
    then show "\<exists>s2. compile_instr je (ip + k + 1) ((ins # inss) ! k) (case_nat (enter je ip s) f k) = Some ((), s2)
        \<and> case_nat (enter je ip s) f (k + 1) = enter je (ip + k + 1) s2"
      using f(3) [of "k - 1"] s2(1) f(1) by (cases k) auto
  qed (simp_all add: f(2))
qed

text \<open>What the numbering of the blocks gives.\<close>

definition blocks_ok :: "jit_env \<Rightarrow> instruction list \<Rightarrow> bool" where
  "blocks_ok je inss \<longleftrightarrow> sparse_get (je_block_of je) 0 = Some loop_blk
     \<and> (\<forall>i j b. sparse_get (je_block_of je) i = Some b \<longrightarrow> sparse_get (je_block_of je) j = Some b \<longrightarrow> i = j)
     \<and> (\<forall>i. sparse_get (je_block_of je) i \<noteq> Some entry_blk)
     \<and> (\<forall>k<length inss. ends_block (inss ! k) \<longrightarrow> sparse_get (je_block_of je) (k + 1) \<noteq> None)"

lemma blocks_okD:
  assumes "blocks_ok je inss"
  shows "sparse_get (je_block_of je) 0 = Some loop_blk"
    "\<And>i j b. sparse_get (je_block_of je) i = Some b \<Longrightarrow> sparse_get (je_block_of je) j = Some b \<Longrightarrow> i = j"
    "\<And>i. sparse_get (je_block_of je) i \<noteq> Some entry_blk"
    "\<And>k. k < length inss \<Longrightarrow> ends_block (inss ! k) \<Longrightarrow> \<exists>b. sparse_get (je_block_of je) (k + 1) = Some b"
  using assms unfolding blocks_ok_def by blast+

definition begins :: "codegen \<Rightarrow> bool" where
  "begins s \<longleftrightarrow> cg_current s = loop_blk \<and> \<not> cg_terminated s
     \<and> (\<exists>pre. cg_calls s = pre @ [BSwitch loop_blk] \<and> (\<forall>b. BSwitch b \<in> set pre \<longrightarrow> b = entry_blk))"

text \<open>State \<open>s\<close> is at position \<open>k\<close>.\<close>

definition at_position :: "jit_env \<Rightarrow> ir_type list \<Rightarrow> nat \<Rightarrow> codegen \<Rightarrow> bool" where
  "at_position je vs k s \<longleftrightarrow> cg_vars s = vs \<and> \<not> cg_terminated s
     \<and> (\<exists>j\<le>k. sparse_get (je_block_of je) j = Some (cg_current s))
     \<and> (\<forall>b. BSwitch b \<in> set (cg_calls s) \<longrightarrow> b = entry_blk \<or> (\<exists>j\<le>k. sparse_get (je_block_of je) j = Some b))
     \<and> (\<forall>b. sparse_get (je_block_of je) k = Some b \<longrightarrow> (\<exists>pre. cg_calls s = pre @ [BSwitch b] \<and> BSwitch b \<notin> set pre))"

lemma at_position_step:
  assumes ok: "blocks_ok je inss" and k: "k < length inss" and at: "at_position je vs k s"
    and ins: "compile_instr je ip (inss ! k) s = Some ((), s2)"
  shows "at_position je vs (k + 1) (enter je (k + 1) s2)
    \<and> (\<exists>seg. cg_calls (enter je (k + 1) s2) = cg_calls s @ seg)"
proof -
  note B = blocks_okD [OF ok]
  obtain seg where A: "cg_vars s2 = cg_vars s" "cg_current s2 = cg_current s"
      "\<not> ends_block (inss ! k) \<Longrightarrow> cg_terminated s2 = cg_terminated s"
      "cg_calls s2 = cg_calls s @ seg" "\<And>b. BSwitch b \<notin> set seg"
    using appendsD [OF appends_instr ins] by blast
  obtain j where j: "j \<le> k" "sparse_get (je_block_of je) j = Some (cg_current s)"
    using at by (auto simp: at_position_def)
  have sw: "b = entry_blk \<or> (\<exists>j\<le>k. sparse_get (je_block_of je) j = Some b)" if "BSwitch b \<in> set (cg_calls s2)" for b
    using at A(4,5) that by (auto simp: at_position_def)
  have later: "\<forall>b. BSwitch b \<in> set (cg_calls s2) \<longrightarrow>
      b = entry_blk \<or> (\<exists>j\<le>k + 1. sparse_get (je_block_of je) j = Some b)"
    using sw by (meson le_add1 order_trans)
  have sw': "BSwitch b \<notin> set (cg_calls s2)" if "sparse_get (je_block_of je) (k + 1) = Some b" for b
    using sw [of b] B(3) B(2) [OF that] that by fastforce
  show ?thesis
  proof (cases rule: enter_cases [of je "k + 1" s2])
    case 1
    have none: "sparse_get (je_block_of je) (k + 1) = None"
      using 1(2) B(2) [OF j(2), of "k + 1"] j(1) A(2) by auto
    then have "\<not> ends_block (inss ! k)"
      using B(4) [OF k] by auto
    then have "cg_vars s2 = vs" "\<not> cg_terminated s2"
      using at A(1,3) by (simp_all add: at_position_def)
    moreover have "\<exists>j\<le>k + 1. sparse_get (je_block_of je) j = Some (cg_current s2)"
      using j A(2) by (intro exI [of _ j]) simp
    ultimately have "at_position je vs (k + 1) s2"
      using none later by (simp add: at_position_def)
    with 1(1) A(4) show ?thesis
      by simp
  next
    case (2 blk)
    have "\<exists>pre. cg_calls (enter je (k + 1) s2) = pre @ [BSwitch blk] \<and> BSwitch blk \<notin> set pre"
      unfolding 2(3) using sw' [OF 2(1)]
      by (intro exI [of _ "cg_calls s2 @ (if cg_terminated s2 then [] else [BJump blk])"]) simp
    moreover have "\<exists>j\<le>k + 1. sparse_get (je_block_of je) j = Some blk"
      using 2(1) by (intro exI [of _ "k + 1"]) simp
    moreover have "cg_vars s2 = vs"
      using at A(1) by (simp add: at_position_def)
    ultimately have "at_position je vs (k + 1) (enter je (k + 1) s2)"
      using 2 later by (auto simp: at_position_def)
    with 2(3) A(4) show ?thesis
      by simp
  qed
qed

lemma laid_out_positions:
  assumes "blocks_ok je inss" "begins (f 0)" "laid_out je inss f" "k \<le> length inss"
  shows "at_position je (cg_vars (f 0)) k (f k)"
  using assms(4)
proof (induction k)
  case 0
  obtain pre where "cg_calls (f 0) = pre @ [BSwitch loop_blk]" "\<forall>b. BSwitch b \<in> set pre \<longrightarrow> b = entry_blk"
    using assms(2) by (auto simp: begins_def)
  moreover have "loop_blk \<noteq> entry_blk"
    by (simp add: loop_blk_def entry_blk_def)
  ultimately show ?case
    using assms(2) blocks_okD(1) [OF assms(1)] unfolding at_position_def begins_def by fastforce
next
  case (Suc k)
  then show ?case
    using assms(3) at_position_step [OF assms(1), of k "cg_vars (f 0)" "f k" "k + 1"]
    by (auto simp: laid_out_def Suc_le_eq)
qed

lemma laid_out_prefix:
  assumes "blocks_ok je inss" "begins (f 0)" "laid_out je inss f" "j \<le> k" "k \<le> length inss"
  shows "\<exists>seg. cg_calls (f k) = cg_calls (f j) @ seg"
  using assms(4,5)
proof (induction k rule: dec_induct)
  case (step k)
  then obtain s2 where s2: "compile_instr je (k + 1) (inss ! k) (f k) = Some ((), s2)" "f (k + 1) = enter je (k + 1) s2"
    using assms(3) by (auto simp: laid_out_def Suc_le_eq)
  have at: "at_position je (cg_vars (f 0)) k (f k)"
    using laid_out_positions [OF assms(1-3)] step.prems by simp
  show ?case
    using at_position_step [OF assms(1) _ at s2(1)] step s2(2) by (fastforce simp: Suc_le_eq)
qed simp

subsection \<open>The code from a position on\<close>

definition code_from :: "(nat \<Rightarrow> codegen) \<Rightarrow> builder_call list \<Rightarrow> nat \<Rightarrow> builder_call list" where
  "code_from f code k = drop (length (cg_calls (f k))) code"

definition whole :: "jit_env \<Rightarrow> instruction list \<Rightarrow> (nat \<Rightarrow> codegen) \<Rightarrow> builder_call list \<Rightarrow> bool" where
  "whole je inss f code \<longleftrightarrow> blocks_ok je inss \<and> begins (f 0) \<and> laid_out je inss f
     \<and> (\<exists>rest. code = cg_calls (f (length inss)) @ rest)"

lemma wholeD:
  assumes "whole je inss f code"
  shows "blocks_ok je inss" "begins (f 0)" "laid_out je inss f" "\<exists>rest. code = cg_calls (f (length inss)) @ rest"
  using assms by (simp_all add: whole_def)

lemma code_from:
  assumes "whole je inss f code" "k \<le> length inss"
  shows "code = cg_calls (f k) @ code_from f code k"
proof -
  note W = wholeD [OF assms(1)]
  obtain seg rest where "cg_calls (f (length inss)) = cg_calls (f k) @ seg" "code = cg_calls (f (length inss)) @ rest"
    using laid_out_prefix [OF W(1-3) assms(2)] W(4) by blast
  then show ?thesis
    by (simp add: code_from_def)
qed

lemma dropWhile_first: "x \<notin> set pre \<Longrightarrow> dropWhile (\<lambda>c. c \<noteq> x) (pre @ x # rest) = x # rest"
  by (induction pre) auto

lemma block_at:
  assumes "whole je inss f code" "k \<le> length inss" "sparse_get (je_block_of je) k = Some b"
  shows "block_code code b = code_from f code k"
proof -
  note W = wholeD [OF assms(1)]
  have "at_position je (cg_vars (f 0)) k (f k)"
    by (rule laid_out_positions [OF W(1-3) assms(2)])
  then obtain pre where "cg_calls (f k) = pre @ [BSwitch b]" "BSwitch b \<notin> set pre"
    using assms(3) unfolding at_position_def by blast
  with code_from [OF assms(1,2)] have "code = pre @ BSwitch b # code_from f code k" "BSwitch b \<notin> set pre"
    by simp_all
  then show ?thesis
    unfolding block_code_def using dropWhile_first by (metis list.sel(3))
qed

text \<open>Code of an instruction that leaves its block open runs into the next position.\<close>

lemma runs_on:
  assumes "whole je inss f code" "k < length inss" "compile_instr je (k + 1) (inss ! k) (f k) = Some ((), s2)"
    and "f (k + 1) = enter je (k + 1) s2" "cg_calls s2 = cg_calls (f k) @ seg" "\<not> cg_terminated s2"
  shows "\<exists>sep. code_from f code k = seg @ sep \<and> ir_run code sep st = ir_run code (code_from f code (k + 1)) st"
proof -
  have code: "code = cg_calls (f k) @ code_from f code k" "code = cg_calls (f (k + 1)) @ code_from f code (k + 1)"
    using code_from [OF assms(1)] assms(2) by simp_all
  show ?thesis
  proof (cases rule: enter_cases [of je "k + 1" s2])
    case 1
    then have "cg_calls (f (k + 1)) = cg_calls (f k) @ seg"
      using assms(4,5) by simp
    with code have "cg_calls (f k) @ code_from f code k = cg_calls (f k) @ seg @ code_from f code (k + 1)"
      by simp
    then have "code_from f code k = seg @ code_from f code (k + 1)"
      by (rule same_append_eq [THEN iffD1])
    then show ?thesis
      by blast
  next
    case (2 blk)
    then have "cg_calls (f (k + 1)) = cg_calls (f k) @ seg @ [BJump blk, BSwitch blk]"
      using assms(4-6) by simp
    with code have "cg_calls (f k) @ code_from f code k
        = cg_calls (f k) @ seg @ BJump blk # BSwitch blk # code_from f code (k + 1)"
      by simp
    then have "code_from f code k = seg @ BJump blk # BSwitch blk # code_from f code (k + 1)"
      by (rule same_append_eq [THEN iffD1])
    moreover have "block_code code blk = code_from f code (k + 1)"
      using block_at [OF assms(1) _ 2(1)] assms(2) by simp
    ultimately show ?thesis
      by (auto simp: ir_run_jump)
  qed
qed

text \<open>Code that ends its block.\<close>

lemma code_at:
  assumes "whole je inss f code" "k < length inss" "f (k + 1) = enter je (k + 1) s2" "cg_calls s2 = cg_calls (f k) @ seg"
  shows "\<exists>sep. code_from f code k = seg @ sep"
proof -
  obtain x where "cg_calls (f (k + 1)) = cg_calls (f k) @ seg @ x"
    using assms(3,4) by (cases rule: enter_cases [of je "k + 1" s2]) auto
  with code_from [OF assms(1), of k] code_from [OF assms(1), of "k + 1"] assms(2)
  have "cg_calls (f k) @ code_from f code k = cg_calls (f k) @ seg @ x @ code_from f code (k + 1)"
    by simp
  then show ?thesis
    by blast
qed

subsection \<open>The integer fragment\<close>

text \<open>
  Slots are declared first, with a type that is a 32-bit integer for the code generator and an
  initial value that is zero; then come straight instructions, jumps that stay after the
  declarations, and returns.
\<close>

fun reserve_form :: "operand list \<Rightarrow> bool" where
  "reserve_form (OpdSlot (SlLocal i) # OpdType t # ini # ops) =
     (jit_type_of t = Some JI32 \<and> word_of (imm_to_value_for_type t ini) = Some 0)"
| "reserve_form ops = False"

definition is_reserve :: "instruction \<Rightarrow> bool" where
  "is_reserve ins \<longleftrightarrow> opcode ins = OMem OpReserve \<and> reserve_form (operands ins)"

definition jump_form :: "nat \<Rightarrow> nat \<Rightarrow> operand \<Rightarrow> bool" where
  "jump_form p n op = (case label_target_ip op of None \<Rightarrow> False | Some t \<Rightarrow> p \<le> t \<and> t \<le> n)"

definition control_form :: "nat \<Rightarrow> nat \<Rightarrow> instruction \<Rightarrow> bool" where
  "control_form p n ins = (case opcode ins of
      OFlow OpJmp \<Rightarrow> (case operands ins of [l] \<Rightarrow> jump_form p n l | _ \<Rightarrow> False)
    | OFlow OpJz \<Rightarrow> (case operands ins of [a, l] \<Rightarrow> plain_operand a \<and> jump_form p n l | _ \<Rightarrow> False)
    | OFlow OpJnz \<Rightarrow> (case operands ins of [a, l] \<Rightarrow> plain_operand a \<and> jump_form p n l | _ \<Rightarrow> False)
    | OFlow OpRet \<Rightarrow> (case operands ins of
        [] \<Rightarrow> True | a # ops \<Rightarrow> plain_operand a \<or> a = OpdSlot (SlBuiltIn BiRet))
    | _ \<Rightarrow> False)"

definition declarations :: "instruction list \<Rightarrow> nat" where
  "declarations inss = length (takeWhile is_reserve inss)"

definition int32_code :: "instruction list \<Rightarrow> bool" where
  "int32_code inss \<longleftrightarrow> list_all (\<lambda>ins. straight_instr ins \<or> control_form (declarations inss) (length inss) ins)
     (drop (declarations inss) inss)"

lemma declarations_le: "declarations inss \<le> length inss"
  by (simp add: declarations_def length_takeWhile_le)

lemma int32_code_cases:
  assumes "int32_code inss" "k < length inss"
  obtains "k < declarations inss" "is_reserve (inss ! k)"
  | "declarations inss \<le> k" "straight_instr (inss ! k)"
  | "declarations inss \<le> k" "control_form (declarations inss) (length inss) (inss ! k)"
proof (cases "k < declarations inss")
  case True
  then have "is_reserve (inss ! k)"
    unfolding declarations_def by (metis nth_mem set_takeWhileD takeWhile_nth)
  with True that(1) show ?thesis
    by blast
next
  case False
  with assms have "straight_instr (inss ! k) \<or> control_form (declarations inss) (length inss) (inss ! k)"
    by (auto simp: int32_code_def list_all_length dest!: spec [of _ "k - declarations inss"])
  with False that(2,3) show ?thesis
    by fastforce
qed

text \<open>A value that can be returned, as the word the code returns for it.\<close>

definition ret_word :: "fasm_value \<Rightarrow> i32 option" where
  "ret_word v = (if v = VNull then Some 0 else word_of v)"

text \<open>The code from one position runs to another position.\<close>

definition goes_to :: "(nat \<Rightarrow> codegen) \<Rightarrow> builder_call list \<Rightarrow> nat \<Rightarrow> (variable \<Rightarrow> ir_val option) \<Rightarrow> nat
    \<Rightarrow> (variable \<Rightarrow> ir_val option) \<Rightarrow> bool" where
  "goes_to f code k vars k' vars' \<longleftrightarrow> (\<forall>vals. \<exists>vals'.
     ir_run code (code_from f code k) (vals, vars) = ir_run code (code_from f code k') (vals', vars'))"

definition code_returns :: "(nat \<Rightarrow> codegen) \<Rightarrow> builder_call list \<Rightarrow> nat \<Rightarrow> (variable \<Rightarrow> ir_val option) \<Rightarrow> fasm_value \<Rightarrow> bool" where
  "code_returns f code k vars v \<longleftrightarrow> (\<exists>w. ret_word v = Some w
     \<and> (\<forall>vals. ir_run code (code_from f code k) (vals, vars) = Some (Some (V32 w))))"

lemma straight_goes_to:
  assumes "whole je inss f code" "k < length inss" "compile_instr je (k + 1) (inss ! k) (f k) = Some ((), s2)"
    and "f (k + 1) = enter je (k + 1) s2" "cg_calls s2 = cg_calls (f k) @ seg" "\<not> cg_terminated s2" "runs_to seg vars vars'"
  shows "goes_to f code k vars (k + 1) vars'"
  unfolding goes_to_def
proof
  fix vals
  have "\<exists>sep. code_from f code k = seg @ sep
      \<and> (\<forall>st. ir_run code sep st = ir_run code (code_from f code (k + 1)) st)"
    using runs_on [OF assms(1-6)] by (metis same_append_eq)
  then obtain sep where sep: "code_from f code k = seg @ sep"
      "\<And>st. ir_run code sep st = ir_run code (code_from f code (k + 1)) st"
    by blast
  then show "\<exists>vals'. ir_run code (code_from f code k) (vals, vars) = ir_run code (code_from f code (k + 1)) (vals', vars')"
    using assms(7) unfolding runs_to_def by metis
qed

text \<open>The code of the instructions that end a block.\<close>

lemma emit_branch_code:
  assumes "emit_branch je ip ins cc s = Some ((), s')" "operand_at ins 0 = Some a" "plain_operand a"
    and "operand_at ins 1 = Some l" "label_target_ip l = Some t" "int_vars je s"
  defines "n \<equiv> length (cg_types s)"
  shows "\<exists>x b1 b2. read_call je a n = Some x \<and> sparse_get (je_block_of je) t = Some b1
    \<and> sparse_get (je_block_of je) ip = Some b2
    \<and> cg_calls s' = cg_calls s @ [x, BIconst (n + 1) CI32 0, BIcmp (n + 2) cc n (n + 1), BBrif (n + 2) b1 b2]"
  using assms(1-6) unfolding n_def
  by (cases "sparse_get (je_block_of je) t"; cases "sparse_get (je_block_of je) ip")
    (auto simp: emit_branch_def read_plain operand_of_def compare_with_zero_def end_block_def nth_append
      split: option.splits)

lemma emit_jmp_code:
  assumes "emit_jmp je ins s = Some ((), s')" "operands ins = [l]" "label_target_ip l = Some t"
  shows "\<exists>b. sparse_get (je_block_of je) t = Some b \<and> cg_calls s' = cg_calls s @ [BJump b]"
  using assms by (cases "sparse_get (je_block_of je) t") (auto simp: emit_jmp_def end_block_def)

lemma emit_ret_code:
  assumes "emit_ret je ins s = Some ((), s')" "int_vars je s"
  defines "n \<equiv> length (cg_types s)"
  shows "operand_at ins 0 = None \<Longrightarrow> cg_calls s' = cg_calls s @ [BIconst n CI32 0, BReturn n]"
    "operand_at ins 0 = Some (OpdSlot (SlBuiltIn BiRet)) \<Longrightarrow> cg_calls s' = cg_calls s @ [BUseVar n (je_ret je), BReturn n]"
    "operand_at ins 0 = Some a \<Longrightarrow> plain_operand a \<Longrightarrow>
      \<exists>x. read_call je a n = Some x \<and> cg_calls s' = cg_calls s @ [x, BReturn n]"
proof -
  have hint: "je_ret_type je = JI32"
    using assms(2) by (simp add: int_vars_def)
  show "cg_calls s' = cg_calls s @ [BIconst n CI32 0, BReturn n]" if "operand_at ins 0 = None"
    using that assms(1) hint by (auto simp: emit_ret_def zero_val_def end_block_def n_def)
  show "cg_calls s' = cg_calls s @ [BUseVar n (je_ret je), BReturn n]"
    if "operand_at ins 0 = Some (OpdSlot (SlBuiltIn BiRet))"
    using that assms(1) by (auto simp: emit_ret_def end_block_def n_def)
  show "\<exists>x. read_call je a n = Some x \<and> cg_calls s' = cg_calls s @ [x, BReturn n]"
    if a: "operand_at ins 0 = Some a" "plain_operand a"
  proof -
    have "a \<noteq> OpdSlot (SlBuiltIn BiRet)"
      using a(2) by auto
    with a show ?thesis
      using assms(1,2) hint by (auto simp: emit_ret_def read_op_plain coerce_same end_block_def n_def cg_bind_eq nth_append
          split: option.splits)
  qed
qed

subsection \<open>One round\<close>

text \<open>A function of the fragment with its code, in a program.\<close>

definition setting :: "env \<Rightarrow> nat \<Rightarrow> function_def \<Rightarrow> jit_env \<Rightarrow> (nat \<Rightarrow> codegen) \<Rightarrow> builder_call list \<Rightarrow> bool" where
  "setting e i fd je f code \<longleftrightarrow> nth_opt (prog_functions (env_program e)) i = Some fd
     \<and> whole je (fun_instrs fd) f code \<and> int_vars je (f 0) \<and> vars_apart je \<and> int32_code (fun_instrs fd)
     \<and> (\<forall>k<declarations (fun_instrs fd). \<forall>d. operand_at (fun_instrs fd ! k) 0 = Some (OpdSlot (SlLocal d)) \<longrightarrow>
          sparse_get (je_vars je) d \<noteq> None)
     \<and> (\<exists>c. code_from f code (length (fun_instrs fd)) = [BIconst c CI32 0, BReturn c])"

lemma settingD:
  assumes "setting e i fd je f code"
  shows "nth_opt (prog_functions (env_program e)) i = Some fd" "whole je (fun_instrs fd) f code" "vars_apart je"
    "int32_code (fun_instrs fd)" "k \<le> length (fun_instrs fd) \<Longrightarrow> int_vars je (f k)"
    "k < declarations (fun_instrs fd) \<Longrightarrow> operand_at (fun_instrs fd ! k) 0 = Some (OpdSlot (SlLocal d))
       \<Longrightarrow> \<exists>x. sparse_get (je_vars je) d = Some x"
    "\<exists>c. code_from f code (length (fun_instrs fd)) = [BIconst c CI32 0, BReturn c]"
proof -
  show "whole je (fun_instrs fd) f code"
    using assms by (simp add: setting_def)
  note W = wholeD [OF this]
  show "int_vars je (f k)" if "k \<le> length (fun_instrs fd)"
    using laid_out_positions [OF W(1-3) that] assms by (simp add: at_position_def setting_def int_vars_def)
qed (use assms in \<open>auto simp: setting_def\<close>)

text \<open>The machine is at position \<open>k\<close> of the function and the variables hold its slots.\<close>

definition tracks :: "jit_env \<Rightarrow> nat \<Rightarrow> (u32 \<times> fasm_value) list \<Rightarrow> nat \<Rightarrow> vm \<Rightarrow> nat \<Rightarrow> (variable \<Rightarrow> ir_val option) \<Rightarrow> bool" where
  "tracks je i args p s k vars \<longleftrightarrow> (\<exists>cf. vm_call_stack s = [cf] \<and> cf_func_idx cf = i \<and> cf_ip cf = k
     \<and> cf_args cf = VStruct args \<and> cf_ret_val cf = VNull \<and> cf_try_guard cf = None
     \<and> slots_agree je (cf_frame cf) vars \<and> vars_agree je args vars
     \<and> (k < p \<longrightarrow> (\<forall>d x. sparse_get (je_vars je) d = Some x \<longrightarrow> vars x = Some (V32 0))))"

definition round_ok :: "jit_env \<Rightarrow> nat \<Rightarrow> function_def \<Rightarrow> (nat \<Rightarrow> codegen) \<Rightarrow> builder_call list \<Rightarrow> (u32 \<times> fasm_value) list
    \<Rightarrow> nat \<Rightarrow> (variable \<Rightarrow> ir_val option) \<Rightarrow> step_result \<Rightarrow> bool" where
  "round_ok je i fd f code args k vars r \<longleftrightarrow> (\<exists>x t. r = SStop (Inl x) t) \<or> r = SPanic
     \<or> (\<exists>v t. r = SStop (Inr v) t \<and> code_returns f code k vars v)
     \<or> (\<exists>s' k' vars'. r = SNext s' \<and> k' \<le> length (fun_instrs fd)
         \<and> tracks je i args (declarations (fun_instrs fd)) s' k' vars' \<and> goes_to f code k vars k' vars')"

lemma round_okI:
  "r = SStop (Inl x) t \<Longrightarrow> round_ok je i fd f code args k vars r"
  "r = SPanic \<Longrightarrow> round_ok je i fd f code args k vars r"
  "r = SStop (Inr v) t \<Longrightarrow> code_returns f code k vars v \<Longrightarrow> round_ok je i fd f code args k vars r"
  "r = SNext s' \<Longrightarrow> k' \<le> length (fun_instrs fd) \<Longrightarrow> tracks je i args (declarations (fun_instrs fd)) s' k' vars'
    \<Longrightarrow> goes_to f code k vars k' vars' \<Longrightarrow> round_ok je i fd f code args k vars r"
  unfolding round_ok_def by blast+

lemma round_end:
  assumes set: "setting e i fd je f code"
    and tr: "tracks je i args (declarations (fun_instrs fd)) s (length (fun_instrs fd)) vars"
  shows "round_ok je i fd f code args (length (fun_instrs fd)) vars (run_step e s)"
proof -
  obtain cf where cf: "vm_call_stack s = [cf]" "cf_func_idx cf = i" "cf_ip cf = length (fun_instrs fd)" "cf_ret_val cf = VNull"
    using tr by (auto simp: tracks_def)
  have "run_step e s = SStop (Inr VNull) (s\<lparr>vm_call_stack := []\<rparr>)"
    using cf settingD(1) [OF set] by (simp add: run_step_def return_to_caller_def del: nth_opt_Some)
  moreover have "code_returns f code (length (fun_instrs fd)) vars VNull"
    using settingD(7) [OF set] by (auto simp: code_returns_def ret_word_def ir_run_straight ir_run_return ir_set_def)
  ultimately show ?thesis
    by (rule round_okI)
qed

text \<open>The state in which the instruction at position \<open>k\<close> executes, and what its compilation gave.\<close>

lemma round_start:
  assumes set: "setting e i fd je f code" and k: "k < length (fun_instrs fd)"
    and tr: "tracks je i args (declarations (fun_instrs fd)) s k vars"
  obtains cf s2 where "vm_call_stack (advance s) = [cf]" "cf_func_idx cf = i" "cf_ip cf = k + 1" "cf_ret_val cf = VNull"
    "cf_try_guard cf = None" "situation je (f k) args (advance s) cf [] vars"
    "k < declarations (fun_instrs fd) \<Longrightarrow> (\<forall>d x. sparse_get (je_vars je) d = Some x \<longrightarrow> vars x = Some (V32 0))"
    "compile_instr je (k + 1) (fun_instrs fd ! k) (f k) = Some ((), s2)" "f (k + 1) = enter je (k + 1) s2"
    "\<And>act t. execute_instruction e (fun_instrs fd ! k) (advance s) = ROk act t \<Longrightarrow> run_step e s = perform e act t"
    "\<And>x. execute_instruction e (fun_instrs fd ! k) (advance s) = RErr x (advance s)
      \<Longrightarrow> round_ok je i fd f code args k vars (run_step e s)"
    "execute_instruction e (fun_instrs fd ! k) (advance s) = RPanic \<Longrightarrow> round_ok je i fd f code args k vars (run_step e s)"
proof -
  obtain cf where cf: "vm_call_stack s = [cf]" "cf_func_idx cf = i" "cf_ip cf = k" "cf_args cf = VStruct args"
      "cf_ret_val cf = VNull" "cf_try_guard cf = None" "slots_agree je (cf_frame cf) vars" "vars_agree je args vars"
      "k < declarations (fun_instrs fd) \<longrightarrow> (\<forall>d x. sparse_get (je_vars je) d = Some x \<longrightarrow> vars x = Some (V32 0))"
    using tr by (auto simp: tracks_def)
  have adv: "vm_call_stack (advance s) = [cf\<lparr>cf_ip := cf_ip cf + 1\<rparr>]"
    by (simp add: advance_def cf(1))
  have cur: "current_instr (env_program e) s = Some (fun_instrs fd ! k)"
    using cf(1-3) settingD(1) [OF set] k by (simp add: current_instr_def del: nth_opt_Some) (simp add: nth_opt_def)
  note step = run_step_current [OF cur cf(1)]
  obtain s2 where s2: "compile_instr je (k + 1) (fun_instrs fd ! k) (f k) = Some ((), s2)" "f (k + 1) = enter je (k + 1) s2"
    using wholeD(3) [OF settingD(2) [OF set]] k by (auto simp: laid_out_def)
  have "situation je (f k) args (advance s) (cf\<lparr>cf_ip := cf_ip cf + 1\<rparr>) [] vars"
    using adv cf settingD(3,5) [OF set] k by (simp add: situation_def)
  then show ?thesis
    using adv cf s2 step by (intro that) (auto simp: handle_fault_def intro: round_okI)
qed

lemma advance_again: "vm_call_stack (advance s) = [cf] \<Longrightarrow> (advance s)\<lparr>vm_call_stack := [cf]\<rparr> = advance s"
  by (cases "advance s") simp

lemma tracksI:
  assumes "vm_call_stack s = [cf]" "cf_func_idx cf = i" "cf_ip cf = k" "cf_args cf = VStruct args" "cf_ret_val cf = VNull"
    "cf_try_guard cf = None" "slots_agree je (cf_frame cf) vars" "vars_agree je args vars"
    "k < p \<Longrightarrow> \<forall>d x. sparse_get (je_vars je) d = Some x \<longrightarrow> vars x = Some (V32 0)"
  shows "tracks je i args p s k vars"
  unfolding tracks_def using assms by blast

lemma round_straight:
  assumes set: "setting e i fd je f code" and k: "k < length (fun_instrs fd)"
    and tr: "tracks je i args (declarations (fun_instrs fd)) s k vars"
    and ins: "declarations (fun_instrs fd) \<le> k" "straight_instr (fun_instrs fd ! k)"
  shows "round_ok je i fd f code args k vars (run_step e s)"
proof -
  let ?ins = "fun_instrs fd ! k"
  obtain cf s2 where cf: "vm_call_stack (advance s) = [cf]" "cf_func_idx cf = i" "cf_ip cf = k + 1" "cf_ret_val cf = VNull"
      "cf_try_guard cf = None" and sit: "situation je (f k) args (advance s) cf [] vars"
    and s2: "compile_instr je (k + 1) ?ins (f k) = Some ((), s2)" "f (k + 1) = enter je (k + 1) s2"
    and step: "\<And>act t. execute_instruction e ?ins (advance s) = ROk act t \<Longrightarrow> run_step e s = perform e act t"
    and fails: "\<And>x. execute_instruction e ?ins (advance s) = RErr x (advance s)
        \<Longrightarrow> round_ok je i fd f code args k vars (run_step e s)"
      "execute_instruction e ?ins (advance s) = RPanic \<Longrightarrow> round_ok je i fd f code args k vars (run_step e s)"
    using round_start [OF set k tr] by metis
  have open_block: "\<not> cg_terminated (f k)"
    using laid_out_positions [OF wholeD(1-3) [OF settingD(2) [OF set]]] k by (simp add: at_position_def)
  from straight_agrees [OF sit ins(2) s2(1), of e] show ?thesis
    unfolding step_agrees_def
  proof (elim disjE exE conjE)
    fix cf' vars' seg
    assume r: "execute_instruction e ?ins (advance s) = ROk AContinue ((advance s)\<lparr>vm_call_stack := [cf']\<rparr>)"
      and same: "same_place cf cf'" "same_control (f k) s2"
      and agree: "slots_agree je (cf_frame cf') vars'" "vars_agree je args vars'"
      and seg: "cg_calls s2 = cg_calls (f k) @ seg" "runs_to seg vars vars'"
    have "\<not> cg_terminated s2"
      using open_block same(2) by (simp add: same_control_def)
    then have go: "goes_to f code k vars (k + 1) vars'"
      by (rule straight_goes_to [OF settingD(2) [OF set] k s2 seg(1) _ seg(2)])
    have "tracks je i args (declarations (fun_instrs fd)) ((advance s)\<lparr>vm_call_stack := [cf']\<rparr>) (k + 1) vars'"
      using cf same(1) agree ins(1) situationD(6) [OF sit] by (intro tracksI [of _ cf']) (simp_all add: same_place_def)
    then show ?thesis
      using step [OF r] k go by (intro round_okI(4) [of _ _ "k + 1"]) (simp_all add: perform_def)
  qed (auto intro: fails)
qed

lemma reserve_formE:
  assumes "is_reserve ins"
  obtains d t ini where "opcode ins = OMem OpReserve" "operand_at ins 0 = Some (OpdSlot (SlLocal d))"
    "operand_at ins 1 = Some (OpdType t)" "operand_at ins 2 = Some ini" "jit_type_of t = Some JI32"
    "word_of (imm_to_value_for_type t ini) = Some 0"
  using assms by (cases "operands ins" rule: reserve_form.cases)
    (auto simp: is_reserve_def operand_at_def nth_opt_def numeral_2_eq_2)

lemma round_reserve:
  assumes set: "setting e i fd je f code" and k: "k < length (fun_instrs fd)"
    and tr: "tracks je i args (declarations (fun_instrs fd)) s k vars"
    and ins: "k < declarations (fun_instrs fd)" "is_reserve (fun_instrs fd ! k)"
  shows "round_ok je i fd f code args k vars (run_step e s)"
proof -
  let ?ins = "fun_instrs fd ! k"
  obtain cf s2 where cf: "vm_call_stack (advance s) = [cf]" "cf_func_idx cf = i" "cf_ip cf = k + 1" "cf_ret_val cf = VNull"
      "cf_try_guard cf = None" and sit: "situation je (f k) args (advance s) cf [] vars"
    and zero: "\<forall>d x. sparse_get (je_vars je) d = Some x \<longrightarrow> vars x = Some (V32 0)"
    and s2: "compile_instr je (k + 1) ?ins (f k) = Some ((), s2)" "f (k + 1) = enter je (k + 1) s2"
    and step: "\<And>act t. execute_instruction e ?ins (advance s) = ROk act t \<Longrightarrow> run_step e s = perform e act t"
    using round_start [OF set k tr] ins(1) by metis
  obtain d t ini where op: "opcode ?ins = OMem OpReserve" "operand_at ?ins 0 = Some (OpdSlot (SlLocal d))"
      "operand_at ?ins 1 = Some (OpdType t)" "operand_at ?ins 2 = Some ini"
      "word_of (imm_to_value_for_type t ini) = Some 0"
    using ins(2) by (rule reserve_formE)
  obtain x where x: "sparse_get (je_vars je) d = Some x"
    using settingD(6) [OF set ins(1) op(2)] by blast
  define cf' where "cf' = with_slot d (imm_to_value_for_type t ini) cf"
  have "execute_instruction e ?ins (advance s) = ROk AContinue ((advance s)\<lparr>vm_call_stack := [cf']\<rparr>)"
    using op cf(1) by (simp add: execute_instruction_def vm_bind_def get_op_at then_continue_def write_operand_def
        set_local_def modify_top_def vm_return_def cf'_def with_slot_def)
  note next_state = step [OF this]
  have "slots_agree je (cf_frame cf') vars"
    using situationD(3) [OF sit] x zero op(5) by (auto simp: cf'_def slots_agree_def frame_store.get_set)
  then have track: "tracks je i args (declarations (fun_instrs fd)) ((advance s)\<lparr>vm_call_stack := [cf']\<rparr>) (k + 1) vars"
    using cf situationD(4,6) [OF sit] zero by (intro tracksI [of _ cf']) (simp_all add: cf'_def)
  have "s2 = f k"
    using s2(1) op(1) by (simp add: compile_instr_def)
  moreover have "\<not> cg_terminated (f k)"
    using laid_out_positions [OF wholeD(1-3) [OF settingD(2) [OF set]]] k by (simp add: at_position_def)
  ultimately have "goes_to f code k vars (k + 1) vars"
    by (intro straight_goes_to [OF settingD(2) [OF set] k s2, of "[]"]) simp_all
  then show ?thesis
    using next_state k track by (intro round_okI(4) [of _ _ "k + 1"]) (simp_all add: perform_def)
qed

text \<open>A jump: the interpreter goes to \<open>t\<close>, and the code to the block that begins there.\<close>

lemma round_goto:
  assumes set: "setting e i fd je f code" and stack: "vm_call_stack (advance s) = [cf]" and ip: "cf_func_idx cf = i"
    "cf_ret_val cf = VNull" "cf_try_guard cf = None" and sit: "situation je (f k) args (advance s) cf [] vars"
    and next_state: "run_step e s = SNext ((advance s)\<lparr>vm_call_stack := [cf\<lparr>cf_ip := t\<rparr>]\<rparr>)"
    and t: "declarations (fun_instrs fd) \<le> t" "t \<le> length (fun_instrs fd)"
    and block: "sparse_get (je_block_of je) t = Some b"
    and run: "\<And>vals. \<exists>vals'. ir_run code (code_from f code k) (vals, vars) = ir_run code (block_code code b) (vals', vars)"
  shows "round_ok je i fd f code args k vars (run_step e s)"
proof -
  have "goes_to f code k vars t vars"
    using run block_at [OF settingD(2) [OF set] t(2) block] by (simp add: goes_to_def)
  moreover have "tracks je i args (declarations (fun_instrs fd)) ((advance s)\<lparr>vm_call_stack := [cf\<lparr>cf_ip := t\<rparr>]\<rparr>) t vars"
    using ip t(1) situationD [OF sit] by (intro tracksI [of _ "cf\<lparr>cf_ip := t\<rparr>"]) simp_all
  ultimately show ?thesis
    by (intro round_okI(4) [OF next_state t(2)])
qed

lemma jump_formE:
  assumes "jump_form p n l"
  obtains t where "l = OpdLabelTarget t" "label_target_ip l = Some (unat t)" "p \<le> unat t" "unat t \<le> n"
  using assms by (cases l) (auto simp: jump_form_def label_target_ip_def)

lemma round_jmp:
  assumes set: "setting e i fd je f code" and k: "k < length (fun_instrs fd)"
    and tr: "tracks je i args (declarations (fun_instrs fd)) s k vars"
    and ins: "opcode (fun_instrs fd ! k) = OFlow OpJmp" "operands (fun_instrs fd ! k) = [l]"
      "jump_form (declarations (fun_instrs fd)) (length (fun_instrs fd)) l"
  shows "round_ok je i fd f code args k vars (run_step e s)"
proof -
  let ?ins = "fun_instrs fd ! k"
  obtain cf s2 where cf: "vm_call_stack (advance s) = [cf]" "cf_func_idx cf = i" "cf_ret_val cf = VNull"
      "cf_try_guard cf = None" and sit: "situation je (f k) args (advance s) cf [] vars"
    and s2: "compile_instr je (k + 1) ?ins (f k) = Some ((), s2)" "f (k + 1) = enter je (k + 1) s2"
    and step: "\<And>act t. execute_instruction e ?ins (advance s) = ROk act t \<Longrightarrow> run_step e s = perform e act t"
    using round_start [OF set k tr] by metis
  obtain t where t: "l = OpdLabelTarget t" "label_target_ip l = Some (unat t)" "declarations (fun_instrs fd) \<le> unat t"
      "unat t \<le> length (fun_instrs fd)"
    using ins(3) by (rule jump_formE)
  have "emit_jmp je ?ins (f k) = Some ((), s2)"
    using s2(1) ins(1) by (simp add: compile_instr_def)
  then obtain b where b: "sparse_get (je_block_of je) (unat t) = Some b" "cg_calls s2 = cg_calls (f k) @ [BJump b]"
    using emit_jmp_code [OF _ ins(2) t(2)] by blast
  obtain sep where sep: "code_from f code k = [BJump b] @ sep"
    using code_at [OF settingD(2) [OF set] k s2(2) b(2)] by blast
  have "execute_instruction e ?ins (advance s) = ROk (AJump (unat t)) (advance s)"
    using ins t(1) by (simp add: execute_instruction_def vm_bind_def get_op_at operand_at_def nth_opt_def label_target_def
        vm_lift_def vm_return_def)
  then have "run_step e s = SNext ((advance s)\<lparr>vm_call_stack := [cf\<lparr>cf_ip := unat t\<rparr>]\<rparr>)"
    using step cf(1) by (simp add: perform_def on_top_def)
  then show ?thesis
    by (rule round_goto [OF set cf sit _ t(3,4) b(1)]) (auto simp: sep ir_run_jump)
qed

text \<open>A conditional jump, with the comparison with zero that it is compiled to.\<close>

lemma round_branch:
  assumes set: "setting e i fd je f code" and k: "k < length (fun_instrs fd)"
    and tr: "tracks je i args (declarations (fun_instrs fd)) s k vars"
    and ins: "operands (fun_instrs fd ! k) = [a, l]" "plain_operand a" "declarations (fun_instrs fd) \<le> k"
      "jump_form (declarations (fun_instrs fd)) (length (fun_instrs fd)) l"
    and exec: "execute_instruction e (fun_instrs fd ! k) = jump_if (fun_instrs fd ! k) c"
    and emit: "compile_instr je (k + 1) (fun_instrs fd ! k) = emit_branch je (k + 1) (fun_instrs fd ! k) cc"
    and cond: "\<And>v w. word_of v = Some w \<Longrightarrow> c v \<longleftrightarrow> int_compare cc w 0"
  shows "round_ok je i fd f code args k vars (run_step e s)"
proof -
  let ?ins = "fun_instrs fd ! k"
  have ops: "operand_at ?ins 0 = Some a" "operand_at ?ins 1 = Some l"
    using ins(1) by (simp_all add: operand_at_def nth_opt_def)
  obtain cf s2 where cf: "vm_call_stack (advance s) = [cf]" "cf_func_idx cf = i" "cf_ret_val cf = VNull"
      "cf_try_guard cf = None" and ip: "cf_ip cf = k + 1" and sit: "situation je (f k) args (advance s) cf [] vars"
    and s2: "compile_instr je (k + 1) ?ins (f k) = Some ((), s2)" "f (k + 1) = enter je (k + 1) s2"
    and step: "\<And>act t. execute_instruction e ?ins (advance s) = ROk act t \<Longrightarrow> run_step e s = perform e act t"
    and fails: "\<And>x. execute_instruction e ?ins (advance s) = RErr x (advance s)
        \<Longrightarrow> round_ok je i fd f code args k vars (run_step e s)"
    using round_start [OF set k tr] by metis
  obtain t where t: "l = OpdLabelTarget t" "label_target_ip l = Some (unat t)" "declarations (fun_instrs fd) \<le> unat t"
      "unat t \<le> length (fun_instrs fd)"
    using ins(4) by (rule jump_formE)
  define n where "n = length (cg_types (f k))"
  obtain x b1 b2 where x: "read_call je a n = Some x" and b: "sparse_get (je_block_of je) (unat t) = Some b1"
      "sparse_get (je_block_of je) (k + 1) = Some b2"
    and calls: "cg_calls s2 = cg_calls (f k) @ [x, BIconst (n + 1) CI32 0, BIcmp (n + 2) cc n (n + 1), BBrif (n + 2) b1 b2]"
    using emit_branch_code [OF _ ops(1) ins(2) ops(2) t(2) settingD(5) [OF set]] s2(1) k emit unfolding n_def by force
  obtain sep where sep: "code_from f code k = [x, BIconst (n + 1) CI32 0, BIcmp (n + 2) cc n (n + 1), BBrif (n + 2) b1 b2] @ sep"
    using code_at [OF settingD(2) [OF set] k s2(2) calls] by blast
  show ?thesis
  proof (cases "plain_value (cf_frame cf) a")
    case None
    then show ?thesis
      using ops(1) ins(2) cf(1) by (intro fails [of FUndeclaredSlot]) (simp add: exec jump_if_def vm_bind_def read_val_plain)
  next
    case (Some v)
    obtain w where w: "word_of v = Some w" "\<And>vals. ir_step x (vals, vars) = Some (vals(n \<mapsto> V32 w), vars)"
      using read_agrees [OF ins(2) Some situationD(3) [OF sit] x] by blast
    have run: "\<exists>vals'. ir_run code (code_from f code k) (vals, vars)
        = ir_run code (block_code code (if c v then b1 else b2)) (vals', vars)" for vals
      using cond [OF w(1)] by (auto simp: sep ir_straight [OF w(2)] ir_run_straight ir_set_def ir_run_brif)
    have "execute_instruction e ?ins (advance s) = ROk (if c v then AJump (unat t) else AContinue) (advance s)"
      using ops ins(2) cf(1) t(1) Some by (simp add: exec jump_if_def vm_bind_def read_val_plain get_op_at label_target_def
          vm_lift_def vm_return_def)
    note go = step [OF this]
    show ?thesis
    proof (cases "c v")
      case True
      then have "run_step e s = SNext ((advance s)\<lparr>vm_call_stack := [cf\<lparr>cf_ip := unat t\<rparr>]\<rparr>)"
        using go cf(1) by (simp add: perform_def on_top_def)
      then show ?thesis
        by (rule round_goto [OF set cf sit _ t(3,4) b(1)]) (use run True in simp)
    next
      case False
      have "cf\<lparr>cf_ip := k + 1\<rparr> = cf"
        using ip by (cases cf) simp
      then have "run_step e s = SNext ((advance s)\<lparr>vm_call_stack := [cf\<lparr>cf_ip := k + 1\<rparr>]\<rparr>)"
        using go False advance_again [OF cf(1)] by (simp add: perform_def)
      then show ?thesis
        by (rule round_goto [OF set cf sit _ _ _ b(2)]) (use run False ins(3) k in simp_all)
    qed
  qed
qed

lemma ret_word_of: "word_of v = Some w \<Longrightarrow> ret_word v = Some w"
  by (auto simp: ret_word_def)

lemma round_ret:
  assumes set: "setting e i fd je f code" and k: "k < length (fun_instrs fd)"
    and tr: "tracks je i args (declarations (fun_instrs fd)) s k vars"
    and ins: "opcode (fun_instrs fd ! k) = OFlow OpRet" and shape: "operands (fun_instrs fd ! k) = []
      \<or> operands (fun_instrs fd ! k) = a # ops \<and> (plain_operand a \<or> a = OpdSlot (SlBuiltIn BiRet))"
  shows "round_ok je i fd f code args k vars (run_step e s)"
proof -
  let ?ins = "fun_instrs fd ! k"
  obtain cf s2 where cf: "vm_call_stack (advance s) = [cf]" "cf_ret_val cf = VNull"
      and sit: "situation je (f k) args (advance s) cf [] vars"
    and s2: "compile_instr je (k + 1) ?ins (f k) = Some ((), s2)" "f (k + 1) = enter je (k + 1) s2"
    and step: "\<And>act t. execute_instruction e ?ins (advance s) = ROk act t \<Longrightarrow> run_step e s = perform e act t"
    and fails: "\<And>x. execute_instruction e ?ins (advance s) = RErr x (advance s)
        \<Longrightarrow> round_ok je i fd f code args k vars (run_step e s)"
    using round_start [OF set k tr] by metis
  define n where "n = length (cg_types (f k))"
  have returns: "round_ok je i fd f code args k vars (run_step e s)"
    if v: "execute_instruction e ?ins (advance s) = ROk (AReturn v) (advance s)" and w: "ret_word v = Some w"
      and calls: "cg_calls s2 = cg_calls (f k) @ [x, BReturn n]"
      and x: "\<And>vals. ir_step x (vals, vars) = Some (vals(n \<mapsto> V32 w), vars)" for v w x
  proof -
    obtain sep where "code_from f code k = [x, BReturn n] @ sep"
      using code_at [OF settingD(2) [OF set] k s2(2) calls] by blast
    then have "code_returns f code k vars v"
      using w by (auto simp: code_returns_def ir_straight [OF x] ir_run_return)
    with step [OF v] cf(1) show ?thesis
      by (intro round_okI(3) [of _ v]) (simp_all add: perform_def return_to_caller_def)
  qed
  have "emit_ret je ?ins (f k) = Some ((), s2)"
    using s2(1) ins by (simp add: compile_instr_def)
  note emitted = emit_ret_code [OF this settingD(5) [OF set], folded n_def]
  from shape show ?thesis
  proof (elim disjE conjE)
    assume none: "operands ?ins = []"
    then have op: "operand_at ?ins 0 = None"
      by (simp add: operand_at_def nth_opt_def)
    have "execute_instruction e ?ins (advance s) = ROk (AReturn VNull) (advance s)"
      using ins none by (simp add: execute_instruction_def vm_return_def)
    then show ?thesis
      by (rule returns [OF _ _ emitted(1) [OF less_imp_le [OF k] op], of VNull 0]) (simp_all add: ret_word_def ir_set_def)
  next
    assume "operands ?ins = a # ops" "a = OpdSlot (SlBuiltIn BiRet)"
    then have op: "operand_at ?ins 0 = Some (OpdSlot (SlBuiltIn BiRet))" "operands ?ins \<noteq> []"
      by (simp_all add: operand_at_def nth_opt_def)
    then have "execute_instruction e ?ins (advance s) = ROk (AReturn VNull) (advance s)"
      using ins cf by (simp add: execute_instruction_def vm_bind_def read_val_def get_op_at read_operand_def
          read_slot_def top_def vm_return_def)
    then show ?thesis
      by (rule returns [OF _ _ emitted(2) [OF less_imp_le [OF k] op(1)], of VNull 0])
        (use situationD(4) [OF sit] in \<open>simp_all add: ret_word_def ir_set_def vars_agree_def\<close>)
  next
    assume "operands ?ins = a # ops" and a: "plain_operand a"
    then have op: "operand_at ?ins 0 = Some a" "operands ?ins \<noteq> []"
      by (simp_all add: operand_at_def nth_opt_def)
    obtain x where x: "read_call je a n = Some x" and calls: "cg_calls s2 = cg_calls (f k) @ [x, BReturn n]"
      using emitted(3) [OF less_imp_le [OF k] op(1) a] by blast
    have exec: "execute_instruction e ?ins (advance s) = (case plain_value (cf_frame cf) a of
        None \<Rightarrow> RErr FUndeclaredSlot (advance s) | Some v \<Rightarrow> ROk (AReturn v) (advance s))"
      using ins op a cf(1) by (simp add: execute_instruction_def vm_bind_def read_val_plain vm_return_def split: option.split)
    show ?thesis
    proof (cases "plain_value (cf_frame cf) a")
      case None
      with exec show ?thesis
        by (intro fails [of FUndeclaredSlot]) simp
    next
      case (Some v)
      obtain w where w: "word_of v = Some w" "\<And>vals. ir_step x (vals, vars) = Some (vals(n \<mapsto> V32 w), vars)"
        using read_agrees [OF a Some situationD(3) [OF sit] x] by blast
      show ?thesis
        using exec Some by (intro returns [OF _ ret_word_of [OF w(1)] calls w(2)]) simp
    qed
  qed
qed

lemma round_control:
  assumes set: "setting e i fd je f code" and k: "k < length (fun_instrs fd)"
    and tr: "tracks je i args (declarations (fun_instrs fd)) s k vars" and le: "declarations (fun_instrs fd) \<le> k"
    and form: "control_form (declarations (fun_instrs fd)) (length (fun_instrs fd)) (fun_instrs fd ! k)"
  shows "round_ok je i fd f code args k vars (run_step e s)"
proof -
  obtain op where op: "opcode (fun_instrs fd ! k) = OFlow op" "op \<in> {OpJmp, OpJz, OpJnz, OpRet}"
    using form by (auto simp: control_form_def split: opcode.splits flow_op.splits)
  have zero: "w = 0 \<longleftrightarrow> int_compare CcEqual w 0" "w \<noteq> 0 \<longleftrightarrow> int_compare CcNotEqual w 0" for w :: i32
    by (simp_all add: int_compare_def)
  have run: "execute_instruction e (fun_instrs fd ! k) = exec_flow op (env_program e) (fun_instrs fd ! k)"
    using op(1) by (simp add: execute_instruction_def fun_eq_iff)
  from op(2) consider "op = OpJmp" | "op = OpJz" | "op = OpJnz" | "op = OpRet"
    by blast
  then show ?thesis
  proof cases
    case 1
    with form op(1) obtain l where "operands (fun_instrs fd ! k) = [l]"
        "jump_form (declarations (fun_instrs fd)) (length (fun_instrs fd)) l"
      by (auto simp: control_form_def split: list.splits)
    with 1 show ?thesis
      using round_jmp [OF set k tr] op(1) by simp
  next
    case 2
    with form op(1) obtain a l where "operands (fun_instrs fd ! k) = [a, l]" "plain_operand a"
        "jump_form (declarations (fun_instrs fd)) (length (fun_instrs fd)) l"
      by (auto simp: control_form_def split: list.splits)
    then show ?thesis
      by (rule round_branch [OF set k tr _ _ le, where cc = CcEqual and c = "\<lambda>v. \<not> is_truthy v"])
        (use 2 op(1) run zero(1) in \<open>simp_all add: compile_instr_def fun_eq_iff truthy_agrees\<close>)
  next
    case 3
    with form op(1) obtain a l where "operands (fun_instrs fd ! k) = [a, l]" "plain_operand a"
        "jump_form (declarations (fun_instrs fd)) (length (fun_instrs fd)) l"
      by (auto simp: control_form_def split: list.splits)
    then show ?thesis
      by (rule round_branch [OF set k tr _ _ le, where cc = CcNotEqual and c = is_truthy])
        (use 3 op(1) run zero(2) in \<open>simp_all add: compile_instr_def fun_eq_iff truthy_agrees\<close>)
  next
    case 4
    with form op(1) have "operands (fun_instrs fd ! k) = [] \<or> (\<exists>a ops. operands (fun_instrs fd ! k) = a # ops
        \<and> (plain_operand a \<or> a = OpdSlot (SlBuiltIn BiRet)))"
      by (auto simp: control_form_def split: list.splits)
    with 4 show ?thesis
      using round_ret [OF set k tr] op(1) by blast
  qed
qed

lemma round_agrees:
  assumes set: "setting e i fd je f code" and k: "k \<le> length (fun_instrs fd)"
    and tr: "tracks je i args (declarations (fun_instrs fd)) s k vars"
  shows "round_ok je i fd f code args k vars (run_step e s)"
proof (cases "k = length (fun_instrs fd)")
  case True
  with round_end [OF set] tr show ?thesis
    by simp
next
  case False
  with k have less: "k < length (fun_instrs fd)"
    by simp
  show ?thesis
    using settingD(4) [OF set] less
    by (rule int32_code_cases)
      (rule round_reserve [OF set less tr] round_straight [OF set less tr] round_control [OF set less tr]; assumption)+
qed

subsection \<open>Runs\<close>

lemma rounds_agree:
  assumes "setting e i fd je f code"
  shows "k \<le> length (fun_instrs fd) \<Longrightarrow> tracks je i args (declarations (fun_instrs fd)) s k vars
    \<Longrightarrow> run_rounds e n s = Some (SStop (Inr v) t) \<Longrightarrow> code_returns f code k vars v"
proof (induction n arbitrary: s k vars)
  case (Suc n)
  from round_agrees [OF assms Suc.prems(1,2)] show ?case
    unfolding round_ok_def
  proof (elim disjE exE conjE)
    fix s' k' vars'
    assume next_state: "run_step e s = SNext s'" "k' \<le> length (fun_instrs fd)"
        "tracks je i args (declarations (fun_instrs fd)) s' k' vars'" and go: "goes_to f code k vars k' vars'"
    then have "code_returns f code k' vars' v"
      using Suc.IH [of k' s' vars'] Suc.prems(3) by simp
    with go show ?thesis
      unfolding code_returns_def goes_to_def by metis
  qed (use Suc.prems(3) in simp_all)
qed simp

end
