(* ===== verification/Fasm_Tiers.thy ===== *)
theory Fasm_Tiers
  imports Fasm_Fragment
begin

text \<open>
  The two tiers that run a function, interpreter and JIT: what \<open>compile_program\<close> puts into the cache, the
  prologue of a compiled function, and the agreement of the answers on the integer fragment.
\<close>

subsection \<open>What is in the cache\<close>

lemma all_entries_member: "all_entries g xs = Some ys \<Longrightarrow> y \<in> set ys \<Longrightarrow> \<exists>x \<in> set xs. g x = Some y"
  by (induction xs arbitrary: ys) (auto split: option.splits)

lemma analyze_programD:
  assumes "(i, info) \<in> set (analyze_program prog)"
  shows "i < length (prog_functions prog) \<and> analyze_function (prog_functions prog ! i) i = Some info"
  using assms by (auto simp: analyze_program_def List.map_filter_def in_set_enumerate_eq split: if_splits)

lemma cached_entry:
  assumes "jit_compile cl prog = Some cache" "sparse_get cache i = Some entry"
  obtains info code where "i < length (prog_functions prog)"
    "analyze_function (prog_functions prog ! i) i = Some info" "compile_fn (prog_functions prog ! i) info i = Some code"
    "entry = \<lparr>jt_native = cl_native cl (build_signature info) code, jt_params = ji_params info,
       jt_ret_type = ji_ret_type info\<rparr>"
proof -
  have "all_entries (jit_entry_of cl prog) (analyze_program prog) = Some cache"
    using assms(1) by (simp add: jit_compile_def compile_program_def split: if_splits)
  then have "\<exists>x \<in> set (analyze_program prog). jit_entry_of cl prog x = Some (i, entry)"
    by (rule all_entries_member) (use assms(2) in \<open>simp add: sparse_get_def map_of_SomeD\<close>)
  then obtain x where x: "x \<in> set (analyze_program prog)" "jit_entry_of cl prog x = Some (i, entry)"
    by (rule bexE)
  obtain j info where "x = (j, info)"
    by (cases x)
  with x(2) have "j = i \<and> (\<exists>code. compile_fn (prog_functions prog ! i) info i = Some code
      \<and> entry = \<lparr>jt_native = cl_native cl (build_signature info) code, jt_params = ji_params info,
       jt_ret_type = ji_ret_type info\<rparr>)"
    by (cases "compile_fn (prog_functions prog ! j) info j") (auto simp: jit_entry_of_def simp del: jit_entry.simps split: if_splits)
  then obtain code where "j = i" "compile_fn (prog_functions prog ! i) info i = Some code"
      "entry = \<lparr>jt_native = cl_native cl (build_signature info) code, jt_params = ji_params info,
       jt_ret_type = ji_ret_type info\<rparr>"
    by (elim conjE exE)
  with x(1) \<open>x = (j, info)\<close> analyze_programD [of i info prog] show ?thesis
    by (intro that) simp_all
qed

subsection \<open>What the analysis finds in the integer fragment\<close>

lemma collect_slots_other:
  "list_all (\<lambda>ins. opcode ins \<noteq> OMem OpReserve) inss \<Longrightarrow> collect_slots inss acc = Some acc"
  by (induction inss acc rule: collect_slots.induct) auto

lemma collect_slots_reserves:
  assumes "list_all is_reserve inss" "\<forall>(k, jt) \<in> set slots. jt = JI32"
  shows "\<exists>slots'. collect_slots (inss @ rest) (slots, structs) = collect_slots rest (slots', structs)
    \<and> (\<forall>(k, jt) \<in> set slots'. jt = JI32) \<and> fst ` set slots \<subseteq> fst ` set slots'
    \<and> (\<forall>ins \<in> set inss. \<forall>d. operand_at ins 0 = Some (OpdSlot (SlLocal d)) \<longrightarrow> d \<in> fst ` set slots')"
  using assms
proof (induction inss arbitrary: slots)
  case (Cons ins inss)
  then obtain d t where ins: "opcode ins = OMem OpReserve" "operand_at ins 0 = Some (OpdSlot (SlLocal d))"
      "operand_at ins 1 = Some (OpdType t)" "jit_type_of t = Some JI32"
    by (auto elim: reserve_formE)
  define slots1 where "slots1 = sparse_insert d JI32 slots"
  have keys: "fst ` set slots1 = Set.insert d (fst ` set slots)"
    by (simp add: slots1_def sparse_insert_def dom_update)
  have "\<forall>(k, jt) \<in> set slots1. jt = JI32"
    using Cons.prems(2) unfolding slots1_def sparse_insert_def by (induction slots) (auto split: if_splits)
  from Cons.IH [OF _ this] Cons.prems(1) obtain slots' where
      "collect_slots (inss @ rest) (slots1, structs) = collect_slots rest (slots', structs)"
      "\<forall>(k, jt) \<in> set slots'. jt = JI32" "fst ` set slots1 \<subseteq> fst ` set slots'"
      "\<forall>ins \<in> set inss. \<forall>d. operand_at ins 0 = Some (OpdSlot (SlLocal d)) \<longrightarrow> d \<in> fst ` set slots'"
    by auto
  with ins keys show ?case
    by (intro exI [of _ slots']) (auto simp: slots1_def)
qed auto

lemma straight_not_reserve: "straight_instr ins \<Longrightarrow> opcode ins \<noteq> OMem OpReserve"
  by (auto simp: straight_instr_def)

lemma control_not_reserve: "control_form p n ins \<Longrightarrow> opcode ins \<noteq> OMem OpReserve"
  by (auto simp: control_form_def)

lemma collect_slots_int32:
  assumes "int32_code inss" "collect_slots inss ([], []) = Some (slots, structs)"
  shows "(\<forall>(k, jt) \<in> set slots. jt = JI32) \<and> (\<forall>k<declarations inss. \<forall>d.
    operand_at (inss ! k) 0 = Some (OpdSlot (SlLocal d)) \<longrightarrow> d \<in> fst ` set slots)"
proof -
  let ?p = "declarations inss"
  have first: "list_all is_reserve (take ?p inss)"
    unfolding declarations_def takeWhile_eq_take [symmetric] list_all_iff by (auto dest: set_takeWhileD)
  have "list_all (\<lambda>ins. opcode ins \<noteq> OMem OpReserve) (drop ?p inss)"
    using assms(1) unfolding int32_code_def by (rule list.pred_mono_strong) (auto dest: straight_not_reserve control_not_reserve)
  note rest = collect_slots_other [OF this]
  obtain slots' where s: "collect_slots (take ?p inss @ drop ?p inss) ([], []) = collect_slots (drop ?p inss) (slots', [])"
      "\<forall>(k, jt) \<in> set slots'. jt = JI32"
      "\<forall>ins \<in> set (take ?p inss). \<forall>d. operand_at ins 0 = Some (OpdSlot (SlLocal d)) \<longrightarrow> d \<in> fst ` set slots'"
    using collect_slots_reserves [OF first, of "[]" "drop ?p inss" "[]"] by auto
  have "slots = slots'"
    using s(1) assms(2) rest by simp
  moreover have "inss ! k \<in> set (take ?p inss)" if "k < ?p" for k
    using that declarations_le [of inss] by (auto simp: in_set_conv_nth intro!: exI [of _ k])
  ultimately show ?thesis
    using s(2,3) by blast
qed

lemma collect_params_int32:
  assumes "collect_params ps = Some params" "list_all (\<lambda>p. jit_type_of (par_type p) = Some JI32) ps"
  shows "params = map (\<lambda>p. (par_key p, JI32)) ps"
  using assms by (induction ps arbitrary: params) auto

text \<open>One return of a slot fixes the type of the result.\<close>

definition returns_slot :: "instruction \<Rightarrow> bool" where
  "returns_slot ins \<longleftrightarrow> opcode ins = OFlow OpRet
     \<and> (case operand_at ins 0 of Some (OpdSlot (SlLocal d)) \<Rightarrow> True | _ \<Rightarrow> False)"

lemma slots_int32: "\<forall>(k, jt) \<in> set slots. jt = JI32 \<Longrightarrow> sparse_get slots d = Some jt \<Longrightarrow> jt = JI32"
  by (auto simp: sparse_get_def dest!: map_of_SomeD)

lemma return_type_int32:
  assumes "return_type slots inss found = Some r" "\<forall>(k, jt) \<in> set slots. jt = JI32"
    and "found = Some JI32 \<or> found = None \<and> list_ex returns_slot inss"
  shows "r = Some JI32"
  using assms
proof (induction inss arbitrary: found)
  case (Cons ins inss)
  note slot = slots_int32 [OF Cons.prems(2)]
  show ?case
  proof (cases "opcode ins = OFlow OpRet")
    case False
    with Cons show ?thesis
      by (auto simp: returns_slot_def)
  next
    case True
    show ?thesis
    proof (cases "\<exists>d. operand_at ins 0 = Some (OpdSlot (SlLocal d))")
      case slot_case: True
      then obtain d where d: "operand_at ins 0 = Some (OpdSlot (SlLocal d))"
        by blast
      then have "return_type slots inss (Some JI32) = Some r"
        using Cons.prems(1,3) True slot by (cases found) (auto split: option.splits if_splits)
      then show ?thesis
        using Cons.IH [of "Some JI32"] Cons.prems(2) by simp
    next
      case False
      then have "return_type slots inss found = Some r"
        using Cons.prems(1) True by (auto split: option.splits operand.splits slot_ref.splits built_in.splits)
      moreover have "\<not> returns_slot ins"
        using False by (auto simp: returns_slot_def split: option.splits operand.splits slot_ref.splits)
      ultimately show ?thesis
        using Cons.IH [of found] Cons.prems(2,3) by auto
    qed
  qed
qed auto

subsection \<open>Numbering of blocks and variables\<close>

lemma map_of_zipD: "map_of (zip xs [a..<a + length xs]) x = Some b \<Longrightarrow> a \<le> b \<and> b - a < length xs \<and> xs ! (b - a) = x"
  by (drule map_of_SomeD) (auto simp: set_zip)

lemma map_of_zip_exists: "x \<in> set xs \<Longrightarrow> \<exists>b. map_of (zip xs [a..<a + length xs]) x = Some b"
  by (metis (no_types, lifting) add_diff_cancel_left' length_upt map_of_zip_is_Some)

lemma block_after:
  assumes "k < length inss" "ends_block (inss ! k)"
  shows "k + 1 \<in> set (block_starts inss)"
proof -
  have "k + 1 \<in> set (starts_at k (inss ! k))"
    using assms(2) by (auto simp: ends_block_def starts_at_def split: opcode.splits)
  moreover have "(k, inss ! k) \<in> set (enumerate 0 inss)"
    using assms(1) by (simp add: in_set_enumerate_eq)
  ultimately show ?thesis
    unfolding block_starts_def by force
qed

lemma env_blocks: "je_block_of (jit_env_of info inss i) = ip_to_block inss"
  by (simp add: jit_env_of_def Let_def)

definition block_number :: "nat list \<Rightarrow> nat \<Rightarrow> block option" where
  "block_number starts x = (if x = 0 then Some loop_blk else map_of (zip starts [2..<2 + length starts]) x)"

lemma block_number_large: "x \<noteq> 0 \<Longrightarrow> block_number starts x = Some b \<Longrightarrow> 2 \<le> b \<and> starts ! (b - 2) = x"
  using map_of_zipD [of starts 2 x b] by (simp add: block_number_def)

lemma block_number_inject:
  assumes "block_number starts x = Some b" "block_number starts y = Some b"
  shows "x = y"
proof (cases "x = 0 \<or> y = 0")
  case True
  then have "b = 1"
    using assms by (auto simp: block_number_def loop_blk_def)
  then show ?thesis
    using assms block_number_large [of x starts b] block_number_large [of y starts b] by force
next
  case False
  then show ?thesis
    using assms block_number_large [of x starts b] block_number_large [of y starts b] by simp
qed

lemma block_number_not_entry: "block_number starts x \<noteq> Some entry_blk"
  using block_number_large [of x starts entry_blk] by (cases "x = 0") (auto simp: block_number_def loop_blk_def entry_blk_def)

lemma blocks_ok_env: "blocks_ok (jit_env_of info inss i) inss"
proof -
  define starts where "starts = filter (\<lambda>s. s \<noteq> 0) (block_starts inss)"
  have get: "sparse_get (je_block_of (jit_env_of info inss i)) = block_number starts"
    by (simp add: env_blocks ip_to_block_def Let_def starts_def sparse_get_def block_number_def fun_eq_iff)
  have later: "block_number starts (k + 1) \<noteq> None" if "k < length inss" "ends_block (inss ! k)" for k
    using block_after [OF that] map_of_zip_exists [of "k + 1" starts 2] by (auto simp: block_number_def starts_def)
  show ?thesis
    unfolding blocks_ok_def get
  proof (intro conjI allI impI)
    show "block_number starts 0 = Some loop_blk"
      by (simp add: block_number_def)
  qed (fact block_number_inject block_number_not_entry later)+
qed

lemma sorted_slots_keys: "keys_ordered (sorted_slots info) \<and> fst ` set (sorted_slots info) = fst ` set (ji_slot_types info)"
proof -
  have "keys_ordered m \<Longrightarrow> keys_ordered (fold (\<lambda>(k, jt). btree_insert k jt) xs m)
      \<and> fst ` set (fold (\<lambda>(k, jt). btree_insert k jt) xs m) = fst ` set xs \<union> fst ` set m"
    for xs :: "(u8 \<times> jit_type) list" and m
    by (induction xs arbitrary: m) (auto simp: keys_ordered_insert split: prod.splits)
  from this [of "[]"] show ?thesis
    by (simp add: sorted_slots_def keys_ordered_def)
qed

lemma set_btree_insert: "set (btree_insert k v m) \<subseteq> Set.insert (k, v) (set m)"
  by (induction k v m rule: btree_insert.induct) auto

lemma sorted_slots_int32:
  assumes "\<forall>(k, jt) \<in> set (ji_slot_types info). jt = JI32"
  shows "\<forall>(k, jt) \<in> set (sorted_slots info). jt = JI32"
proof -
  have "\<forall>(k, jt) \<in> set xs. jt = JI32 \<Longrightarrow> \<forall>(k, jt) \<in> set m. jt = JI32
      \<Longrightarrow> \<forall>(k, jt) \<in> set (fold (\<lambda>(k, jt). btree_insert k jt) xs m). jt = JI32" for xs :: "(u8 \<times> jit_type) list" and m
  proof (induction xs arbitrary: m)
    case (Cons x xs)
    obtain k jt where x: "x = (k, jt)"
      by (cases x)
    have "\<forall>(k, jt) \<in> set (btree_insert k jt m). jt = JI32"
      using Cons.prems x set_btree_insert [of k jt m] by fastforce
    with Cons x show ?case
      by simp
  qed simp
  from this [OF assms, of "[]"] show ?thesis
    by (simp add: sorted_slots_def)
qed

text \<open>The variables: slots first, then the parameters, then the result.\<close>

definition slot_count :: "jit_fn_info \<Rightarrow> nat" where
  "slot_count info = length (sorted_slots info)"

lemma env_simps:
  "je_ret (jit_env_of info inss i) = slot_count info + length (ji_params info)"
  "je_ret_type (jit_env_of info inss i) = ji_ret_type info"
  "je_vars (jit_env_of info inss i) = zip (map fst (sorted_slots info)) [0..<slot_count info]"
  "je_loop (jit_env_of info inss i) = loop_blk"
  by (simp_all add: jit_env_of_def Let_def slot_count_def)

lemma env_slot:
  assumes "sparse_get (je_vars (jit_env_of info inss i)) d = Some x"
  shows "x < slot_count info \<and> fst (sorted_slots info ! x) = d"
  using assms map_of_zipD [of "map fst (sorted_slots info)" 0 d x] by (auto simp: env_simps sparse_get_def slot_count_def)

lemma env_slot_exists:
  assumes "d \<in> fst ` set (ji_slot_types info)"
  shows "\<exists>x. sparse_get (je_vars (jit_env_of info inss i)) d = Some x"
  using assms map_of_zip_exists [of d "map fst (sorted_slots info)" 0] sorted_slots_keys [of info]
  by (auto simp: env_simps sparse_get_def slot_count_def)

lemma fold_sparse_insert: "distinct (map fst kvs) \<Longrightarrow> set (map fst kvs) \<inter> fst ` set m = {}
    \<Longrightarrow> sparse_get (fold (\<lambda>(k, v). sparse_insert k v) kvs m) = map_of m ++ map_of kvs"
proof (induction kvs arbitrary: m)
  case (Cons kv kvs)
  obtain k v where kv: "kv = (k, v)"
    by (cases kv)
  have "sparse_get (fold (\<lambda>(k, v). sparse_insert k v) kvs (sparse_insert k v m))
      = map_of (sparse_insert k v m) ++ map_of kvs"
    using Cons.prems kv by (intro Cons.IH) (auto simp: sparse_insert_def dom_update)
  moreover have "map_of (sparse_insert k v m) = (map_of m)(k \<mapsto> v)"
    by (simp add: sparse_insert_def update_conv')
  moreover have "k \<notin> dom (map_of kvs)"
    using Cons.prems(1) kv by (auto simp: dom_map_of_conv_image_fst)
  ultimately show ?case
    using kv by (auto simp: map_add_def fun_eq_iff split: option.split)
qed (simp add: sparse_get_map_of)

lemma env_params:
  assumes "distinct (map fst (ji_params info))"
  shows "sparse_get (je_param_vars (jit_env_of info inss i))
    = map_of (zip (map fst (ji_params info)) [slot_count info..<slot_count info + length (ji_params info)])"
  using assms fold_sparse_insert [of "zip (map fst (ji_params info)) [slot_count info..<slot_count info + length (ji_params info)]" "[]"]
  by (simp add: jit_env_of_def Let_def slot_count_def)

lemma env_param:
  assumes "distinct (map fst (ji_params info))" "sparse_get (je_param_vars (jit_env_of info inss i)) k = Some x"
  shows "slot_count info \<le> x \<and> x - slot_count info < length (ji_params info) \<and> fst (ji_params info ! (x - slot_count info)) = k"
  using assms(2) map_of_zipD [of "map fst (ji_params info)" "slot_count info" k x] by (auto simp: env_params [OF assms(1)])

lemma env_param_exists:
  assumes "distinct (map fst (ji_params info))" "j < length (ji_params info)"
  shows "sparse_get (je_param_vars (jit_env_of info inss i)) (fst (ji_params info ! j)) = Some (slot_count info + j)"
  using assms unfolding env_params [OF assms(1)] by (intro map_of_is_SomeI) (auto simp: set_zip intro!: exI [of _ j])

lemma env_vars_apart:
  assumes "distinct (map fst (ji_params info))"
  shows "vars_apart (jit_env_of info inss i)"
  unfolding vars_apart_def
proof (intro allI impI conjI)
  fix d x k
  assume d: "sparse_get (je_vars (jit_env_of info inss i)) d = Some x"
  note x = env_slot [OF d]
  show "x \<noteq> je_ret (jit_env_of info inss i)"
    using x by (simp add: env_simps)
  show "e = d" if "sparse_get (je_vars (jit_env_of info inss i)) e = Some x" for e
    using x env_slot [OF that] by simp
  show "sparse_get (je_param_vars (jit_env_of info inss i)) k \<noteq> Some x"
    using x env_param [OF assms, of inss i k x] by auto
qed

subsection \<open>The prologue\<close>

lemma def_params_code:
  assumes "def_params je vals s = Some (u, s')"
  shows "cg_calls s' = cg_calls s @ map (\<lambda>(k, c). BDefVar (the (sparse_get (je_param_vars je) k)) c) vals
    \<and> cg_vars s' = cg_vars s \<and> cg_current s' = cg_current s \<and> cg_terminated s' = cg_terminated s"
  using assms
proof (induction je vals arbitrary: s rule: def_params.induct)
  case (2 je key val vals)
  then obtain x where x: "sparse_get (je_param_vars je) key = Some x"
      "def_params je vals (push_call_to (BDefVar x val) s) = Some (u, s')"
    by (cases "sparse_get (je_param_vars je) key") auto
  with "2.IH" [OF x(2)] show ?case
    by simp
qed simp

lemma params_run:
  assumes "\<And>j. j < m \<Longrightarrow> vals j \<noteq> None"
  shows "ir_run code (map (\<lambda>j. BDefVar (n + j) j) [0..<m] @ rest) (vals, vars)
    = ir_run code rest (vals, \<lambda>x. if n \<le> x \<and> x < n + m then vals (x - n) else vars x)"
  using assms
proof (induction m arbitrary: rest)
  case 0
  have "(\<lambda>x. if n \<le> x \<and> x < n + 0 then vals (x - n) else vars x) = vars"
    by (rule ext) auto
  then show ?case
    by simp
next
  case (Suc m)
  obtain y where y: "vals m = Some y"
    using Suc.prems [of m] by blast
  let ?vars = "\<lambda>x. if n \<le> x \<and> x < n + m then vals (x - n) else vars x"
  have "?vars(n + m \<mapsto> y) = (\<lambda>x. if n \<le> x \<and> x < n + Suc m then vals (x - n) else vars x)"
    using y by (auto simp: fun_eq_iff less_Suc_eq)
  with Suc.IH [of "BDefVar (n + m) m # rest"] Suc.prems y show ?case
    by (simp add: ir_run_straight)
qed

lemma runs_to_trans: "runs_to a vars vars' \<Longrightarrow> runs_to b vars' vars'' \<Longrightarrow> runs_to (a @ b) vars vars''"
  unfolding runs_to_def by (metis append_assoc)

lemma zero_vars_code:
  assumes "zero_vars vs s = Some (u, s')" "\<forall>(v, jt) \<in> set vs. jt = JI32"
  shows "cg_vars s' = cg_vars s \<and> cg_current s' = cg_current s \<and> cg_terminated s' = cg_terminated s
    \<and> (\<exists>seg. cg_calls s' = cg_calls s @ seg \<and> (\<forall>b. BSwitch b \<notin> set seg)
      \<and> (\<forall>vars. runs_to seg vars (\<lambda>x. if x \<in> fst ` set vs then Some (V32 0) else vars x)))"
  using assms
proof (induction vs arbitrary: s rule: zero_vars.induct)
  case (2 v jt vs)
  define n where "n = length (cg_types s)"
  define t where "t = push_call_to (BDefVar v n) (push_val CI32 (BIconst n CI32 0) s)"
  have "zero_vars vs t = Some (u, s')"
    using "2.prems" by (simp add: zero_val_def t_def n_def)
  from "2.IH" [OF this] "2.prems"(2) obtain seg where seg: "cg_vars s' = cg_vars s" "cg_current s' = cg_current s"
      "cg_terminated s' = cg_terminated s" "cg_calls s' = cg_calls s @ [BIconst n CI32 0, BDefVar v n] @ seg"
      "\<forall>b. BSwitch b \<notin> set seg"
      "\<And>vars. runs_to seg vars (\<lambda>x. if x \<in> fst ` set vs then Some (V32 0) else vars x)"
    by (auto simp: t_def)
  have run: "runs_to ([BIconst n CI32 0, BDefVar v n] @ seg) vars
      (\<lambda>x. if x \<in> fst ` set ((v, jt) # vs) then Some (V32 0) else vars x)" for vars
  proof (rule runs_to_trans)
    show "runs_to [BIconst n CI32 0, BDefVar v n] vars (vars(v \<mapsto> V32 0))"
      by (auto simp: runs_to_def ir_run_straight ir_set_def)
    have "(\<lambda>x. if x \<in> fst ` set vs then Some (V32 0) else (vars(v \<mapsto> V32 0)) x)
        = (\<lambda>x. if x \<in> fst ` set ((v, jt) # vs) then Some (V32 0) else vars x)"
      by (auto simp: fun_eq_iff)
    then show "runs_to seg (vars(v \<mapsto> V32 0)) (\<lambda>x. if x \<in> fst ` set ((v, jt) # vs) then Some (V32 0) else vars x)"
      using seg(6) [of "vars(v \<mapsto> V32 0)"] by simp
  qed
  show ?case
    using seg(1-5) run by (intro conjI exI [of _ "[BIconst n CI32 0, BDefVar v n] @ seg"]) auto
qed (simp add: runs_to_Nil [simplified])

text \<open>The variables after the prologue.\<close>

definition start_vars :: "jit_fn_info \<Rightarrow> (nat \<Rightarrow> ir_val option) \<Rightarrow> variable \<Rightarrow> ir_val option" where
  "start_vars info vals = (\<lambda>x.
     if x < slot_count info \<or> x = slot_count info + length (ji_params info) then Some (V32 0)
     else if slot_count info \<le> x \<and> x < slot_count info + length (ji_params info) then vals (x - slot_count info)
     else None)"

definition all_int32 :: "jit_fn_info \<Rightarrow> bool" where
  "all_int32 info \<longleftrightarrow> (\<forall>(k, jt) \<in> set (ji_slot_types info). jt = JI32) \<and> ji_ret_type info = JI32
     \<and> (\<forall>(k, jt) \<in> set (ji_params info). jt = JI32) \<and> distinct (map fst (ji_params info))"

lemma prologue_code:
  assumes "emit_prologue info (jit_env_of info inss i) s = Some (u, s')" "all_int32 info" "cg_calls s = []"
  shows "cg_vars s' = cg_vars s \<and> cg_current s' = cg_current s \<and> cg_terminated s' = cg_terminated s
    \<and> (\<exists>seg. cg_calls s' = BSwitch entry_blk # map (\<lambda>j. BDefVar (slot_count info + j) j) [0..<length (ji_params info)]
          @ seg @ [BJump loop_blk, BSwitch loop_blk] \<and> (\<forall>b. BSwitch b \<notin> set seg)
        \<and> (\<forall>vars. runs_to seg vars (\<lambda>x. if x < slot_count info \<or> x = slot_count info + length (ji_params info)
             then Some (V32 0) else vars x)))"
proof -
  let ?je = "jit_env_of info inss i" and ?m = "length (ji_params info)" and ?n = "slot_count info"
  have info: "\<forall>(k, jt) \<in> set (ji_slot_types info). jt = JI32" "ji_ret_type info = JI32" "distinct (map fst (ji_params info))"
    using assms(2) by (simp_all add: all_int32_def)
  define s1 where "s1 = push_call_to (BSwitch entry_blk) s"
  from assms(1) obtain s2 s3 s4 u2 u3 u4 where
      s2: "def_params ?je (zip (map fst (ji_params info)) [0..<?m]) s1 = Some (u2, s2)" and
      s3: "zero_vars (zip (map snd (je_vars ?je)) (map snd (sorted_slots info))) s2 = Some (u3, s3)" and
      s4: "zero_vars [(je_ret ?je, ji_ret_type info)] s3 = Some (u4, s4)" and
      s': "s' = push_call_to (BSwitch loop_blk) (push_call_to (BJump loop_blk) s4)"
    by (auto simp: emit_prologue_def s1_def cg_bind_eq simp del: zero_vars.simps split: option.splits)
  have "zip (map fst (ji_params info)) [0..<?m] = map (\<lambda>j. (fst (ji_params info ! j), j)) [0..<?m]"
    by (rule nth_equalityI) auto
  then have calls2: "cg_calls s2 = BSwitch entry_blk # map (\<lambda>j. BDefVar (?n + j) j) [0..<?m]"
    using def_params_code [OF s2] assms(3) env_param_exists [OF info(3), of _ inss i] by (simp add: s1_def)
  have types: "\<forall>(v, jt) \<in> set (zip (map snd (je_vars ?je)) (map snd (sorted_slots info))). jt = JI32"
    using sorted_slots_int32 [OF info(1)] by (fastforce dest!: set_zip_rightD)
  have vars: "fst ` set (zip (map snd (je_vars ?je)) (map snd (sorted_slots info))) = {..<?n}"
    by (simp add: env_simps slot_count_def atLeast0LessThan flip: set_map)
  obtain seg3 where seg3: "cg_calls s3 = cg_calls s2 @ seg3" "\<forall>b. BSwitch b \<notin> set seg3"
      "\<And>vars. runs_to seg3 vars (\<lambda>x. if x < ?n then Some (V32 0) else vars x)"
    using zero_vars_code [OF s3 types] unfolding vars by auto
  obtain seg4 where seg4: "cg_calls s4 = cg_calls s3 @ seg4" "\<forall>b. BSwitch b \<notin> set seg4"
      "\<And>vars. runs_to seg4 vars (\<lambda>x. if x = ?n + ?m then Some (V32 0) else vars x)"
    using zero_vars_code [OF s4] info(2) by (auto simp: env_simps)
  have run: "runs_to (seg3 @ seg4) vars (\<lambda>x. if x < ?n \<or> x = ?n + ?m then Some (V32 0) else vars x)" for vars
  proof -
    have "(\<lambda>x. if x = ?n + ?m then Some (V32 0) else if x < ?n then Some (V32 0) else vars x)
        = (\<lambda>x. if x < ?n \<or> x = ?n + ?m then Some (V32 0) else vars x)"
      by auto
    with runs_to_trans [OF seg3(3) [of vars] seg4(3)] show ?thesis
      by simp
  qed
  show ?thesis
    using def_params_code [OF s2] zero_vars_code [OF s3 types] zero_vars_code [OF s4] info(2) calls2 seg3(1,2) seg4(1,2) run
    by (intro conjI exI [of _ "seg3 @ seg4"]) (auto simp: s' s1_def)
qed

subsection \<open>Arguments\<close>

definition int32_args :: "(u32 \<times> fasm_value) list \<Rightarrow> (u32 \<times> jit_type) list \<Rightarrow> bool" where
  "int32_args args params \<longleftrightarrow> list_all (\<lambda>(k, jt). case struct_get args k of
     Some v \<Rightarrow> word_of v \<noteq> None | None \<Rightarrow> False) params"

lemma value_to_i64_word: "word_of v = Some w \<Longrightarrow> \<exists>b. value_to_i64 v = Some b \<and> ucast b = w"
  by (erule word_ofE) (auto simp: value_to_i64_def ucast_scast_i32)

lemma pack_int32:
  assumes "int32_args args params"
  shows "\<exists>packed. pack_fields args params = Some packed \<and> length packed = length params
    \<and> (\<forall>j<length params. \<exists>v w. struct_get args (fst (params ! j)) = Some v \<and> word_of v = Some w \<and> ucast (packed ! j) = w)"
  using assms
proof (induction args params rule: pack_fields.induct)
  case (2 args k jt params)
  then obtain v w where v: "struct_get args k = Some v" "word_of v = Some w"
    by (auto simp: int32_args_def split: option.splits)
  obtain b where b: "value_to_i64 v = Some b" "ucast b = w"
    using value_to_i64_word [OF v(2)] by blast
  have "int32_args args params"
    using 2(2) by (simp add: int32_args_def)
  from 2(1) [OF v(1) b(1) this] obtain packed where p: "pack_fields args params = Some packed" "length packed = length params"
      "\<forall>j<length params. \<exists>v w. struct_get args (fst (params ! j)) = Some v \<and> word_of v = Some w \<and> ucast (packed ! j) = w"
    by blast
  have "\<exists>v w. struct_get args (fst (((k, jt) # params) ! j)) = Some v \<and> word_of v = Some w \<and> ucast ((b # packed) ! j) = w"
    if "j < length ((k, jt) # params)" for j
    using that v b p(3) by (cases j) auto
  then show ?case
    using v b p(1,2) by (intro exI [of _ "b # packed"]) auto
qed simp

subsection \<open>A compiled function\<close>

lemma int32_types: "\<forall>(k, jt) \<in> set xs. jt = JI32 \<Longrightarrow> map (jit_ir_type \<circ> snd) xs = replicate (length xs) CI32"
  by (induction xs) auto

lemma start_int_vars:
  assumes "all_int32 info" "cg_vars s = cg_vars (codegen_start info inss)"
  shows "int_vars (jit_env_of info inss i) s"
proof -
  have slots: "\<forall>(k, jt) \<in> set (sorted_slots info). jt = JI32"
    using assms(1) by (intro sorted_slots_int32) (simp add: all_int32_def)
  have vars: "cg_vars s = replicate (slot_count info + length (ji_params info) + 1) CI32"
    using assms int32_types [OF slots] int32_types [of "ji_params info"]
    by (simp add: codegen_start_def all_int32_def slot_count_def replicate_add replicate_append_same)
  show ?thesis
    unfolding int_vars_def
  proof (intro conjI allI impI)
    fix d v
    assume "sparse_get (je_vars (jit_env_of info inss i)) d = Some v"
    then show "cg_vars s ! v = CI32"
      using env_slot unfolding vars by (fastforce intro: nth_replicate)
  next
    fix k v
    assume "sparse_get (je_param_vars (jit_env_of info inss i)) k = Some v"
    then show "cg_vars s ! v = CI32"
      using env_param [of info inss i k v] assms(1) unfolding vars by (intro nth_replicate) (auto simp: all_int32_def)
  qed (use assms(1) in \<open>simp_all add: env_simps all_int32_def vars del: replicate.simps\<close>)
qed

lemma compile_fnD:
  assumes "compile_fn fd info i = Some code" "all_int32 info"
  defines "je \<equiv> jit_env_of info (fun_instrs fd) i"
  shows "\<exists>f pre. laid_out je (fun_instrs fd) f \<and> begins (f 0) \<and> int_vars je (f 0)
    \<and> code = cg_calls (f (length (fun_instrs fd)))
        @ (if cg_terminated (f (length (fun_instrs fd))) then [] else [BIconst (length (cg_types (f (length (fun_instrs fd))))) CI32 0,
            BReturn (length (cg_types (f (length (fun_instrs fd)))))])
    \<and> cg_calls (f 0) = BSwitch entry_blk # map (\<lambda>j. BDefVar (slot_count info + j) j) [0..<length (ji_params info)]
          @ pre @ [BJump loop_blk, BSwitch loop_blk]
    \<and> (\<forall>vars. runs_to pre vars (\<lambda>x. if x < slot_count info \<or> x = slot_count info + length (ji_params info)
             then Some (V32 0) else vars x))"
proof -
  let ?start = "codegen_start info (fun_instrs fd)" and ?n = "length (fun_instrs fd)"
  have ret: "ji_ret_type info = JI32"
    using assms(2) by (simp add: all_int32_def)
  from assms(1) obtain u u' s0 s1 s2 u2 where
      s0: "emit_prologue info je ?start = Some (u, s0)" and s1: "compile_body je 0 (fun_instrs fd) s0 = Some (u', s1)"
      and s2: "emit_epilogue info s1 = Some (u2, s2)" and code: "code = cg_calls s2"
    by (auto simp: compile_fn_def je_def Let_def cg_bind_eq split: option.splits)
  obtain seg where s0_props: "cg_vars s0 = cg_vars ?start" "cg_current s0 = loop_blk" "\<not> cg_terminated s0"
      and calls: "cg_calls s0 = BSwitch entry_blk # map (\<lambda>j. BDefVar (slot_count info + j) j) [0..<length (ji_params info)]
          @ seg @ [BJump loop_blk, BSwitch loop_blk]" "\<forall>b. BSwitch b \<notin> set seg"
      and run: "\<forall>vars. runs_to seg vars (\<lambda>x. if x < slot_count info \<or> x = slot_count info + length (ji_params info)
             then Some (V32 0) else vars x)"
    using prologue_code [OF s0 [unfolded je_def] assms(2)] by (auto simp: codegen_start_def)
  obtain f where f: "f 0 = enter je 0 s0" "f ?n = s1" "laid_out je (fun_instrs fd) f"
    using compile_body_states [OF s1] by (auto simp: laid_out_def)
  have "sparse_get (je_block_of je) 0 = Some (cg_current s0)"
    using blocks_okD(1) [OF blocks_ok_env] s0_props(2) by (simp add: je_def)
  then have f0: "f 0 = s0"
    using f(1) by (simp add: enter_def enter_block_def)
  have "begins (f 0)"
    using s0_props(2,3) calls by (auto simp: begins_def f0
        intro!: exI [of _ "BSwitch entry_blk # map (\<lambda>j. BDefVar (slot_count info + j) j) [0..<length (ji_params info)] @ seg @ [BJump loop_blk]"])
  moreover have "int_vars je (f 0)"
    using start_int_vars [OF assms(2)] s0_props(1) by (simp add: f0 je_def)
  moreover have "cg_calls s2 = cg_calls s1 @ (if cg_terminated s1 then [] else [BIconst (length (cg_types s1)) CI32 0,
      BReturn (length (cg_types s1))])"
    using s2 ret by (auto simp: emit_epilogue_def zero_val_def split: if_splits)
  ultimately show ?thesis
    using f(2,3) code calls(1) run by (intro exI [of _ f] exI [of _ seg]) (simp add: f0)
qed

lemma block_code_first: "block_code (BSwitch b # rest) b = rest"
  by (simp add: block_code_def)

lemma compiled_setting:
  assumes "compile_fn fd info i = Some code" "all_int32 info" "nth_opt (prog_functions (env_program e)) i = Some fd"
    and "int32_code (fun_instrs fd)" "\<forall>k<declarations (fun_instrs fd). \<forall>d.
      operand_at (fun_instrs fd ! k) 0 = Some (OpdSlot (SlLocal d)) \<longrightarrow> d \<in> fst ` set (ji_slot_types info)"
  defines "je \<equiv> jit_env_of info (fun_instrs fd) i"
  shows "\<exists>f. setting e i fd je f code \<and> (\<forall>vals. (\<forall>j<length (ji_params info). vals j \<noteq> None) \<longrightarrow>
    (\<exists>vals'. ir_run code (block_code code entry_blk) (vals, Map.empty)
      = ir_run code (code_from f code 0) (vals', start_vars info vals)))"
proof -
  let ?n = "length (fun_instrs fd)"
  let ?params = "map (\<lambda>j. BDefVar (slot_count info + j) j) [0..<length (ji_params info)]"
  obtain f pre where f: "laid_out je (fun_instrs fd) f" "begins (f 0)" "int_vars je (f 0)"
    and code: "code = cg_calls (f ?n) @ (if cg_terminated (f ?n) then [] else
        [BIconst (length (cg_types (f ?n))) CI32 0, BReturn (length (cg_types (f ?n)))])"
    and f0: "cg_calls (f 0) = BSwitch entry_blk # ?params @ pre @ [BJump loop_blk, BSwitch loop_blk]"
    and run: "\<And>vars. runs_to pre vars (\<lambda>x. if x < slot_count info \<or> x = slot_count info + length (ji_params info)
             then Some (V32 0) else vars x)"
    using compile_fnD [OF assms(1,2)] unfolding je_def by auto
  have whole: "whole je (fun_instrs fd) f code"
    using f(1,2) code blocks_ok_env unfolding whole_def je_def by blast
  have "\<not> cg_terminated (f ?n)"
    using laid_out_positions [OF wholeD(1-3) [OF whole]] by (simp add: at_position_def)
  then have "code_from f code ?n = [BIconst (length (cg_types (f ?n))) CI32 0, BReturn (length (cg_types (f ?n)))]"
    using code by (simp add: code_from_def)
  moreover have "vars_apart je"
    using assms(2) unfolding je_def by (intro env_vars_apart) (simp add: all_int32_def)
  moreover have "\<exists>x. sparse_get (je_vars je) d = Some x"
    if "k < declarations (fun_instrs fd)" "operand_at (fun_instrs fd ! k) 0 = Some (OpdSlot (SlLocal d))" for k d
    using that assms(5) unfolding je_def by (intro env_slot_exists) blast
  ultimately have set: "setting e i fd je f code"
    using assms(3,4) whole f(3) unfolding setting_def by (metis option.distinct(1))
  have "\<exists>vals'. ir_run code (block_code code entry_blk) (vals, Map.empty)
      = ir_run code (code_from f code 0) (vals', start_vars info vals)"
    if vals: "\<forall>j<length (ji_params info). vals j \<noteq> None" for vals
  proof -
    let ?vars = "\<lambda>x. if slot_count info \<le> x \<and> x < slot_count info + length (ji_params info)
      then vals (x - slot_count info) else None"
    let ?rest = "[BJump loop_blk, BSwitch loop_blk] @ code_from f code 0"
    have "code = BSwitch entry_blk # ?params @ pre @ ?rest"
      using code_from [OF whole, of 0] f0 by simp
    then have "block_code code entry_blk = ?params @ pre @ ?rest"
      by (metis block_code_first)
    then have "ir_run code (block_code code entry_blk) (vals, Map.empty) = ir_run code (pre @ ?rest) (vals, ?vars)"
      using params_run [of "length (ji_params info)" vals] vals by simp
    moreover obtain vals' where "ir_run code (pre @ ?rest) (vals, ?vars) = ir_run code ?rest (vals', start_vars info vals)"
      using run [of ?vars] unfolding runs_to_def start_vars_def by blast
    moreover have "ir_run code ?rest (vals', start_vars info vals) = ir_run code (code_from f code 0) (vals', start_vars info vals)"
      using block_at [OF whole _ blocks_okD(1) [OF wholeD(1) [OF whole]]] by (simp add: ir_run_jump)
    ultimately show ?thesis
      by auto
  qed
  with set show ?thesis
    by blast
qed

lemma start_tracks:
  assumes "all_int32 info" "\<And>j. j < length (ji_params info) \<Longrightarrow> \<exists>v w. struct_get args (fst (ji_params info ! j)) = Some v
      \<and> word_of v = Some w \<and> vals j = Some (V32 w)"
    and "vm_call_stack s = []"
  shows "tracks (jit_env_of info inss i) i args p (push_call i (VStruct args) s) 0 (start_vars info vals)"
proof (rule tracksI)
  let ?je = "jit_env_of info inss i"
  have d: "distinct (map fst (ji_params info))"
    using assms(1) by (simp add: all_int32_def)
  have slot: "start_vars info vals x = Some (V32 0)" if "sparse_get (je_vars ?je) k = Some x" for k x
    using env_slot [OF that] by (simp add: start_vars_def)
  then show "\<forall>k x. sparse_get (je_vars ?je) k = Some x \<longrightarrow> start_vars info vals x = Some (V32 0)"
    by blast
  have "\<exists>v w. struct_get args k = Some v \<and> word_of v = Some w \<and> start_vars info vals x = Some (V32 w)"
    if "sparse_get (je_param_vars ?je) k = Some x" for k x
    using env_param [OF d that] assms(2) [of "x - slot_count info"] by (auto simp: start_vars_def)
  then show "vars_agree ?je args (start_vars info vals)"
    using slot by (auto simp: vars_agree_def env_simps start_vars_def)
  show "vm_call_stack (push_call i (VStruct args) s) = [call_frame_new i (VStruct args)]"
    by (simp add: push_call_def assms(3))
qed (simp_all add: call_frame_new_def slots_agree_def frame_store.get_fresh)

subsection \<open>Agreement of the tiers\<close>

text \<open>The functions and arguments of the integer fragment.\<close>

definition int32_function :: "function_def \<Rightarrow> bool" where
  "int32_function fd \<longleftrightarrow> int32_code (fun_instrs fd) \<and> list_ex returns_slot (fun_instrs fd)
     \<and> list_all (\<lambda>p. jit_type_of (par_type p) = Some JI32) (fun_params fd)
     \<and> distinct (map par_key (fun_params fd)) \<and> length (fun_params fd) \<le> 8"

lemma int32_analysis:
  assumes "int32_function fd" "analyze_function fd i = Some info"
  shows "all_int32 info \<and> ji_params info = map (\<lambda>p. (par_key p, JI32)) (fun_params fd)
    \<and> (\<forall>k<declarations (fun_instrs fd). \<forall>d. operand_at (fun_instrs fd ! k) 0 = Some (OpdSlot (SlLocal d))
        \<longrightarrow> d \<in> fst ` set (ji_slot_types info))"
proof -
  have fd: "int32_code (fun_instrs fd)" "list_ex returns_slot (fun_instrs fd)"
      "list_all (\<lambda>p. jit_type_of (par_type p) = Some JI32) (fun_params fd)" "distinct (map par_key (fun_params fd))"
    using assms(1) by (simp_all add: int32_function_def)
  obtain slots structs params found where a: "collect_slots (fun_instrs fd) ([], []) = Some (slots, structs)"
      "collect_params (fun_params fd) = Some params" "return_type slots (fun_instrs fd) None = Some found"
    and info: "ji_slot_types info = slots" "ji_params info = params" "ji_ret_type info = (case found of Some jt \<Rightarrow> jt | None \<Rightarrow> JI64)"
    using assms(2) by (auto simp: analyze_function_def split: option.splits if_splits)
  note slots = collect_slots_int32 [OF fd(1) a(1)]
  note params = collect_params_int32 [OF a(2) fd(3)]
  have "found = Some JI32"
    using return_type_int32 [OF a(3)] slots fd(2) by blast
  then show ?thesis
    using slots params info fd(4) by (auto simp: all_int32_def o_def)
qed

lemma tiers_agree:
  assumes cl: "cranelift_ok cl" "jit_compile cl (env_program e) = Some cache" "sparse_get cache i = Some entry"
    and fd: "nth_opt (prog_functions (env_program e)) i = Some fd" "int32_function fd"
    and args: "int32_args args (map (\<lambda>p. (par_key p, JI32)) (fun_params fd))"
    and run: "run_loop e (push_call i (VStruct args) s) = Some (SStop (Inr v) t)" "vm_call_stack s = []"
  shows "\<exists>w. ret_word v = Some w \<and> dispatch cache i (VStruct args) = Answered (Some (VInt32 w))"
proof -
  obtain info code where c: "i < length (prog_functions (env_program e))"
      "analyze_function (prog_functions (env_program e) ! i) i = Some info"
      "compile_fn (prog_functions (env_program e) ! i) info i = Some code"
      "entry = \<lparr>jt_native = cl_native cl (build_signature info) code, jt_params = ji_params info, jt_ret_type = ji_ret_type info\<rparr>"
    using cached_entry [OF cl(2,3)] by metis
  have "prog_functions (env_program e) ! i = fd"
    using fd(1) c(1) by (simp add: nth_opt_def del: nth_opt_Some)
  note c = c(2,3) [unfolded this] c(4)
  note info = int32_analysis [OF fd(2) c(1)]
  let ?je = "jit_env_of info (fun_instrs fd) i" and ?m = "length (ji_params info)"
  have "int32_args args (ji_params info)"
    using args info by simp
  from pack_int32 [OF this] obtain packed where packed: "pack_fields args (ji_params info) = Some packed" "length packed = ?m"
      "\<And>j. j < ?m \<Longrightarrow> \<exists>v w. struct_get args (fst (ji_params info ! j)) = Some v \<and> word_of v = Some w \<and> ucast (packed ! j) = w"
    by blast
  define vals where "vals = ir_entry_vals (fst (build_signature info)) packed"
  have ret: "ji_ret_type info = JI32" and types: "\<forall>(k, jt) \<in> set (ji_params info). jt = JI32"
    using info by (simp_all add: all_int32_def)
  have val: "vals j = Some (V32 (ucast (packed ! j)))" if "j < ?m" for j
    using that packed(2) by (simp add: vals_def ir_entry_vals_def build_signature_def int32_types [OF types])
  obtain f where set: "setting e i fd ?je f code" and prologue: "\<forall>vals. (\<forall>j<?m. vals j \<noteq> None) \<longrightarrow>
    (\<exists>vals'. ir_run code (block_code code entry_blk) (vals, Map.empty)
      = ir_run code (code_from f code 0) (vals', start_vars info vals))"
    using compiled_setting [OF c(2) _ fd(1)] info fd(2) by (auto simp: int32_function_def)
  then obtain vals' where start: "ir_run code (block_code code entry_blk) (vals, Map.empty)
      = ir_run code (code_from f code 0) (vals', start_vars info vals)"
    using val by blast
  have tr: "tracks ?je i args (declarations (fun_instrs fd)) (push_call i (VStruct args) s) 0 (start_vars info vals)"
    by (rule start_tracks) (use info packed(3) val run(2) in fastforce)+
  obtain n where "run_rounds e n (push_call i (VStruct args) s) = Some (SStop (Inr v) t)"
    using run_loop_rounds [OF run(1)] by blast
  then have "code_returns f code 0 (start_vars info vals) v"
    by (rule rounds_agree [OF set _ tr, rotated]) simp
  then obtain w where w: "ret_word v = Some w" "ir_call (build_signature info) code packed = Some (Some (V32 w))"
    using start by (auto simp: code_returns_def ir_call_def vals_def)
  obtain raw where "cl_native cl (build_signature info) code packed = NativeReturn raw" "ucast raw = w"
    using cl(1) w(2) unfolding cranelift_ok_def by blast
  moreover have "length packed \<le> 8"
    using packed(2) info fd(2) by (simp add: int32_function_def)
  ultimately have "dispatch cache i (VStruct args) = Answered (Some (VInt32 w))"
    using cl(3) c(3) packed(1) ret by (simp add: dispatch_def call_jit_def pack_args_def unpack_ret_def)
  with w(1) show ?thesis
    by blast
qed

lemma function_index_nth:
  assumes "get_function_index prog func = Some i"
  shows "nth_opt (prog_functions prog) i = Some (prog_functions prog ! i)"
  using get_function_index_in_range [OF assms] by (simp add: nth_opt_def del: nth_opt_Some)

lemma named_loop:
  assumes "run_named e func args s = Some r" "get_function_index (env_program e) func = Some i"
  shows "\<exists>s1. run_loop e (push_call i args s1) = Some r \<and> vm_call_stack s1 = vm_call_stack s"
  using assms by (auto simp: run_named_def intro!: exI [of _ "s\<lparr>vm_globals := init_globals (env_program e) (vm_globals s)\<rparr>"])

text \<open>C8. Interpreter and JIT agree on the 32-bit integer fragment: when the interpreter returns, the
  compiled function returns the same number, provided machine code does what the documentation of
  the library says.  A BOOL comes back from the JIT as the INT32 0 or 1, and NULL as the INT32 0.\<close>

theorem jit_agrees_with_interpreter:
  assumes "cranelift_ok cl" "jit_compile cl (env_program e) = Some cache" "sparse_get cache i = Some entry"
    and "get_function_index (env_program e) func = Some i" "int32_function (prog_functions (env_program e) ! i)"
    and "int32_args args (map (\<lambda>p. (par_key p, JI32)) (fun_params (prog_functions (env_program e) ! i)))"
    and "vm_call_stack s = []" "run_named e func (VStruct args) s = Some (SStop (Inr v) t)"
  shows "\<exists>w. ret_word v = Some w \<and> dispatch cache i (VStruct args) = Answered (Some (VInt32 w))"
proof -
  obtain s1 where "run_loop e (push_call i (VStruct args) s1) = Some (SStop (Inr v) t)" "vm_call_stack s1 = []"
    using named_loop [OF assms(8,4)] assms(7) by auto
  with tiers_agree [OF assms(1-3) function_index_nth [OF assms(4)] assms(5,6)] show ?thesis
    by blast
qed

text \<open>The sum of the numbers up to the argument.\<close>

definition countdown :: function_def where
  "countdown = \<lparr>fun_name = ascii ''Sum'',
     fun_params = [\<lparr>par_key = 0, par_type = TyInt32, par_name = ascii ''n'', par_required = True\<rparr>],
     fun_instrs =
       [instr_new (OMem OpReserve) [OpdSlot (SlLocal 0), OpdType TyInt32, OpdImm ImNull],
        instr_new (OMem OpReserve) [OpdSlot (SlLocal 1), OpdType TyInt32, OpdImm ImNull],
        instr_new (OColl OpGetField) [OpdSlot (SlBuiltIn BiArgs), OpdKey 0, OpdSlot (SlLocal 0)],
        instr_new (OArith OpAdd) [OpdSlot (SlLocal 1), OpdSlot (SlLocal 0), OpdSlot (SlLocal 1)],
        instr_new (OArith OpSub) [OpdSlot (SlLocal 0), OpdImm (ImInt32 1), OpdSlot (SlLocal 0)],
        instr_new (OFlow OpJnz) [OpdSlot (SlLocal 0), OpdLabelTarget 3],
        instr_new (OFlow OpRet) [OpdSlot (SlLocal 1)]]\<rparr>"

definition countdown_program :: program where
  "countdown_program = program_new\<lparr>prog_functions := [countdown]\<rparr>"

definition countdown_info :: jit_fn_info where
  "countdown_info = \<lparr>ji_slot_types = [(0, JI32), (1, JI32)], ji_accumulators = [], ji_params = [(0, JI32)],
     ji_ret_type = JI32\<rparr>"

lemma compiled_alone:
  assumes "analyze_program prog = [(0, info)]" "compile_fn (prog_functions prog ! 0) info 0 \<noteq> None"
  shows "\<exists>cache entry. jit_compile reference_machine prog = Some cache \<and> sparse_get cache 0 = Some entry"
  using assms by (auto simp: jit_compile_def compile_program_def jit_entry_of_def reference_machine_def sparse_get_def)

lemma countdown_compiles:
  "\<exists>cache entry. jit_compile reference_machine countdown_program = Some cache \<and> sparse_get cache 0 = Some entry"
proof (rule compiled_alone)
  show "analyze_program countdown_program = [(0, countdown_info)]"
    by code_simp
  show "compile_fn (prog_functions countdown_program ! 0) countdown_info 0 \<noteq> None"
    by code_simp
qed

lemma countdown_runs:
  "\<exists>t. run_named (executor_new countdown_program) (ascii ''Sum'') (VStruct [(0, VInt32 2)]) (vm_new [])
    = Some (SStop (Inr (VInt32 3)) t)"
proof -
  have "case run_rounds (executor_new countdown_program) 10 (push_call 0 (VStruct [(0, VInt32 2)]) (vm_new [])) of
      Some (SStop (Inr (VInt32 v)) t) \<Rightarrow> v = 3 | _ \<Rightarrow> False"
    by code_simp
  then obtain t where "run_rounds (executor_new countdown_program) 10 (push_call 0 (VStruct [(0, VInt32 2)]) (vm_new []))
      = Some (SStop (Inr (VInt32 3)) t)"
    by (auto split: option.splits step_result.splits sum.splits val_splits)
  then have "run_loop (executor_new countdown_program) (push_call 0 (VStruct [(0, VInt32 2)]) (vm_new []))
      = Some (SStop (Inr (VInt32 3)) t)"
    by (rule run_rounds_loop)
  moreover have "get_function_index countdown_program (ascii ''Sum'') = Some 0"
    by code_simp
  ultimately show ?thesis
    by (simp add: run_named_def executor_new_def init_globals_def countdown_program_def program_new_def vm_new_def)
qed

lemma jit_agrees_with_interpreter_witness:
  "\<exists>cache. jit_compile reference_machine countdown_program = Some cache
    \<and> dispatch cache 0 (VStruct [(0, VInt32 2)]) = Answered (Some (VInt32 3))"
proof -
  obtain cache entry where c: "jit_compile reference_machine (env_program (executor_new countdown_program)) = Some cache"
      "sparse_get cache 0 = Some entry"
    using countdown_compiles by (auto simp: executor_new_def)
  obtain t where run: "run_named (executor_new countdown_program) (ascii ''Sum'') (VStruct [(0, VInt32 2)]) (vm_new [])
      = Some (SStop (Inr (VInt32 3)) t)"
    using countdown_runs by blast
  have index: "get_function_index (env_program (executor_new countdown_program)) (ascii ''Sum'') = Some 0"
    by code_simp
  have fd: "int32_function (prog_functions (env_program (executor_new countdown_program)) ! 0)"
    by code_simp
  have args: "int32_args [(0, VInt32 2)]
      (map (\<lambda>p. (par_key p, JI32)) (fun_params (prog_functions (env_program (executor_new countdown_program)) ! 0)))"
    by code_simp
  have "vm_call_stack (vm_new []) = []"
    by (simp add: vm_new_def)
  from jit_agrees_with_interpreter [OF reference_machine_ok c index fd args this run] c(1) show ?thesis
    by (auto simp: ret_word_def executor_new_def)
qed

subsection \<open>Where the tiers differ\<close>

definition initial_demo :: "i32 \<Rightarrow> function_def" where
  "initial_demo n = \<lparr>fun_name = ascii ''Start'', fun_params = [],
     fun_instrs =
       [instr_new (OMem OpReserve) [OpdSlot (SlLocal 0), OpdType TyInt32, OpdImm (ImInt32 n)],
        instr_new (OFlow OpRet) [OpdSlot (SlLocal 0)]]\<rparr>"

definition initial_program :: "i32 \<Rightarrow> program" where
  "initial_program n = program_new\<lparr>prog_functions := [initial_demo n]\<rparr>"

definition initial_info :: jit_fn_info where
  "initial_info = \<lparr>ji_slot_types = [(0, JI32)], ji_accumulators = [], ji_params = [], ji_ret_type = JI32\<rparr>"

definition initial_code :: "builder_call list" where
  "initial_code = [BSwitch 0, BIconst 0 CI32 0, BDefVar 0 0, BIconst 1 CI32 0, BDefVar 1 1, BJump 1, BSwitch 1,
     BUseVar 2 0, BReturn 2, BSwitch 2, BIconst 3 CI32 0, BReturn 3]"

lemma initial_compiled:
  "analyze_program (initial_program n) = [(0, initial_info)]"
  "compile_fn (initial_demo n) initial_info 0 = Some initial_code"
  by code_simp+

lemma initial_call: "ir_call (build_signature initial_info) initial_code [] = Some (Some (V32 0))"
  by (simp add: ir_call_def initial_code_def block_code_def entry_blk_def ir_run_straight ir_run_jump ir_run_return
      ir_set_def)

lemma initial_runs:
  "\<exists>t. run_loop (executor_new (initial_program n)) (push_call 0 (VStruct []) (vm_new [])) = Some (SStop (Inr (VInt32 n)) t)"
proof -
  have "case run_rounds (executor_new (initial_program n)) 2 (push_call 0 (VStruct []) (vm_new [])) of
      Some (SStop (Inr (VInt32 v)) t) \<Rightarrow> v = n | _ \<Rightarrow> False"
    by code_simp
  then obtain t where "run_rounds (executor_new (initial_program n)) 2 (push_call 0 (VStruct []) (vm_new []))
      = Some (SStop (Inr (VInt32 n)) t)"
    by (auto split: option.splits step_result.splits sum.splits val_splits)
  then show ?thesis
    by (blast intro: run_rounds_loop)
qed

text \<open>The JIT drops the initial value of a RESERVE: a function that declares a slot with an
  initial value and returns it gives that value in the interpreter and 0 when it is compiled.\<close>

theorem jit_drops_initial_value:
  assumes "cranelift_ok cl" "jit_compile cl (initial_program n) = Some cache"
  shows "dispatch cache 0 (VStruct []) = Answered (Some (VInt32 0))
    \<and> (\<exists>t. run_loop (executor_new (initial_program n)) (push_call 0 (VStruct []) (vm_new [])) = Some (SStop (Inr (VInt32 n)) t))"
proof -
  let ?sig = "build_signature initial_info"
  have parts: "prog_functions (initial_program n) ! 0 = initial_demo n" "ji_params initial_info = []" "ji_ret_type initial_info = JI32"
    by (simp_all add: initial_program_def initial_info_def)
  have "jit_entry_of cl (initial_program n) (0, initial_info) = (if cl_accepts cl ?sig initial_code
      then Some (0, \<lparr>jt_native = cl_native cl ?sig initial_code, jt_params = [], jt_ret_type = JI32\<rparr>) else None)"
    by (simp add: jit_entry_of_def parts initial_compiled(2))
  then have "cache = [(0, \<lparr>jt_native = cl_native cl ?sig initial_code, jt_params = [], jt_ret_type = JI32\<rparr>)]"
    using assms(2) by (simp add: jit_compile_def compile_program_def initial_compiled(1) split: if_splits)
  moreover obtain raw where "cl_native cl ?sig initial_code [] = NativeReturn raw" "ucast raw = (0 :: i32)"
    using assms(1) initial_call unfolding cranelift_ok_def by blast
  ultimately have "dispatch cache 0 (VStruct []) = Answered (Some (VInt32 0))"
    by (simp add: dispatch_def sparse_get_def call_jit_def pack_args_def unpack_ret_def)
  with initial_runs show ?thesis
    by blast
qed

lemma jit_drops_initial_value_witness:
  "\<exists>cache t. jit_compile reference_machine (initial_program 42) = Some cache
    \<and> dispatch cache 0 (VStruct []) = Answered (Some (VInt32 0))
    \<and> run_loop (executor_new (initial_program 42)) (push_call 0 (VStruct []) (vm_new [])) = Some (SStop (Inr (VInt32 42)) t)"
proof -
  have "compile_fn (prog_functions (initial_program 42) ! 0) initial_info 0 \<noteq> None"
    by (simp add: initial_program_def initial_compiled)
  then obtain cache where "jit_compile reference_machine (initial_program 42) = Some cache"
    using compiled_alone [OF initial_compiled(1)] by blast
  with jit_drops_initial_value [OF reference_machine_ok this] show ?thesis
    by blast
qed

end
