(* ===== verification/Fasm_Chars.thy ===== *)
theory Fasm_Chars
  imports Fasm_Texts
begin

text \<open>
  The characters of a text: \<open>str::from_utf8\<close> and \<open>read_to_string\<close> on bytes that \<open>utf8_next\<close> of
  \<open>Fasm_Text\<close> accepts.  They are Unicode scalar values, as the compiler's front end wants them.
  Then \<open>str::parse\<close> of integers and \<open>split_whitespace\<close>.
\<close>

text \<open>The character of a well-formed UTF-8 sequence.\<close>

fun code_point :: "bytes \<Rightarrow> nat" where
  "code_point [b] = unat b"
| "code_point [b, c] = unat b mod 32 * 64 + unat c mod 64"
| "code_point [b, c, d] = unat b mod 16 * 4096 + unat c mod 64 * 64 + unat d mod 64"
| "code_point [b, c, d, e] = unat b mod 8 * 262144 + unat c mod 64 * 4096 + unat d mod 64 * 64 + unat e mod 64"
| "code_point bs = 0"

function utf8_chars :: "bytes \<Rightarrow> nat list option" where
  "utf8_chars [] = Some []"
| "utf8_chars (b # bs) = (case utf8_next b bs of (ok, n) \<Rightarrow>
     if ok then map_option (Cons (code_point (take n (b # bs)))) (utf8_chars (drop (n - 1) bs)) else None)"
  by pat_completeness auto
termination
  by (relation "measure length") auto

text \<open>The shapes a sequence can have, over the numbers of its bytes.\<close>

lemma utf8_nextE:
  assumes "utf8_next b bs = (True, n)"
  obtains "n = 1" "unat b < 0x80"
  | c cs where "n = 2" "bs = c # cs" "0xC2 \<le> unat b" "unat b \<le> 0xDF" "0x80 \<le> unat c" "unat c \<le> 0xBF"
  | c d cs where "n = 3" "bs = c # d # cs" "0xE0 \<le> unat b" "unat b \<le> 0xEF" "0x80 \<le> unat c" "unat c \<le> 0xBF"
      "0x80 \<le> unat d" "unat d \<le> 0xBF" "unat b = 0xE0 \<longrightarrow> 0xA0 \<le> unat c" "unat b = 0xED \<longrightarrow> unat c \<le> 0x9F"
  | c d e cs where "n = 4" "bs = c # d # e # cs" "0xF0 \<le> unat b" "unat b \<le> 0xF4" "0x80 \<le> unat c" "unat c \<le> 0xBF"
      "0x80 \<le> unat d" "unat d \<le> 0xBF" "0x80 \<le> unat e" "unat e \<le> 0xBF"
      "unat b = 0xF0 \<longrightarrow> 0x90 \<le> unat c" "unat b = 0xF4 \<longrightarrow> unat c \<le> 0x8F"
proof -
  note nums = word_le_nat_alt word_less_nat_alt word_unat_eq_iff utf8_cont_def
  have tails: "utf8_tail2 ok bs = (True, n) \<Longrightarrow> \<exists>c cs. n = 2 \<and> bs = c # cs \<and> ok c"
    "utf8_tail3 ok bs = (True, n) \<Longrightarrow> \<exists>c d cs. n = 3 \<and> bs = c # d # cs \<and> ok c \<and> utf8_cont d"
    "utf8_tail4 ok bs = (True, n) \<Longrightarrow> \<exists>c d e cs. n = 4 \<and> bs = c # d # e # cs \<and> ok c \<and> utf8_cont d \<and> utf8_cont e" for ok
    by (auto simp: utf8_tail2_def utf8_tail3_def utf8_tail4_def split: list.splits if_splits)
  consider "unat b < 0x80" | "0x80 \<le> unat b" "unat b < 0xE0" | "0xE0 \<le> unat b" "unat b < 0xF0" | "0xF0 \<le> unat b"
    by linarith
  then show thesis
  proof cases
    case 1
    then show thesis
      using assms that(1) by (simp add: nums)
  next
    case 2
    then show thesis
      using assms that(2) by (auto simp: utf8_next_def nums dest!: tails(1) split: if_splits)
  next
    case 3
    then obtain c d cs where "n = 3" "bs = c # d # cs" "0x80 \<le> unat c" "unat c \<le> 0xBF" "utf8_cont d"
      "unat b = 0xE0 \<longrightarrow> 0xA0 \<le> unat c" "unat b = 0xED \<longrightarrow> unat c \<le> 0x9F"
      using assms by (auto simp: utf8_next_def nums dest!: tails(2) split: if_splits)
    with 3 show thesis
      using that(3) [of c d cs] by (simp add: nums)
  next
    case 4
    then obtain c d e cs where "n = 4" "bs = c # d # e # cs" "0x80 \<le> unat c" "unat c \<le> 0xBF" "utf8_cont d"
      "utf8_cont e" "unat b = 0xF0 \<longrightarrow> 0x90 \<le> unat c" "unat b = 0xF4 \<longrightarrow> unat c \<le> 0x8F" "unat b \<le> 0xF4"
      using assms by (auto simp: utf8_next_def nums dest!: tails(3) split: if_splits)
    with 4 show thesis
      using that(4) [of c d e cs] by (simp add: nums)
  qed
qed

lemma low_bits:
  fixes n :: nat
  shows "0x80 \<le> n \<Longrightarrow> n \<le> 0xBF \<Longrightarrow> n mod 64 = n - 0x80" "0xE0 \<le> n \<Longrightarrow> n \<le> 0xEF \<Longrightarrow> n mod 16 = n - 0xE0"
    "0xF0 \<le> n \<Longrightarrow> n \<le> 0xF4 \<Longrightarrow> n mod 8 = n - 0xF0" "0xC2 \<le> n \<Longrightarrow> n \<le> 0xDF \<Longrightarrow> n mod 32 = n - 0xC0"
  by (rule mod_nat_eqI; simp)+

lemma code_point_scalar:
  assumes "utf8_next b bs = (True, n)"
  shows "is_scalar (code_point (take n (b # bs)))"
  using assms
proof (cases rule: utf8_nextE)
  case (3 c d cs)
  from 3(3-8) have "code_point (take n (b # bs)) = (unat b - 0xE0) * 4096 + (unat c - 0x80) * 64 + (unat d - 0x80)"
    by (simp add: 3(1,2) low_bits)
  moreover have "unat b = 0xE0 \<or> unat b \<le> 0xEC \<or> unat b = 0xED \<or> 0xEE \<le> unat b"
    by arith
  ultimately show ?thesis
    unfolding is_scalar_def using 3(3-10) by linarith
next
  case (4 c d e cs)
  from 4(3-10) have "code_point (take n (b # bs)) =
      (unat b - 0xF0) * 262144 + (unat c - 0x80) * 4096 + (unat d - 0x80) * 64 + (unat e - 0x80)"
    by (simp add: 4(1,2) low_bits)
  moreover have "unat b = 0xF0 \<or> unat b = 0xF4 \<or> 0xF1 \<le> unat b \<and> unat b \<le> 0xF3"
    using 4(3,4) by arith
  ultimately show ?thesis
    unfolding is_scalar_def using 4(3-12) by linarith
next
  case (2 c cs)
  from 2(3-6) have "code_point (take n (b # bs)) = (unat b - 0xC0) * 64 + (unat c - 0x80)"
    by (simp add: 2(1,2) low_bits)
  then show ?thesis
    unfolding is_scalar_def using 2(3-6) by linarith
qed (simp add: is_scalar_def)

lemma utf8_chars_scalar: "utf8_chars bs = Some cs \<Longrightarrow> list_all is_scalar cs"
  by (induction bs arbitrary: cs rule: utf8_chars.induct)
    (auto dest: code_point_scalar split: prod.splits if_splits)

text \<open>A byte below 128 is a character by itself.\<close>

lemma utf8_chars_ascii:
  "utf8_chars bs = Some cs \<Longrightarrow> b \<in> set bs \<Longrightarrow> unat b < 0x80 \<Longrightarrow> unat b \<in> set cs"
proof (induction bs arbitrary: cs rule: utf8_chars.induct)
  case (2 a bs)
  obtain n ds where n: "utf8_next a bs = (True, n)" and ds: "utf8_chars (drop (n - 1) bs) = Some ds"
    "cs = code_point (take n (a # bs)) # ds"
    using "2.prems"(1) by (auto split: prod.splits if_splits)
  have rest: "unat b \<in> set cs" if "b \<in> set (drop (n - 1) bs)"
    using "2.IH" [OF n [symmetric] TrueI ds(1) that] "2.prems" ds by simp
  from n show ?case
    by (cases rule: utf8_nextE) (use rest "2.prems" ds in auto)
qed simp

subsection \<open>Numbers and words\<close>

text \<open>\<open>str::parse\<close> of unsigned and signed integers: an optional sign, at least one digit, no overflow.\<close>

fun decimal :: "bytes \<Rightarrow> nat \<Rightarrow> nat option" where
  "decimal [] n = Some n"
| "decimal (b # bs) n = (if is_ascii_digit b then decimal bs (10 * n + (unat b - 48)) else None)"

definition parse_unsigned :: "nat \<Rightarrow> bytes \<Rightarrow> nat option" where
  "parse_unsigned limit s =
     (let ds = (case s of b # bs \<Rightarrow> if b = 43 then bs else s | [] \<Rightarrow> [])
      in if ds = [] then None else case decimal ds 0 of None \<Rightarrow> None | Some n \<Rightarrow> if n < limit then Some n else None)"

definition parse_i32 :: "bytes \<Rightarrow> i32 option" where
  "parse_i32 s = (case s of
      b # bs \<Rightarrow> if b = 45 then (if bs = [] then None else case decimal bs 0 of
          None \<Rightarrow> None | Some n \<Rightarrow> if n \<le> 2 ^ 31 then Some (- of_nat n) else None)
        else map_option of_nat (parse_unsigned (2 ^ 31) s)
    | [] \<Rightarrow> None)"

text \<open>\<open>split_whitespace\<close>; the word being read is \<open>w\<close>.\<close>

function split_words :: "bytes \<Rightarrow> bytes \<Rightarrow> bytes list" where
  "split_words w s = (case strip_first white_space s of
      Some rest \<Rightarrow> (if w = [] then [] else [w]) @ split_words [] rest
    | None \<Rightarrow> (case s of [] \<Rightarrow> if w = [] then [] else [w] | b # bs \<Rightarrow> split_words (w @ [b]) bs))"
  by pat_completeness auto
termination
  by (relation "measure (\<lambda>(w, s). length s)") (auto dest: strip_first_shorter)

declare split_words.simps [simp del]

definition split_whitespace :: "bytes \<Rightarrow> bytes list" where
  "split_whitespace s = split_words [] s"

end
