(* ===== verification/Fasm_Cli.thy ===== *)
theory Fasm_Cli
  imports Fasm_Chars Fasm_Compiler Fasm_Dispatcher Fasm_Router
begin

text \<open>
  The command line (\<open>crates/fasm-cli/src/main.rs\<close>): compile, run, check, exec and bench on a file
  system that is a map from paths to contents.  What a command prints about itself is left out; the
  output of a program is part of its end.  Whether a path can be written and the processes behind
  \<open>--plugin\<close> are arguments.
\<close>

subsection \<open>Standard library\<close>

text \<open>\<open>windows(2)\<close> and \<open>find\<close>: what follows the first occurrence of a flag.\<close>

fun flag_argument :: "bytes \<Rightarrow> bytes list \<Rightarrow> bytes option" where
  "flag_argument flag (a # b # args) = (if a = flag then Some b else flag_argument flag (b # args))"
| "flag_argument flag args = None"

text \<open>\<open>Path::with_extension\<close> on the path of a file: the text after the last dot of the name is replaced, a
  leading dot being part of the name.\<close>

definition with_extension :: "bytes \<Rightarrow> bytes \<Rightarrow> bytes" where
  "with_extension path ext =
     (let name = rev (takeWhile (\<lambda>b. b \<noteq> slash) (rev path));
          dir = take (length path - length name) path;
          stem = rev (tl (dropWhile (\<lambda>b. b \<noteq> 46) (rev name)))
      in dir @ (if stem = [] then name else stem) @ 46 # ext)"

subsection \<open>Commands\<close>

type_synonym files = "bytes \<rightharpoonup> bytes"

text \<open>How the process ends, with the output of the program that ran.\<close>

datatype cli_end = CliDone bytes | CliExit i32 bytes | CliPanic | CliLoop

definition read_file :: "files \<Rightarrow> bytes \<Rightarrow> nat list option" where
  "read_file fs path = Option.bind (fs path) utf8_chars"

definition out_path :: "bytes \<Rightarrow> bytes list \<Rightarrow> bytes" where
  "out_path file extra = (case flag_argument (ascii ''-o'') extra of
      Some path \<Rightarrow> path | None \<Rightarrow> with_extension file (ascii ''fasmc''))"

definition cmd_compile :: "char_class \<Rightarrow> (bytes \<Rightarrow> bool) \<Rightarrow> files \<Rightarrow> bytes \<Rightarrow> bytes list \<Rightarrow> cli_end \<times> files" where
  "cmd_compile u writable fs file extra = (case read_file fs file of
      None \<Rightarrow> (CliExit 1 [], fs)
    | Some source \<Rightarrow> (case compile_source u source of
        None \<Rightarrow> (CliLoop, fs)
      | Some (Inl e) \<Rightarrow> (CliExit 1 [], fs)
      | Some (Inr prog) \<Rightarrow>
          if writable (out_path file extra) then (CliDone [], fs(out_path file extra \<mapsto> encode_program prog))
          else (CliPanic, fs)))"

definition parse_clock_hz :: "bytes list \<Rightarrow> u64 option" where
  "parse_clock_hz args = Option.bind (flag_argument (ascii ''--clock-hz'') args)
     (\<lambda>s. map_option of_nat (parse_unsigned (2 ^ 64) s))"

text \<open>\<open>connect\<close> gives the handlers of a process started with a command and arguments.\<close>

fun parse_plugins :: "(bytes \<Rightarrow> bytes list \<Rightarrow> i32 \<Rightarrow> syscall) \<Rightarrow> bytes list \<Rightarrow> sandbox \<Rightarrow> sandbox" where
  "parse_plugins connect (arg # val # args) sb =
     (if arg \<noteq> ascii ''--plugin'' then parse_plugins connect (val # args) sb
      else case split_on colon val of
        ids # cmd # cmd_args \<Rightarrow> (let is = List.map_filter parse_i32 (split_on 44 ids) in
          parse_plugins connect args
            (if is = [] then sb else mount_shared_sidecar is (connect cmd cmd_args) sb))
      | _ \<Rightarrow> parse_plugins connect args sb)"
| "parse_plugins connect args sb = sb"

definition cli_sandbox :: "(bytes \<Rightarrow> bytes list \<Rightarrow> i32 \<Rightarrow> syscall) \<Rightarrow> bytes list \<Rightarrow> bytes \<Rightarrow> sandbox" where
  "cli_sandbox connect extra stdin =
     (let sb = (sandbox_new 0)\<lparr>sb_vm := vm_new stdin\<rparr>;
          sb = (case parse_clock_hz extra of Some hz \<Rightarrow> set_clock_hz hz sb | None \<Rightarrow> sb)
      in parse_plugins connect extra sb)"

definition run_end :: "step_result option \<Rightarrow> cli_end" where
  "run_end r = (case r of
      None \<Rightarrow> CliLoop
    | Some (SStop (Inr v) s) \<Rightarrow> CliDone (io_stdout (vm_io s))
    | Some (SStop (Inl e) s) \<Rightarrow> CliExit 1 (io_stdout (vm_io s))
    | Some (SExit n s) \<Rightarrow> CliExit n (io_stdout (vm_io s))
    | _ \<Rightarrow> CliPanic)"

definition cmd_run :: "char_class \<Rightarrow> (bytes \<Rightarrow> bytes list \<Rightarrow> i32 \<Rightarrow> syscall) \<Rightarrow> bytes \<Rightarrow> files \<Rightarrow> bytes \<Rightarrow> bytes list
    \<Rightarrow> cli_end" where
  "cmd_run u connect stdin fs file extra = (case read_file fs file of
      None \<Rightarrow> CliExit 1 []
    | Some source \<Rightarrow> (case compile_source u source of
        None \<Rightarrow> CliLoop
      | Some (Inl e) \<Rightarrow> CliExit 1 []
      | Some (Inr prog) \<Rightarrow> run_end (snd (sandbox_run (cli_sandbox connect extra stdin) prog))))"

definition cmd_check :: "char_class \<Rightarrow> files \<Rightarrow> bytes \<Rightarrow> cli_end" where
  "cmd_check u fs file = (case read_file fs file of
      None \<Rightarrow> CliExit 1 []
    | Some source \<Rightarrow> (case compile_source u source of
        None \<Rightarrow> CliLoop | Some (Inl e) \<Rightarrow> CliExit 1 [] | Some (Inr prog) \<Rightarrow> CliDone []))"

definition cmd_exec :: "(bytes \<Rightarrow> bytes list \<Rightarrow> i32 \<Rightarrow> syscall) \<Rightarrow> bytes \<Rightarrow> files \<Rightarrow> bytes \<Rightarrow> bytes list \<Rightarrow> cli_end" where
  "cmd_exec connect stdin fs file extra = (case fs file of
      None \<Rightarrow> CliExit 1 []
    | Some bytes \<Rightarrow> (case decode_program bytes of
        Inl e \<Rightarrow> CliExit 1 []
      | Inr prog \<Rightarrow> run_end (snd (sandbox_run (cli_sandbox connect extra stdin) prog))))"

text \<open>A benchmark runs the program in fresh sandboxes that do not print; they share standard input.\<close>

definition silent :: syscall where
  "silent args = (\<lambda>t. ROk VNull t)"

fun bench_loop :: "program \<Rightarrow> nat \<Rightarrow> bytes \<Rightarrow> cli_end" where
  "bench_loop prog 0 stdin = CliDone []"
| "bench_loop prog (Suc n) stdin =
     (case snd (sandbox_run (sandbox_mount_syscall 1 silent (sandbox_mount_syscall 0 silent
        ((sandbox_new 0)\<lparr>sb_vm := vm_new stdin\<rparr>))) prog) of
        Some (SStop (Inr v) s) \<Rightarrow> bench_loop prog n (io_stdin (vm_io s))
      | r \<Rightarrow> run_end r)"

definition cmd_bench :: "bytes \<Rightarrow> files \<Rightarrow> bytes \<Rightarrow> bytes list \<Rightarrow> cli_end" where
  "cmd_bench stdin fs file extra = (case fs file of
      None \<Rightarrow> CliExit 1 []
    | Some bytes \<Rightarrow> (case decode_program bytes of
        Inl e \<Rightarrow> CliExit 1 []
      | Inr prog \<Rightarrow>
          let iterations = (case extra of
              s # _ \<Rightarrow> (case parse_unsigned (2 ^ 64) s of Some n \<Rightarrow> n | None \<Rightarrow> 10000)
            | [] \<Rightarrow> 10000)
          in bench_loop prog iterations stdin))"

definition cli_main :: "char_class \<Rightarrow> (bytes \<Rightarrow> bool) \<Rightarrow> (bytes \<Rightarrow> bytes list \<Rightarrow> i32 \<Rightarrow> syscall) \<Rightarrow> bytes \<Rightarrow> files
    \<Rightarrow> bytes list \<Rightarrow> cli_end \<times> files" where
  "cli_main u writable connect stdin fs args = (case args of
      prog # command # file # extra \<Rightarrow>
        if command = ascii ''compile'' then cmd_compile u writable fs file extra
        else if command = ascii ''run'' then (cmd_run u connect stdin fs file extra, fs)
        else if command = ascii ''check'' then (cmd_check u fs file, fs)
        else if command = ascii ''exec'' then (cmd_exec connect stdin fs file extra, fs)
        else if command = ascii ''bench'' then (cmd_bench stdin fs file extra, fs)
        else (CliExit 1 [], fs)
    | _ \<Rightarrow> (CliExit 1 [], fs))"

subsection \<open>Compiled files\<close>

lemma run_end_rounds:
  assumes "run_end (run_rounds e n s) = CliDone out"
  shows "run_end (run_loop e s) = CliDone out"
  using assms run_rounds_loop [of e n s] by (cases "run_rounds e n s") (auto simp: run_end_def)

lemma read_file_scalar: "read_file fs path = Some source \<Longrightarrow> list_all is_scalar source"
  by (auto simp: read_file_def bind_eq_Some_conv dest: utf8_chars_scalar)

lemma exec_encoded:
  assumes "fs path = Some (encode_program p)" "decode_program (encode_program p) = Inr p"
  shows "cmd_exec connect stdin fs path extra =
    run_end (snd (sandbox_run (cli_sandbox connect extra stdin) p))"
  using assms by (simp add: cmd_exec_def)


definition hello_file :: bytes where
  "hello_file = ascii ''hello.fasm''"

definition hello_files :: files where
  "hello_files = [hello_file \<mapsto> map of_nat small_source]"

definition no_plugin :: "bytes \<Rightarrow> bytes list \<Rightarrow> i32 \<Rightarrow> syscall" where
  "no_plugin cmd args i xs = (\<lambda>t. ROk VNull t)"


end
