(* ===== verification/Fasm_Disk.thy ===== *)
theory Fasm_Disk
  imports Fasm_Chars Fasm_Router "HOL-Library.AList" "HOL-Library.Sublist"
begin

text \<open>
  The part of \<open>std::fs\<close> and \<open>std::path\<close> the engine's registry uses, on a disk that is a list of paths
  with their nodes in the order \<open>read_dir\<close> lists them.  A \<open>path\<close> as the code builds it is a list of
  components that may be empty, \<open>.\<close> or \<open>..\<close>; a path of the disk is the list of names from the root.
  There are no links, the disk is never full and everything is permitted, so an operation fails only
  for what is or is not at a path.
\<close>

datatype node = Dir | File bytes

type_synonym path = "bytes list"
type_synonym disk = "(path \<times> node) list"

datatype io_error = NoEntry | NotDirectory | IsDirectory | Exists | NotUtf8

definition io_text :: "io_error \<Rightarrow> bytes" where
  "io_text e = ascii (case e of
      NoEntry \<Rightarrow> ''No such file or directory (os error 2)''
    | NotDirectory \<Rightarrow> ''Not a directory (os error 20)''
    | IsDirectory \<Rightarrow> ''Is a directory (os error 21)''
    | Exists \<Rightarrow> ''File exists (os error 17)''
    | NotUtf8 \<Rightarrow> ''stream did not contain valid UTF-8'')"

definition node_at :: "disk \<Rightarrow> path \<Rightarrow> node option" where
  "node_at d p = (if p = [] then Some Dir else map_of d p)"

definition dot :: bytes where "dot = ascii ''.''"
definition dot_dot :: bytes where "dot_dot = ascii ''..''"

text \<open>\<open>PathBuf::join\<close>: a text that starts with a slash replaces the path.\<close>

definition path_join :: "path \<Rightarrow> bytes \<Rightarrow> path" where
  "path_join p s = (if take 1 s = [slash] then split_on slash s else p @ split_on slash s)"

text \<open>Every component but the last has to be a directory.\<close>

fun walk :: "disk \<Rightarrow> path \<Rightarrow> path \<Rightarrow> io_error + path" where
  "walk d cur [] = Inr cur"
| "walk d cur (c # cs) = (case node_at d cur of
      None \<Rightarrow> Inl NoEntry
    | Some (File data) \<Rightarrow> Inl NotDirectory
    | Some Dir \<Rightarrow> walk d (if c = [] \<or> c = dot then cur else if c = dot_dot then butlast cur else cur @ [c]) cs)"

definition fs_read :: "disk \<Rightarrow> path \<Rightarrow> io_error + bytes" where
  "fs_read d p = (case walk d [] p of
      Inl e \<Rightarrow> Inl e
    | Inr q \<Rightarrow> (case node_at d q of
        None \<Rightarrow> Inl NoEntry | Some Dir \<Rightarrow> Inl IsDirectory | Some (File data) \<Rightarrow> Inr data))"

definition fs_exists :: "disk \<Rightarrow> path \<Rightarrow> bool" where
  "fs_exists d p = (case walk d [] p of Inl e \<Rightarrow> False | Inr q \<Rightarrow> node_at d q \<noteq> None)"

definition fs_write :: "disk \<Rightarrow> path \<Rightarrow> bytes \<Rightarrow> io_error + disk" where
  "fs_write d p data = (case walk d [] p of
      Inl e \<Rightarrow> Inl e
    | Inr q \<Rightarrow> if node_at d q = Some Dir then Inl IsDirectory else Inr (AList.update q (File data) d))"

text \<open>The rename of a file.\<close>

definition fs_rename :: "disk \<Rightarrow> path \<Rightarrow> path \<Rightarrow> io_error + disk" where
  "fs_rename d p q = (case (walk d [] p, walk d [] q) of
      (Inr p', Inr q') \<Rightarrow> (case node_at d p' of
          Some (File data) \<Rightarrow>
            if node_at d q' = Some Dir then Inl IsDirectory else Inr (AList.update q' (File data) (AList.delete p' d))
        | _ \<Rightarrow> Inl NoEntry)
    | (Inl e, _) \<Rightarrow> Inl e
    | (_, Inl e) \<Rightarrow> Inl e)"

fun make_dirs :: "disk \<Rightarrow> path \<Rightarrow> path \<Rightarrow> io_error + disk" where
  "make_dirs d cur [] = Inr d"
| "make_dirs d cur (c # cs) =
     (if c = [] \<or> c = dot then make_dirs d cur cs
      else if c = dot_dot then make_dirs d (butlast cur) cs
      else case node_at d (cur @ [c]) of
          Some Dir \<Rightarrow> make_dirs d (cur @ [c]) cs
        | Some (File data) \<Rightarrow> Inl (if cs = [] then Exists else NotDirectory)
        | None \<Rightarrow> make_dirs (AList.update (cur @ [c]) Dir d) (cur @ [c]) cs)"

definition fs_create_dir_all :: "disk \<Rightarrow> path \<Rightarrow> io_error + disk" where
  "fs_create_dir_all d p = make_dirs d [] p"

text \<open>The contents go first; the directory itself stays when the path ends in \<open>.\<close> or \<open>..\<close>, which
  \<open>rmdir\<close> refuses.  The code ignores the error.\<close>

definition fs_remove_dir_all :: "disk \<Rightarrow> path \<Rightarrow> disk" where
  "fs_remove_dir_all d p = (case walk d [] p of
      Inl e \<Rightarrow> d
    | Inr q \<Rightarrow> if node_at d q \<noteq> Some Dir then d
        else filter (\<lambda>(r, n). \<not> prefix q r \<or> r = q \<and> p \<noteq> [] \<and> last p \<in> {dot, dot_dot}) d)"

definition fs_remove_file :: "disk \<Rightarrow> path \<Rightarrow> disk" where
  "fs_remove_file d p = (case walk d [] p of
      Inl e \<Rightarrow> d
    | Inr q \<Rightarrow> (case node_at d q of Some (File data) \<Rightarrow> AList.delete q d | _ \<Rightarrow> d))"

definition fs_read_dir :: "disk \<Rightarrow> path \<Rightarrow> io_error + (bytes \<times> node) list" where
  "fs_read_dir d p = (case walk d [] p of
      Inl e \<Rightarrow> Inl e
    | Inr q \<Rightarrow> (case node_at d q of
        None \<Rightarrow> Inl NoEntry
      | Some (File data) \<Rightarrow> Inl NotDirectory
      | Some Dir \<Rightarrow> Inr [(last r, n). (r, n) \<leftarrow> d, r \<noteq> [] \<and> butlast r = q]))"

text \<open>\<open>read_to_string\<close>.\<close>

definition fs_read_text :: "disk \<Rightarrow> path \<Rightarrow> io_error + nat list" where
  "fs_read_text d p = (case fs_read d p of
      Inl e \<Rightarrow> Inl e
    | Inr data \<Rightarrow> (case utf8_chars data of None \<Rightarrow> Inl NotUtf8 | Some cs \<Rightarrow> Inr cs))"

end
