(* ===== verification/Fasm_Registry.thy ===== *)
theory Fasm_Registry
  imports Fasm_Disk Fasm_Encode
begin

text \<open>
  The application registry of the engine (\<open>crates/fasm-engine/src/admin/registry.rs\<close>): namespaces,
  applications, their files and route records, kept in memory and on disk.  Errors are the messages
  the code formats, since the handlers look for words in them.  The JSON reader and writer of
  manifests are a parameter (\<open>serde\<close>), the current time an argument.
\<close>

subsection \<open>Data\<close>

datatype file_kind = FileSource | FileBytecode

record file_record =
  fr_name :: bytes
  fr_kind :: file_kind
  fr_size :: u64
  fr_uploaded :: nat

record route_record =
  rr_id :: bytes
  rr_method :: bytes
  rr_path :: bytes
  rr_function :: bytes
  rr_file :: bytes

record app_manifest =
  am_namespace :: bytes
  am_app :: bytes
  am_created :: nat
  am_files :: "file_record list"
  am_routes :: "route_record list"

type_synonym apps = "(bytes \<times> app_manifest) list"

text \<open>The disk is part of the state.\<close>

record registry =
  rg_namespaces :: "(bytes \<times> apps) list"
  rg_dir :: path
  rg_disk :: disk

definition registry_new :: "path \<Rightarrow> disk \<Rightarrow> registry" where
  "registry_new dir d = \<lparr>rg_namespaces = [], rg_dir = dir, rg_disk = d\<rparr>"

text \<open>\<open>parse\<close> is \<open>read_to_string\<close> followed by \<open>from_str\<close>: \<open>None\<close> on anything that is not a manifest.\<close>

record serde =
  sd_print :: "app_manifest \<Rightarrow> bytes"
  sd_parse :: "bytes \<Rightarrow> app_manifest option"

subsection \<open>Names\<close>

definition quoted :: "bytes \<Rightarrow> bytes" where
  "quoted s = 39 # s @ [39]"

fun contains :: "bytes \<Rightarrow> bytes \<Rightarrow> bool" where
  "contains [] needle = (needle = [])"
| "contains (b # bs) needle = (prefix needle (b # bs) \<or> contains bs needle)"

definition ends_with :: "bytes \<Rightarrow> bytes \<Rightarrow> bool" where
  "ends_with s tail = suffix tail s"

text \<open>The characters of a \<open>String\<close>; its bytes are always well-formed.\<close>

definition chars :: "bytes \<Rightarrow> nat list" where
  "chars s = (case utf8_chars s of Some cs \<Rightarrow> cs | None \<Rightarrow> map unat s)"

definition validate_namespace :: "char_class \<Rightarrow> bytes \<Rightarrow> bytes + unit" where
  "validate_namespace u name =
     (if name = [] then Inl (ascii ''namespace name is empty'')
      else case List.find (\<lambda>ch. \<not> (is_alphanumeric u ch \<or> ch = 46 \<or> ch = 45 \<or> ch = 95)) (chars name) of
          Some ch \<Rightarrow> Inl (ascii ''namespace '' @ quoted name @ ascii '': invalid character '' @ quoted (utf8_encode ch))
        | None \<Rightarrow> if contains name dot_dot then Inl (ascii ''namespace may not contain '' @ quoted dot_dot)
            else Inr ())"

definition validate_name :: "char_class \<Rightarrow> bytes \<Rightarrow> bytes + unit" where
  "validate_name u name =
     (if name = [] then Inl (ascii ''name is empty'')
      else case List.find (\<lambda>ch. \<not> (is_alphanumeric u ch \<or> ch = 45 \<or> ch = 95)) (chars name) of
          Some ch \<Rightarrow> Inl (ascii ''name '' @ quoted name @ ascii '': invalid character '' @ quoted (utf8_encode ch))
        | None \<Rightarrow> Inr ())"

definition validate_filename :: "bytes \<Rightarrow> bytes + unit" where
  "validate_filename name =
     (if name = [] then Inl (ascii ''filename is empty'')
      else if slash \<in> set name \<or> 92 \<in> set name \<or> contains name dot_dot
        then Inl (ascii ''filename must not contain path separators'')
      else if \<not> ends_with name (ascii ''.fasm'') \<and> \<not> ends_with name (ascii ''.fasmc'')
        then Inl (ascii ''filename must end in .fasm or .fasmc'')
      else Inr ())"

definition is_valid_namespace :: "char_class \<Rightarrow> bytes \<Rightarrow> bool" where
  "is_valid_namespace u name \<longleftrightarrow> validate_namespace u name = Inr ()"

subsection \<open>Persistence\<close>

definition manifest_json :: bytes where "manifest_json = ascii ''manifest.json''"
definition manifest_tmp :: bytes where "manifest_tmp = ascii ''manifest.json.tmp''"
definition files_dir :: bytes where "files_dir = ascii ''files''"

definition app_path :: "registry \<Rightarrow> bytes \<Rightarrow> bytes \<Rightarrow> path" where
  "app_path r ns app = path_join (path_join (rg_dir r) ns) app"

definition file_path :: "registry \<Rightarrow> bytes \<Rightarrow> bytes \<Rightarrow> bytes \<Rightarrow> path" where
  "file_path r ns app filename = path_join (path_join (app_path r ns app) files_dir) filename"

text \<open>\<open>with_extension("json.tmp")\<close> of \<open>manifest.json\<close> is \<open>manifest.json.tmp\<close>.\<close>

definition persist_manifest :: "serde \<Rightarrow> app_manifest \<Rightarrow> registry \<Rightarrow> (bytes + unit) \<times> registry" where
  "persist_manifest sd m r =
     (let dir = app_path r (am_namespace m) (am_app m);
          path = path_join dir manifest_json; tmp = path_join dir manifest_tmp
      in case fs_write (rg_disk r) tmp (sd_print sd m) of
          Inl e \<Rightarrow> (Inl (ascii ''write manifest tmp: '' @ io_text e), r)
        | Inr d \<Rightarrow> (case fs_rename d tmp path of
            Inl e \<Rightarrow> (Inl (ascii ''rename manifest: '' @ io_text e), r\<lparr>rg_disk := d\<rparr>)
          | Inr d' \<Rightarrow> (Inr (), r\<lparr>rg_disk := d'\<rparr>)))"

text \<open>The loop bodies of \<open>load_from_disk\<close>, for an application and for a namespace.\<close>

definition load_app :: "serde \<Rightarrow> bytes \<Rightarrow> path \<Rightarrow> bytes \<times> node \<Rightarrow> app_manifest list \<times> registry
    \<Rightarrow> app_manifest list \<times> registry" where
  "load_app sd ns_name dir entry st = (case (entry, st) of ((name, node), (out, r)) \<Rightarrow>
     if node \<noteq> Dir then (out, r)
     else (case fs_read (rg_disk r) (dir @ [name, manifest_json]) of
         Inl e \<Rightarrow> (out, r)
       | Inr raw \<Rightarrow> (case sd_parse sd raw of
           None \<Rightarrow> (out, r)
         | Some m \<Rightarrow>
             let apps = (case map_of (rg_namespaces r) ns_name of Some apps \<Rightarrow> apps | None \<Rightarrow> [])
             in (out @ [m], r\<lparr>rg_namespaces := AList.update ns_name (AList.update (am_app m) m apps) (rg_namespaces r)\<rparr>))))"

definition load_namespace :: "serde \<Rightarrow> char_class \<Rightarrow> bytes \<times> node \<Rightarrow> app_manifest list \<times> registry
    \<Rightarrow> app_manifest list \<times> registry" where
  "load_namespace sd u entry st = (case (entry, st) of ((name, node), (out, r)) \<Rightarrow>
     if node \<noteq> Dir then (out, r)
     else let ns_name = utf8_lossy name in
       if \<not> is_valid_namespace u ns_name then (out, r)
       else (case fs_read_dir (rg_disk r) (rg_dir r @ [name]) of
           Inl e \<Rightarrow> (out, r)
         | Inr entries \<Rightarrow> fold (load_app sd ns_name (rg_dir r @ [name])) entries (out, r)))"

definition load_from_disk :: "serde \<Rightarrow> char_class \<Rightarrow> registry \<Rightarrow> app_manifest list \<times> registry" where
  "load_from_disk sd u r = (case fs_read_dir (rg_disk r) (rg_dir r) of
      Inl e \<Rightarrow> ([], r)
    | Inr entries \<Rightarrow> fold (load_namespace sd u) entries ([], r))"

subsection \<open>Namespaces\<close>

definition list_namespaces :: "registry \<Rightarrow> (bytes \<times> bytes list) list" where
  "list_namespaces r = map (\<lambda>(ns, apps). (ns, map fst apps)) (rg_namespaces r)"

definition create_namespace :: "char_class \<Rightarrow> bytes \<Rightarrow> registry \<Rightarrow> (bytes + unit) \<times> registry" where
  "create_namespace u name r = (case validate_namespace u name of
      Inl e \<Rightarrow> (Inl e, r)
    | Inr _ \<Rightarrow> (case fs_create_dir_all (rg_disk r) (path_join (rg_dir r) name) of
        Inl e \<Rightarrow> (Inl (ascii ''failed to create namespace dir: '' @ io_text e), r)
      | Inr d \<Rightarrow>
          let r = r\<lparr>rg_disk := d\<rparr> in
          if map_of (rg_namespaces r) name \<noteq> None
          then (Inl (ascii ''namespace '' @ quoted name @ ascii '' already exists''), r)
          else (Inr (), r\<lparr>rg_namespaces := AList.update name [] (rg_namespaces r)\<rparr>)))"

definition get_namespace :: "registry \<Rightarrow> bytes \<Rightarrow> (bytes \<times> bytes list) option" where
  "get_namespace r name = map_option (\<lambda>apps. (name, map fst apps)) (map_of (rg_namespaces r) name)"

definition no_namespace :: "bytes \<Rightarrow> bytes" where
  "no_namespace ns = ascii ''namespace '' @ quoted ns @ ascii '' not found''"

definition delete_namespace :: "bytes \<Rightarrow> registry \<Rightarrow> (bytes + unit) \<times> registry" where
  "delete_namespace name r = (case map_of (rg_namespaces r) name of
      None \<Rightarrow> (Inl (no_namespace name), r)
    | Some apps \<Rightarrow>
        if apps \<noteq> [] then
          (Inl (ascii ''namespace '' @ quoted name @ ascii '' is not empty ('' @ show_nat (length apps) @ ascii '' apps)''), r)
        else (Inr (), r\<lparr>rg_namespaces := AList.delete name (rg_namespaces r),
          rg_disk := fs_remove_dir_all (rg_disk r) (path_join (rg_dir r) name)\<rparr>))"

subsection \<open>Applications\<close>

definition list_apps :: "registry \<Rightarrow> bytes \<Rightarrow> bytes + bytes list" where
  "list_apps r ns = (case map_of (rg_namespaces r) ns of
      None \<Rightarrow> Inl (no_namespace ns) | Some apps \<Rightarrow> Inr (map fst apps))"

definition set_apps :: "bytes \<Rightarrow> apps \<Rightarrow> registry \<Rightarrow> registry" where
  "set_apps ns apps r = r\<lparr>rg_namespaces := AList.update ns apps (rg_namespaces r)\<rparr>"

definition create_app :: "char_class \<Rightarrow> serde \<Rightarrow> nat \<Rightarrow> bytes \<Rightarrow> bytes \<Rightarrow> registry
    \<Rightarrow> (bytes + app_manifest) \<times> registry" where
  "create_app u sd now ns app r = (case validate_name u app of
      Inl e \<Rightarrow> (Inl e, r)
    | Inr _ \<Rightarrow> (case map_of (rg_namespaces r) ns of
        None \<Rightarrow> (Inl (no_namespace ns), r)
      | Some apps \<Rightarrow>
          if map_of apps app \<noteq> None then
            (Inl (ascii ''app '' @ quoted app @ ascii '' already exists in namespace '' @ quoted ns), r)
          else
            let m = \<lparr>am_namespace = ns, am_app = app, am_created = now, am_files = [], am_routes = []\<rparr> in
            (case fs_create_dir_all (rg_disk r) (path_join (app_path r ns app) files_dir) of
              Inl e \<Rightarrow> (Inl (ascii ''failed to create app dirs: '' @ io_text e), r)
            | Inr d \<Rightarrow> (case persist_manifest sd m (r\<lparr>rg_disk := d\<rparr>) of
                (Inl e, r) \<Rightarrow> (Inl e, r)
              | (Inr _, r) \<Rightarrow> (Inr m, set_apps ns (AList.update app m apps) r)))))"

definition get_app :: "registry \<Rightarrow> bytes \<Rightarrow> bytes \<Rightarrow> app_manifest option" where
  "get_app r ns app = Option.bind (map_of (rg_namespaces r) ns) (\<lambda>apps. map_of apps app)"

definition delete_app :: "bytes \<Rightarrow> bytes \<Rightarrow> registry \<Rightarrow> (bytes + unit) \<times> registry" where
  "delete_app ns app r = (case map_of (rg_namespaces r) ns of
      None \<Rightarrow> (Inl (no_namespace ns), r)
    | Some apps \<Rightarrow>
        if map_of apps app = None then
          (Inl (ascii ''app '' @ quoted app @ ascii '' not found in namespace '' @ quoted ns), r)
        else (Inr (), (set_apps ns (AList.delete app apps) r)
          \<lparr>rg_disk := fs_remove_dir_all (rg_disk r) (app_path r ns app)\<rparr>))"

subsection \<open>Files and route records\<close>

definition no_app :: "bytes \<Rightarrow> bytes \<Rightarrow> bytes" where
  "no_app ns app = ascii ''app '' @ quoted (ns @ slash # app) @ ascii '' not found''"

text \<open>\<open>get_mut\<close> on both maps, the change and \<open>persist_manifest\<close>.\<close>

definition change_app :: "serde \<Rightarrow> bytes \<Rightarrow> bytes \<Rightarrow> (app_manifest \<Rightarrow> app_manifest) \<Rightarrow> registry
    \<Rightarrow> (bytes + unit) \<times> registry" where
  "change_app sd ns app f r = (case map_of (rg_namespaces r) ns of
      None \<Rightarrow> (Inl (no_app ns app), r)
    | Some apps \<Rightarrow> (case map_of apps app of
        None \<Rightarrow> (Inl (no_app ns app), r)
      | Some m \<Rightarrow> persist_manifest sd (f m) (set_apps ns (AList.update app (f m) apps) r)))"

text \<open>\<open>files[pos] = record\<close> or \<open>push\<close>.\<close>

fun put_file :: "file_record \<Rightarrow> file_record list \<Rightarrow> file_record list" where
  "put_file rec [] = [rec]"
| "put_file rec (f # fs) = (if fr_name f = fr_name rec then rec # fs else f # put_file rec fs)"

definition file_kind_of :: "bytes \<Rightarrow> file_kind" where
  "file_kind_of data = (if prefix MAGIC data then FileBytecode else FileSource)"

text \<open>The file is written before the application is looked up, under a namespace and an application
  that are not checked.\<close>

definition store_file :: "serde \<Rightarrow> nat \<Rightarrow> bytes \<Rightarrow> bytes \<Rightarrow> bytes \<Rightarrow> bytes \<Rightarrow> registry
    \<Rightarrow> (bytes + file_record) \<times> registry" where
  "store_file sd now ns app filename data r = (case validate_filename filename of
      Inl e \<Rightarrow> (Inl e, r)
    | Inr _ \<Rightarrow> (case fs_write (rg_disk r) (file_path r ns app filename) data of
        Inl e \<Rightarrow> (Inl (ascii ''failed to write file: '' @ io_text e), r)
      | Inr d \<Rightarrow>
          let rec = \<lparr>fr_name = filename, fr_kind = file_kind_of data, fr_size = of_nat (length data),
            fr_uploaded = now\<rparr>
          in (case change_app sd ns app (\<lambda>m. m\<lparr>am_files := put_file rec (am_files m)\<rparr>) (r\<lparr>rg_disk := d\<rparr>) of
              (Inl e, r) \<Rightarrow> (Inl e, r)
            | (Inr _, r) \<Rightarrow> (Inr rec, r))))"

definition get_file_path :: "registry \<Rightarrow> bytes \<Rightarrow> bytes \<Rightarrow> bytes \<Rightarrow> path option" where
  "get_file_path r ns app filename =
     (if fs_exists (rg_disk r) (file_path r ns app filename) then Some (file_path r ns app filename) else None)"

definition delete_file :: "serde \<Rightarrow> bytes \<Rightarrow> bytes \<Rightarrow> bytes \<Rightarrow> registry \<Rightarrow> (bytes + unit) \<times> registry" where
  "delete_file sd ns app filename r = (case get_app r ns app of
      None \<Rightarrow> (Inl (no_app ns app), r)
    | Some m \<Rightarrow>
        if \<exists>rec \<in> set (am_routes m). rr_file rec = filename then
          (Inl (ascii ''file '' @ quoted filename @ ascii '' is still referenced by a route''), r)
        else (case change_app sd ns app (\<lambda>m. m\<lparr>am_files := filter (\<lambda>f. fr_name f \<noteq> filename) (am_files m)\<rparr>) r of
            (Inl e, r) \<Rightarrow> (Inl e, r)
          | (Inr _, r) \<Rightarrow> (Inr (), r\<lparr>rg_disk := fs_remove_file (rg_disk r) (file_path r ns app filename)\<rparr>)))"

definition add_route_record :: "serde \<Rightarrow> bytes \<Rightarrow> bytes \<Rightarrow> route_record \<Rightarrow> registry \<Rightarrow> (bytes + unit) \<times> registry" where
  "add_route_record sd ns app rec = change_app sd ns app (\<lambda>m. m\<lparr>am_routes := am_routes m @ [rec]\<rparr>)"

definition remove_route_record :: "serde \<Rightarrow> bytes \<Rightarrow> bytes \<Rightarrow> bytes \<Rightarrow> registry \<Rightarrow> (bytes + unit) \<times> registry" where
  "remove_route_record sd ns app i =
     change_app sd ns app (\<lambda>m. m\<lparr>am_routes := filter (\<lambda>rec. rr_id rec \<noteq> i) (am_routes m)\<rparr>)"

end
