(* ===== verification/Fasm_Store.thy ===== *)
theory Fasm_Store
  imports Fasm_Registry
begin

text \<open>
  What the registry's operations do to the disk, and the invariant that memory and disk agree: every
  application in memory has its directories and its manifest on disk, and every manifest on disk
  belongs to an application in memory.
\<close>

subsection \<open>Paths\<close>

definition plain :: "bytes \<Rightarrow> bool" where
  "plain c \<longleftrightarrow> c \<noteq> [] \<and> c \<noteq> dot \<and> c \<noteq> dot_dot"

lemma plain_names [simp]: "plain manifest_json" "plain manifest_tmp" "plain files_dir"
  "manifest_json \<noteq> manifest_tmp" "manifest_tmp \<noteq> manifest_json" "manifest_json \<noteq> files_dir"
  "files_dir \<noteq> manifest_json" "manifest_tmp \<noteq> files_dir" "files_dir \<noteq> manifest_tmp"
  by (simp_all add: plain_def dot_def dot_dot_def manifest_json_def manifest_tmp_def files_dir_def ascii_def)

lemma split_on_single: "c \<notin> set s \<Longrightarrow> split_on c s = [s]"
  by (induction s) auto

lemma path_join_name [simp]: "slash \<notin> set s \<Longrightarrow> path_join p s = p @ [s]"
  by (cases s) (auto simp: path_join_def split_on_single)

lemma no_slash [simp]: "slash \<notin> set manifest_json" "slash \<notin> set manifest_tmp" "slash \<notin> set files_dir"
  by (simp_all add: manifest_json_def manifest_tmp_def files_dir_def ascii_def)

definition wf_disk :: "disk \<Rightarrow> bool" where
  "wf_disk d \<longleftrightarrow> distinct (map fst d) \<and> (\<forall>p \<in> fst ` set d. list_all plain p)"

text \<open>Every directory on the way to a path, and the path itself, is there.\<close>

definition dirs :: "disk \<Rightarrow> path \<Rightarrow> bool" where
  "dirs d p \<longleftrightarrow> (\<forall>q. prefix q p \<longrightarrow> node_at d q = Some Dir)"

lemma dirs_snoc: "dirs d (p @ [c]) \<longleftrightarrow> dirs d p \<and> node_at d (p @ [c]) = Some Dir"
  by (auto simp: dirs_def)

lemma dirs_at: "dirs d p \<Longrightarrow> node_at d p = Some Dir"
  by (simp add: dirs_def)

lemma dirs_mono: "dirs d p \<Longrightarrow> (\<And>q. node_at d q = Some Dir \<Longrightarrow> prefix q p \<Longrightarrow> node_at d' q = Some Dir) \<Longrightarrow> dirs d' p"
  by (simp add: dirs_def)

lemma walk_append: "walk d cur (p @ q) = (case walk d cur p of Inl e \<Rightarrow> Inl e | Inr r \<Rightarrow> walk d r q)"
  by (induction d cur p rule: walk.induct) (auto split: option.splits node.splits)

lemma walk_dirs: "dirs d (cur @ p) \<Longrightarrow> list_all plain p \<Longrightarrow> walk d cur p = Inr (cur @ p)"
proof (induction p arbitrary: cur)
  case (Cons c p)
  then have "node_at d cur = Some Dir"
    by (simp add: dirs_def)
  with Cons show ?case
    by (simp add: plain_def)
qed simp

lemma walk_name:
  assumes "dirs d p" "list_all plain p" "plain c"
  shows "walk d [] (p @ [c]) = Inr (p @ [c])"
  using walk_dirs [of d "[]" p] assms dirs_at [OF assms(1)] by (simp add: walk_append plain_def)

lemma walk_last:
  assumes "walk d cur (p @ [c]) = Inr q" "plain c"
  shows "\<exists>r. q = r @ [c]"
  using assms by (auto simp: walk_append plain_def split: sum.splits option.splits node.splits)

lemma walk_plain: "walk d cur p = Inr q \<Longrightarrow> list_all plain cur \<Longrightarrow> list_all plain q"
proof (induction d cur p rule: walk.induct)
  case (2 d cur c cs)
  then show ?case
    by (auto simp: plain_def list_all_butlast split: option.splits node.splits if_splits)
qed simp

subsection \<open>Disks\<close>

lemma node_at_update: "q \<noteq> [] \<Longrightarrow> node_at (AList.update q n d) p = (if p = q then Some n else node_at d p)"
  by (simp add: node_at_def update_conv')

lemma node_at_delete: "q \<noteq> [] \<Longrightarrow> node_at (AList.delete q d) p = (if p = q then None else node_at d p)"
  by (simp add: node_at_def delete_conv')

lemma node_at_filter:
  assumes "wf_disk d"
  shows "node_at (filter (\<lambda>(r, n). P r) d) p = (if p = [] \<or> P p then node_at d p else None)"
proof -
  have "map_of (filter (\<lambda>(r, n). P r) d) p = (if P p then map_of d p else None)"
    by (induction d) auto
  then show ?thesis
    by (simp add: node_at_def)
qed

lemma wf_disk_update: "wf_disk d \<Longrightarrow> list_all plain q \<Longrightarrow> wf_disk (AList.update q n d)"
  by (auto simp: wf_disk_def distinct_update dom_update)

lemma wf_disk_delete: "wf_disk d \<Longrightarrow> wf_disk (AList.delete q d)"
  by (auto simp: wf_disk_def delete_keys distinct_removeAll simp flip: set_map)

lemma wf_disk_filter: "wf_disk d \<Longrightarrow> wf_disk (filter P d)"
  by (auto simp: wf_disk_def intro: distinct_map_filter)

lemma node_at_set: "wf_disk d \<Longrightarrow> p \<noteq> [] \<Longrightarrow> node_at d p = Some n \<longleftrightarrow> (p, n) \<in> set d"
  by (simp add: node_at_def wf_disk_def)

lemma fs_write_ok:
  assumes "dirs d p" "list_all plain p" "plain c" "node_at d (p @ [c]) \<noteq> Some Dir"
  shows "fs_write d (p @ [c]) data = Inr (AList.update (p @ [c]) (File data) d)"
  using assms by (simp add: fs_write_def walk_name)

lemma fs_read_at:
  assumes "dirs d p" "list_all plain p" "plain c"
  shows "fs_read d (p @ [c]) = Inr data \<longleftrightarrow> node_at d (p @ [c]) = Some (File data)"
  using assms by (auto simp: fs_read_def walk_name split: option.splits node.splits)

text \<open>\<open>create_dir_all\<close> makes every directory on the way and touches nothing else.\<close>

lemma make_dirs_ok:
  assumes "make_dirs d cur cs = Inr d'" "wf_disk d" "dirs d cur" "list_all plain cur" "list_all plain cs"
  shows "wf_disk d' \<and> node_at d' p = (if prefix p (cur @ cs) then Some Dir else node_at d p)"
  using assms
proof (induction d cur cs rule: make_dirs.induct)
  case (1 d cur)
  then show ?case
    by (simp add: dirs_def)
next
  case (2 d cur c cs)
  have c: "c \<noteq> []" "c \<noteq> dot" "c \<noteq> dot_dot" "plain c"
    using "2.prems" by (simp_all add: plain_def)
  show ?case
  proof (cases "node_at d (cur @ [c])")
    case None
    let ?d = "AList.update (cur @ [c]) Dir d"
    have "make_dirs ?d (cur @ [c]) cs = Inr d'" "wf_disk ?d" "dirs ?d (cur @ [c])"
      using "2.prems" None c by (auto simp: wf_disk_update dirs_snoc node_at_update elim: dirs_mono)
    then show ?thesis
      using "2.IH"(3) [OF _ _ None] "2.prems" c by (auto simp: node_at_update)
  next
    case (Some n)
    then have "n = Dir" "make_dirs d (cur @ [c]) cs = Inr d'"
      using "2.prems" c by (auto split: node.splits if_splits)
    then show ?thesis
      using "2.IH"(4) [OF _ _ Some] "2.prems" c Some by (simp add: dirs_snoc)
  qed
qed

lemma make_dirs_below:
  "dirs d (cur @ p) \<Longrightarrow> list_all plain p \<Longrightarrow> make_dirs d cur (p @ q) = make_dirs d (cur @ p) q"
proof (induction p arbitrary: cur)
  case (Cons c p)
  then have "node_at d (cur @ [c]) = Some Dir"
    by (simp add: dirs_def)
  with Cons show ?case
    by (simp add: plain_def)
qed simp

lemma create_dirs_ok:
  assumes "fs_create_dir_all d p = Inr d'" "wf_disk d" "list_all plain p"
  shows "wf_disk d'" "node_at d' q = (if prefix q p then Some Dir else node_at d q)"
  using make_dirs_ok [of d "[]" p d' q] assms by (simp_all add: fs_create_dir_all_def dirs_def node_at_def)

lemma remove_dir_ok:
  assumes "dirs d p" "list_all plain p" "p \<noteq> []" "wf_disk d"
  shows "wf_disk (fs_remove_dir_all d p)"
    "q \<noteq> [] \<Longrightarrow> node_at (fs_remove_dir_all d p) q = (if prefix p q then None else node_at d q)"
proof -
  have "last p \<noteq> dot" "last p \<noteq> dot_dot"
    using assms(2,3) by (auto simp: list_all_iff plain_def)
  then have "fs_remove_dir_all d p = filter (\<lambda>(r, n). \<not> prefix p r) d"
    using walk_dirs [of d "[]" p] assms(1,2) dirs_at [OF assms(1)]
    by (simp add: fs_remove_dir_all_def)
  then show "wf_disk (fs_remove_dir_all d p)"
    "q \<noteq> [] \<Longrightarrow> node_at (fs_remove_dir_all d p) q = (if prefix p q then None else node_at d q)"
    using assms(4) by (simp_all add: wf_disk_filter node_at_filter)
qed

subsection \<open>Names the code admits\<close>

lemma find_NoneD: "List.find P xs = None \<Longrightarrow> x \<in> set xs \<Longrightarrow> \<not> P x"
  by (auto simp: find_None_iff)

lemma chars_ascii: "b \<in> set s \<Longrightarrow> unat b < 128 \<Longrightarrow> unat b \<in> set (chars s)"
  using utf8_chars_ascii [of s _ b] by (auto simp: chars_def split: option.split)

lemma is_alphanumeric_ascii [simp]: "\<not> is_alphanumeric u 47" "\<not> is_alphanumeric u 46" "\<not> is_alphanumeric u 92"
  by (simp_all add: is_alphanumeric_def is_alphabetic_def is_ascii_letter_def is_digit_char_def)

lemma valid_namespaceD:
  assumes "validate_namespace u ns = Inr ()"
  shows "slash \<notin> set ns" "ns \<noteq> dot \<Longrightarrow> plain ns"
proof -
  have ok: "ns \<noteq> []" "\<not> contains ns dot_dot"
    "List.find (\<lambda>ch. \<not> (is_alphanumeric u ch \<or> ch = 46 \<or> ch = 45 \<or> ch = 95)) (chars ns) = None"
    using assms by (auto simp: validate_namespace_def split: if_splits option.splits)
  show "slash \<notin> set ns"
    using chars_ascii [of slash ns] find_NoneD [OF ok(3), of 47] by auto
  show "ns \<noteq> dot \<Longrightarrow> plain ns"
    using ok(1,2) by (auto simp: plain_def dot_dot_def ascii_def)
qed

lemma valid_nameD:
  assumes "validate_name u app = Inr ()"
  shows "slash \<notin> set app" "plain app"
proof -
  have ok: "app \<noteq> []" "List.find (\<lambda>ch. \<not> (is_alphanumeric u ch \<or> ch = 45 \<or> ch = 95)) (chars app) = None"
    using assms by (auto simp: validate_name_def split: if_splits option.splits)
  show "slash \<notin> set app"
    using chars_ascii [of slash app] find_NoneD [OF ok(2), of 47] by auto
  have "46 \<notin> set app"
    using chars_ascii [of 46 app] find_NoneD [OF ok(2), of 46] by auto
  then show "plain app"
    using ok(1) by (auto simp: plain_def dot_def dot_dot_def ascii_def)
qed

lemma valid_filenameD:
  assumes "validate_filename name = Inr ()"
  shows "slash \<notin> set name" "plain name" "name \<noteq> manifest_json"
proof -
  have ok: "name \<noteq> []" "slash \<notin> set name" "\<not> contains name dot_dot"
    "ends_with name (ascii ''.fasm'') \<or> ends_with name (ascii ''.fasmc'')"
    using assms by (auto simp: validate_filename_def split: if_splits)
  show "slash \<notin> set name"
    using ok(2) .
  have "\<not> ends_with dot (ascii ''.fasm'')" "\<not> ends_with dot (ascii ''.fasmc'')"
    "\<not> ends_with manifest_json (ascii ''.fasm'')" "\<not> ends_with manifest_json (ascii ''.fasmc'')"
    by (simp_all add: ends_with_def dot_def manifest_json_def ascii_def suffix_def)
  then show "plain name" "name \<noteq> manifest_json"
    using ok by (auto simp: plain_def dot_dot_def ascii_def)
qed

subsection \<open>The invariant\<close>

definition dir_ok :: "registry \<Rightarrow> bool" where
  "dir_ok r \<longleftrightarrow> wf_disk (rg_disk r) \<and> list_all plain (rg_dir r) \<and> dirs (rg_disk r) (rg_dir r)"

definition namespaces_ok :: "char_class \<Rightarrow> registry \<Rightarrow> bool" where
  "namespaces_ok u r \<longleftrightarrow> (\<forall>ns. map_of (rg_namespaces r) ns \<noteq> None \<longrightarrow>
     validate_namespace u ns = Inr () \<and> ns \<noteq> dot \<and> utf8_valid ns \<and> node_at (rg_disk r) (rg_dir r @ [ns]) = Some Dir)"

definition app_stored :: "serde \<Rightarrow> char_class \<Rightarrow> registry \<Rightarrow> app_manifest \<Rightarrow> bool" where
  "app_stored sd u r m \<longleftrightarrow> validate_name u (am_app m) = Inr ()
     \<and> node_at (rg_disk r) (rg_dir r @ [am_namespace m, am_app m]) = Some Dir
     \<and> node_at (rg_disk r) (rg_dir r @ [am_namespace m, am_app m, files_dir]) = Some Dir
     \<and> node_at (rg_disk r) (rg_dir r @ [am_namespace m, am_app m, manifest_json]) = Some (File (sd_print sd m))"

definition apps_ok :: "serde \<Rightarrow> char_class \<Rightarrow> registry \<Rightarrow> bool" where
  "apps_ok sd u r \<longleftrightarrow> (\<forall>ns app m. get_app r ns app = Some m \<longrightarrow>
     am_namespace m = ns \<and> am_app m = app \<and> app_stored sd u r m)"

definition manifests_ok :: "registry \<Rightarrow> bool" where
  "manifests_ok r \<longleftrightarrow> (\<forall>ns app data. node_at (rg_disk r) (rg_dir r @ [ns, app, manifest_json]) = Some (File data)
     \<longrightarrow> get_app r ns app \<noteq> None)"

definition levels_ok :: "registry \<Rightarrow> bool" where
  "levels_ok r \<longleftrightarrow> (\<forall>a b c. node_at (rg_disk r) (rg_dir r @ [a, b, c]) = Some Dir \<longrightarrow> c = files_dir)"

definition kept :: "serde \<Rightarrow> char_class \<Rightarrow> registry \<Rightarrow> bool" where
  "kept sd u r \<longleftrightarrow> dir_ok r \<and> namespaces_ok u r \<and> apps_ok sd u r \<and> manifests_ok r \<and> levels_ok r"

lemmas kept_defs = kept_def dir_ok_def namespaces_ok_def apps_ok_def app_stored_def manifests_ok_def levels_ok_def

lemma apps_okD:
  assumes "apps_ok sd u r" "get_app r ns app = Some m"
  shows "am_namespace m = ns" "am_app m = app" "validate_name u app = Inr ()"
    "node_at (rg_disk r) (rg_dir r @ [ns, app]) = Some Dir"
    "node_at (rg_disk r) (rg_dir r @ [ns, app, files_dir]) = Some Dir"
    "node_at (rg_disk r) (rg_dir r @ [ns, app, manifest_json]) = Some (File (sd_print sd m))"
proof -
  from assms have "am_namespace m = ns \<and> am_app m = app \<and> app_stored sd u r m"
    by (simp add: apps_ok_def)
  then show "am_namespace m = ns" "am_app m = app" "validate_name u app = Inr ()"
    "node_at (rg_disk r) (rg_dir r @ [ns, app]) = Some Dir"
    "node_at (rg_disk r) (rg_dir r @ [ns, app, files_dir]) = Some Dir"
    "node_at (rg_disk r) (rg_dir r @ [ns, app, manifest_json]) = Some (File (sd_print sd m))"
    by (auto simp: app_stored_def)
qed

lemma apps_okI:
  assumes "\<And>ns app m. get_app r ns app = Some m \<Longrightarrow> am_namespace m = ns \<and> am_app m = app
    \<and> validate_name u app = Inr () \<and> node_at (rg_disk r) (rg_dir r @ [ns, app]) = Some Dir
    \<and> node_at (rg_disk r) (rg_dir r @ [ns, app, files_dir]) = Some Dir
    \<and> node_at (rg_disk r) (rg_dir r @ [ns, app, manifest_json]) = Some (File (sd_print sd m))"
  shows "apps_ok sd u r"
  unfolding apps_ok_def app_stored_def using assms by blast

lemma levels_okD: "levels_ok r \<Longrightarrow> c \<noteq> files_dir \<Longrightarrow> node_at (rg_disk r) (rg_dir r @ [a, b, c]) \<noteq> Some Dir"
  by (auto simp: levels_ok_def)

lemma get_app_simps [simp]:
  "get_app (r\<lparr>rg_disk := d\<rparr>) = get_app r"
  "get_app (set_apps ns (AList.update app m apps) r) ns' app' =
    (if ns' = ns then if app' = app then Some m else map_of apps app' else get_app r ns' app')"
  by (auto simp: get_app_def set_apps_def update_conv' fun_eq_iff)

lemma set_apps_simps [simp]:
  "rg_disk (set_apps ns apps r) = rg_disk r" "rg_dir (set_apps ns apps r) = rg_dir r"
  "map_of (rg_namespaces (set_apps ns apps r)) = (map_of (rg_namespaces r))(ns \<mapsto> apps)"
  by (simp_all add: set_apps_def update_conv')

lemma get_app_apps: "map_of (rg_namespaces r) ns = Some apps \<Longrightarrow> get_app r ns app = map_of apps app"
  by (simp add: get_app_def)

text \<open>Writing a manifest: the temporary file comes and goes.\<close>

lemma persist_ok:
  assumes "wf_disk (rg_disk r)" "list_all plain (rg_dir r)" "dirs (rg_disk r) (rg_dir r @ [am_namespace m, am_app m])"
    and "plain (am_namespace m)" "plain (am_app m)" "slash \<notin> set (am_namespace m)" "slash \<notin> set (am_app m)"
    and "levels_ok r"
  obtains d where "persist_manifest sd m r = (Inr (), r\<lparr>rg_disk := d\<rparr>)" "wf_disk d"
    "\<And>q. node_at d q = (if q = rg_dir r @ [am_namespace m, am_app m, manifest_json] then Some (File (sd_print sd m))
      else if q = rg_dir r @ [am_namespace m, am_app m, manifest_tmp] then None else node_at (rg_disk r) q)"
proof -
  let ?dir = "rg_dir r @ [am_namespace m, am_app m]" and ?data = "File (sd_print sd m)"
  let ?path = "?dir @ [manifest_json]" and ?tmp = "?dir @ [manifest_tmp]"
  let ?d = "AList.update ?tmp ?data (rg_disk r)"
  let ?d' = "AList.update ?path ?data (AList.delete ?tmp ?d)"
  have pl: "list_all plain ?dir"
    using assms(2,4,5) by simp
  have no_dir: "node_at (rg_disk r) ?path \<noteq> Some Dir" "node_at (rg_disk r) ?tmp \<noteq> Some Dir"
    using levels_okD [OF assms(8)] by simp_all
  have app: "app_path r (am_namespace m) (am_app m) = ?dir"
    using assms(6,7) by (simp add: app_path_def)
  have w: "fs_write (rg_disk r) ?tmp (sd_print sd m) = Inr ?d"
    by (rule fs_write_ok [OF assms(3) pl _ no_dir(2)]) simp
  have dirs: "dirs ?d ?dir"
    by (rule dirs_mono [OF assms(3)]) (use no_dir in \<open>auto simp: node_at_update\<close>)
  have "fs_rename ?d ?tmp ?path = Inr ?d'"
    using walk_name [OF dirs pl] no_dir by (simp add: fs_rename_def node_at_update del: append_assoc append_Cons append_Nil)
  then have "persist_manifest sd m r = (Inr (), r\<lparr>rg_disk := ?d'\<rparr>)"
    using w by (simp add: persist_manifest_def app Let_def)
  moreover have "wf_disk ?d'"
    using assms(1) pl by (simp add: wf_disk_update wf_disk_delete)
  moreover have "node_at ?d' q = (if q = ?path then Some ?data else if q = ?tmp then None else node_at (rg_disk r) q)" for q
    by (auto simp: node_at_update node_at_delete)
  ultimately show thesis
    using that [of ?d'] by simp
qed

text \<open>An application is put into memory and its manifest on disk.\<close>

lemma kept_put:
  assumes kept: "kept sd u r" and ns: "map_of (rg_namespaces r) ns = Some apps"
    and m: "am_namespace m = ns" "am_app m = app" "validate_name u app = Inr ()"
    and there: "node_at (rg_disk r) (rg_dir r @ [ns, app]) = Some Dir"
      "node_at (rg_disk r) (rg_dir r @ [ns, app, files_dir]) = Some Dir"
  obtains d where "persist_manifest sd m r = (Inr (), r\<lparr>rg_disk := d\<rparr>)"
    "kept sd u (set_apps ns (AList.update app m apps) (r\<lparr>rg_disk := d\<rparr>))"
    "persist_manifest sd m (set_apps ns (AList.update app m apps) r)
      = (Inr (), set_apps ns (AList.update app m apps) (r\<lparr>rg_disk := d\<rparr>))"
    "\<And>q. node_at d q = (if q = rg_dir r @ [ns, app, manifest_json] then Some (File (sd_print sd m))
      else if q = rg_dir r @ [ns, app, manifest_tmp] then None else node_at (rg_disk r) q)"
proof -
  have v: "validate_namespace u ns = Inr ()" "ns \<noteq> dot" "node_at (rg_disk r) (rg_dir r @ [ns]) = Some Dir"
    using kept ns by (auto simp: kept_def namespaces_ok_def)
  note names = valid_namespaceD(1) [OF v(1)] valid_namespaceD(2) [OF v(1,2)] valid_nameD [OF m(3)]
  have d: "dirs (rg_disk r) (rg_dir r @ [am_namespace m, am_app m])"
    using kept v(3) there(1) dirs_snoc [of "rg_disk r" "rg_dir r @ [ns]" app] dirs_snoc [of "rg_disk r" "rg_dir r" ns]
    by (simp add: m kept_def dir_ok_def)
  obtain d where p: "persist_manifest sd m r = (Inr (), r\<lparr>rg_disk := d\<rparr>)" and wf: "wf_disk d"
    and at: "\<And>q. node_at d q = (if q = rg_dir r @ [ns, app, manifest_json] then Some (File (sd_print sd m))
      else if q = rg_dir r @ [ns, app, manifest_tmp] then None else node_at (rg_disk r) q)"
    using persist_ok [OF _ _ d, of sd] kept names unfolding m by (auto simp: kept_def dir_ok_def)
  let ?r = "set_apps ns (AList.update app m apps) (r\<lparr>rg_disk := d\<rparr>)"
  have "dirs d (rg_dir r)"
    using kept by (auto simp: kept_def dir_ok_def at levels_ok_def elim!: dirs_mono)
  then have "dir_ok ?r"
    using kept wf by (simp add: kept_def dir_ok_def)
  moreover have "namespaces_ok u ?r"
    using kept ns by (auto simp: kept_def namespaces_ok_def at)
  moreover have "apps_ok sd u ?r"
    by (rule apps_okI) (use kept there m in \<open>auto simp: kept_def at get_app_apps [OF ns, symmetric] dest: apps_okD split: if_splits\<close>)
  moreover have "manifests_ok ?r"
    using kept ns by (auto simp: kept_def manifests_ok_def at get_app_apps [OF ns, symmetric] split: if_splits)
  moreover have "levels_ok ?r"
    using kept by (auto simp: kept_def levels_ok_def at split: if_splits)
  ultimately have "kept sd u ?r"
    by (simp add: kept_def)
  moreover have "persist_manifest sd m (set_apps ns (AList.update app m apps) r) = (Inr (), ?r)"
    using p by (cases r) (auto simp: persist_manifest_def app_path_def set_apps_def Let_def split: sum.splits)
  ultimately show thesis
    using that [of d] p at by blast
qed

end
