(* ===== verification/Fasm_Admin.thy ===== *)
theory Fasm_Admin
  imports Fasm_Registry Fasm_Compiler Fasm_Dispatcher
begin

text \<open>
  The management interface of the engine: the handlers of \<open>crates/fasm-engine/src/admin\<close> over the
  registry and the live route table, and the part of \<open>engine.rs\<close> that brings both up at start-up.
  A request is the endpoint of \<open>admin::router\<close> it is routed to with its extracted path parameters and
  body; a handler runs to its end before the next one starts.
\<close>

subsection \<open>State and replies\<close>

record app_state =
  ap_registry :: registry
  ap_routes :: "(program, jit_dispatcher) route_table"
  ap_token :: "bytes option"

text \<open>What is not the engine's own: Unicode classes and case mapping, the JSON of manifests, the JIT, the
  text of paths and errors, gzip and the parser of identifiers.\<close>

record outside =
  out_chars :: char_class
  out_serde :: serde
  out_jit :: "program \<Rightarrow> jit_dispatcher option"
  out_upper :: "bytes \<Rightarrow> bytes"
  out_debug :: "path \<Rightarrow> bytes"
  out_decode_text :: "decode_error \<Rightarrow> bytes"
  out_compile_text :: "compile_error \<Rightarrow> bytes"
  out_gunzip :: "bytes \<Rightarrow> bytes + bytes"
  out_parse_uuid :: "bytes \<Rightarrow> bytes option"

datatype reply_body =
  NoBody | Message bytes | NamespaceList "(bytes \<times> bytes list) list" | NamespaceBody "bytes \<times> bytes list"
| NameList "bytes list" | ManifestBody app_manifest | FileList "file_record list" | FileBody file_record
| RouteList "route_record list" | RouteBody route_record | Content bytes bytes

type_synonym reply = "nat \<times> reply_body"

text \<open>\<open>X-Admin-Token\<close>, when the header is text.\<close>

definition require_auth :: "bytes option \<Rightarrow> app_state \<Rightarrow> bool" where
  "require_auth header st = (case ap_token st of
      None \<Rightarrow> True
    | Some expected \<Rightarrow> (case header of Some v \<Rightarrow> v | None \<Rightarrow> []) = expected)"

definition unauthorized :: reply where
  "unauthorized = (401, Message (ascii ''invalid or missing X-Admin-Token''))"

definition with_registry :: "app_state \<Rightarrow> registry \<Rightarrow> app_state" where
  "with_registry st r = st\<lparr>ap_registry := r\<rparr>"

subsection \<open>Namespaces\<close>

definition create_namespace_handler :: "outside \<Rightarrow> bytes option \<Rightarrow> bytes \<Rightarrow> app_state \<Rightarrow> reply \<times> app_state" where
  "create_namespace_handler out header name st =
     (if \<not> require_auth header st then (unauthorized, st)
      else case validate_namespace (out_chars out) name of
          Inl e \<Rightarrow> ((400, Message e), st)
        | Inr _ \<Rightarrow> (case create_namespace (out_chars out) name (ap_registry st) of
            (Inr _, r) \<Rightarrow> ((201, NoBody), with_registry st r)
          | (Inl e, r) \<Rightarrow> ((409, Message e), with_registry st r)))"

definition get_namespace_handler :: "bytes \<Rightarrow> app_state \<Rightarrow> reply" where
  "get_namespace_handler ns st = (case get_namespace (ap_registry st) ns of
      Some info \<Rightarrow> (200, NamespaceBody info) | None \<Rightarrow> (404, Message (no_namespace ns)))"

definition delete_namespace_handler :: "bytes option \<Rightarrow> bytes \<Rightarrow> app_state \<Rightarrow> reply \<times> app_state" where
  "delete_namespace_handler header ns st =
     (if \<not> require_auth header st then (unauthorized, st)
      else case delete_namespace ns (ap_registry st) of
          (Inr _, r) \<Rightarrow> ((204, NoBody), with_registry st r)
        | (Inl e, r) \<Rightarrow> ((if contains e (ascii ''not found'') then 404
            else if contains e (ascii ''not empty'') then 409 else 500, Message e), with_registry st r))"

subsection \<open>Applications\<close>

definition list_apps_handler :: "bytes \<Rightarrow> app_state \<Rightarrow> reply" where
  "list_apps_handler ns st = (case list_apps (ap_registry st) ns of
      Inr names \<Rightarrow> (200, NameList names) | Inl e \<Rightarrow> (404, Message e))"

definition create_app_handler :: "outside \<Rightarrow> bytes option \<Rightarrow> nat \<Rightarrow> bytes \<Rightarrow> bytes \<Rightarrow> app_state
    \<Rightarrow> reply \<times> app_state" where
  "create_app_handler out header now ns name st =
     (if \<not> require_auth header st then (unauthorized, st)
      else case create_app (out_chars out) (out_serde out) now ns name (ap_registry st) of
          (Inr m, r) \<Rightarrow> ((201, ManifestBody m), with_registry st r)
        | (Inl e, r) \<Rightarrow> ((if contains e (ascii ''not found'') then 404
            else if contains e (ascii ''already exists'') then 409 else 400, Message e), with_registry st r))"

definition get_app_handler :: "bytes \<Rightarrow> bytes \<Rightarrow> app_state \<Rightarrow> reply" where
  "get_app_handler ns app st = (case get_app (ap_registry st) ns app of
      Some m \<Rightarrow> (200, ManifestBody m) | None \<Rightarrow> (404, Message (no_app ns app)))"

definition delete_app_handler :: "bytes option \<Rightarrow> bytes \<Rightarrow> bytes \<Rightarrow> app_state \<Rightarrow> reply \<times> app_state" where
  "delete_app_handler header ns app st =
     (if \<not> require_auth header st then (unauthorized, st)
      else case get_app (ap_registry st) ns app of
          None \<Rightarrow> ((404, Message (no_app ns app)), st)
        | Some m \<Rightarrow>
            let table = fold (\<lambda>i table. snd (remove_route i table)) (map rr_id (am_routes m)) (ap_routes st)
            in (case delete_app ns app (ap_registry st) of
                (Inr _, r) \<Rightarrow> ((204, NoBody), (with_registry st r)\<lparr>ap_routes := table\<rparr>)
              | (Inl e, r) \<Rightarrow> ((500, Message e), (with_registry st r)\<lparr>ap_routes := table\<rparr>)))"

subsection \<open>Files\<close>

definition list_files_handler :: "bytes \<Rightarrow> bytes \<Rightarrow> app_state \<Rightarrow> reply" where
  "list_files_handler ns app st = (case get_app (ap_registry st) ns app of
      Some m \<Rightarrow> (200, FileList (am_files m)) | None \<Rightarrow> (404, Message (no_app ns app)))"

definition lower_ascii :: "bytes \<Rightarrow> bytes" where
  "lower_ascii = map (\<lambda>b. if 65 \<le> b \<and> b \<le> 90 then b + 32 else b)"

text \<open>The header \<open>Content-Encoding\<close>, when it is text.\<close>

definition is_gzip :: "bytes option \<Rightarrow> bool" where
  "is_gzip enc = (case enc of Some v \<Rightarrow> lower_ascii v = ascii ''gzip'' | None \<Rightarrow> False)"

definition upload_file_handler :: "outside \<Rightarrow> bytes option \<Rightarrow> nat \<Rightarrow> bytes \<Rightarrow> bytes \<Rightarrow> bytes \<Rightarrow> bytes option \<Rightarrow> bytes
    \<Rightarrow> app_state \<Rightarrow> reply \<times> app_state" where
  "upload_file_handler out header now ns app filename enc body st =
     (if \<not> require_auth header st then (unauthorized, st)
      else case (if is_gzip enc then out_gunzip out body else Inr body) of
          Inl e \<Rightarrow> ((400, Message (ascii ''gzip decompress failed: '' @ e)), st)
        | Inr raw \<Rightarrow>
            if raw = [] then ((400, Message (ascii ''empty file body'')), st)
            else (case store_file (out_serde out) now ns app filename raw (ap_registry st) of
                (Inr rec, r) \<Rightarrow> ((200, FileBody rec), with_registry st r)
              | (Inl e, r) \<Rightarrow> ((if contains e (ascii ''not found'') then 404 else 400, Message e), with_registry st r)))"

definition download_file_handler :: "bytes \<Rightarrow> bytes \<Rightarrow> bytes \<Rightarrow> app_state \<Rightarrow> reply" where
  "download_file_handler ns app filename st = (case get_file_path (ap_registry st) ns app filename of
      None \<Rightarrow> (404, Message (ascii ''file '' @ quoted filename @ ascii '' not found''))
    | Some path \<Rightarrow> (case fs_read (rg_disk (ap_registry st)) path of
        Inr data \<Rightarrow> (200, Content (if ends_with filename (ascii ''.fasmc'') then ascii ''application/octet-stream''
          else ascii ''text/plain; charset=utf-8'') data)
      | Inl e \<Rightarrow> (500, Message (io_text e))))"

definition delete_file_handler :: "outside \<Rightarrow> bytes option \<Rightarrow> bytes \<Rightarrow> bytes \<Rightarrow> bytes \<Rightarrow> app_state
    \<Rightarrow> reply \<times> app_state" where
  "delete_file_handler out header ns app filename st =
     (if \<not> require_auth header st then (unauthorized, st)
      else case delete_file (out_serde out) ns app filename (ap_registry st) of
          (Inr _, r) \<Rightarrow> ((204, NoBody), with_registry st r)
        | (Inl e, r) \<Rightarrow> ((if contains e (ascii ''not found'') then 404
            else if contains e (ascii ''referenced'') then 409 else 500, Message e), with_registry st r))"

subsection \<open>Routes\<close>

definition list_routes_handler :: "bytes \<Rightarrow> bytes \<Rightarrow> app_state \<Rightarrow> reply" where
  "list_routes_handler ns app st = (case get_app (ap_registry st) ns app of
      Some m \<Rightarrow> (200, RouteList (am_routes m)) | None \<Rightarrow> (404, Message (no_app ns app)))"

text \<open>\<open>None\<close>: the compiler does not return.\<close>

definition load_program :: "outside \<Rightarrow> disk \<Rightarrow> path \<Rightarrow> (bytes + program) option" where
  "load_program out d path = (case fs_read d path of
      Inl e \<Rightarrow> Some (Inl (ascii ''cannot read file '' @ out_debug out path @ ascii '': '' @ io_text e))
    | Inr data \<Rightarrow>
        if prefix MAGIC data then (case decode_program data of
            Inl e \<Rightarrow> Some (Inl (ascii ''bytecode decode error: '' @ out_decode_text out e))
          | Inr p \<Rightarrow> Some (Inr p))
        else (case utf8_chars data of
            None \<Rightarrow> Some (Inl (ascii ''file is not valid UTF-8 FASM source''))
          | Some source \<Rightarrow> (case compile_source (out_chars out) source of
              None \<Rightarrow> None
            | Some (Inl e) \<Rightarrow> Some (Inl (ascii ''compile error: '' @ out_compile_text out e))
            | Some (Inr p) \<Rightarrow> Some (Inr p))))"

definition route_conflict :: "bytes \<Rightarrow> bytes \<Rightarrow> bytes \<Rightarrow> bytes" where
  "route_conflict m path i = ascii ''route conflict: '' @ m @ 32 # path @ ascii '' is already registered (id='' @ i @ ascii '')''"

record route_body =
  rb_method :: bytes
  rb_path :: bytes
  rb_function :: bytes
  rb_file :: bytes

definition register_route_handler :: "outside \<Rightarrow> bytes option \<Rightarrow> bytes \<Rightarrow> bytes \<Rightarrow> bytes \<Rightarrow> route_body \<Rightarrow> app_state
    \<Rightarrow> (reply \<times> app_state) option" where
  "register_route_handler out header uuid ns app body st =
     (if \<not> require_auth header st then Some (unauthorized, st)
      else case get_app (ap_registry st) ns app of
          None \<Rightarrow> Some ((404, Message (no_app ns app)), st)
        | Some m \<Rightarrow>
            if \<not> (\<exists>f \<in> set (am_files m). fr_name f = rb_file body) then
              Some ((404, Message (ascii ''file '' @ quoted (rb_file body) @ ascii '' not uploaded to app ''
                @ quoted (ns @ slash # app))), st)
            else (case load_program out (rg_disk (ap_registry st)) (file_path (ap_registry st) ns app (rb_file body)) of
                None \<Rightarrow> None
              | Some (Inl e) \<Rightarrow> Some ((422, Message e), st)
              | Some (Inr program) \<Rightarrow>
                  (case add_route_dyn (out_jit out) (out_upper out) uuid (rb_method body) (rb_path body)
                      (rb_function body) program (ap_routes st) of
                    Inl i \<Rightarrow> Some ((409, Message (route_conflict (to_uppercase (out_upper out) (rb_method body))
                      (rb_path body) i)), st)
                  | Inr (route_id, table) \<Rightarrow>
                      let rec = \<lparr>rr_id = route_id, rr_method = to_uppercase (out_upper out) (rb_method body),
                        rr_path = rb_path body, rr_function = rb_function body, rr_file = rb_file body\<rparr>
                      in (case add_route_record (out_serde out) ns app rec (ap_registry st) of
                          (Inl e, r) \<Rightarrow> Some ((500, Message e),
                            (with_registry st r)\<lparr>ap_routes := snd (remove_route route_id table)\<rparr>)
                        | (Inr _, r) \<Rightarrow> Some ((201, RouteBody rec), (with_registry st r)\<lparr>ap_routes := table\<rparr>)))))"

text \<open>A failed update of the manifest is logged only.\<close>

definition unregister_route_handler :: "outside \<Rightarrow> bytes option \<Rightarrow> bytes \<Rightarrow> bytes \<Rightarrow> bytes \<Rightarrow> app_state
    \<Rightarrow> reply \<times> app_state" where
  "unregister_route_handler out header ns app id_text st =
     (if \<not> require_auth header st then (unauthorized, st)
      else case out_parse_uuid out id_text of
          None \<Rightarrow> ((400, Message (ascii ''invalid route_id (expected UUID)'')), st)
        | Some i \<Rightarrow> (case remove_route i (ap_routes st) of
            (False, _) \<Rightarrow> ((404, Message (ascii ''route '' @ quoted i @ ascii '' not found or is a static route'')), st)
          | (True, table) \<Rightarrow> (case remove_route_record (out_serde out) ns app i (ap_registry st) of
              (_, r) \<Rightarrow> ((204, NoBody), (with_registry st r)\<lparr>ap_routes := table\<rparr>))))"

subsection \<open>The endpoints\<close>

datatype admin_request =
  ListNamespaces | CreateNamespace bytes | GetNamespace bytes | DeleteNamespace bytes
| ListApps bytes | CreateApp bytes bytes | GetApp bytes bytes | DeleteApp bytes bytes
| ListFiles bytes bytes | UploadFile bytes bytes bytes "bytes option" bytes | DownloadFile bytes bytes bytes
| DeleteFile bytes bytes bytes
| ListRoutes bytes bytes | RegisterRoute bytes bytes route_body | UnregisterRoute bytes bytes bytes

text \<open>What a request meets: its token, the time and the identifier a new route would get.\<close>

record occasion =
  oc_token :: "bytes option"
  oc_now :: nat
  oc_uuid :: bytes

fun serve_admin :: "outside \<Rightarrow> occasion \<Rightarrow> admin_request \<Rightarrow> app_state \<Rightarrow> (reply \<times> app_state) option" where
  "serve_admin out oc ListNamespaces st = Some ((200, NamespaceList (list_namespaces (ap_registry st))), st)"
| "serve_admin out oc (CreateNamespace ns) st = Some (create_namespace_handler out (oc_token oc) ns st)"
| "serve_admin out oc (GetNamespace ns) st = Some (get_namespace_handler ns st, st)"
| "serve_admin out oc (DeleteNamespace ns) st = Some (delete_namespace_handler (oc_token oc) ns st)"
| "serve_admin out oc (ListApps ns) st = Some (list_apps_handler ns st, st)"
| "serve_admin out oc (CreateApp ns name) st = Some (create_app_handler out (oc_token oc) (oc_now oc) ns name st)"
| "serve_admin out oc (GetApp ns app) st = Some (get_app_handler ns app st, st)"
| "serve_admin out oc (DeleteApp ns app) st = Some (delete_app_handler (oc_token oc) ns app st)"
| "serve_admin out oc (ListFiles ns app) st = Some (list_files_handler ns app st, st)"
| "serve_admin out oc (UploadFile ns app filename enc body) st =
     Some (upload_file_handler out (oc_token oc) (oc_now oc) ns app filename enc body st)"
| "serve_admin out oc (DownloadFile ns app filename) st = Some (download_file_handler ns app filename st, st)"
| "serve_admin out oc (DeleteFile ns app filename) st =
     Some (delete_file_handler out (oc_token oc) ns app filename st)"
| "serve_admin out oc (ListRoutes ns app) st = Some (list_routes_handler ns app st, st)"
| "serve_admin out oc (RegisterRoute ns app body) st =
     register_route_handler out (oc_token oc) (oc_uuid oc) ns app body st"
| "serve_admin out oc (UnregisterRoute ns app id_text) st =
     Some (unregister_route_handler out (oc_token oc) ns app id_text st)"

subsection \<open>Start-up\<close>

text \<open>\<open>compile_source_file\<close> takes every file for a source text; start-up logs its errors only.\<close>

definition compile_source_file :: "outside \<Rightarrow> disk \<Rightarrow> path \<Rightarrow> ((io_error + compile_error) + program) option" where
  "compile_source_file out d path = (case fs_read_text d path of
      Inl e \<Rightarrow> Some (Inl (Inl e))
    | Inr source \<Rightarrow> (case compile_source (out_chars out) source of
        None \<Rightarrow> None | Some (Inl e) \<Rightarrow> Some (Inl (Inr e)) | Some (Inr p) \<Rightarrow> Some (Inr p)))"

text \<open>One record of a persisted manifest; \<open>fresh\<close> yields the identifiers, \<open>n\<close> counts the records.\<close>

definition restore_route :: "outside \<Rightarrow> (nat \<Rightarrow> bytes) \<Rightarrow> registry \<Rightarrow> bytes \<times> bytes \<times> route_record
    \<Rightarrow> nat \<times> (program, jit_dispatcher) route_table \<Rightarrow> (nat \<times> (program, jit_dispatcher) route_table) option" where
  "restore_route out fresh r rec_of st = (case (rec_of, st) of ((ns, app, rec), (n, table)) \<Rightarrow>
     (case compile_source_file out (rg_disk r) (file_path r ns app (rr_file rec)) of
        None \<Rightarrow> None
      | Some (Inl e) \<Rightarrow> Some (Suc n, table)
      | Some (Inr program) \<Rightarrow> (case add_route_dyn (out_jit out) (out_upper out) (fresh n) (rr_method rec) (rr_path rec)
            (rr_function rec) program table of
          Inl i \<Rightarrow> Some (Suc n, table)
        | Inr (_, table') \<Rightarrow> Some (Suc n, table'))))"

fun restore_routes :: "outside \<Rightarrow> (nat \<Rightarrow> bytes) \<Rightarrow> registry \<Rightarrow> (bytes \<times> bytes \<times> route_record) list
    \<Rightarrow> nat \<times> (program, jit_dispatcher) route_table \<Rightarrow> (program, jit_dispatcher) route_table option" where
  "restore_routes out fresh r [] st = Some (snd st)"
| "restore_routes out fresh r (rec # recs) st =
     Option.bind (restore_route out fresh r rec st) (restore_routes out fresh r recs)"

definition manifest_records :: "app_manifest list \<Rightarrow> (bytes \<times> bytes \<times> route_record) list" where
  "manifest_records ms = [(am_namespace m, am_app m, rec). m \<leftarrow> ms, rec \<leftarrow> am_routes m]"

text \<open>\<open>run_with_listener\<close> between the compilation of the static routes and the server: \<open>Inl\<close> when the data
  directory cannot be made.\<close>

definition start_engine :: "outside \<Rightarrow> (nat \<Rightarrow> bytes) \<Rightarrow> (program, jit_dispatcher) route_table \<Rightarrow> path \<Rightarrow> bytes option
    \<Rightarrow> disk \<Rightarrow> (io_error + app_state) option" where
  "start_engine out fresh static data_dir token d = (case fs_create_dir_all d data_dir of
      Inl e \<Rightarrow> Some (Inl e)
    | Inr d \<Rightarrow> (case load_from_disk (out_serde out) (out_chars out) (registry_new data_dir d) of
        (persisted, r) \<Rightarrow> map_option (\<lambda>table. Inr \<lparr>ap_registry = r, ap_routes = table, ap_token = token\<rparr>)
          (restore_routes out fresh r (manifest_records persisted) (0, static))))"

end
