(* ===== verification/Fasm_Restart.thy ===== *)
theory Fasm_Restart
  imports Fasm_Store Fasm_Admin Fasm_Routing
begin

text \<open>
  What the management interface promises and what it does not: every operation keeps memory and disk
  in agreement, so that a restart finds every application again; but a restart cuts the routes it
  restores loose from their records, and names that are not checked lead out of the data directory.
\<close>

subsection \<open>The operations keep the invariant\<close>

lemma keptD:
  assumes "kept sd u r"
  shows "wf_disk (rg_disk r)" "list_all plain (rg_dir r)" "dirs (rg_disk r) (rg_dir r)"
    "namespaces_ok u r" "apps_ok sd u r" "manifests_ok r" "levels_ok r"
  using assms by (simp_all add: kept_def dir_ok_def)

lemma namespaces_okD:
  assumes "namespaces_ok u r" "map_of (rg_namespaces r) ns = Some apps"
  shows "validate_namespace u ns = Inr ()" "ns \<noteq> dot" "utf8_valid ns" "plain ns" "slash \<notin> set ns"
    "node_at (rg_disk r) (rg_dir r @ [ns]) = Some Dir"
  using assms valid_namespaceD [of u ns] by (auto simp: namespaces_ok_def)

lemma manifests_okD:
  "manifests_ok r \<Longrightarrow> get_app r ns app = None
    \<Longrightarrow> node_at (rg_disk r) (rg_dir r @ [ns, app, manifest_json]) \<noteq> Some (File data)"
  unfolding manifests_ok_def by blast

lemma get_app_namespace: "get_app r ns app \<noteq> None \<Longrightarrow> \<exists>apps. map_of (rg_namespaces r) ns = Some apps"
  by (auto simp: get_app_def bind_eq_Some_conv)

lemma kept_disk:
  assumes kept: "kept sd u r" and wf: "wf_disk d"
    and dir: "\<And>p. node_at d p = Some Dir \<longleftrightarrow> node_at (rg_disk r) p = Some Dir"
    and man: "\<And>p data. node_at d (p @ [manifest_json]) = Some (File data)
      \<longleftrightarrow> node_at (rg_disk r) (p @ [manifest_json]) = Some (File data)"
  shows "kept sd u (r\<lparr>rg_disk := d\<rparr>)"
proof -
  have "node_at d (rg_dir r @ [ns, app, manifest_json]) = Some (File data)
      \<longleftrightarrow> node_at (rg_disk r) (rg_dir r @ [ns, app, manifest_json]) = Some (File data)" for ns app data
    using man [of "rg_dir r @ [ns, app]"] by simp
  then have "apps_ok sd u (r\<lparr>rg_disk := d\<rparr>)" "manifests_ok (r\<lparr>rg_disk := d\<rparr>)"
    using keptD(5,6) [OF kept] by (auto simp: manifests_ok_def dir intro!: apps_okI dest: apps_okD)
  with keptD [OF kept] wf show ?thesis
    by (simp add: kept_def dir_ok_def namespaces_ok_def levels_ok_def dir dirs_def)
qed

lemma create_namespace_kept:
  assumes kept: "kept sd u r" and "utf8_valid name" "name \<noteq> dot"
  shows "kept sd u (snd (create_namespace u name r))"
proof (cases "validate_namespace u name")
  case (Inr x)
  then have v: "validate_namespace u name = Inr ()" "slash \<notin> set name" "plain name"
    using valid_namespaceD [of u name] assms(3) by auto
  show ?thesis
  proof (cases "fs_create_dir_all (rg_disk r) (rg_dir r @ [name])")
    case (Inr d)
    have at: "node_at d q = (if prefix q (rg_dir r @ [name]) then Some Dir else node_at (rg_disk r) q)" for q
      using create_dirs_ok(2) [OF Inr keptD(1) [OF kept]] keptD(2) [OF kept] v(3) by simp
    have "wf_disk d"
      using create_dirs_ok(1) [OF Inr keptD(1) [OF kept]] keptD(2) [OF kept] v(3) by simp
    moreover have "dirs d (rg_dir r)"
      using keptD(3) [OF kept] by (rule dirs_mono) (simp add: at)
    moreover have "namespaces_ok u (r\<lparr>rg_disk := d\<rparr>)"
      using keptD(4) [OF kept] by (auto simp: namespaces_ok_def at)
    moreover have "apps_ok sd u (r\<lparr>rg_disk := d\<rparr>)"
      by (rule apps_okI) (use keptD(5) [OF kept] in \<open>auto simp: at dest: apps_okD\<close>)
    moreover have "manifests_ok (r\<lparr>rg_disk := d\<rparr>)"
      using keptD(6) [OF kept] by (auto simp: manifests_ok_def at)
    moreover have "levels_ok (r\<lparr>rg_disk := d\<rparr>)"
      using keptD(7) [OF kept] by (auto simp: levels_ok_def at)
    ultimately have made: "kept sd u (r\<lparr>rg_disk := d\<rparr>)"
      using keptD(2) [OF kept] by (simp add: kept_def dir_ok_def)
    let ?r = "r\<lparr>rg_disk := d, rg_namespaces := AList.update name [] (rg_namespaces r)\<rparr>"
    have "kept sd u ?r" if new: "map_of (rg_namespaces r) name = None"
    proof -
      have same: "get_app ?r = get_app r"
        using new by (auto simp: get_app_def update_conv' fun_eq_iff)
      have "namespaces_ok u ?r"
        using made v assms(2,3) by (auto simp: kept_def namespaces_ok_def update_conv' at)
      moreover have "apps_ok sd u ?r"
        by (rule apps_okI) (use apps_okD [OF keptD(5) [OF made]] in \<open>simp add: same\<close>)
      ultimately show ?thesis
        using made by (simp add: kept_def dir_ok_def manifests_ok_def levels_ok_def same)
    qed
    with made show ?thesis
      using Inr v by (simp add: create_namespace_def Let_def)
  qed (use kept v in \<open>simp add: create_namespace_def\<close>)
qed (use kept in \<open>simp add: create_namespace_def\<close>)

lemma dirs_name:
  assumes "kept sd u r" "node_at (rg_disk r) (rg_dir r @ [ns]) = Some Dir"
  shows "dirs (rg_disk r) (rg_dir r @ [ns])"
  using keptD(3) [OF assms(1)] assms(2) by (simp add: dirs_snoc)

text \<open>What is removed below a directory does not touch the directory.\<close>

lemma dirs_above:
  assumes "dirs d p" "c \<noteq> []" "\<And>q. q \<noteq> [] \<Longrightarrow> node_at d' q = (if prefix (p @ c) q then None else node_at d q)"
  shows "dirs d' p"
  using assms(1)
proof (rule dirs_mono)
  fix q assume q: "node_at d q = Some Dir" "prefix q p"
  then have "\<not> prefix (p @ c) q"
    using prefix_length_le [of "p @ c" q] prefix_length_le [OF q(2)] assms(2) by (auto simp flip: length_greater_0_conv)
  with q show "node_at d' q = Some Dir"
    using assms(3) by (cases "q = []") (auto simp: node_at_def [of _ "[]"])
qed

lemma delete_namespace_kept:
  assumes kept: "kept sd u r"
  shows "kept sd u (snd (delete_namespace name r))"
proof (cases "map_of (rg_namespaces r) name = Some []")
  case True
  note ns = namespaces_okD [OF keptD(4) [OF kept] True]
  let ?d = "fs_remove_dir_all (rg_disk r) (rg_dir r @ [name])"
  let ?r = "r\<lparr>rg_namespaces := AList.delete name (rg_namespaces r), rg_disk := ?d\<rparr>"
  have pl: "list_all plain (rg_dir r @ [name])"
    using keptD(2) [OF kept] ns by simp
  note removed = remove_dir_ok [OF dirs_name [OF kept ns(6)] pl _ keptD(1) [OF kept], simplified]
  have same: "get_app (r\<lparr>rg_namespaces := AList.delete name (rg_namespaces r)\<rparr>) = get_app r"
    using True by (auto simp: get_app_def delete_conv' fun_eq_iff)
  have away: "ns' \<noteq> name" if "get_app r ns' app = Some m" for ns' app m
    using that True by (auto simp: get_app_def)
  have "dirs ?d (rg_dir r)"
    by (rule dirs_above [OF keptD(3) [OF kept]]) (use removed in auto)
  moreover have "namespaces_ok u ?r"
    using keptD(4) [OF kept] by (auto simp: namespaces_ok_def removed delete_conv' split: if_splits)
  moreover have "apps_ok sd u ?r"
    by (rule apps_okI) (use keptD(5) [OF kept] in \<open>auto simp: removed same dest: apps_okD away\<close>)
  moreover have "manifests_ok ?r"
    using keptD(6) [OF kept] by (auto simp: manifests_ok_def removed same split: if_splits)
  moreover have "levels_ok ?r"
    using keptD(7) [OF kept] by (auto simp: levels_ok_def removed split: if_splits)
  ultimately have "kept sd u ?r"
    using removed(1) keptD(2) [OF kept] by (simp add: kept_def dir_ok_def)
  then show ?thesis
    using True ns by (simp add: delete_namespace_def)
qed (use kept in \<open>auto simp: delete_namespace_def split: option.split\<close>)

lemma delete_app_kept:
  assumes kept: "kept sd u r"
  shows "kept sd u (snd (delete_app ns app r))"
proof (cases "get_app r ns app")
  case (Some m)
  then obtain apps where apps: "map_of (rg_namespaces r) ns = Some apps" "map_of apps app = Some m"
    by (auto simp: get_app_def bind_eq_Some_conv)
  note ns = namespaces_okD [OF keptD(4) [OF kept] apps(1)]
  note m = apps_okD [OF keptD(5) [OF kept] Some]
  have name: "slash \<notin> set app" "plain app"
    using valid_nameD [OF m(3)] by auto
  let ?d = "fs_remove_dir_all (rg_disk r) (rg_dir r @ [ns, app])"
  let ?r = "(set_apps ns (AList.delete app apps) r)\<lparr>rg_disk := ?d\<rparr>"
  have pl: "list_all plain (rg_dir r @ [ns, app])"
    using keptD(2) [OF kept] ns name by simp
  have dirs: "dirs (rg_disk r) (rg_dir r @ [ns, app])"
    using dirs_name [OF kept ns(6)] m(4) dirs_snoc [of "rg_disk r" "rg_dir r @ [ns]" app] by simp
  note removed = remove_dir_ok [OF dirs pl _ keptD(1) [OF kept], simplified]
  have get: "get_app (set_apps ns (AList.delete app apps) r) ns' app' = (if ns' = ns \<and> app' = app then None else get_app r ns' app')" for ns' app'
    using apps by (auto simp: get_app_def set_apps_def update_conv' delete_conv')
  have "dirs ?d (rg_dir r)"
    by (rule dirs_above [OF keptD(3) [OF kept]]) (use removed in auto)
  moreover have "namespaces_ok u ?r"
    using keptD(4) [OF kept] apps(1) by (auto simp: namespaces_ok_def removed)
  moreover have "apps_ok sd u ?r"
    by (rule apps_okI) (use keptD(5) [OF kept] in \<open>auto simp: removed get dest: apps_okD split: if_splits\<close>)
  moreover have "manifests_ok ?r"
    using keptD(6) [OF kept] by (auto simp: manifests_ok_def removed get split: if_splits)
  moreover have "levels_ok ?r"
    using keptD(7) [OF kept] by (auto simp: levels_ok_def removed split: if_splits)
  ultimately have "kept sd u ?r"
    using removed(1) keptD(2) [OF kept] by (simp add: kept_def dir_ok_def)
  then show ?thesis
    using apps ns name by (simp add: delete_app_def app_path_def)
qed (use kept in \<open>auto simp: delete_app_def get_app_def split: option.split\<close>)

lemma change_app_kept:
  assumes kept: "kept sd u r" and f: "\<And>m. am_namespace (f m) = am_namespace m \<and> am_app (f m) = am_app m"
  shows "kept sd u (snd (change_app sd ns app f r))"
proof (cases "get_app r ns app")
  case (Some m)
  then obtain apps where apps: "map_of (rg_namespaces r) ns = Some apps" "map_of apps app = Some m"
    by (auto simp: get_app_def bind_eq_Some_conv)
  note m = apps_okD [OF keptD(5) [OF kept] Some]
  from f m have "am_namespace (f m) = ns" "am_app (f m) = app"
    by simp_all
  then obtain d where "kept sd u (set_apps ns (AList.update app (f m) apps) (r\<lparr>rg_disk := d\<rparr>))"
    "persist_manifest sd (f m) (set_apps ns (AList.update app (f m) apps) r)
      = (Inr (), set_apps ns (AList.update app (f m) apps) (r\<lparr>rg_disk := d\<rparr>))"
    by (rule kept_put [OF kept apps(1) _ _ m(3-5)])
  then show ?thesis
    using apps by (simp add: change_app_def)
qed (use kept in \<open>auto simp: change_app_def get_app_def bind_eq_None_conv split: option.split\<close>)

lemma create_app_kept:
  assumes kept: "kept sd u r"
  shows "kept sd u (snd (create_app u sd now ns app r))"
proof -
  let ?ok = "\<lambda>apps d. validate_name u app = Inr () \<and> map_of (rg_namespaces r) ns = Some apps
      \<and> fs_create_dir_all (rg_disk r) (path_join (app_path r ns app) files_dir) = Inr d \<and> map_of apps app = None"
  have "snd (create_app u sd now ns app r) = r" if "\<nexists>apps d. ?ok apps d"
    using that by (auto simp: create_app_def Let_def split: sum.split option.split)
  then consider (make) apps d where "validate_name u app = Inr ()" "map_of (rg_namespaces r) ns = Some apps"
      "fs_create_dir_all (rg_disk r) (path_join (app_path r ns app) files_dir) = Inr d" "map_of apps app = None"
    | (fail) "snd (create_app u sd now ns app r) = r"
    by blast
  then show ?thesis
  proof cases
    case make
    note ns = namespaces_okD [OF keptD(4) [OF kept] make(2)]
    note name = valid_nameD [OF make(1)]
    have "fs_create_dir_all (rg_disk r) (rg_dir r @ [ns, app, files_dir]) = Inr d"
      using make(3) ns name by (simp add: app_path_def)
    note made = create_dirs_ok [OF this keptD(1) [OF kept]]
    have pl: "list_all plain (rg_dir r @ [ns, app, files_dir])"
      using keptD(2) [OF kept] ns name by simp
    note at = made(2) [OF pl]
    let ?r = "r\<lparr>rg_disk := d\<rparr>"
    have "dirs d (rg_dir r)"
      using keptD(3) [OF kept] by (rule dirs_mono) (simp add: at)
    moreover have "namespaces_ok u ?r"
      using keptD(4) [OF kept] by (auto simp: namespaces_ok_def at)
    moreover have "apps_ok sd u ?r"
      by (rule apps_okI) (use keptD(5) [OF kept] in \<open>auto simp: at dest: apps_okD\<close>)
    moreover have "manifests_ok ?r"
      using keptD(6) [OF kept] by (auto simp: manifests_ok_def at)
    moreover have "levels_ok ?r"
      using keptD(7) [OF kept] by (auto simp: levels_ok_def at)
    ultimately have kept': "kept sd u ?r"
      using made(1) [OF pl] keptD(2) [OF kept] by (simp add: kept_def dir_ok_def)
    let ?m = "\<lparr>am_namespace = ns, am_app = app, am_created = now, am_files = [], am_routes = []\<rparr>"
    have "map_of (rg_namespaces ?r) ns = Some apps" "am_namespace ?m = ns" "am_app ?m = app"
      "node_at (rg_disk ?r) (rg_dir ?r @ [ns, app]) = Some Dir"
      "node_at (rg_disk ?r) (rg_dir ?r @ [ns, app, files_dir]) = Some Dir"
      using make(2) by (simp_all add: at)
    then obtain d' where "persist_manifest sd ?m ?r = (Inr (), ?r\<lparr>rg_disk := d'\<rparr>)"
      "kept sd u (set_apps ns (AList.update app ?m apps) (?r\<lparr>rg_disk := d'\<rparr>))"
      using kept_put [OF kept' _ _ _ make(1)] by metis
    then show ?thesis
      using make by (simp add: create_app_def Let_def)
  qed (use kept in simp)
qed

text \<open>A file with an admitted name is no manifest, wherever the path leads.\<close>

lemma store_file_kept:
  assumes kept: "kept sd u r"
  shows "kept sd u (snd (store_file sd now ns app filename data r))"
proof -
  have "snd (store_file sd now ns app filename data r) = r"
    if "\<nexists>d. validate_filename filename = Inr () \<and> fs_write (rg_disk r) (file_path r ns app filename) data = Inr d"
    using that by (auto simp: store_file_def split: sum.split)
  then consider (stored) d where "validate_filename filename = Inr ()"
      "fs_write (rg_disk r) (file_path r ns app filename) data = Inr d"
    | (fail) "snd (store_file sd now ns app filename data r) = r"
    by blast
  then show ?thesis
  proof cases
    case stored
    note name = valid_filenameD [OF stored(1)]
    obtain q where q: "walk (rg_disk r) [] (file_path r ns app filename) = Inr q" "node_at (rg_disk r) q \<noteq> Some Dir"
      "d = AList.update q (File data) (rg_disk r)"
      using stored(2) by (auto simp: fs_write_def split: sum.splits if_splits)
    obtain p where p: "q = p @ [filename]"
      using walk_last [of "rg_disk r" "[]" "app_path r ns app @ [files_dir]" filename q] q(1) name(1,2)
      by (auto simp: file_path_def)
    have at: "node_at d p' = (if p' = q then Some (File data) else node_at (rg_disk r) p')" for p'
      by (simp add: q(3) p node_at_update)
    have "wf_disk d"
      using wf_disk_update [OF keptD(1) [OF kept] walk_plain [OF q(1)]] by (simp add: q(3))
    then have "kept sd u (r\<lparr>rg_disk := d\<rparr>)"
      using q(2) name(3) by (intro kept_disk [OF kept]) (auto simp: at p)
    then show ?thesis
      using change_app_kept [of sd u "r\<lparr>rg_disk := d\<rparr>"
          "\<lambda>m. m\<lparr>am_files := put_file \<lparr>fr_name = filename, fr_kind = file_kind_of data, fr_size = of_nat (length data),
            fr_uploaded = now\<rparr> (am_files m)\<rparr>" ns app] stored
      by (auto simp: store_file_def Let_def split: sum.splits prod.splits)
  qed (use kept in simp)
qed

lemma remove_file_kept:
  assumes kept: "kept sd u r" and name: "validate_filename filename = Inr ()"
  shows "kept sd u (r\<lparr>rg_disk := fs_remove_file (rg_disk r) (file_path r ns app filename)\<rparr>)"
proof -
  note name = valid_filenameD [OF assms(2)]
  let ?d = "fs_remove_file (rg_disk r) (file_path r ns app filename)"
  have "?d = rg_disk r \<or> (\<exists>p data. ?d = AList.delete (p @ [filename]) (rg_disk r)
      \<and> node_at (rg_disk r) (p @ [filename]) = Some (File data))"
    using walk_last [of "rg_disk r" "[]" "app_path r ns app @ [files_dir]" filename] name(1,2)
    by (fastforce simp: fs_remove_file_def file_path_def split: sum.splits option.splits node.splits)
  then show ?thesis
  proof (elim disjE exE conjE)
    fix p data
    assume d: "?d = AList.delete (p @ [filename]) (rg_disk r)"
      and there: "node_at (rg_disk r) (p @ [filename]) = Some (File data)"
    show ?thesis
      unfolding d using there name(3)
      by (intro kept_disk [OF kept]) (auto simp: node_at_delete wf_disk_delete keptD(1) [OF kept])
  qed (use kept in simp)
qed

lemma delete_file_kept:
  assumes kept: "kept sd u r" and name: "validate_filename filename = Inr ()"
  shows "kept sd u (snd (delete_file sd ns app filename r))"
proof -
  let ?f = "\<lambda>m. m\<lparr>am_files := filter (\<lambda>f. fr_name f \<noteq> filename) (am_files m)\<rparr>"
  have changed: "kept sd u (snd (change_app sd ns app ?f r))"
    by (rule change_app_kept [OF kept]) simp
  obtain e r' where r': "change_app sd ns app ?f r = (e, r')"
    by fastforce
  show ?thesis
    using kept changed remove_file_kept [of sd u r' filename ns app] name
    by (auto simp: delete_file_def r' split: option.splits sum.splits)
qed

subsection \<open>Histories\<close>

text \<open>Requests that name only what is inside the data directory: no namespace is called \<open>.\<close> and only
  admitted file names are deleted.  A namespace is a \<open>String\<close>.\<close>

fun inside :: "admin_request \<Rightarrow> bool" where
  "inside (CreateNamespace ns) \<longleftrightarrow> utf8_valid ns \<and> ns \<noteq> dot"
| "inside (DeleteFile ns app filename) \<longleftrightarrow> validate_filename filename = Inr ()"
| "inside _ \<longleftrightarrow> True"

inductive history :: "outside \<Rightarrow> app_state \<Rightarrow> app_state \<Rightarrow> bool" for out where
  start: "history out st st"
| serve: "history out st st' \<Longrightarrow> inside req \<Longrightarrow> serve_admin out oc req st' = Some (reply, st'') \<Longrightarrow> history out st st''"

lemma serve_kept:
  assumes kept: "kept (out_serde out) (out_chars out) (ap_registry st)" (is "?kept (ap_registry st)")
    and "inside req" and serve: "serve_admin out oc req st = Some (reply, st')"
  shows "?kept (ap_registry st')"
proof (cases req)
  case (CreateNamespace ns)
  with assms show ?thesis
    using create_namespace_kept [OF kept, of ns]
    by (auto simp: create_namespace_handler_def with_registry_def split: if_splits sum.splits prod.splits)
next
  case (DeleteNamespace ns)
  with serve kept show ?thesis
    using delete_namespace_kept [OF kept, of ns]
    by (auto simp: delete_namespace_handler_def with_registry_def split: if_splits sum.splits prod.splits)
next
  case (CreateApp ns app)
  with serve kept show ?thesis
    using create_app_kept [OF kept, of "oc_now oc" ns app]
    by (auto simp: create_app_handler_def with_registry_def split: if_splits sum.splits prod.splits)
next
  case (DeleteApp ns app)
  with serve kept show ?thesis
    using delete_app_kept [OF kept, of ns app]
    by (auto simp: delete_app_handler_def with_registry_def Let_def split: if_splits sum.splits prod.splits option.splits)
next
  case (UploadFile ns app filename enc body)
  have stored: "?kept r" if "store_file (out_serde out) (oc_now oc) ns app filename data (ap_registry st) = (e, r)"
    for data e r
    using store_file_kept [OF kept, of "oc_now oc" ns app filename data] that by simp
  from UploadFile serve kept show ?thesis
    by (auto simp: upload_file_handler_def with_registry_def dest: stored split: if_splits sum.splits prod.splits)
next
  case (DeleteFile ns app filename)
  with assms show ?thesis
    using delete_file_kept [OF kept, of filename ns app]
    by (auto simp: delete_file_handler_def with_registry_def split: if_splits sum.splits prod.splits)
next
  case (RegisterRoute ns app body)
  have added: "?kept r" if "add_route_record (out_serde out) ns app rec (ap_registry st) = (e, r)" for rec e r
    using change_app_kept [OF kept, of "\<lambda>m. m\<lparr>am_routes := am_routes m @ [rec]\<rparr>" ns app] that
    by (simp add: add_route_record_def)
  from RegisterRoute serve kept show ?thesis
    by (auto simp: register_route_handler_def with_registry_def Let_def dest: added
        split: if_splits sum.splits prod.splits option.splits)
next
  case (UnregisterRoute ns app id_text)
  have removed: "?kept r" if "remove_route_record (out_serde out) ns app i (ap_registry st) = (e, r)" for i e r
    using change_app_kept [OF kept, of "\<lambda>m. m\<lparr>am_routes := filter (\<lambda>rec. rr_id rec \<noteq> i) (am_routes m)\<rparr>" ns app] that
    by (simp add: remove_route_record_def)
  from UnregisterRoute serve kept show ?thesis
    by (auto simp: unregister_route_handler_def with_registry_def dest: removed
        split: if_splits sum.splits prod.splits option.splits bool.splits)
qed (use kept serve in auto)

lemma history_kept:
  assumes "history out st st'" "kept (out_serde out) (out_chars out) (ap_registry st)"
  shows "kept (out_serde out) (out_chars out) (ap_registry st') "
  using assms by induction (blast dest: serve_kept)+

text \<open>The data directory never changes.\<close>

lemma persist_manifest_dir [simp]: "rg_dir (snd (persist_manifest sd m r)) = rg_dir r"
  by (simp add: persist_manifest_def Let_def split: sum.split)

lemma change_app_dir [simp]: "rg_dir (snd (change_app sd ns app f r)) = rg_dir r"
  by (simp add: change_app_def split: option.split)

lemma persist_manifest_dirD: "persist_manifest sd m r = (x, r') \<Longrightarrow> rg_dir r' = rg_dir r"
  using persist_manifest_dir [of sd m r] by simp

lemma change_app_dirD: "change_app sd ns app f r = (x, r') \<Longrightarrow> rg_dir r' = rg_dir r"
  using change_app_dir [of sd ns app f r] by simp

lemmas dir_defs = create_namespace_handler_def create_namespace_def delete_namespace_handler_def delete_namespace_def
  create_app_handler_def create_app_def delete_app_handler_def delete_app_def upload_file_handler_def store_file_def
  delete_file_handler_def delete_file_def register_route_handler_def add_route_record_def
  unregister_route_handler_def remove_route_record_def with_registry_def

lemma serve_dir:
  assumes "serve_admin out oc req st = Some (reply, st')"
  shows "rg_dir (ap_registry st') = rg_dir (ap_registry st)"
  using assms
  by (cases req) (auto simp: dir_defs Let_def dest: change_app_dirD persist_manifest_dirD
      split: if_splits sum.splits prod.splits option.splits bool.splits)

lemma history_dir: "history out st st' \<Longrightarrow> rg_dir (ap_registry st') = rg_dir (ap_registry st)"
  by (induction rule: history.induct) (auto dest: serve_dir)

subsection \<open>Loading\<close>

lemma read_dir_entries:
  assumes "dirs d p" "list_all plain p" "wf_disk d"
  obtains es where "fs_read_dir d p = Inr es" "\<And>c n. (c, n) \<in> set es \<longleftrightarrow> node_at d (p @ [c]) = Some n"
    "\<And>c n. (c, n) \<in> set es \<Longrightarrow> plain c"
proof -
  let ?es = "[(last r, n). (r, n) \<leftarrow> d, r \<noteq> [] \<and> butlast r = p]"
  have es: "(c, n) \<in> set ?es \<longleftrightarrow> (p @ [c], n) \<in> set d" for c n
    by (force simp: snoc_eq_iff_butlast)
  then have "plain c" if "(c, n) \<in> set ?es" for c n
    using that assms(3) by (force simp: wf_disk_def simp del: set_concat)
  moreover have "fs_read_dir d p = Inr ?es"
    using walk_dirs [of d "[]" p] assms dirs_at [OF assms(1)] by (simp add: fs_read_dir_def)
  ultimately show thesis
    using that [of ?es] es node_at_set [OF assms(3)] by (auto simp del: set_concat)
qed

definition put_app :: "bytes \<Rightarrow> app_manifest \<Rightarrow> registry \<Rightarrow> registry" where
  "put_app ns m r = r\<lparr>rg_namespaces := AList.update ns (AList.update (am_app m) m
     (case map_of (rg_namespaces r) ns of Some apps \<Rightarrow> apps | None \<Rightarrow> [])) (rg_namespaces r)\<rparr>"

lemma put_app_simps [simp]:
  "rg_disk (put_app ns m r) = rg_disk r" "rg_dir (put_app ns m r) = rg_dir r"
  "get_app (put_app ns m r) ns' app = (if ns' = ns \<and> app = am_app m then Some m else get_app r ns' app)"
  by (auto simp: put_app_def get_app_def update_conv' split: option.split)

lemma load_app_step:
  assumes kept: "kept sd u r0" and parse: "\<forall>ns app m. get_app r0 ns app = Some m \<longrightarrow> sd_parse sd (sd_print sd m) = Some m"
    and r: "rg_disk r = rg_disk r0" "rg_dir r = rg_dir r0"
    and entry: "node_at (rg_disk r0) (rg_dir r0 @ [name]) = Some Dir" "plain name"
      "node_at (rg_disk r0) (rg_dir r0 @ [name, app]) = Some node" "plain app"
  shows "load_app sd (utf8_lossy name) (rg_dir r0 @ [name]) (app, node) (out, r) = (case get_app r0 name app of
      None \<Rightarrow> (out, r) | Some m \<Rightarrow> (out @ [m], put_app name m r))"
proof (cases "node = Dir")
  case True
  have "dirs (rg_disk r0) (rg_dir r0 @ [name, app])"
    using dirs_name [OF kept entry(1)] entry(3) True dirs_snoc [of "rg_disk r0" "rg_dir r0 @ [name]" app] by simp
  note read = fs_read_at [OF this, of manifest_json, simplified]
  have pl: "list_all plain (rg_dir r0)"
    using keptD(2) [OF kept] .
  show ?thesis
  proof (cases "get_app r0 name app")
    case None
    then have "fs_read (rg_disk r0) (rg_dir r0 @ [name, app, manifest_json]) \<noteq> Inr raw" for raw
      using manifests_okD [OF keptD(6) [OF kept]] read [of raw] pl entry by simp
    then show ?thesis
      using None True r by (cases "fs_read (rg_disk r0) (rg_dir r0 @ [name, app, manifest_json])")
        (auto simp: load_app_def)
  next
    case (Some m)
    note m = apps_okD [OF keptD(5) [OF kept] Some]
    have "map_of (rg_namespaces r0) name \<noteq> None"
      using get_app_namespace [of r0 name app] Some by auto
    then have "utf8_lossy name = name"
      using keptD(4) [OF kept] by (auto simp: namespaces_ok_def intro: utf8_lossy_valid)
    moreover have "fs_read (rg_disk r0) (rg_dir r0 @ [name, app, manifest_json]) = Inr (sd_print sd m)"
      using read m(6) pl entry by simp
    ultimately show ?thesis
      using True r parse m(2) Some by (simp add: load_app_def put_app_def Let_def)
  qed
next
  case False
  then have "get_app r0 name app = None"
    using apps_okD(4) [OF keptD(5) [OF kept], of name app] entry(3) by (cases "get_app r0 name app") auto
  with False show ?thesis
    by (simp add: load_app_def)
qed

lemma load_apps:
  assumes kept: "kept sd u r0" and parse: "\<forall>ns app m. get_app r0 ns app = Some m \<longrightarrow> sd_parse sd (sd_print sd m) = Some m"
    and entry: "node_at (rg_disk r0) (rg_dir r0 @ [name]) = Some Dir" "plain name"
    and es: "\<forall>(app, node) \<in> set es. node_at (rg_disk r0) (rg_dir r0 @ [name, app]) = Some node \<and> plain app"
    and r: "rg_disk r = rg_disk r0" "rg_dir r = rg_dir r0"
    and load: "fold (load_app sd (utf8_lossy name) (rg_dir r0 @ [name])) es (out, r) = (out', r')"
  shows "rg_disk r' = rg_disk r0 \<and> rg_dir r' = rg_dir r0
    \<and> get_app r' ns app = (if ns = name \<and> app \<in> fst ` set es \<and> get_app r0 name app \<noteq> None then get_app r0 name app
        else get_app r ns app)"
  using es r load
proof (induction es arbitrary: out r)
  case (Cons e es)
  obtain a node where e: "e = (a, node)"
    by fastforce
  from Cons.prems(1) e have a: "node_at (rg_disk r0) (rg_dir r0 @ [name, a]) = Some node" "plain a"
    by auto
  note step = load_app_step [OF kept parse Cons.prems(2,3) entry a, of out]
  show ?case
  proof (cases "get_app r0 name a")
    case None
    with Cons.IH [of r out] Cons.prems step e show ?thesis
      by auto
  next
    case (Some m)
    with Cons.IH [of "put_app name m r" "out @ [m]"] Cons.prems step e apps_okD(2) [OF keptD(5) [OF kept] Some]
    show ?thesis
      by auto
  qed
qed simp

lemma load_namespace_step:
  assumes kept: "kept sd u r0" and parse: "\<forall>ns app m. get_app r0 ns app = Some m \<longrightarrow> sd_parse sd (sd_print sd m) = Some m"
    and entry: "node_at (rg_disk r0) (rg_dir r0 @ [name]) = Some node" "plain name"
    and r: "rg_disk r = rg_disk r0" "rg_dir r = rg_dir r0"
    and load: "load_namespace sd u (name, node) (out, r) = (out', r')"
  shows "rg_disk r' = rg_disk r0 \<and> rg_dir r' = rg_dir r0
    \<and> get_app r' ns app = (if ns = name \<and> get_app r0 name app \<noteq> None then get_app r0 name app else get_app r ns app)"
proof -
  have valid: "node = Dir \<and> utf8_lossy name = name \<and> is_valid_namespace u name" if known: "get_app r0 name app \<noteq> None" for app
  proof -
    obtain apps where "map_of (rg_namespaces r0) name = Some apps"
      using get_app_namespace known by blast
    from namespaces_okD [OF keptD(4) [OF kept] this] entry(1) show ?thesis
      by (simp add: is_valid_namespace_def utf8_lossy_valid)
  qed
  show ?thesis
  proof (cases "node = Dir \<and> is_valid_namespace u (utf8_lossy name)")
    case True
    have dirs: "dirs (rg_disk r0) (rg_dir r0 @ [name])" and pl: "list_all plain (rg_dir r0 @ [name])"
      using dirs_name [OF kept, of name] entry True keptD(2) [OF kept] by simp_all
    obtain es where es: "fs_read_dir (rg_disk r0) (rg_dir r0 @ [name]) = Inr es"
      "\<And>c n. (c, n) \<in> set es \<longleftrightarrow> node_at (rg_disk r0) (rg_dir r0 @ [name, c]) = Some n"
      "\<And>c n. (c, n) \<in> set es \<Longrightarrow> plain c"
      using read_dir_entries [OF dirs pl keptD(1) [OF kept]] by auto
    have "fold (load_app sd (utf8_lossy name) (rg_dir r0 @ [name])) es (out, r) = (out', r')"
      using load True es(1) r by (simp add: load_namespace_def Let_def)
    moreover have "\<forall>(app, node) \<in> set es. node_at (rg_disk r0) (rg_dir r0 @ [name, app]) = Some node \<and> plain app"
      using es by blast
    moreover have "app \<in> fst ` set es" if "get_app r0 name app = Some m" for app m
      using es(2) [of app Dir] apps_okD(4) [OF keptD(5) [OF kept] that] by force
    ultimately show ?thesis
      using load_apps [OF kept parse _ entry(2), of es r out out' r' ns app] entry(1) True r by auto
  next
    case False
    then have "r' = r"
      using load by (auto simp: load_namespace_def Let_def split: if_splits)
    with False valid [of app] r show ?thesis
      by auto
  qed
qed

lemma load_namespaces:
  assumes kept: "kept sd u r0" and parse: "\<forall>ns app m. get_app r0 ns app = Some m \<longrightarrow> sd_parse sd (sd_print sd m) = Some m"
    and es: "\<forall>(name, node) \<in> set es. node_at (rg_disk r0) (rg_dir r0 @ [name]) = Some node \<and> plain name"
    and r: "rg_disk r = rg_disk r0" "rg_dir r = rg_dir r0"
    and load: "fold (load_namespace sd u) es (out, r) = (out', r')"
  shows "rg_disk r' = rg_disk r0 \<and> rg_dir r' = rg_dir r0
    \<and> get_app r' ns app = (if ns \<in> fst ` set es \<and> get_app r0 ns app \<noteq> None then get_app r0 ns app else get_app r ns app)"
  using es r load
proof (induction es arbitrary: out r)
  case (Cons e es)
  obtain name node where e: "e = (name, node)"
    by fastforce
  obtain out1 r1 where one: "load_namespace sd u (name, node) (out, r) = (out1, r1)"
    by fastforce
  from Cons.prems(1) e have "node_at (rg_disk r0) (rg_dir r0 @ [name]) = Some node" "plain name"
    by auto
  note step = load_namespace_step [OF kept parse this Cons.prems(2,3) one, of ns app]
  with Cons.IH [of r1 out1] Cons.prems e one show ?case
    by (auto split: if_splits)
qed simp

lemma load_kept:
  assumes kept: "kept sd u r0" and parse: "\<forall>ns app m. get_app r0 ns app = Some m \<longrightarrow> sd_parse sd (sd_print sd m) = Some m"
  shows "get_app (snd (load_from_disk sd u (registry_new (rg_dir r0) (rg_disk r0)))) = get_app r0"
proof (intro ext)
  fix ns app
  obtain es where es: "fs_read_dir (rg_disk r0) (rg_dir r0) = Inr es"
    "\<And>c n. (c, n) \<in> set es \<longleftrightarrow> node_at (rg_disk r0) (rg_dir r0 @ [c]) = Some n" "\<And>c n. (c, n) \<in> set es \<Longrightarrow> plain c"
    using read_dir_entries keptD(1-3) [OF kept] by metis
  let ?r = "registry_new (rg_dir r0) (rg_disk r0)"
  obtain out r where load: "fold (load_namespace sd u) es ([], ?r) = (out, r)"
    by fastforce
  have "ns \<in> fst ` set es" if known: "get_app r0 ns app \<noteq> None"
  proof -
    obtain apps where "map_of (rg_namespaces r0) ns = Some apps"
      using get_app_namespace known by blast
    from namespaces_okD(6) [OF keptD(4) [OF kept] this] es(2) [of ns Dir] show ?thesis
      by force
  qed
  moreover have "\<forall>(name, node) \<in> set es. node_at (rg_disk r0) (rg_dir r0 @ [name]) = Some node \<and> plain name"
    using es by blast
  moreover have "get_app ?r ns app = None"
    by (simp add: registry_new_def get_app_def)
  ultimately have "get_app r ns app = get_app r0 ns app"
    using load_namespaces [OF kept parse _ _ _ load, of ns app]
    by (cases "get_app r0 ns app") (auto simp: registry_new_def)
  then show "get_app (snd (load_from_disk sd u ?r)) ns app = get_app r0 ns app"
    using load es(1) by (simp add: load_from_disk_def registry_new_def)
qed

text \<open>An empty data directory.\<close>

definition nothing_below :: "disk \<Rightarrow> path \<Rightarrow> bool" where
  "nothing_below d p \<longleftrightarrow> (\<forall>q. strict_prefix p q \<longrightarrow> node_at d q = None)"

lemma nothing_belowD: "nothing_below d p \<Longrightarrow> c \<noteq> [] \<Longrightarrow> node_at d (p @ c) = None"
  by (auto simp: nothing_below_def strict_prefix_def)

lemma load_empty:
  assumes "dirs d p" "list_all plain p" "wf_disk d" "nothing_below d p"
  shows "load_from_disk sd u (registry_new p d) = ([], registry_new p d)"
proof -
  obtain es where es: "fs_read_dir d p = Inr es" "\<And>c n. (c, n) \<in> set es \<longleftrightarrow> node_at d (p @ [c]) = Some n"
    using read_dir_entries [OF assms(1-3)] by metis
  have "es = []"
    using es(2) nothing_belowD [OF assms(4)] by (cases es) auto
  then show ?thesis
    using es(1) by (simp add: load_from_disk_def registry_new_def)
qed

lemma registry_new_kept:
  assumes "dirs d p" "list_all plain p" "wf_disk d" "nothing_below d p"
  shows "kept sd u (registry_new p d)"
  using assms nothing_belowD [OF assms(4)] by (auto simp: kept_defs registry_new_def get_app_def)

lemma start_dirs:
  assumes "fs_create_dir_all d p = Inr d'" "wf_disk d" "list_all plain p"
  shows "wf_disk d'" "dirs d' p" "nothing_below d p \<Longrightarrow> nothing_below d' p"
  using create_dirs_ok [OF assms] by (auto simp: dirs_def nothing_below_def strict_prefix_def dest: prefix_order.antisym)

lemma start_again:
  assumes "dirs d p" "list_all plain p"
  shows "fs_create_dir_all d p = Inr d"
  using make_dirs_below [of d "[]" p "[]"] assms by (simp add: fs_create_dir_all_def)

lemma start_engineE:
  assumes "start_engine out fresh static dir token d = Some (Inr st)"
  obtains d' persisted table where "fs_create_dir_all d dir = Inr d'"
    "load_from_disk (out_serde out) (out_chars out) (registry_new dir d') = (persisted, ap_registry st)"
    "restore_routes out fresh (ap_registry st) (manifest_records persisted) (0, static) = Some (ap_routes st)"
    "ap_token st = token"
  using assms by (auto simp: start_engine_def split: sum.splits prod.splits)

text \<open>Loading makes no empty namespace.\<close>

definition inhabited :: "registry \<Rightarrow> bool" where
  "inhabited r \<longleftrightarrow> (\<forall>ns. map_of (rg_namespaces r) ns \<noteq> Some [])"

lemma update_not_Nil [simp]: "AList.update k v xs \<noteq> []"
  by (cases xs) auto

lemma load_app_inhabited: "inhabited (snd st) \<Longrightarrow> inhabited (snd (load_app sd ns dir e st))"
  by (cases e; cases st) (auto simp: load_app_def inhabited_def Let_def update_conv' split: sum.split option.split)

lemma fold_inhabited:
  "(\<And>e st. inhabited (snd st) \<Longrightarrow> inhabited (snd (f e st))) \<Longrightarrow> inhabited (snd st) \<Longrightarrow> inhabited (snd (fold f es st))"
  by (induction es arbitrary: st) auto

lemma load_namespace_inhabited: "inhabited (snd st) \<Longrightarrow> inhabited (snd (load_namespace sd u e st))"
  by (cases e; cases st) (auto simp: load_namespace_def Let_def intro!: fold_inhabited load_app_inhabited split: sum.split)

lemma load_inhabited: "inhabited (snd (load_from_disk sd u (registry_new dir d)))"
  by (auto simp: load_from_disk_def intro!: fold_inhabited load_namespace_inhabited split: sum.split)
    (simp_all add: inhabited_def registry_new_def)

lemma inhabited_namespace:
  assumes "inhabited r"
  shows "get_namespace r ns \<noteq> None \<longleftrightarrow> (\<exists>app. get_app r ns app \<noteq> None)"
proof (cases "map_of (rg_namespaces r) ns")
  case (Some apps)
  then have "apps \<noteq> []"
    using assms by (auto simp: inhabited_def)
  then have "\<exists>app m. map_of apps app = Some m"
    by (cases apps) auto
  then show ?thesis
    using Some by (auto simp: get_namespace_def get_app_def)
qed (simp add: get_namespace_def get_app_def)

subsection \<open>A restart\<close>

text \<open>An application \<open>shop\<close> in the namespace \<open>demo\<close> with a source file, and an outside that knows its manifest only.\<close>

definition demo_dir :: path where "demo_dir = [ascii ''data'']"
definition demo_ns :: bytes where "demo_ns = ascii ''demo''"
definition demo_app :: bytes where "demo_app = ascii ''shop''"

definition demo_route :: route_record where
  "demo_route = \<lparr>rr_id = ascii ''old'', rr_method = ascii ''GET'', rr_path = ascii ''/x'', rr_function = ascii ''Main'',
     rr_file = ascii ''a.fasm''\<rparr>"

definition demo_manifest :: "route_record list \<Rightarrow> app_manifest" where
  "demo_manifest routes = \<lparr>am_namespace = demo_ns, am_app = demo_app, am_created = 0, am_files = [], am_routes = routes\<rparr>"

definition demo_out :: "route_record list \<Rightarrow> outside" where
  "demo_out routes = \<lparr>out_chars = ascii_only,
     out_serde = \<lparr>sd_print = \<lambda>m. ascii ''{}'', sd_parse = \<lambda>b. Some (demo_manifest routes)\<rparr>, out_jit = \<lambda>p. None,
     out_upper = id, out_debug = \<lambda>p. [], out_decode_text = \<lambda>e. [], out_compile_text = \<lambda>e. [], out_gunzip = Inr,
     out_parse_uuid = Some\<rparr>"

definition demo_occasion :: occasion where
  "demo_occasion = \<lparr>oc_token = None, oc_now = 0, oc_uuid = ascii ''new''\<rparr>"

definition demo_disk :: disk where
  "demo_disk = [(demo_dir, Dir), (demo_dir @ [demo_ns], Dir), (demo_dir @ [demo_ns, demo_app], Dir),
     (demo_dir @ [demo_ns, demo_app, files_dir], Dir),
     (demo_dir @ [demo_ns, demo_app, files_dir, ascii ''a.fasm''], File (map of_nat small_source)),
     (demo_dir @ [demo_ns, demo_app, manifest_json], File (ascii ''{}'')),
     ([ascii ''etc''], Dir), ([ascii ''etc'', ascii ''passwd''], File (ascii ''root''))]"

definition demo_state :: app_state where
  "demo_state = \<lparr>ap_registry = \<lparr>rg_namespaces = [(demo_ns, [(demo_app, demo_manifest [])])], rg_dir = demo_dir,
     rg_disk = demo_disk\<rparr>, ap_routes = [], ap_token = None\<rparr>"

text \<open>C18. After any history of management requests on an engine that started with an empty data directory,
  a restart finds exactly the applications that were there, with their files and route records; of the
  namespaces it finds those that have an application.  The requests name no namespace \<open>.\<close> and delete
  admitted file names only; the JSON of a manifest is read back as it was.\<close>

theorem restart_restores_apps:
  assumes "start_engine out fresh static dir token d = Some (Inr st)"
    and "wf_disk d" "list_all plain dir" "nothing_below d dir"
    and "history out st st'"
    and "\<And>ns app m. get_app (ap_registry st') ns app = Some m
      \<Longrightarrow> sd_parse (out_serde out) (sd_print (out_serde out) m) = Some m"
    and "start_engine out fresh' static' dir token' (rg_disk (ap_registry st')) = Some (Inr st'')"
  shows "get_app (ap_registry st'') = get_app (ap_registry st')
    \<and> (get_namespace (ap_registry st'') ns \<noteq> None \<longleftrightarrow> (\<exists>app. get_app (ap_registry st') ns app \<noteq> None))"
proof -
  obtain d' persisted where d': "fs_create_dir_all d dir = Inr d'"
    "load_from_disk (out_serde out) (out_chars out) (registry_new dir d') = (persisted, ap_registry st)"
    using assms(1) by (rule start_engineE)
  note made = start_dirs [OF d'(1) assms(2,3)]
  have "ap_registry st = registry_new dir d'"
    using load_empty [OF made(2) assms(3) made(1) made(3)] assms(4) d'(2) by simp
  then have "kept (out_serde out) (out_chars out) (ap_registry st)" and dir: "rg_dir (ap_registry st) = dir"
    using registry_new_kept [OF made(2) assms(3) made(1) made(3)] assms(4) by (simp_all add: registry_new_def)
  from history_kept [OF assms(5) this(1)] have kept: "kept (out_serde out) (out_chars out) (ap_registry st')" .
  have dir': "rg_dir (ap_registry st') = dir"
    using history_dir [OF assms(5)] dir by simp
  from assms(7) obtain d'' persisted' where d'': "fs_create_dir_all (rg_disk (ap_registry st')) dir = Inr d''"
    "load_from_disk (out_serde out) (out_chars out) (registry_new dir d'') = (persisted', ap_registry st'')"
    by (rule start_engineE)
  have "d'' = rg_disk (ap_registry st')"
    using start_again [OF keptD(3) [OF kept]] assms(3) dir' d''(1) by simp
  then have loaded: "ap_registry st'' = snd (load_from_disk (out_serde out) (out_chars out)
      (registry_new dir (rg_disk (ap_registry st'))))"
    using d''(2) by simp
  have same: "get_app (ap_registry st'') = get_app (ap_registry st')"
    using load_kept [OF kept] assms(6) dir' by (simp add: loaded)
  moreover have "inhabited (ap_registry st'')"
    unfolding loaded by (rule load_inhabited)
  ultimately show ?thesis
    using inhabited_namespace [of "ap_registry st''" ns] by simp
qed

lemma restart_restores_apps_witness:
  "\<exists>st st' st''. start_engine (demo_out []) (\<lambda>n. []) [] demo_dir None [] = Some (Inr st) \<and> history (demo_out []) st st'
    \<and> start_engine (demo_out []) (\<lambda>n. []) [] demo_dir None (rg_disk (ap_registry st')) = Some (Inr st'')
    \<and> get_app (ap_registry st'') demo_ns demo_app = Some (demo_manifest [])"
proof -
  let ?out = "demo_out []" and ?start = "start_engine (demo_out []) (\<lambda>n. []) [] demo_dir None"
  let ?serve = "\<lambda>req st. serve_admin (demo_out []) demo_occasion req st"
  obtain st where st: "?start [] = Some (Inr st)" "ap_registry st = registry_new demo_dir [(demo_dir, Dir)]" "ap_token st = None"
  proof
    show "?start [] = Some (Inr \<lparr>ap_registry = registry_new demo_dir [(demo_dir, Dir)], ap_routes = [], ap_token = None\<rparr>)"
    proof -
      have "fs_create_dir_all [] demo_dir = Inr [(demo_dir, Dir)]"
        "load_from_disk (out_serde ?out) (out_chars ?out) (registry_new demo_dir [(demo_dir, Dir)])
          = ([], registry_new demo_dir [(demo_dir, Dir)])"
        by code_simp+
      then show ?thesis
        by (simp add: start_engine_def manifest_records_def)
    qed
  qed simp_all
  let ?r1 = "snd (create_namespace ascii_only demo_ns (registry_new demo_dir [(demo_dir, Dir)]))"
  let ?r2 = "snd (create_app ascii_only (out_serde ?out) 0 demo_ns demo_app ?r1)"
  obtain reply1 where one: "?serve (CreateNamespace demo_ns) st = Some (reply1, with_registry st ?r1)"
  proof
    have "validate_namespace ascii_only demo_ns = Inr ()"
      "fst (create_namespace ascii_only demo_ns (registry_new demo_dir [(demo_dir, Dir)])) = Inr ()"
      by code_simp+
    then show "?serve (CreateNamespace demo_ns) st = Some ((201, NoBody), with_registry st ?r1)"
      by (auto simp: create_namespace_handler_def require_auth_def st demo_out_def split: prod.split)
  qed
  obtain reply2 where two: "?serve (CreateApp demo_ns demo_app) (with_registry st ?r1) = Some (reply2, with_registry st ?r2)"
  proof
    have "fst (create_app ascii_only (out_serde ?out) 0 demo_ns demo_app ?r1) = Inr (demo_manifest [])"
      by code_simp
    then show "?serve (CreateApp demo_ns demo_app) (with_registry st ?r1)
        = Some ((201, ManifestBody (demo_manifest [])), with_registry st ?r2)"
      by (auto simp: create_app_handler_def require_auth_def st with_registry_def demo_occasion_def demo_out_def split: prod.split)
  qed
  have "inside (CreateNamespace demo_ns)" "inside (CreateApp demo_ns demo_app)"
    by code_simp+
  then have hist: "history ?out st (with_registry st ?r2)"
    using one two by (blast intro: history.intros)
  have r2: "rg_namespaces ?r2 = [(demo_ns, [(demo_app, demo_manifest [])])]"
    by code_simp
  have "\<exists>st''. ?start (rg_disk ?r2) = Some (Inr st'')"
  proof -
    have "fs_create_dir_all (rg_disk ?r2) demo_dir = Inr (rg_disk ?r2)"
      "fst (load_from_disk (out_serde ?out) (out_chars ?out) (registry_new demo_dir (rg_disk ?r2))) = [demo_manifest []]"
      by code_simp+
    then show ?thesis
      by (auto simp: start_engine_def manifest_records_def demo_manifest_def split: prod.split)
  qed
  then obtain st'' where st'': "?start (rg_disk (ap_registry (with_registry st ?r2))) = Some (Inr st'')"
    by (auto simp: with_registry_def)
  have "wf_disk []" "list_all plain demo_dir" "nothing_below [] demo_dir"
    by (auto simp: wf_disk_def demo_dir_def plain_def dot_def dot_dot_def ascii_def nothing_below_def node_at_def)
  moreover have "sd_parse (out_serde ?out) (sd_print (out_serde ?out) m) = Some m"
    if "get_app (ap_registry (with_registry st ?r2)) ns app = Some m" for ns app m
    using that r2 by (auto simp: with_registry_def get_app_def demo_out_def split: if_splits)
  ultimately have "get_app (ap_registry st'') = get_app (ap_registry (with_registry st ?r2))"
    using restart_restores_apps [OF st(1) _ _ _ hist _ st''] by blast
  then have "get_app (ap_registry st'') demo_ns demo_app = Some (demo_manifest [])"
    using r2 by (simp add: with_registry_def get_app_def)
  with st(1) hist st'' show ?thesis
    by blast
qed

subsection \<open>Restored routes\<close>

text \<open>Every managed route of the table has an identifier of this start.\<close>

definition numbered_by :: "(nat \<Rightarrow> bytes) \<Rightarrow> (program, jit_dispatcher) route_table \<Rightarrow> bool" where
  "numbered_by fresh table \<longleftrightarrow> (\<forall>r \<in> set table. re_managed r \<longrightarrow> re_id r \<in> range fresh)"

lemma restore_route_numbered:
  assumes "restore_route out fresh r rec (n, table) = Some (n', table')" "numbered_by fresh table"
  shows "numbered_by fresh table'"
  using assms by (cases rec) (auto simp: restore_route_def add_route_dyn_def numbered_by_def new_entry_def Let_def
      split: option.splits sum.splits)

lemma restore_routes_numbered:
  "restore_routes out fresh r recs (n, table) = Some table' \<Longrightarrow> numbered_by fresh table \<Longrightarrow> numbered_by fresh table'"
  by (induction recs arbitrary: n table) (auto simp: bind_eq_Some_conv dest: restore_route_numbered)

lemma remove_route_none: "(\<And>r. r \<in> set table \<Longrightarrow> re_managed r \<Longrightarrow> re_id r \<noteq> i) \<Longrightarrow> remove_route i table = (False, table)"
  by (induction table) auto

lemma remove_routes_none:
  "(\<And>i. i \<in> set is \<Longrightarrow> remove_route i table = (False, table)) \<Longrightarrow>
    fold (\<lambda>i table. snd (remove_route i table)) is table = table"
  by (induction "is") auto

text \<open>C21. A restart cuts restored routes loose from their records: they get new identifiers, which no
  manifest records.  The route of a record cannot be unregistered any more, and when its application
  is deleted, record and all, the route table stays as it is and the route goes on being served.\<close>

theorem restart_orphans_routes:
  assumes "start_engine out fresh static dir token d = Some (Inr st)" "\<And>r. r \<in> set static \<Longrightarrow> \<not> re_managed r"
    and "get_app (ap_registry st) ns app = Some m"
    and "\<And>rec n. rec \<in> set (am_routes m) \<Longrightarrow> rr_id rec \<noteq> fresh n"
    and "require_auth (oc_token oc) st"
  shows "(\<exists>st'. serve_admin out oc (DeleteApp ns app) st = Some ((204, NoBody), st') \<and> ap_routes st' = ap_routes st
      \<and> get_app (ap_registry st') ns app = None)
    \<and> (\<forall>rec \<in> set (am_routes m). \<forall>id_text. out_parse_uuid out id_text = Some (rr_id rec) \<longrightarrow>
      (\<exists>e. serve_admin out oc (UnregisterRoute ns app id_text) st = Some ((404, e), st)))"
proof -
  have "numbered_by fresh (ap_routes st)"
    using assms(1) by (rule start_engineE) (use assms(2) restore_routes_numbered in \<open>auto simp: numbered_by_def\<close>)
  then have none: "remove_route (rr_id rec) (ap_routes st) = (False, ap_routes st)" if "rec \<in> set (am_routes m)" for rec
    using assms(4) [OF that] by (intro remove_route_none) (metis numbered_by_def rangeE)
  have "fold (\<lambda>i table. snd (remove_route i table)) (map rr_id (am_routes m)) (ap_routes st) = ap_routes st"
    using none by (intro remove_routes_none) auto
  then have "\<exists>st'. serve_admin out oc (DeleteApp ns app) st = Some ((204, NoBody), st') \<and> ap_routes st' = ap_routes st
      \<and> get_app (ap_registry st') ns app = None"
    using assms(3,5)
    by (auto simp: delete_app_handler_def delete_app_def with_registry_def get_app_def set_apps_def bind_eq_Some_conv
        update_conv' delete_conv')
  moreover have "\<exists>e. serve_admin out oc (UnregisterRoute ns app id_text) st = Some ((404, e), st)"
    if "rec \<in> set (am_routes m)" "out_parse_uuid out id_text = Some (rr_id rec)" for rec id_text
    using none [OF that(1)] that(2) assms(5) by (auto simp: unregister_route_handler_def)
  ultimately show ?thesis
    by blast
qed

lemma restart_orphans_routes_witness:
  "\<exists>st st'. start_engine (demo_out [demo_route]) (\<lambda>n. ascii ''new'') [] demo_dir None demo_disk = Some (Inr st)
    \<and> map re_id (ap_routes st) = [ascii ''new'']
    \<and> serve_admin (demo_out [demo_route]) demo_occasion (DeleteApp demo_ns demo_app) st = Some ((204, NoBody), st')
    \<and> map re_id (ap_routes st') = [ascii ''new'']"
proof -
  let ?out = "demo_out [demo_route]" and ?m = "demo_manifest [demo_route]"
  let ?r = "registry_new demo_dir demo_disk"
  obtain r where load: "load_from_disk (out_serde ?out) (out_chars ?out) ?r = ([?m], r)"
    "rg_disk r = demo_disk" "rg_dir r = demo_dir" "get_app r demo_ns demo_app = Some ?m"
  proof
    show "load_from_disk (out_serde ?out) (out_chars ?out) ?r = ([?m], ?r\<lparr>rg_namespaces := [(demo_ns, [(demo_app, ?m)])]\<rparr>)"
      by code_simp
  qed (simp_all add: registry_new_def get_app_def)
  have "fs_read_text demo_disk (demo_dir @ [demo_ns, demo_app, files_dir, ascii ''a.fasm'']) = Inr small_source"
    by code_simp
  then have "compile_source_file ?out demo_disk (demo_dir @ [demo_ns, demo_app, files_dir, ascii ''a.fasm'']) = Some (Inr small_program)"
    using small_compiles by (simp add: compile_source_file_def demo_out_def)
  moreover have "file_path r demo_ns demo_app (ascii ''a.fasm'') = demo_dir @ [demo_ns, demo_app, files_dir, ascii ''a.fasm'']"
    by (simp add: file_path_def app_path_def load(3) demo_ns_def demo_app_def ascii_def)
  ultimately obtain table where table: "restore_routes ?out (\<lambda>n. ascii ''new'') r (manifest_records [?m]) (0, []) = Some table"
    "map re_id table = [ascii ''new'']"
    by (simp add: manifest_records_def demo_manifest_def demo_route_def restore_route_def add_route_dyn_def new_entry_def
        load(2) Let_def)
  let ?st = "\<lparr>ap_registry = r, ap_routes = table, ap_token = None\<rparr>"
  have "fs_create_dir_all demo_disk demo_dir = Inr demo_disk"
    by code_simp
  then have start: "start_engine ?out (\<lambda>n. ascii ''new'') [] demo_dir None demo_disk = Some (Inr ?st)"
    using load(1) table by (simp add: start_engine_def)
  have "rr_id rec \<noteq> ascii ''new''" if "rec \<in> set (am_routes ?m)" for rec
    using that by (simp add: demo_manifest_def demo_route_def ascii_def)
  then obtain st' where "serve_admin ?out demo_occasion (DeleteApp demo_ns demo_app) ?st = Some ((204, NoBody), st')"
    "ap_routes st' = table"
    using restart_orphans_routes [OF start, of demo_ns demo_app ?m demo_occasion] load(4) by (auto simp: require_auth_def)
  with start table(2) show ?thesis
    by auto
qed

subsection \<open>Out of the data directory\<close>

lemma dot_valid: "validate_namespace u dot = Inr ()"
proof -
  have "chars dot = [46]" "\<not> contains dot dot_dot" "dot \<noteq> []"
    by (simp_all add: chars_def dot_def dot_dot_def ascii_def prefix_def)
  then show ?thesis
    by (simp add: validate_namespace_def)
qed

lemma dot_slash [simp]: "slash \<notin> set dot"
  by (simp add: dot_def ascii_def)

lemma remove_dot:
  assumes "dirs d p" "list_all plain p" "wf_disk d"
  defines "d' \<equiv> fs_remove_dir_all d (p @ [dot])"
  shows "wf_disk d'" "dirs d' p" "nothing_below d' p"
proof -
  have "walk d [] (p @ [dot]) = Inr p"
    using walk_dirs [of d "[]" p] assms(1,2) dirs_at [OF assms(1)] by (simp add: walk_append)
  then have d': "d' = filter (\<lambda>(q, n). \<not> prefix p q \<or> q = p) d"
    using dirs_at [OF assms(1)] by (simp add: d'_def fs_remove_dir_all_def)
  show "wf_disk d'"
    unfolding d' by (rule wf_disk_filter [OF assms(3)])
  show "nothing_below d' p"
    unfolding d' nothing_below_def
    using node_at_filter [OF assms(3), of "\<lambda>q. \<not> prefix p q \<or> q = p"] by (auto simp: strict_prefix_def)
  have keep: "node_at d' q = node_at d q" if "prefix q p" for q
  proof -
    have "\<not> prefix p q \<or> q = p"
      using that by (blast intro: prefix_order.antisym)
    then show ?thesis
      unfolding d' by (subst node_at_filter [OF assms(3)]) simp
  qed
  show "dirs d' p"
    by (rule dirs_mono [OF assms(1)]) (simp add: keep)
qed

text \<open>C22. The name \<open>.\<close> is admitted for a namespace.  Creating it and deleting it again, both of which
  succeed, empties the data directory: the applications stay in memory and a restart finds none.\<close>

theorem dot_namespace_wipes_data:
  assumes "dirs (rg_disk (ap_registry st)) (rg_dir (ap_registry st))" "list_all plain (rg_dir (ap_registry st))"
    and "wf_disk (rg_disk (ap_registry st))" "map_of (rg_namespaces (ap_registry st)) dot = None"
    and "require_auth (oc_token oc) st" "require_auth (oc_token oc') st"
  shows "\<exists>st1 st2. serve_admin out oc (CreateNamespace dot) st = Some ((201, NoBody), st1)
    \<and> serve_admin out oc' (DeleteNamespace dot) st1 = Some ((204, NoBody), st2)
    \<and> get_app (ap_registry st2) = get_app (ap_registry st)
    \<and> nothing_below (rg_disk (ap_registry st2)) (rg_dir (ap_registry st))
    \<and> load_from_disk sd u (registry_new (rg_dir (ap_registry st)) (rg_disk (ap_registry st2)))
      = ([], registry_new (rg_dir (ap_registry st)) (rg_disk (ap_registry st2)))"
proof -
  let ?r = "ap_registry st"
  let ?p = "rg_dir ?r" and ?d = "rg_disk ?r"
  let ?d' = "fs_remove_dir_all ?d (?p @ [dot])"
  let ?r1 = "?r\<lparr>rg_namespaces := AList.update dot [] (rg_namespaces ?r)\<rparr>"
  let ?r2 = "?r\<lparr>rg_namespaces := AList.delete dot (AList.update dot [] (rg_namespaces ?r)), rg_disk := ?d'\<rparr>"
  have "fs_create_dir_all ?d (?p @ [dot]) = Inr ?d"
    using make_dirs_below [of ?d "[]" ?p "[dot]"] assms(1,2) by (simp add: fs_create_dir_all_def)
  then have "create_namespace (out_chars out) dot ?r = (Inr (), ?r1)"
    using assms(4) by (simp add: create_namespace_def dot_valid Let_def)
  then have one: "serve_admin out oc (CreateNamespace dot) st = Some ((201, NoBody), with_registry st ?r1)"
    using assms(5) by (simp add: create_namespace_handler_def dot_valid)
  have "delete_namespace dot ?r1 = (Inr (), ?r2)"
    by (simp add: delete_namespace_def update_conv')
  then have two: "serve_admin out oc' (DeleteNamespace dot) (with_registry st ?r1)
      = Some ((204, NoBody), with_registry st ?r2)"
    using assms(6) by (simp add: delete_namespace_handler_def with_registry_def require_auth_def)
  note emptied = remove_dot [OF assms(1-3)]
  have load: "load_from_disk sd u (registry_new ?p ?d') = ([], registry_new ?p ?d')"
    by (rule load_empty [OF emptied(2) assms(2) emptied(1,3)])
  have "get_app ?r2 = get_app ?r"
    using assms(4) by (auto simp: get_app_def fun_eq_iff delete_conv' update_conv')
  with one two emptied(3) load show ?thesis
    by (intro exI [of _ "with_registry st ?r1"] exI [of _ "with_registry st ?r2"]) (simp add: with_registry_def)
qed

lemma demo_dirs:
  "dirs (rg_disk (ap_registry demo_state)) (rg_dir (ap_registry demo_state))"
  "list_all plain (rg_dir (ap_registry demo_state))" "wf_disk (rg_disk (ap_registry demo_state))"
proof -
  have d: "dirs demo_disk []" "node_at demo_disk demo_dir = Some Dir"
    by (simp add: dirs_def node_at_def) code_simp
  then show "dirs (rg_disk (ap_registry demo_state)) (rg_dir (ap_registry demo_state))"
    using dirs_snoc [of demo_disk "[]" "ascii ''data''"] by (simp add: demo_state_def demo_dir_def)
  show "list_all plain (rg_dir (ap_registry demo_state))" "wf_disk (rg_disk (ap_registry demo_state))"
    unfolding wf_disk_def plain_def by code_simp+
qed

lemma dot_namespace_wipes_data_witness:
  "\<exists>st1 st2. serve_admin (demo_out []) demo_occasion (CreateNamespace dot) demo_state = Some ((201, NoBody), st1)
    \<and> serve_admin (demo_out []) demo_occasion (DeleteNamespace dot) st1 = Some ((204, NoBody), st2)
    \<and> get_app (ap_registry st2) demo_ns demo_app = Some (demo_manifest [])
    \<and> node_at (rg_disk (ap_registry st2)) (demo_dir @ [demo_ns, demo_app, manifest_json]) = None"
proof -
  have "map_of (rg_namespaces (ap_registry demo_state)) dot = None" "require_auth (oc_token demo_occasion) demo_state"
    "get_app (ap_registry demo_state) demo_ns demo_app = Some (demo_manifest [])" "rg_dir (ap_registry demo_state) = demo_dir"
    by code_simp+
  with dot_namespace_wipes_data [OF demo_dirs, of demo_occasion demo_occasion "demo_out []" "out_serde (demo_out [])" ascii_only]
  show ?thesis
    by (auto dest: nothing_belowD)
qed

text \<open>The text of an absolute path.\<close>

definition absolute :: "path \<Rightarrow> bytes" where
  "absolute q = concat (map (\<lambda>c. slash # c) q)"

lemma split_on_append: "c \<notin> set xs \<Longrightarrow> split_on c (xs @ c # ys) = xs # split_on c ys"
  by (induction xs) auto

lemma split_absolute: "(\<forall>c \<in> set q. slash \<notin> set c) \<Longrightarrow> q \<noteq> [] \<Longrightarrow> split_on slash (absolute q) = [] # q"
proof (induction q)
  case (Cons c q)
  then show ?case
    by (cases q) (auto simp: absolute_def split_on_single split_on_append)
qed simp

lemma file_path_absolute:
  assumes "\<forall>c \<in> set q. slash \<notin> set c" "q \<noteq> []"
  shows "file_path r ns app (absolute q) = [] # q"
  using split_absolute [OF assms] assms(2) by (cases q) (auto simp: file_path_def path_join_def absolute_def)

lemma walk_absolute:
  assumes "dirs d (butlast q)" "list_all plain q" "q \<noteq> []"
  shows "walk d [] ([] # q) = Inr q"
  using walk_name [of d "butlast q" "last q"] assms by (auto simp: list_all_butlast list_all_last node_at_def)

text \<open>Deleting a file by its absolute name, from an application that exists.\<close>

lemma delete_absolute:
  assumes kept: "kept sd u r" and app: "get_app r ns app = Some m"
    and free: "\<forall>rec \<in> set (am_routes m). rr_file rec \<noteq> absolute q"
    and q: "dirs (rg_disk r) (butlast q)" "list_all plain q" "q \<noteq> []" "\<forall>c \<in> set q. slash \<notin> set c"
      "node_at (rg_disk r) q = Some (File data)"
  obtains r' where "delete_file sd ns app (absolute q) r = (Inr (), r')" "node_at (rg_disk r') q = None"
proof -
  obtain apps where apps: "map_of (rg_namespaces r) ns = Some apps" "map_of apps app = Some m"
    using app by (auto simp: get_app_def bind_eq_Some_conv)
  note m = apps_okD [OF keptD(5) [OF kept] app]
  let ?m = "m\<lparr>am_files := filter (\<lambda>f. fr_name f \<noteq> absolute q) (am_files m)\<rparr>"
  have "am_namespace ?m = ns" "am_app ?m = app"
    using m by simp_all
  then obtain d where d: "persist_manifest sd ?m (set_apps ns (AList.update app ?m apps) r)
      = (Inr (), set_apps ns (AList.update app ?m apps) (r\<lparr>rg_disk := d\<rparr>))"
    and at: "\<And>q. node_at d q = (if q = rg_dir r @ [ns, app, manifest_json] then Some (File (sd_print sd ?m))
      else if q = rg_dir r @ [ns, app, manifest_tmp] then None else node_at (rg_disk r) q)"
    by (rule kept_put [OF kept apps(1) _ _ m(3-5)]) blast
  let ?r = "set_apps ns (AList.update app ?m apps) (r\<lparr>rg_disk := d\<rparr>)"
  have "dirs d (butlast q)"
    using q(1) by (rule dirs_mono) (use levels_okD [OF keptD(7) [OF kept]] in \<open>auto simp: at m(6)\<close>)
  note walk = walk_absolute [OF this q(2,3)]
  have "node_at d q \<noteq> Some Dir"
    using q(5) by (auto simp: at)
  then have "node_at (fs_remove_file d ([] # q)) q = None"
    using walk q(3) by (auto simp: fs_remove_file_def node_at_delete split: option.split node.split)
  moreover have "delete_file sd ns app (absolute q) r
      = (Inr (), ?r\<lparr>rg_disk := fs_remove_file d ([] # q)\<rparr>)"
    using app apps free d by (simp add: delete_file_def change_app_def file_path_absolute [OF q(4,3)])
  ultimately show thesis
    using that by simp
qed

text \<open>C23. A file name is not checked when a file is read or deleted, and an absolute one leads anywhere.
  Without a token, a request reads every file of the machine; with one, or when none is configured, it
  deletes every file through any application that has no route on a file of that name.\<close>

theorem absolute_name_escapes:
  assumes "node_at (rg_disk (ap_registry st)) q = Some (File data)" "dirs (rg_disk (ap_registry st)) (butlast q)"
    and "list_all plain q" "\<forall>c \<in> set q. slash \<notin> set c"
  shows "(\<exists>ct. serve_admin out oc (DownloadFile ns app (absolute q)) st = Some ((200, Content ct data), st))
    \<and> (kept (out_serde out) (out_chars out) (ap_registry st) \<and> get_app (ap_registry st) ns app = Some m
      \<and> (\<forall>rec \<in> set (am_routes m). rr_file rec \<noteq> absolute q) \<and> require_auth (oc_token oc) st \<longrightarrow>
      (\<exists>st'. serve_admin out oc (DeleteFile ns app (absolute q)) st = Some ((204, NoBody), st')
        \<and> node_at (rg_disk (ap_registry st')) q = None))"
proof (intro conjI impI)
  have q: "q \<noteq> []"
    using assms(1) by (auto simp: node_at_def)
  note walk = walk_absolute [OF assms(2,3) q]
  show "\<exists>ct. serve_admin out oc (DownloadFile ns app (absolute q)) st = Some ((200, Content ct data), st)"
    using walk assms(1)
    by (simp add: download_file_handler_def get_file_path_def file_path_absolute [OF assms(4) q] fs_exists_def fs_read_def)
  assume req: "kept (out_serde out) (out_chars out) (ap_registry st) \<and> get_app (ap_registry st) ns app = Some m
      \<and> (\<forall>rec \<in> set (am_routes m). rr_file rec \<noteq> absolute q) \<and> require_auth (oc_token oc) st"
  then obtain r' where "delete_file (out_serde out) ns app (absolute q) (ap_registry st) = (Inr (), r')"
    "node_at (rg_disk r') q = None"
    using assms q by (elim conjE delete_absolute) auto
  with req show "\<exists>st'. serve_admin out oc (DeleteFile ns app (absolute q)) st = Some ((204, NoBody), st')
        \<and> node_at (rg_disk (ap_registry st')) q = None"
    by (simp add: delete_file_handler_def with_registry_def)
qed

lemma demo_kept: "kept (out_serde (demo_out [])) (out_chars (demo_out [])) (ap_registry demo_state)"
proof -
  let ?r = "ap_registry demo_state"
  have r: "?r = \<lparr>rg_namespaces = [(demo_ns, [(demo_app, demo_manifest [])])], rg_dir = demo_dir, rg_disk = demo_disk\<rparr>"
    by (simp add: demo_state_def)
  have "namespaces_ok ascii_only ?r"
  proof -
    have "validate_namespace ascii_only demo_ns = Inr ()" "demo_ns \<noteq> dot" "utf8_valid demo_ns"
      "node_at demo_disk (demo_dir @ [demo_ns]) = Some Dir"
      by code_simp+
    then show ?thesis
      by (auto simp: namespaces_ok_def r)
  qed
  moreover have "apps_ok (out_serde (demo_out [])) ascii_only ?r"
  proof (rule apps_okI)
    fix ns app m assume "get_app ?r ns app = Some m"
    then have "ns = demo_ns" "app = demo_app" "m = demo_manifest []"
      by (auto simp: get_app_def r split: if_splits)
    moreover have "validate_name ascii_only demo_app = Inr ()"
      "node_at demo_disk (demo_dir @ [demo_ns, demo_app]) = Some Dir"
      "node_at demo_disk (demo_dir @ [demo_ns, demo_app, files_dir]) = Some Dir"
      "node_at demo_disk (demo_dir @ [demo_ns, demo_app, manifest_json])
        = Some (File (sd_print (out_serde (demo_out [])) (demo_manifest [])))"
      by code_simp+
    ultimately show "am_namespace m = ns \<and> am_app m = app \<and> validate_name ascii_only app = Inr ()
      \<and> node_at (rg_disk ?r) (rg_dir ?r @ [ns, app]) = Some Dir
      \<and> node_at (rg_disk ?r) (rg_dir ?r @ [ns, app, files_dir]) = Some Dir
      \<and> node_at (rg_disk ?r) (rg_dir ?r @ [ns, app, manifest_json])
        = Some (File (sd_print (out_serde (demo_out [])) m))"
      by (simp add: r demo_manifest_def)
  qed
  moreover have "manifests_ok ?r"
    by (auto simp: manifests_ok_def r get_app_def node_at_def demo_disk_def demo_dir_def split: if_splits)
  moreover have "levels_ok ?r"
    by (auto simp: levels_ok_def r node_at_def demo_disk_def demo_dir_def split: if_splits)
  ultimately show ?thesis
    using demo_dirs by (simp add: kept_def dir_ok_def demo_out_def)
qed

lemma absolute_name_escapes_witness:
  "absolute [ascii ''etc'', ascii ''passwd''] = ascii ''/etc/passwd''
    \<and> (\<exists>ct. serve_admin (demo_out []) demo_occasion (DownloadFile [] [] (ascii ''/etc/passwd'')) demo_state
        = Some ((200, Content ct (ascii ''root'')), demo_state))
    \<and> (\<exists>st'. serve_admin (demo_out []) demo_occasion (DeleteFile demo_ns demo_app (ascii ''/etc/passwd'')) demo_state
        = Some ((204, NoBody), st') \<and> node_at (rg_disk (ap_registry st')) [ascii ''etc'', ascii ''passwd''] = None)"
proof -
  let ?q = "[ascii ''etc'', ascii ''passwd'']"
  have abs: "absolute ?q = ascii ''/etc/passwd''"
    by code_simp
  have at: "node_at (rg_disk (ap_registry demo_state)) ?q = Some (File (ascii ''root''))"
    by code_simp
  have "dirs demo_disk []" "node_at demo_disk [ascii ''etc''] = Some Dir"
    by (simp add: dirs_def node_at_def) code_simp
  then have up: "dirs (rg_disk (ap_registry demo_state)) (butlast ?q)"
    using dirs_snoc [of demo_disk "[]" "ascii ''etc''"] by (simp add: demo_state_def)
  have names: "list_all plain ?q" "\<forall>c \<in> set ?q. slash \<notin> set c"
    unfolding plain_def by code_simp+
  have app: "get_app (ap_registry demo_state) demo_ns demo_app = Some (demo_manifest [])"
    "am_routes (demo_manifest []) = []" "require_auth (oc_token demo_occasion) demo_state"
    by code_simp+
  note escape = absolute_name_escapes [OF at up names, of "demo_out []" demo_occasion, unfolded abs]
  show ?thesis
    using escape [of "[]" "[]"] escape [of demo_ns demo_app "demo_manifest []"] demo_kept app by (simp add: abs)
qed

subsection \<open>Bytecode\<close>

lemma bytecode_no_source:
  assumes "utf8_chars (MAGIC @ 1 # bs) = Some cs"
  shows "\<exists>e. compile_source u cs = Some (Inl e)"
proof -
  obtain ds where "cs = 70 # 83 # 77 # 67 # 1 # ds"
    using assms by (auto simp: MAGIC_def)
  then have "tokenize u cs = Inl (LxUnexpectedChar 1 1)"
    by (simp add: tokenize_def lex_step_def ident_start_def ident_char_def is_alphanumeric_def is_alphabetic_def
        is_ascii_letter_def is_digit_char_def)
  then show ?thesis
    by (simp add: compile_source_def)
qed

text \<open>C39. A route on uploaded bytecode does not survive a restart: registration decodes the file, start-up takes
  it for a source text, which it never is, and leaves the route out.\<close>

theorem restart_drops_bytecode_routes:
  assumes "fs_read (rg_disk r) (file_path r ns app (rr_file rec)) = Inr (encode_program p)"
    and "program_ok p" "prog_version p = 1"
  shows "load_program out (rg_disk r) (file_path r ns app (rr_file rec)) = Some (Inr p)
    \<and> restore_route out fresh r (ns, app, rec) (n, table) = Some (Suc n, table)"
proof -
  have "decode_program (encode_program p) = Inr p"
    using parses_full [OF parses_read_program, of p "[]" "[]"] assms(2) by (simp add: decode_program_def at_Nil)
  then have "load_program out (rg_disk r) (file_path r ns app (rr_file rec)) = Some (Inr p)"
    using assms(1) by (simp add: load_program_def encode_program_def)
  moreover obtain bs where bs: "encode_program p = MAGIC @ 1 # bs"
    using assms(3) by (simp add: encode_program_def)
  have "\<exists>e. compile_source_file out (rg_disk r) (file_path r ns app (rr_file rec)) = Some (Inl e)"
  proof (cases "utf8_chars (MAGIC @ 1 # bs)")
    case (Some cs)
    then show ?thesis
      using bytecode_no_source [OF Some, of "out_chars out"] assms(1) bs
      by (auto simp: compile_source_file_def fs_read_text_def)
  qed (use assms(1) bs in \<open>simp add: compile_source_file_def fs_read_text_def\<close>)
  ultimately show ?thesis
    by (auto simp: restore_route_def)
qed

lemma restart_drops_bytecode_routes_witness:
  "\<exists>r. load_program (demo_out []) (rg_disk r) (file_path r demo_ns demo_app (ascii ''a.fasm'')) = Some (Inr small_program)
    \<and> restore_route (demo_out []) (\<lambda>n. []) r (demo_ns, demo_app, demo_route) (0, []) = Some (1, [])"
proof -
  let ?r = "(ap_registry demo_state)\<lparr>rg_disk := AList.update (demo_dir @ [demo_ns, demo_app, files_dir, ascii ''a.fasm''])
    (File (encode_program small_program)) demo_disk\<rparr>"
  have "fs_read (rg_disk ?r) (file_path ?r demo_ns demo_app (rr_file demo_route)) = Inr (encode_program small_program)"
    by code_simp
  moreover have "program_ok small_program" "prog_version small_program = 1"
    using compiled_fits_format [OF small_compiles]
    by (simp_all add: small_source_def is_scalar_def counts_fit_def small_program_def)
  ultimately show ?thesis
    using restart_drops_bytecode_routes [of ?r demo_ns demo_app demo_route small_program "demo_out []" "\<lambda>n. []" 0 "[]"]
    by (intro exI [of _ ?r]) (simp add: demo_route_def)
qed

end
