(* ===== verification/Fasm_Engine.thy ===== *)
theory Fasm_Engine
  imports Fasm_Restart Fasm_Looper
begin

text \<open>
  The engine as a whole: its configuration (\<open>config.rs\<close>), the scheduler (\<open>scheduler.rs\<close>) and the
  start-up that wires the components together (\<open>engine.rs\<close>).  The parser of TOML and the network are
  left out: start-up begins with a parsed configuration and a bound socket and ends where requests are
  served.
\<close>

subsection \<open>Configuration\<close>

record server_config =
  sv_host :: bytes
  sv_port :: u16

record storage_config =
  sg_data_dir :: bytes
  sg_admin_token :: "bytes option"

record engine_settings =
  es_max_concurrent :: nat
  es_hot_reload :: bool
  es_clock_hz :: u64
  es_seccomp :: bool
  es_landlock :: bool
  es_read_paths :: "bytes list"

datatype misfire_policy = MisfireSkip | MisfireRunAll

record schedule_config =
  sh_name :: bytes
  sh_cron :: bytes
  sh_function :: bytes
  sh_source :: bytes
  sh_misfire :: misfire_policy

datatype queue_type = QueueShared | QueueFunctionScoped

record queue_config =
  qc_name :: bytes
  qc_type :: queue_type
  qc_max_retries :: u32
  qc_timeout_secs :: u64
  qc_function :: "bytes option"
  qc_source :: "bytes option"

record event_config =
  ev_name :: bytes
  ev_function :: bytes
  ev_source :: bytes

record engine_config =
  ec_server :: server_config
  ec_discovery_dir :: "bytes option"
  ec_engine :: engine_settings
  ec_storage :: storage_config
  ec_routes :: "route_config list"
  ec_schedules :: "schedule_config list"
  ec_queues :: "queue_config list"
  ec_events :: "event_config list"

definition server_default :: server_config where
  "server_default = \<lparr>sv_host = ascii ''0.0.0.0'', sv_port = 8080\<rparr>"

definition storage_default :: storage_config where
  "storage_default = \<lparr>sg_data_dir = ascii ''data'', sg_admin_token = None\<rparr>"

definition settings_default :: engine_settings where
  "settings_default = \<lparr>es_max_concurrent = 256, es_hot_reload = False, es_clock_hz = 0, es_seccomp = False,
     es_landlock = False, es_read_paths = []\<rparr>"

text \<open>What the fields of a schedule and of a queue are when the file leaves them out.\<close>

definition default_misfire :: misfire_policy where "default_misfire = MisfireSkip"
definition default_queue_type :: queue_type where "default_queue_type = QueueShared"
definition default_max_retries :: u32 where "default_max_retries = 3"
definition default_timeout_secs :: u64 where "default_timeout_secs = 30"

subsection \<open>The scheduler\<close>

definition every_prefix :: bytes where
  "every_prefix = ascii ''*/''"

text \<open>\<open>strip_prefix("*/")\<close> and \<open>parse\<close> to \<open>u64\<close>.\<close>

definition every :: "bytes \<Rightarrow> u64 option" where
  "every field = (if take 2 field = every_prefix then map_option of_nat (parse_unsigned (2 ^ 64) (drop 2 field))
     else None)"

text \<open>The interval in seconds.\<close>

definition parse_cron_interval :: "bytes \<Rightarrow> u64" where
  "parse_cron_interval cron = (case split_whitespace cron of
      sec_field # min_field # _ \<Rightarrow> (case every min_field of
          Some mins \<Rightarrow> mins * 60
        | None \<Rightarrow> (case every sec_field of Some secs \<Rightarrow> secs | None \<Rightarrow> 60))
    | _ \<Rightarrow> 60)"

record schedule =
  sk_func :: bytes
  sk_program :: program
  sk_interval :: u64
  sk_policy :: misfire_policy

text \<open>\<open>None\<close>: the compiler does not return.\<close>

definition spawn_schedule :: "outside \<Rightarrow> path \<Rightarrow> disk \<Rightarrow> schedule_config \<Rightarrow> ((io_error + compile_error) + schedule) option" where
  "spawn_schedule out base d cfg = (case compile_source_file out d (path_join base (sh_source cfg)) of
      None \<Rightarrow> None
    | Some (Inl e) \<Rightarrow> Some (Inl e)
    | Some (Inr program) \<Rightarrow> Some (Inr \<lparr>sk_func = sh_function cfg, sk_program = program,
        sk_interval = parse_cron_interval (sh_cron cfg), sk_policy = sh_misfire cfg\<rparr>))"

definition schedule_request :: "schedule \<Rightarrow> exec_request" where
  "schedule_request s = \<lparr>rq_func = sk_func s, rq_program = sk_program s, rq_args = VStruct [],
     rq_trigger = ascii ''schedule'', rq_jit = None\<rparr>"

text \<open>One tick.  \<open>tokio::time::interval\<close> panics on a period of zero, so such a task ends before its first
  tick.  The policy decides about a log line only.\<close>

definition schedule_tick :: "schedule \<Rightarrow> engine \<Rightarrow> engine" where
  "schedule_tick s en = (if sk_interval s = 0 then en else snd (spawn (schedule_request s) en))"

subsection \<open>Queue loopers\<close>

text \<open>A queue without a function or a source gets no looper.  \<open>show\<close> is the text of a payload; the place of
  the queue is part of the result.\<close>

definition spawn_queue_looper :: "outside \<Rightarrow> path \<Rightarrow> disk \<Rightarrow> ('p \<Rightarrow> bytes) \<Rightarrow> queue_config \<Rightarrow> 'p queue_registry
    \<Rightarrow> ((io_error + compile_error) + ('p looper \<times> nat) option \<times> 'p queue_registry) option" where
  "spawn_queue_looper out base d show cfg r = (case (qc_function cfg, qc_source cfg) of
      (Some func, Some source) \<Rightarrow> (case compile_source_file out d (path_join base source) of
          None \<Rightarrow> None
        | Some (Inl e) \<Rightarrow> Some (Inl e)
        | Some (Inr program) \<Rightarrow> (case qr_get_or_create (qc_name cfg) (qc_max_retries cfg) (qc_timeout_secs cfg) r of
            (h, r) \<Rightarrow> Some (Inr (Some (\<lparr>lo_name = qc_name cfg, lo_func = func, lo_program = program, lo_show = show\<rparr>, h), r))))
    | _ \<Rightarrow> Some (Inr (None, r)))"

subsection \<open>Start-up\<close>

definition register_queues :: "queue_config list \<Rightarrow> 'p queue_registry \<Rightarrow> 'p queue_registry" where
  "register_queues = fold (\<lambda>cfg r. snd (qr_get_or_create (qc_name cfg) (qc_max_retries cfg) (qc_timeout_secs cfg) r))"

text \<open>\<open>PathBuf::join\<close> on texts.\<close>

definition join_text :: "bytes \<Rightarrow> bytes \<Rightarrow> bytes" where
  "join_text p s = (if take 1 s = [slash] then s else if p = [] \<or> last p = slash then p @ s else p @ slash # s)"

definition sandbox_config_of :: "bytes \<Rightarrow> engine_config \<Rightarrow> sandbox_config" where
  "sandbox_config_of config_dir cfg = \<lparr>sc_clock_hz = es_clock_hz (ec_engine cfg),
     sc_plugin_dir = map_option (join_text config_dir) (ec_discovery_dir cfg), sc_seccomp = es_seccomp (ec_engine cfg),
     sc_landlock = es_landlock (ec_engine cfg), sc_read_paths = es_read_paths (ec_engine cfg)\<rparr>"

text \<open>The static routes; an error of \<open>None\<close> is a compilation that does not return.\<close>

definition static_routes :: "outside \<Rightarrow> (nat \<Rightarrow> bytes) \<Rightarrow> path \<Rightarrow> disk \<Rightarrow> route_config list
    \<Rightarrow> (io_error + compile_error) option + (program, jit_dispatcher) route_table" where
  "static_routes out ids base d cfgs = from_configs (out_jit out) (out_upper out)
     (\<lambda>source. case compile_source_file out d (path_join base source) of
        None \<Rightarrow> Inl None | Some (Inl e) \<Rightarrow> Inl (Some e) | Some (Inr p) \<Rightarrow> Inr p)
     (zip cfgs (map ids [0..<length cfgs])) []"

text \<open>Failures of the last two steps are logged and skipped.\<close>

fun spawn_schedules :: "outside \<Rightarrow> path \<Rightarrow> disk \<Rightarrow> schedule_config list \<Rightarrow> schedule list option" where
  "spawn_schedules out base d [] = Some []"
| "spawn_schedules out base d (cfg # cfgs) = (case spawn_schedule out base d cfg of
      None \<Rightarrow> None
    | Some (Inl e) \<Rightarrow> spawn_schedules out base d cfgs
    | Some (Inr s) \<Rightarrow> map_option (Cons s) (spawn_schedules out base d cfgs))"

fun spawn_loopers :: "outside \<Rightarrow> path \<Rightarrow> disk \<Rightarrow> ('p \<Rightarrow> bytes) \<Rightarrow> queue_config list \<Rightarrow> 'p queue_registry
    \<Rightarrow> (('p looper \<times> nat) list \<times> 'p queue_registry) option" where
  "spawn_loopers out base d show [] r = Some ([], r)"
| "spawn_loopers out base d show (cfg # cfgs) r = (case spawn_queue_looper out base d show cfg r of
      None \<Rightarrow> None
    | Some (Inl e) \<Rightarrow> spawn_loopers out base d show cfgs r
    | Some (Inr (None, r)) \<Rightarrow> spawn_loopers out base d show cfgs r
    | Some (Inr (Some lo, r)) \<Rightarrow>
        map_option (\<lambda>(los, r). (lo # los, r)) (spawn_loopers out base d show cfgs r))"

record 'p running_engine =
  ru_queues :: "'p queue_registry"
  ru_engine :: engine
  ru_state :: app_state
  ru_schedules :: "schedule list"
  ru_loopers :: "('p looper \<times> nat) list"

datatype start_error = RouteCompilation "io_error + compile_error" | DataDir io_error

definition run_with_listener :: "outside \<Rightarrow> (nat \<Rightarrow> bytes) \<Rightarrow> (nat \<Rightarrow> bytes) \<Rightarrow> ('p \<Rightarrow> bytes) \<Rightarrow> engine_config \<Rightarrow> bytes
    \<Rightarrow> disk \<Rightarrow> (start_error + 'p running_engine) option" where
  "run_with_listener out ids fresh show cfg config_dir d =
     (let base = path_join [] config_dir;
          queues = register_queues (ec_queues cfg) qr_new;
          dispatcher = dispatcher_new (es_max_concurrent (ec_engine cfg)) metrics_new (sandbox_config_of config_dir cfg)
      in case static_routes out ids base d (ec_routes cfg) of
          Inl None \<Rightarrow> None
        | Inl (Some e) \<Rightarrow> Some (Inl (RouteCompilation e))
        | Inr static \<Rightarrow> (case start_engine out fresh static (path_join base (sg_data_dir (ec_storage cfg)))
              (sg_admin_token (ec_storage cfg)) d of
            None \<Rightarrow> None
          | Some (Inl e) \<Rightarrow> Some (Inl (DataDir e))
          | Some (Inr st) \<Rightarrow>
              Option.bind (spawn_schedules out base (rg_disk (ap_registry st)) (ec_schedules cfg)) (\<lambda>schedules.
              map_option (\<lambda>(loopers, queues). Inr \<lparr>ru_queues = queues, ru_engine = dispatcher, ru_state = st,
                  ru_schedules = schedules, ru_loopers = loopers\<rparr>)
                (spawn_loopers out base (rg_disk (ap_registry st)) show (ec_queues cfg) queues))))"

subsection \<open>What is wired\<close>

lemma restore_route_appends:
  "restore_route out fresh r rec (n, table) = Some (n', table') \<Longrightarrow> \<exists>new. table' = table @ new"
  by (cases rec) (auto simp: restore_route_def add_route_dyn_def Let_def split: option.splits sum.splits)

lemma restore_routes_appends:
  "restore_routes out fresh r recs (n, table) = Some table' \<Longrightarrow> \<exists>new. table' = table @ new"
proof (induction recs arbitrary: n table)
  case (Cons rec recs)
  then obtain n1 table1 where one: "restore_route out fresh r rec (n, table) = Some (n1, table1)"
    "restore_routes out fresh r recs (n1, table1) = Some table'"
    by (auto simp: bind_eq_Some_conv)
  from Cons.IH [OF one(2)] restore_route_appends [OF one(1)] show ?case
    by auto
qed simp

lemma match_route_extended:
  "match_route u m p table = Some matched \<Longrightarrow> match_route u m p (table @ new) = Some matched"
  by (simp add: match_route_def match_loop_append)

text \<open>The queue of a name; every name of a registry has its place.\<close>

definition queue_at :: "'p queue_registry \<Rightarrow> bytes \<Rightarrow> 'p shared_queue option" where
  "queue_at r name = Option.bind (qr_get name r) (\<lambda>h. if h < length (qr_store r) then qr_store r ! h else None)"

definition places_ok :: "'p queue_registry \<Rightarrow> bool" where
  "places_ok r \<longleftrightarrow> (\<forall>name h. qr_get name r = Some h \<longrightarrow> h < length (qr_store r))"

lemma get_or_create_known:
  "qr_get name r = Some h \<Longrightarrow> qr_get_or_create name retries secs r = (h, r)"
  by (simp add: qr_get_or_create_def qr_get_def)

lemma get_or_create_queue:
  assumes "places_ok r" "qr_get_or_create name retries secs r = (h, r')"
  shows "places_ok r'" "qr_get name r' = Some h"
    "qr_get name' r' = None \<longleftrightarrow> qr_get name' r = None \<and> name' \<noteq> name"
    "queue_at r' name' = (if name' = name \<and> qr_get name r = None then Some (sq_new retries secs) else queue_at r name')"
proof -
  have places: "places_ok r' \<and> qr_get name r' = Some h
    \<and> (qr_get name' r' = None \<longleftrightarrow> qr_get name' r = None \<and> name' \<noteq> name)"
    using assms
    by (auto simp: qr_get_or_create_def places_ok_def qr_get_def sparse_get_map_of sparse_insert_def update_conv'
        less_Suc_eq split: option.splits if_splits)
  then show "places_ok r'" "qr_get name r' = Some h"
    "qr_get name' r' = None \<longleftrightarrow> qr_get name' r = None \<and> name' \<noteq> name"
    by blast+
  show "queue_at r' name' = (if name' = name \<and> qr_get name r = None then Some (sq_new retries secs) else queue_at r name')"
  proof (cases "qr_get name r")
    case None
    then have r': "h = length (qr_store r)" "qr_store r' = qr_store r @ [Some (sq_new retries secs)]"
      "qr_get name' r' = (if name' = name then Some h else qr_get name' r)"
      using assms(2) by (auto simp: qr_get_or_create_def qr_get_def sparse_get_map_of sparse_insert_def update_conv')
    show ?thesis
    proof (cases "name' = name")
      case False
      have "a < length (qr_store r)" if "qr_get name' r = Some a" for a
        using that assms(1) by (auto simp: places_ok_def)
      then show ?thesis
        using r' False by (cases "qr_get name' r") (auto simp: queue_at_def nth_append)
    qed (use None r' in \<open>simp add: queue_at_def\<close>)
  next
    case (Some h')
    then show ?thesis
      using assms(2) by (simp add: get_or_create_known)
  qed
qed

lemma register_queue:
  assumes "places_ok r"
  shows "queue_at (register_queues cfgs r) name = (if qr_get name r \<noteq> None then queue_at r name
      else map_option (\<lambda>c. sq_new (qc_max_retries c) (qc_timeout_secs c)) (List.find (\<lambda>c. qc_name c = name) cfgs))
    \<and> places_ok (register_queues cfgs r)
    \<and> (qr_get name (register_queues cfgs r) = None \<longleftrightarrow> qr_get name r = None \<and> name \<notin> qc_name ` set cfgs)"
  using assms
proof (induction cfgs arbitrary: r)
  case Nil
  then show ?case
    by (simp add: register_queues_def queue_at_def)
next
  case (Cons c cfgs)
  obtain h r' where one: "qr_get_or_create (qc_name c) (qc_max_retries c) (qc_timeout_secs c) r = (h, r')"
    by fastforce
  note made = get_or_create_queue [OF Cons.prems one]
  show ?case
    using Cons.IH [OF made(1)] made(3) [of name] made(4) [of name] one by (auto simp: register_queues_def)
qed

lemma spawn_loopers_registered:
  assumes "spawn_loopers out base d show cfgs r = Some (los, r')" "\<forall>c \<in> set cfgs. qr_get (qc_name c) r \<noteq> None"
  shows "r' = r \<and> (\<forall>(lo, h) \<in> set los. qr_get (lo_name lo) r = Some h)"
  using assms
proof (induction cfgs arbitrary: los r')
  case (Cons c cfgs)
  obtain h where h: "qr_get (qc_name c) r = Some h"
    using Cons.prems(2) by auto
  note one = Cons.prems(1) [simplified, unfolded spawn_queue_looper_def get_or_create_known [OF h]]
  have "r' = r" "(lo, h) \<in> set los' \<Longrightarrow> qr_get (lo_name lo) r = Some h"
    if "spawn_loopers out base d show cfgs r = Some (los', r')" for los' r' lo h
    using Cons.IH [OF that] Cons.prems(2) by auto
  then show ?case
    using one h by (auto split: option.splits sum.splits)
qed simp

text \<open>C25. An engine that starts is wired as its configuration says: so many permits, a queue for every declared
  name with the settings of the first declaration and for no other name, loopers that serve the queue
  they name, and static routes that no restored route can take a request from.\<close>

theorem engine_starts_as_configured:
  assumes "run_with_listener out ids fresh show cfg config_dir d = Some (Inr e)"
  shows "en_permits (ru_engine e) = es_max_concurrent (ec_engine cfg)
    \<and> (\<forall>name. queue_at (ru_queues e) name = map_option (\<lambda>c. sq_new (qc_max_retries c) (qc_timeout_secs c))
        (List.find (\<lambda>c. qc_name c = name) (ec_queues cfg)))
    \<and> (\<forall>(lo, h) \<in> set (ru_loopers e). qr_get (lo_name lo) (ru_queues e) = Some h)
    \<and> (\<exists>static. static_routes out ids (path_join [] config_dir) d (ec_routes cfg) = Inr static
        \<and> (\<forall>m p matched. match_route (out_upper out) m p static = Some matched
            \<longrightarrow> match_route (out_upper out) m p (ap_routes (ru_state e)) = Some matched))"
proof -
  let ?base = "path_join [] config_dir" and ?queues = "register_queues (ec_queues cfg) qr_new :: 'a queue_registry"
  obtain static st schedules loopers queues where static: "static_routes out ids ?base d (ec_routes cfg) = Inr static"
    and st: "start_engine out fresh static (path_join ?base (sg_data_dir (ec_storage cfg)))
      (sg_admin_token (ec_storage cfg)) d = Some (Inr st)"
    and loopers: "spawn_loopers out ?base (rg_disk (ap_registry st)) show (ec_queues cfg) ?queues = Some (loopers, queues)"
    and e: "e = \<lparr>ru_queues = queues, ru_engine = dispatcher_new (es_max_concurrent (ec_engine cfg)) metrics_new
      (sandbox_config_of config_dir cfg), ru_state = st, ru_schedules = schedules, ru_loopers = loopers\<rparr>"
    using assms by (auto simp: run_with_listener_def Let_def bind_eq_Some_conv split: sum.splits option.splits prod.splits)
  have new: "places_ok (qr_new :: 'a queue_registry)" "qr_get name (qr_new :: 'a queue_registry) = None" for name
    by (simp_all add: places_ok_def qr_get_def qr_new_def sparse_get_map_of)
  note registered = register_queue [OF new(1), of "ec_queues cfg"]
  have "queues = ?queues \<and> (\<forall>(lo, h) \<in> set loopers. qr_get (lo_name lo) ?queues = Some h)"
    using spawn_loopers_registered [OF loopers] registered by blast
  moreover have "\<exists>new. ap_routes st = static @ new"
    using st by (rule start_engineE) (blast dest: restore_routes_appends)
  ultimately show ?thesis
    using static registered new(2) by (auto simp: e dispatcher_new_def match_route_extended)
qed

text \<open>Two declarations of the queue \<open>mail\<close> and no routes.\<close>

definition demo_queue :: "u32 \<Rightarrow> queue_config" where
  "demo_queue retries = \<lparr>qc_name = ascii ''mail'', qc_type = default_queue_type, qc_max_retries = retries,
     qc_timeout_secs = default_timeout_secs, qc_function = Some (ascii ''Main''), qc_source = Some (ascii ''a.fasm'')\<rparr>"

definition demo_config :: engine_config where
  "demo_config = \<lparr>ec_server = server_default, ec_discovery_dir = None, ec_engine = settings_default,
     ec_storage = storage_default, ec_routes = [], ec_schedules = [], ec_queues = [demo_queue 5, demo_queue 7],
     ec_events = []\<rparr>"

lemma engine_starts_as_configured_witness:
  "\<exists>e :: nat running_engine. run_with_listener (demo_out []) (\<lambda>n. []) (\<lambda>n. []) nat_digits demo_config (ascii ''/'') []
      = Some (Inr e)
    \<and> en_permits (ru_engine e) = 256 \<and> queue_at (ru_queues e) (ascii ''mail'') = Some (sq_new 5 30)"
proof -
  let ?base = "path_join [] (ascii ''/'')" and ?d = "[(demo_dir, Dir)]"
  have "fs_create_dir_all [] (path_join ?base (ascii ''data'')) = Inr ?d"
    "load_from_disk (out_serde (demo_out [])) (out_chars (demo_out [])) (registry_new (path_join ?base (ascii ''data'')) ?d)
      = ([], registry_new (path_join ?base (ascii ''data'')) ?d)"
    by code_simp+
  then obtain st where st: "start_engine (demo_out []) (\<lambda>n. []) [] (path_join ?base (ascii ''data'')) None [] = Some (Inr st)"
    "rg_disk (ap_registry st) = ?d"
    by (simp add: start_engine_def manifest_records_def registry_new_def)
  have "compile_source_file (demo_out []) ?d (path_join ?base (ascii ''a.fasm'')) = Some (Inl (Inl NoEntry))"
    by code_simp
  then have "\<exists>e :: nat running_engine. run_with_listener (demo_out []) (\<lambda>n. []) (\<lambda>n. []) nat_digits demo_config (ascii ''/'') []
      = Some (Inr e)"
    using st by (simp add: run_with_listener_def demo_config_def static_routes_def storage_default_def demo_queue_def
        spawn_queue_looper_def Let_def)
  then obtain e :: "nat running_engine" where e: "run_with_listener (demo_out []) (\<lambda>n. []) (\<lambda>n. []) nat_digits demo_config
      (ascii ''/'') [] = Some (Inr e)"
    by blast
  from engine_starts_as_configured [OF e]
  have "en_permits (ru_engine e) = 256" "queue_at (ru_queues e) (ascii ''mail'') = Some (sq_new 5 30)"
    by (simp_all add: demo_config_def settings_default_def demo_queue_def default_timeout_secs_def)
  with e show ?thesis
    by blast
qed

subsection \<open>Schedules\<close>

text \<open>The intervals the code documents, and those of other texts: \<open>*/0\<close> never runs and a field that is no
  step means every minute.\<close>

lemma cron_intervals:
  "parse_cron_interval (ascii ''0 */5 * * * *'') = 300" "parse_cron_interval (ascii ''*/10 * * * * *'') = 10"
  "parse_cron_interval (ascii ''0 0 3 * * *'') = 60" "parse_cron_interval (ascii ''*/0 * * * * *'') = 0"
proof -
  have "split_whitespace (ascii ''0 */5 * * * *'') = map ascii [''0'', ''*/5'', ''*'', ''*'', ''*'', ''*'']"
    "split_whitespace (ascii ''*/10 * * * * *'') = map ascii [''*/10'', ''*'', ''*'', ''*'', ''*'', ''*'']"
    "split_whitespace (ascii ''0 0 3 * * *'') = map ascii [''0'', ''0'', ''3'', ''*'', ''*'', ''*'']"
    "split_whitespace (ascii ''*/0 * * * * *'') = map ascii [''*/0'', ''*'', ''*'', ''*'', ''*'', ''*'']"
    by code_simp+
  moreover have "decimal (ascii ''5'') 0 = Some 5" "decimal (ascii ''10'') 0 = Some 10" "decimal (ascii ''0'') 0 = Some 0"
    by code_simp+
  then have "every (ascii ''*/5'') = Some 5" "every (ascii ''*/10'') = Some 10" "every (ascii ''*/0'') = Some 0"
    "every (ascii ''*'') = None" "every (ascii ''0'') = None"
    by (simp_all add: every_def every_prefix_def parse_unsigned_def ascii_def Let_def)
  ultimately show "parse_cron_interval (ascii ''0 */5 * * * *'') = 300" "parse_cron_interval (ascii ''*/10 * * * * *'') = 10"
    "parse_cron_interval (ascii ''0 0 3 * * *'') = 60" "parse_cron_interval (ascii ''*/0 * * * * *'') = 0"
    by (simp_all add: parse_cron_interval_def)
qed

lemma zero_schedule_never_runs: "sk_interval s = 0 \<Longrightarrow> schedule_tick s en = en"
  by (simp add: schedule_tick_def)

lemma schedule_takes_permit:
  assumes "sk_interval s \<noteq> 0"
  shows "en_permits (schedule_tick s en) = en_permits en - 1"
    "en_running (schedule_tick s en) = en_running en @ (if en_permits en = 0 then [] else [schedule_request s])"
  using assms by (simp_all add: schedule_tick_def spawn_def)

end
