(* ===== verification/Spec2Isabelle.thy ===== *)
theory Spec2Isabelle
  imports Fasm_Format Fasm_Containers Fasm_Numbers Fasm_Slots Fasm_Transactions Fasm_Behaviour Fasm_Progress
    Fasm_Compiler Fasm_Web Fasm_Routing Fasm_Looper Fasm_Tiers Fasm_Cli Fasm_Engine
begin

text \<open>
  A verification of FASM: a typed assembly language, its compiler, binary format, virtual machine and
  request engine (Rust crates \<open>fasm-compiler\<close>, \<open>fasm-bytecode\<close>, \<open>fasm-vm\<close>, \<open>fasm-sandbox\<close> and
  \<open>fasm-engine\<close> under \<open>src/crates/\<close>).

  \<^bold>\<open>The program.\<close>  The compiler (lexer, parser, validator, emitter) turns assembly text into a
  \<open>Program\<close> (global initialisers and functions of instructions), which \<open>encode_program\<close> writes as a \<open>.fasmc\<close> file and
  \<open>decode_program\<close> reads.  The \<open>Executor\<close> runs it: it initialises the globals, pushes a frame for
  the entry function and executes one instruction per round of its loop; an instruction reads
  operands (slots, immediates), computes and writes back, or asks the loop for a jump, a call, a
  return.  A fault goes to the TRY guard of the top frame, which rolls the frame and the globals
  back, or ends the run.  System calls and JIT-compiled functions are called through tables.
  The engine serves HTTP requests: the route table picks a function, the handler turns the request
  into its arguments, the \<open>TaskDispatcher\<close> takes a permit and runs it in the \<open>Sandbox\<close> that the
  thread keeps, and the result becomes JSON.  Loopers feed the messages of queues to the same
  dispatcher; topics copy what is published to the queues of their subscribers.  The management
  interface keeps applications (files and routes) in memory and on disk and changes the live route
  table; start-up reads the configuration and the disk and wires all of this together.

  \<^bold>\<open>The theories.\<close>
  \<^item> \<open>Fasm_Prelude\<close>: machine integers (\<open>u8\<close> to \<open>i64\<close> are words), lists, fallible lookup.
  \<^item> \<open>Fasm_Bytecode\<close> (\<open>opcode.rs\<close>, \<open>types.rs\<close>, \<open>instruction.rs\<close>, \<open>program.rs\<close>): the instruction model.
  \<^item> \<open>Fasm_Encode\<close> (\<open>encode.rs\<close>): writer and reader; \<open>Fasm_Wire\<close>: the locale \<open>codec\<close> of a
    prefix-free format, interpreted for programs, with one lemma per record of the format;
    \<open>Fasm_Format\<close>: the properties of the format.
  \<^item> \<open>Fasm_Text\<close>, \<open>Fasm_Float\<close>, \<open>Fasm_FloatText\<close>: what the crates use of Rust's standard library on
    strings (UTF-8, trimming, decimal digits) and on IEEE-754 numbers as bit patterns (arithmetic
    rounded to nearest even, casts, shortest decimal display).
  \<^item> \<open>Fasm_Collections\<close>, \<open>Fasm_Bits\<close>, \<open>Fasm_Value\<close> (\<open>value.rs\<close>, \<open>fault.rs\<close>): structs, sparse and
    ordered maps (locales \<open>keyed_map\<close> and \<open>ordered_map\<close> with interpretations), bit sets and bit
    vectors, the \<open>Value\<close> enum with arithmetic, comparison and display.
  \<^item> \<open>Fasm_Memory\<close> (\<open>memory.rs\<close>): slot vectors (locale \<open>slot_store\<close>, interpreted for frames and for
    the global register).
  \<^item> \<open>Fasm_Machine\<close>, \<open>Fasm_Ops\<close>, \<open>Fasm_Exec\<close>, \<open>Fasm_Run\<close> (\<open>executor.rs\<close>): the executor's state, the
    monad of its methods (a result is a value, a fault with the state reached, a panic of the host, or an
    exit of the process), operand access, the bodies of the instructions, dispatch, built-in system
    calls and the loop (\<open>run_step\<close> is one round, \<open>run_loop\<close> the partial function, \<open>run_rounds\<close> the
    loop with a bound, \<open>reaches\<close> the relation between states).
  \<^item> \<open>Fasm_Logic\<close>: a calculus of what an instruction keeps (\<open>keeps\<close>) and the locale
    \<open>machine_inv\<close>, in which \<open>execute_keeps\<close> is proved once for all instructions;
    \<open>Fasm_Wellformed\<close>, \<open>Fasm_Safety\<close> and \<open>Fasm_Isolation\<close> interpret it for well-formed values and
    frames, for the identity of the top activation and for its TRY guard.
  \<^item> \<open>Fasm_Containers\<close>, \<open>Fasm_Numbers\<close>, \<open>Fasm_Slots\<close>, \<open>Fasm_Isolation\<close>, \<open>Fasm_Transactions\<close>,
    \<open>Fasm_Behaviour\<close>, \<open>Fasm_Progress\<close>: the properties.

  \<^item> \<open>Fasm_Syntax\<close> (\<open>token.rs\<close>, \<open>ast.rs\<close>), \<open>Fasm_Lexer\<close>, \<open>Fasm_Parser\<close>, \<open>Fasm_Validator\<close>,
    \<open>Fasm_Emitter\<close> (the files of those names): the compiler's data and passes, each in the result
    monad of its errors.  \<open>Fasm_Layout\<close> says where a statement's code is (\<open>occurs\<close>, \<open>code_size\<close>,
    \<open>label_positions\<close>) and proves the two passes of the emitter agree; \<open>Fasm_Codegen\<close>,
    \<open>Fasm_Targets\<close> and \<open>Fasm_Defines\<close> hold the properties of emitted code; \<open>Fasm_Texts\<close> follows
    strings from the source to the program; \<open>Fasm_Compiler\<close> (\<open>lib.rs\<close>) composes the passes with each
    other, with the binary format and with the machine.

  \<^item> \<open>Fasm_Queue\<close> (\<open>queues.rs\<close>), with \<open>Fasm_Delivery\<close> for its histories; \<open>Fasm_Router\<close> (\<open>router.rs\<close>), with
    \<open>Fasm_Routing\<close> for its meaning as a list of predicates on requests; \<open>Fasm_Metrics\<close>
    (\<open>metrics.rs\<close> and the system calls of \<open>dispatcher.rs\<close>); \<open>Fasm_Dispatcher\<close> (\<open>sandbox.rs\<close>,
    \<open>clock.rs\<close>, \<open>dispatcher.rs\<close>): \<open>engine_step\<close> is one arrival or one end of a request, and
    \<open>Fasm_Pool\<close> proves what all its histories keep; \<open>Fasm_Http\<close> (\<open>http_handler.rs\<close>), with
    \<open>Fasm_Web\<close>; \<open>Fasm_Looper\<close> (\<open>queue_looper.rs\<close>, \<open>pubsub.rs\<close>): the looper is proved to be a user
    of its queue, so that \<open>Fasm_Delivery\<close> applies to it.

  \<^item> \<open>Fasm_Analyze\<close> (\<open>analyze.rs\<close>), \<open>Fasm_Jit\<close> (\<open>codegen.rs\<close>, \<open>lib.rs\<close> of \<open>fasm-jit\<close>): which functions are
    compiled and the calls the code generator makes to the builder of the Cranelift library, in
    order; the machine is a parameter.  \<open>Fasm_Native\<close> writes down what the documentation of the library says
    the integer instructions mean (\<open>ir_run\<close>) and the assumption that machine code does that
    (\<open>cranelift_ok\<close>).  \<open>Fasm_Agreement\<close> and \<open>Fasm_Simulation\<close> compare instructions with their code,
    \<open>Fasm_Fragment\<close> finds the blocks of a function in the code and simulates a round of the interpreter,
    \<open>Fasm_Tiers\<close> adds the analysis, the prologue and the call boundary and compares the answers.

  \<^item> \<open>Fasm_Chars\<close>, \<open>Fasm_Disk\<close>: characters and numbers of texts, paths and the file operations the crates use, on a
    disk that is a list of paths with their nodes.  \<open>Fasm_Cli\<close> (\<open>crates/fasm-cli/src/main.rs\<close>): the
    commands of \<open>fasm\<close>.  \<open>Fasm_Registry\<close> (\<open>admin/registry.rs\<close>) and \<open>Fasm_Admin\<close> (the handlers under
    \<open>admin/\<close>, the restoring of routes in \<open>engine.rs\<close>): one definition per operation and handler, with
    \<open>serve_admin\<close> for the endpoints; \<open>Fasm_Store\<close> defines the invariant \<open>kept\<close> (memory and disk agree) and
    \<open>Fasm_Restart\<close> follows it through histories of requests and a restart.  \<open>Fasm_Engine\<close> (\<open>config.rs\<close>,
    \<open>scheduler.rs\<close>, \<open>engine.rs\<close>): configuration, schedules and \<open>run_with_listener\<close>.

  \<^bold>\<open>What the properties show.\<close>  The format round-trips, is prefix-free and rejects truncated
  files.  Runs keep the machine invariant; without six named opcodes they cannot panic the host.
  Instructions, calls and TRY blocks touch only what they should.  Numbers, containers and slots
  behave as the mathematical objects they stand for, and where they do not the exact condition
  is proved (wrapping, panics, references across calls).  Code that only jumps forward ends.
  Compiled programs survive the file, run from \<open>Main\<close> without missing functions, and their jumps,
  calls and TRY blocks go where the source says; where the compiler resolves a name to something
  else or does not return, that is proved too.  Requests go to the first route that fits them and
  are answered without a panic while their programs are calm; permits bound what runs at a time.
  Queues deliver each message at least once and a bounded number of times; what the looper, the
  sandbox pool and the gauges do beyond what their comments say is proved as it is.  A function on
  32-bit integers and truth values gives the same number in the interpreter and compiled by the JIT;
  without the conditions of that theorem (\<open>int32_function\<close>) the two differ, and one way is proved.
  Compiling to a file and executing it is running the source.  A restart finds every application the
  management interface created, as long as requests name only what is inside the data directory; that
  names lead out of it, that restored routes lose their identifiers and routes on bytecode are
  dropped is proved as well.  A started engine is wired as its configuration says.

  \<^bold>\<open>Bounds and fuel.\<close>  \<open>run_rounds\<close> takes a bound on rounds; \<open>run_loop_is_bounded_run\<close> says that
  the unbounded loop returns exactly when some bound is enough, so the bound never decides an
  outcome.  \<open>forward_code_terminates\<close> gives a bound that is enough.
  The parser's recursion is bounded by twice the number of tokens plus two, which
  \<open>compile_source_errors\<close> shows to be enough.  Resolving a DEFINE is a partial function: it has no
  value on a chain that does not end, and \<open>emit_returns\<close> says that it has one otherwise.

  \<^bold>\<open>Choices.\<close>  Release profile: arithmetic wraps; what panics there (division overflow, indexing)
  panics in the model.  \<open>usize\<close> has 64 bits; memory exhaustion is not modelled.  The call stack and
  the TMP frames are lists with the top first.  A hash map is its list of pairs in an order that no
  operation observes.  \<open>sort_unstable\<close> is modelled by the stable sort (no property uses
  stability).  A NaN result is the positive quiet NaN.  READ drops a line that is not UTF-8;
  errors of the standard streams are not modelled.  Rust's tables of Unicode letters, digits and white
  space beyond ASCII are a parameter of the lexer.  Error messages are constructors.

  The engine's randomness and time (identifiers, instants, the iteration order of hash maps) are
  arguments; a lock that is poisoned by a panic is a state of its own.  A request runs as one step of
  its dispatcher, so the runs of different threads do not interleave; the effect of the metrics
  system calls is modelled beside the machine (\<open>metrics_inc\<close>, \<open>metrics_set\<close>, \<open>metrics_get\<close>), not inside a run.

  The file system has no links, is never full and permits everything, so a file operation fails only
  for what is at a path; a request of the management interface runs to its end before the next one.

  \<^bold>\<open>Not modelled.\<close>  What Cranelift does with the code it is given; seccomp, Landlock, plugin manifests and sidecar processes,
  which are system calls of the kernel and child processes; the parser of the configuration file, the
  socket, the HTTP framework and the command line of the engine's binary; the disassembler, which prints
  derived texts.  Of the libraries \<open>serde_json\<close>'s parser and the JSON of manifests, base64, gzip, the parser
  of identifiers and the derived \<open>Debug\<close> texts are arguments.
\<close>

end
